(* ===== verification/Prelude.thy ===== *)
theory Prelude
  imports Main "HOL-Library.Word" "HOL-Library.AList" "HOL-Library.Monad_Syntax"
begin

text \<open>
  Shared material of the development: the machine integer types of the C++ sources, byte
  buffers with little-endian fields (the packed wire structs are read and written through
  pointers on little-endian hosts), checked memory reads and copies, association lists for
  \<^verbatim>\<open>std::unordered_map\<close>, and the generic interface of a capacity-bounded table.
\<close>

unbundle bit_operations_syntax

section \<open>Types and collections\<close>

type_synonym u8 = "8 word"
type_synonym u16 = "16 word"
type_synonym u32 = "32 word"
type_synonym u64 = "64 word"
type_synonym bytes = "8 word list"

named_theorems inv_intros \<open>introduction rules for component invariants\<close>
named_theorems step_simps \<open>equations that unfold one operation of a component\<close>
named_theorems codec_simps \<open>round trips and lengths of the wire encodings\<close>

lemma unat_width:
  "unat (a :: u8) < 2 ^ 8" "unat (b :: u16) < 2 ^ 16" "unat (c :: u32) < 2 ^ 32" "unat (d :: u64) < 2 ^ 64"
  by (rule order_less_le_trans[OF unsigned_less], simp)+

section \<open>Little-endian fields\<close>

fun le_bytes :: "nat \<Rightarrow> 'a::len word \<Rightarrow> bytes" where
  "le_bytes 0 w = []"
| "le_bytes (Suc n) w = ucast w # le_bytes n (drop_bit 8 w)"

fun le_word :: "bytes \<Rightarrow> 'a::len word" where
  "le_word [] = 0"
| "le_word (b # bs) = ucast b OR push_bit 8 (le_word bs)"

lemma length_le_bytes [simp, codec_simps]: "length (le_bytes n w) = n"
  by (induction n arbitrary: w) auto

lemma le_bytes_numeral:
  "le_bytes (numeral k) w = ucast w # le_bytes (pred_numeral k) (drop_bit 8 w)"
  by (simp add: numeral_eq_Suc)

lemma bit_le_word:
  "bit (le_word bs :: 'a::len word) k \<longleftrightarrow>
     k < LENGTH('a) \<and> k div 8 < length bs \<and> bit (bs ! (k div 8)) (k mod 8)"
proof (induction bs arbitrary: k)
  case Nil
  then show ?case by simp
next
  case (Cons b bs)
  show ?case
  proof (cases "k < 8")
    case True
    then show ?thesis by (auto simp: bit_simps)
  next
    case False
    then obtain j where k: "k = 8 + j" using le_Suc_ex[of 8 k] by auto
    have "\<not> bit b k"
      using False by (auto dest: bit_imp_le_length)
    moreover have "(8 + j) div 8 = Suc (j div 8)" by simp
    ultimately show ?thesis using Cons.IH[of j] by (auto simp: bit_simps k)
  qed
qed

lemma bit_nth_le_bytes:
  "i < n \<Longrightarrow> bit (le_bytes n (w :: 'a::len word) ! i) k \<longleftrightarrow> k < 8 \<and> bit w (8 * i + k)"
proof (induction n arbitrary: w i)
  case 0
  then show ?case by simp
next
  case (Suc n)
  show ?case
  proof (cases i)
    case 0
    then show ?thesis by (auto simp: bit_simps dest: bit_imp_le_length)
  next
    case (Suc j)
    with Suc.prems Suc.IH[of j "drop_bit 8 w"] show ?thesis
      by (simp add: bit_simps add.assoc)
  qed
qed

lemma le_word_le_bytes_take_bit: "le_word (le_bytes n (w :: 'a::len word)) = take_bit (8 * n) w"
proof (rule bit_word_eqI)
  fix k assume "k < LENGTH('a)"
  then show "bit (le_word (le_bytes n w) :: 'a word) k = bit (take_bit (8 * n) w) k"
    by (auto simp: bit_le_word bit_nth_le_bytes bit_simps less_mult_imp_div_less mult.commute
        div_less_iff_less_mult)
qed

lemma le_word_le_bytes [simp, codec_simps]:
  "LENGTH('a) \<le> 8 * n \<Longrightarrow> le_word (le_bytes n (w :: 'a::len word)) = w"
  by (simp add: le_word_le_bytes_take_bit take_bit_word_eq_self)

lemma le_bytes_le_word:
  assumes "8 * length bs \<le> LENGTH('a)"
  shows "le_bytes (length bs) (le_word bs :: 'a::len word) = bs"
proof (rule nth_equalityI)
  fix i assume "i < length (le_bytes (length bs) (le_word bs :: 'a word))"
  then have i: "i < length bs" by simp
  show "le_bytes (length bs) (le_word bs :: 'a word) ! i = bs ! i"
  proof (rule bit_word_eqI)
    fix k assume "k < LENGTH(8)"
    then have k: "k < 8" by simp
    with i assms have "8 * i + k < LENGTH('a)" by simp
    moreover from k have "(8 * i + k) div 8 = i" "(8 * i + k) mod 8 = k" by auto
    ultimately show "bit (le_bytes (length bs) (le_word bs :: 'a word) ! i) k = bit (bs ! i) k"
      using i k by (simp add: bit_nth_le_bytes bit_le_word)
  qed
qed simp

section \<open>Checked memory access\<close>

text \<open>
  \<^verbatim>\<open>rd bs off n\<close> reads \<open>n\<close> bytes at offset \<open>off\<close> of a buffer; reading past its end is
  undefined behaviour in C++ and is the value \<open>None\<close> here.
\<close>

definition rd :: "bytes \<Rightarrow> nat \<Rightarrow> nat \<Rightarrow> bytes option" where
  "rd bs off n = (if off + n \<le> length bs then Some (take n (drop off bs)) else None)"

definition rdw :: "nat \<Rightarrow> bytes \<Rightarrow> nat \<Rightarrow> 'a::len word option" where
  "rdw n bs off = map_option le_word (rd bs off n)"

abbreviation rd8 :: "bytes \<Rightarrow> nat \<Rightarrow> u8 option" where "rd8 \<equiv> rdw 1"
abbreviation rd16 :: "bytes \<Rightarrow> nat \<Rightarrow> u16 option" where "rd16 \<equiv> rdw 2"
abbreviation rd32 :: "bytes \<Rightarrow> nat \<Rightarrow> u32 option" where "rd32 \<equiv> rdw 4"
abbreviation rd64 :: "bytes \<Rightarrow> nat \<Rightarrow> u64 option" where "rd64 \<equiv> rdw 8"

definition wr :: "nat \<Rightarrow> bytes \<Rightarrow> bytes \<Rightarrow> bytes" where
  "wr off new bs = take off bs @ new @ drop (off + length new) bs"

text \<open>\<^verbatim>\<open>memcpy(dst, src, n)\<close> on a destination array: \<open>None\<close> when either side is too short.\<close>

definition memcpy :: "bytes \<Rightarrow> bytes \<Rightarrow> nat \<Rightarrow> bytes option" where
  "memcpy dst src n =
     (if n \<le> length src \<and> n \<le> length dst then Some (take n src @ drop n dst) else None)"

lemma rd_Some_iff: "(\<exists>v. rd bs off n = Some v) \<longleftrightarrow> off + n \<le> length bs"
  by (simp add: rd_def)

lemma rd_enough [simp]: "off + n \<le> length bs \<Longrightarrow> rd bs off n = Some (take n (drop off bs))"
  by (simp add: rd_def)

lemma rd_short [simp]: "length bs < off + n \<Longrightarrow> rd bs off n = None"
  by (simp add: rd_def)

lemma rdw_enough [simp]:
  "off + n \<le> length bs \<Longrightarrow> rdw n bs off = Some (le_word (take n (drop off bs)))"
  by (simp add: rdw_def)

lemma rdw_short [simp]: "length bs < off + n \<Longrightarrow> rdw n bs off = None"
  by (simp add: rdw_def)

lemma rdw_skip [codec_simps]:
  "length xs \<le> off \<Longrightarrow> rdw n (xs @ bs) off = rdw n bs (off - length xs)"
  by (auto simp: rdw_def rd_def)

lemma rdw_hit [codec_simps]: "length xs = n \<Longrightarrow> rdw n (xs @ bs) 0 = Some (le_word xs)"
  by (simp add: rdw_def rd_def)

lemma rdw_hit_last [codec_simps]: "length xs = n \<Longrightarrow> rdw n xs 0 = Some (le_word xs)"
  by (simp add: rdw_def rd_def)

lemma rdw_Some_lengthD: "rdw n bs off = Some v \<Longrightarrow> off + n \<le> length bs"
  by (auto simp: rdw_def rd_def split: if_splits)

lemma length_wr [simp]: "off + length new \<le> length bs \<Longrightarrow> length (wr off new bs) = length bs"
  by (simp add: wr_def)

lemma rd_wr_same [simp]:
  "off + length new \<le> length bs \<Longrightarrow> rd (wr off new bs) off (length new) = Some new"
  by (simp add: wr_def rd_def)

lemma nth_wr:
  "off + length new \<le> length bs \<Longrightarrow> i < length bs \<Longrightarrow>
   wr off new bs ! i = (if off \<le> i \<and> i < off + length new then new ! (i - off) else bs ! i)"
  by (auto simp: wr_def nth_append)

lemma memcpy_length: "memcpy dst src n = Some d \<Longrightarrow> length d = length dst"
  by (auto simp: memcpy_def split: if_splits)

lemma memcpy_take: "memcpy dst src n = Some d \<Longrightarrow> take n d = take n src"
  by (auto simp: memcpy_def split: if_splits)

lemma memcpy_enough [simp]:
  "n \<le> length src \<Longrightarrow> n \<le> length dst \<Longrightarrow> memcpy dst src n = Some (take n src @ drop n dst)"
  by (simp add: memcpy_def)

lemma memcpy_short [simp]: "length src < n \<Longrightarrow> memcpy dst src n = None"
  by (simp add: memcpy_def)

section \<open>Unordered maps\<close>

text \<open>
  A \<^verbatim>\<open>std::unordered_map\<close> is an association list with distinct keys. \<^const>\<open>map_of\<close> is
  \<^verbatim>\<open>find\<close>, \<^const>\<open>AList.update\<close> the assignment through \<^verbatim>\<open>operator[]\<close> or an iterator,
  \<^const>\<open>AList.delete\<close> is \<^verbatim>\<open>erase\<close> and \<^const>\<open>length\<close> is \<^verbatim>\<open>size\<close>. The list order is one
  iteration order of the map; every lemma holds for all orders.
\<close>

abbreviation keys_ok :: "('k \<times> 'v) list \<Rightarrow> bool" where
  "keys_ok m \<equiv> distinct (map fst m)"

lemma length_AList_update:
  "length (AList.update k v m) = (if map_of m k = None then Suc (length m) else length m)"
  by (induction m) (auto split: if_splits)

lemma length_AList_delete_le: "length (AList.delete k m) \<le> length m"
  by (simp add: AList.delete_eq)

lemma length_AList_update_Some [simp]:
  "map_of m k = Some w \<Longrightarrow> length (AList.update k v m) = length m"
  by (simp add: length_AList_update)

lemma map_of_AList_update [simp]: "map_of (AList.update k v m) k' = (if k' = k then Some v else map_of m k')"
  by (simp add: update_conv')

lemma map_of_AList_delete [simp]: "map_of (AList.delete k m) k' = (if k' = k then None else map_of m k')"
  by (simp add: delete_conv')

lemma keys_ok_update [simp, inv_intros]: "keys_ok m \<Longrightarrow> keys_ok (AList.update k v m)"
  by (rule distinct_update)

lemma keys_ok_delete [simp, inv_intros]: "keys_ok m \<Longrightarrow> keys_ok (AList.delete k m)"
  by (rule distinct_delete)

section \<open>Outbound messages\<close>

text \<open>
  The struct \<^verbatim>\<open>OutMessage\<close> that the three primitives' headers declare alike: the destination
  node (255 means broadcast) and the serialised message.
\<close>

record OutMessage =
  dest_id :: u8
  out_data :: bytes

definition kBroadcast :: u8 where [simp]: "kBroadcast = 255"

section \<open>Interface of a capacity-bounded table\<close>

text \<open>
  The three coordination primitives keep their per-instance, per-key and per-barrier state in
  a table whose size is bounded by the memory of the tier they run on. They reach an entry
  through a get-or-create operation that refuses to create an entry when the table is full.
  The locale states that contract once; each primitive interprets it on its own table.
\<close>

locale bounded_table =
  fixes find :: "'k \<Rightarrow> 's \<Rightarrow> 'v option"
    and count :: "'s \<Rightarrow> nat"
    and capacity :: "'s \<Rightarrow> nat"
    and get_or_create :: "'k \<Rightarrow> 's \<Rightarrow> 's \<times> 'v option"
    and fresh :: "'v"
  assumes hit: "find k s = Some v \<Longrightarrow> get_or_create k s = (s, Some v)"
    and miss_full: "find k s = None \<Longrightarrow> capacity s \<le> count s \<Longrightarrow>
          snd (get_or_create k s) = None \<and> (\<forall>k'. find k' (fst (get_or_create k s)) = find k' s) \<and>
          count (fst (get_or_create k s)) = count s"
    and miss_room: "find k s = None \<Longrightarrow> count s < capacity s \<Longrightarrow>
          snd (get_or_create k s) = Some fresh \<and>
          find k' (fst (get_or_create k s)) = (if k' = k then Some fresh else find k' s) \<and>
          count (fst (get_or_create k s)) = Suc (count s)"
    and capacity_const: "capacity (fst (get_or_create k s)) = capacity s"
begin

lemma overflow_iff:
  "snd (get_or_create k s) = None \<longleftrightarrow> find k s = None \<and> capacity s \<le> count s"
  using hit[of k s] miss_full[of k s] miss_room[of k s]
  by (cases "find k s"; cases "count s < capacity s") auto

lemma bounded_preserved:
  "count s \<le> capacity s \<Longrightarrow> count (fst (get_or_create k s)) \<le> capacity (fst (get_or_create k s))"
  using hit[of k s] miss_full[of k s] miss_room[of k s] capacity_const[of k s]
  by (cases "find k s"; cases "count s < capacity s") auto

lemma found_after:
  "snd (get_or_create k s) = Some v \<Longrightarrow> find k (fst (get_or_create k s)) = Some v"
  using hit[of k s] miss_full[of k s] miss_room[of k s k]
  by (cases "find k s"; cases "count s < capacity s") auto

lemma other_untouched: "k' \<noteq> k \<Longrightarrow> find k' (fst (get_or_create k s)) = find k' s"
  using hit[of k s] miss_full[of k s] miss_room[of k s k']
  by (cases "find k s"; cases "count s < capacity s") auto

lemma tracked_kept: "find k' s = Some v \<Longrightarrow> find k' (fst (get_or_create k s)) = Some v"
  using other_untouched[of k' k s] hit[of k s v] by (cases "k' = k") auto

end

end
