(* ===== verification/Paxos_Proto.thy ===== *)
theory Paxos_Proto
  imports Prelude
begin

text \<open>
  The Paxos wire protocol (\<^verbatim>\<open>lib/hcop/paxos_proto.h\<close>): proposal numbers with the comparison
  operators of the struct, the packed message structs, and their byte encodings. A decoded
  message holds the part of its value array that lies inside the received buffer, so that a
  later copy past the end of the buffer is visible.
\<close>

section \<open>Proposal numbers\<close>

datatype ProposalNum = ProposalNum (pn_round: u32) (pn_node_id: u16) (pn_pad: u16)

definition pn_less :: "ProposalNum \<Rightarrow> ProposalNum \<Rightarrow> bool" where
  "pn_less a b \<longleftrightarrow> pn_round a < pn_round b \<or> (pn_round a = pn_round b \<and> pn_node_id a < pn_node_id b)"

definition pn_less_eq :: "ProposalNum \<Rightarrow> ProposalNum \<Rightarrow> bool" where
  "pn_less_eq a b \<longleftrightarrow> \<not> pn_less b a"

definition pn_eq :: "ProposalNum \<Rightarrow> ProposalNum \<Rightarrow> bool" where
  "pn_eq a b \<longleftrightarrow> pn_round a = pn_round b \<and> pn_node_id a = pn_node_id b"

definition IsNull :: "ProposalNum \<Rightarrow> bool" where
  "IsNull a \<longleftrightarrow> pn_round a = 0 \<and> pn_node_id a = 0"

abbreviation pn_null :: ProposalNum where
  "pn_null \<equiv> ProposalNum 0 0 0"

text \<open>
  The comparison operators ignore the padding field, so they form a total preorder whose
  equivalence is the struct's \<^verbatim>\<open>operator==\<close>.
\<close>

instantiation ProposalNum :: preorder
begin

definition less_ProposalNum_def: "(a :: ProposalNum) < b \<longleftrightarrow> pn_less a b"
definition less_eq_ProposalNum_def: "(a :: ProposalNum) \<le> b \<longleftrightarrow> pn_less_eq a b"

instance
  by standard (auto simp: less_ProposalNum_def less_eq_ProposalNum_def pn_less_def pn_less_eq_def)

end

lemmas pn_order_defs = less_ProposalNum_def less_eq_ProposalNum_def pn_less_def pn_less_eq_def

lemma pn_linear: "(a :: ProposalNum) \<le> b \<or> b \<le> a"
  by (auto simp: pn_order_defs)

lemma pn_not_le: "\<not> (a :: ProposalNum) \<le> b \<longleftrightarrow> b < a"
  by (auto simp: pn_order_defs)

lemma pn_not_less: "\<not> (a :: ProposalNum) < b \<longleftrightarrow> b \<le> a"
  by (auto simp: pn_order_defs)

lemma pn_eq_iff: "pn_eq a b \<longleftrightarrow> a \<le> b \<and> b \<le> a"
  by (auto simp: pn_eq_def pn_order_defs)

lemma pn_null_least [simp]: "pn_null \<le> a"
  by (simp add: pn_order_defs)

lemma IsNull_iff: "IsNull a \<longleftrightarrow> a \<le> pn_null"
  by (auto simp: IsNull_def pn_order_defs word_gt_0)

lemma pn_eq_refl [simp]: "pn_eq a a"
  by (simp add: pn_eq_def)

section \<open>Message types and structs\<close>

definition kMaxValueSize :: nat where [simp]: "kMaxValueSize = 128"

definition kPrepare :: u8 where [simp]: "kPrepare = 1"
definition kPromise :: u8 where [simp]: "kPromise = 2"
definition kAccept :: u8 where [simp]: "kAccept = 3"
definition kAccepted :: u8 where [simp]: "kAccepted = 4"
definition kLearn :: u8 where [simp]: "kLearn = 5"
definition kNack :: u8 where [simp]: "kNack = 6"

record PaxosMsgHeader =
  px_msg_type :: u8
  px_sender_id :: u8
  px_num_replicas :: u16
  px_instance_id :: u32

record PrepareMsg =
  prep_hdr :: PaxosMsgHeader
  prep_proposal :: ProposalNum

record PromiseMsg =
  prom_hdr :: PaxosMsgHeader
  prom_promised :: ProposalNum
  prom_accepted_proposal :: ProposalNum
  prom_accepted_value_len :: u16
  prom_accepted_value :: bytes

record AcceptMsg =
  acc_hdr :: PaxosMsgHeader
  acc_proposal :: ProposalNum
  acc_value_len :: u16
  acc_value :: bytes

record AcceptedMsg =
  accd_hdr :: PaxosMsgHeader
  accd_proposal :: ProposalNum
  accd_value_len :: u16
  accd_value :: bytes

record LearnMsg =
  learn_hdr :: PaxosMsgHeader
  learn_value_len :: u16
  learn_value :: bytes

record NackMsg =
  nack_hdr :: PaxosMsgHeader
  nack_highest_seen :: ProposalNum

definition sizeof_PaxosMsgHeader :: nat where [simp]: "sizeof_PaxosMsgHeader = 8"
definition sizeof_PrepareMsg :: nat where [simp]: "sizeof_PrepareMsg = 16"
definition sizeof_PromiseMsg :: nat where [simp]: "sizeof_PromiseMsg = 26 + kMaxValueSize"
definition sizeof_AcceptMsg :: nat where [simp]: "sizeof_AcceptMsg = 18 + kMaxValueSize"
definition sizeof_AcceptedMsg :: nat where [simp]: "sizeof_AcceptedMsg = 18 + kMaxValueSize"
definition sizeof_LearnMsg :: nat where [simp]: "sizeof_LearnMsg = 10 + kMaxValueSize"
definition sizeof_NackMsg :: nat where [simp]: "sizeof_NackMsg = 16"

section \<open>Encodings\<close>

definition enc_pn :: "ProposalNum \<Rightarrow> bytes" where
  "enc_pn p = le_bytes 4 (pn_round p) @ le_bytes 2 (pn_node_id p) @ le_bytes 2 (pn_pad p)"

definition dec_pn :: "bytes \<Rightarrow> nat \<Rightarrow> ProposalNum option" where
  "dec_pn bs off = do {
     r \<leftarrow> rd32 bs off;
     n \<leftarrow> rd16 bs (off + 4);
     p \<leftarrow> rd16 bs (off + 6);
     Some (ProposalNum r n p) }"

definition enc_px_hdr :: "PaxosMsgHeader \<Rightarrow> bytes" where
  "enc_px_hdr h = le_bytes 1 (px_msg_type h) @ le_bytes 1 (px_sender_id h) @
     le_bytes 2 (px_num_replicas h) @ le_bytes 4 (px_instance_id h)"

definition dec_px_hdr :: "bytes \<Rightarrow> PaxosMsgHeader option" where
  "dec_px_hdr bs = do {
     t \<leftarrow> rd8 bs 0;
     s \<leftarrow> rd8 bs 1;
     n \<leftarrow> rd16 bs 2;
     i \<leftarrow> rd32 bs 4;
     Some \<lparr> px_msg_type = t, px_sender_id = s, px_num_replicas = n, px_instance_id = i \<rparr> }"

definition enc_PrepareMsg :: "PrepareMsg \<Rightarrow> bytes" where
  "enc_PrepareMsg m = enc_px_hdr (prep_hdr m) @ enc_pn (prep_proposal m)"

definition dec_PrepareMsg :: "bytes \<Rightarrow> PrepareMsg option" where
  "dec_PrepareMsg bs = do {
     h \<leftarrow> dec_px_hdr bs;
     p \<leftarrow> dec_pn bs 8;
     Some \<lparr> prep_hdr = h, prep_proposal = p \<rparr> }"

definition enc_PromiseMsg :: "PromiseMsg \<Rightarrow> bytes" where
  "enc_PromiseMsg m = enc_px_hdr (prom_hdr m) @ enc_pn (prom_promised m) @
     enc_pn (prom_accepted_proposal m) @ le_bytes 2 (prom_accepted_value_len m) @ prom_accepted_value m"

definition dec_PromiseMsg :: "bytes \<Rightarrow> PromiseMsg option" where
  "dec_PromiseMsg bs = do {
     h \<leftarrow> dec_px_hdr bs;
     p \<leftarrow> dec_pn bs 8;
     a \<leftarrow> dec_pn bs 16;
     l \<leftarrow> rd16 bs 24;
     Some \<lparr> prom_hdr = h, prom_promised = p, prom_accepted_proposal = a,
            prom_accepted_value_len = l, prom_accepted_value = take kMaxValueSize (drop 26 bs) \<rparr> }"

definition enc_AcceptMsg :: "AcceptMsg \<Rightarrow> bytes" where
  "enc_AcceptMsg m = enc_px_hdr (acc_hdr m) @ enc_pn (acc_proposal m) @
     le_bytes 2 (acc_value_len m) @ acc_value m"

definition dec_AcceptMsg :: "bytes \<Rightarrow> AcceptMsg option" where
  "dec_AcceptMsg bs = do {
     h \<leftarrow> dec_px_hdr bs;
     p \<leftarrow> dec_pn bs 8;
     l \<leftarrow> rd16 bs 16;
     Some \<lparr> acc_hdr = h, acc_proposal = p, acc_value_len = l,
            acc_value = take kMaxValueSize (drop 18 bs) \<rparr> }"

definition enc_AcceptedMsg :: "AcceptedMsg \<Rightarrow> bytes" where
  "enc_AcceptedMsg m = enc_px_hdr (accd_hdr m) @ enc_pn (accd_proposal m) @
     le_bytes 2 (accd_value_len m) @ accd_value m"

definition dec_AcceptedMsg :: "bytes \<Rightarrow> AcceptedMsg option" where
  "dec_AcceptedMsg bs = do {
     h \<leftarrow> dec_px_hdr bs;
     p \<leftarrow> dec_pn bs 8;
     l \<leftarrow> rd16 bs 16;
     Some \<lparr> accd_hdr = h, accd_proposal = p, accd_value_len = l,
            accd_value = take kMaxValueSize (drop 18 bs) \<rparr> }"

definition enc_LearnMsg :: "LearnMsg \<Rightarrow> bytes" where
  "enc_LearnMsg m = enc_px_hdr (learn_hdr m) @ le_bytes 2 (learn_value_len m) @ learn_value m"

definition dec_LearnMsg :: "bytes \<Rightarrow> LearnMsg option" where
  "dec_LearnMsg bs = do {
     h \<leftarrow> dec_px_hdr bs;
     l \<leftarrow> rd16 bs 8;
     Some \<lparr> learn_hdr = h, learn_value_len = l, learn_value = take kMaxValueSize (drop 10 bs) \<rparr> }"

definition enc_NackMsg :: "NackMsg \<Rightarrow> bytes" where
  "enc_NackMsg m = enc_px_hdr (nack_hdr m) @ enc_pn (nack_highest_seen m)"

definition dec_NackMsg :: "bytes \<Rightarrow> NackMsg option" where
  "dec_NackMsg bs = do {
     h \<leftarrow> dec_px_hdr bs;
     p \<leftarrow> dec_pn bs 8;
     Some \<lparr> nack_hdr = h, nack_highest_seen = p \<rparr> }"

section \<open>Lengths, totality and round trips of the encodings\<close>

lemma length_enc_pn [simp, codec_simps]: "length (enc_pn p) = 8"
  by (simp add: enc_pn_def)

lemma length_enc_px_hdr [simp, codec_simps]: "length (enc_px_hdr h) = 8"
  by (simp add: enc_px_hdr_def)

lemma dec_pn_skip [codec_simps]:
  "length xs \<le> off \<Longrightarrow> dec_pn (xs @ bs) off = dec_pn bs (off - length xs)"
  by (simp add: dec_pn_def rdw_skip)

lemma dec_enc_pn [codec_simps]: "dec_pn (enc_pn p @ bs) 0 = Some p"
  by (cases p) (simp add: dec_pn_def enc_pn_def codec_simps)

lemma dec_enc_pn_last [codec_simps]: "dec_pn (enc_pn p) 0 = Some p"
  using dec_enc_pn[of p "[]"] by simp

lemma dec_enc_px_hdr [codec_simps]: "dec_px_hdr (enc_px_hdr h @ bs) = Some h"
  by (simp add: dec_px_hdr_def enc_px_hdr_def codec_simps)

lemma dec_pn_enough: "off + 8 \<le> length bs \<Longrightarrow> \<exists>p. dec_pn bs off = Some p"
  by (simp add: dec_pn_def)

lemma dec_px_hdr_enough: "8 \<le> length bs \<Longrightarrow> \<exists>h. dec_px_hdr bs = Some h"
  by (simp add: dec_px_hdr_def)

lemma dec_enc_PrepareMsg [codec_simps]: "dec_PrepareMsg (enc_PrepareMsg m) = Some m"
  by (simp add: dec_PrepareMsg_def enc_PrepareMsg_def codec_simps)

lemma dec_enc_PromiseMsg [codec_simps]:
  "length (prom_accepted_value m) = kMaxValueSize \<Longrightarrow> dec_PromiseMsg (enc_PromiseMsg m) = Some m"
  by (simp add: dec_PromiseMsg_def enc_PromiseMsg_def codec_simps)

lemma dec_enc_AcceptMsg [codec_simps]:
  "length (acc_value m) = kMaxValueSize \<Longrightarrow> dec_AcceptMsg (enc_AcceptMsg m) = Some m"
  by (simp add: dec_AcceptMsg_def enc_AcceptMsg_def codec_simps)

lemma dec_enc_AcceptedMsg [codec_simps]:
  "length (accd_value m) = kMaxValueSize \<Longrightarrow> dec_AcceptedMsg (enc_AcceptedMsg m) = Some m"
  by (simp add: dec_AcceptedMsg_def enc_AcceptedMsg_def codec_simps)

lemma dec_enc_LearnMsg [codec_simps]:
  "length (learn_value m) = kMaxValueSize \<Longrightarrow> dec_LearnMsg (enc_LearnMsg m) = Some m"
  by (simp add: dec_LearnMsg_def enc_LearnMsg_def codec_simps)

lemma dec_enc_NackMsg [codec_simps]: "dec_NackMsg (enc_NackMsg m) = Some m"
  by (simp add: dec_NackMsg_def enc_NackMsg_def codec_simps)

end
