(* ===== verification/Hcop_Proto.thy ===== *)
theory Hcop_Proto
  imports Prelude
begin

text \<open>
  The HCOP packet header (\<^verbatim>\<open>lib/hcop/hcop_proto.h\<close>): the identifiers of primitives,
  exceptions and tiers, the packed 16-byte header that follows the Ethernet header, its
  in-place update in a frame, and the tier path that every node appends to. The decoding of
  that path for the telemetry log is \<^verbatim>\<open>DecodeTierPath\<close> of \<^verbatim>\<open>lib/hcop/hcop_telemetry.h\<close>.
\<close>

section \<open>Identifiers\<close>

definition kPrimitivePaxos :: u16 where [simp]: "kPrimitivePaxos = 1"
definition kPrimitiveLock :: u16 where [simp]: "kPrimitiveLock = 2"
definition kPrimitiveBarrier :: u16 where [simp]: "kPrimitiveBarrier = 3"

definition kPaxosNoException :: u16 where [simp]: "kPaxosNoException = 0"
definition kPaxosLeaderElection :: u16 where [simp]: "kPaxosLeaderElection = 1"
definition kPaxosStateOverflow :: u16 where [simp]: "kPaxosStateOverflow = 2"
definition kPaxosConflict :: u16 where [simp]: "kPaxosConflict = 3"

definition kLockNoException :: u16 where [simp]: "kLockNoException = 0"
definition kLockContention :: u16 where [simp]: "kLockContention = 1"
definition kLockStateOverflow :: u16 where [simp]: "kLockStateOverflow = 2"
definition kLockTimeoutCheck :: u16 where [simp]: "kLockTimeoutCheck = 3"

definition kBarrierNoException :: u16 where [simp]: "kBarrierNoException = 0"
definition kBarrierGenerationOverflow :: u16 where [simp]: "kBarrierGenerationOverflow = 1"
definition kBarrierLateArrival :: u16 where [simp]: "kBarrierLateArrival = 2"

definition kDpuCoreExhausted :: u16 where [simp]: "kDpuCoreExhausted = 0x100"

definition kTierSwitch :: u8 where [simp]: "kTierSwitch = 0"
definition kTierDpu :: u8 where [simp]: "kTierDpu = 1"
definition kTierHost :: u8 where [simp]: "kTierHost = 2"

definition kHcopEtherType :: u16 where [simp]: "kHcopEtherType = 0x88B5"

section \<open>Header layout\<close>

record HcopHeader =
  primitive_type :: u16
  exception_type :: u16
  operation_id :: u32
  source_tier :: u8
  num_tier_crossings :: u8
  tier_path :: u32
  payload_len :: u16

definition sizeof_HcopHeader :: nat where [simp]: "sizeof_HcopHeader = 16"
definition kMinHcopFrameLen :: nat where [simp]: "kMinHcopFrameLen = 14 + sizeof_HcopHeader"

definition encode_HcopHeader :: "HcopHeader \<Rightarrow> bytes" where
  "encode_HcopHeader h =
     le_bytes 2 (primitive_type h) @ le_bytes 2 (exception_type h) @ le_bytes 4 (operation_id h) @
     le_bytes 1 (source_tier h) @ le_bytes 1 (num_tier_crossings h) @ le_bytes 4 (tier_path h) @
     le_bytes 2 (payload_len h)"

definition decode_HcopHeader :: "bytes \<Rightarrow> nat \<Rightarrow> HcopHeader option" where
  "decode_HcopHeader bs off = do {
     pt \<leftarrow> rd16 bs off;
     et \<leftarrow> rd16 bs (off + 2);
     op \<leftarrow> rd32 bs (off + 4);
     st \<leftarrow> rd8 bs (off + 8);
     nc \<leftarrow> rd8 bs (off + 9);
     tp \<leftarrow> rd32 bs (off + 10);
     pl \<leftarrow> rd16 bs (off + 14);
     Some \<lparr> primitive_type = pt, exception_type = et, operation_id = op, source_tier = st,
            num_tier_crossings = nc, tier_path = tp, payload_len = pl \<rparr> }"

text \<open>A store through the header pointer at offset 14 of a frame.\<close>

definition with_HcopHeader :: "(HcopHeader \<Rightarrow> HcopHeader) \<Rightarrow> bytes \<Rightarrow> bytes option" where
  "with_HcopHeader f pkt = do {
     h \<leftarrow> decode_HcopHeader pkt 14;
     Some (wr 14 (encode_HcopHeader (f h)) pkt) }"

definition HCOP_APPEND_PATH :: "u8 \<Rightarrow> HcopHeader \<Rightarrow> HcopHeader" where
  "HCOP_APPEND_PATH tier h = h\<lparr>
     tier_path := push_bit 4 (tier_path h) OR (ucast tier AND 0x0F),
     num_tier_crossings := num_tier_crossings h + 1 \<rparr>"

section \<open>Decoding the tier path\<close>

text \<open>
  The loop runs from \<open>crossings - 1\<close> down to 0. A shift by 32 bits or more of a 32-bit
  operand is undefined in C++ and is \<open>None\<close> here.
\<close>

definition tier_letter :: "u32 \<Rightarrow> string" where
  "tier_letter nibble =
     (if nibble = 0 then ''S'' else if nibble = 1 then ''D'' else if nibble = 2 then ''H'' else ''?'')"

fun decode_path_loop :: "u32 \<Rightarrow> nat \<Rightarrow> string option" where
  "decode_path_loop path 0 = Some ''''"
| "decode_path_loop path (Suc i) =
     (if 32 \<le> i * 4 then None
      else map_option (\<lambda>rest. tier_letter (drop_bit (i * 4) path AND 0x0F) @
                              (if 0 < i then ''->'' else '''') @ rest)
             (decode_path_loop path i))"

definition DecodeTierPath :: "u32 \<Rightarrow> u8 \<Rightarrow> string option" where
  "DecodeTierPath path crossings =
     (if crossings = 0 then Some ''Unknown'' else decode_path_loop path (unat crossings))"

section \<open>Round trip of the header\<close>

lemma length_encode_HcopHeader [simp, codec_simps]: "length (encode_HcopHeader h) = 16"
  by (simp add: encode_HcopHeader_def)

lemma decode_HcopHeader_Some_iff:
  "(\<exists>h. decode_HcopHeader bs off = Some h) \<longleftrightarrow> off + 16 \<le> length bs"
proof
  assume "\<exists>h. decode_HcopHeader bs off = Some h"
  then show "off + 16 \<le> length bs"
    by (auto simp: decode_HcopHeader_def bind_eq_Some_conv dest: rdw_Some_lengthD)
next
  assume "off + 16 \<le> length bs"
  then show "\<exists>h. decode_HcopHeader bs off = Some h"
    by (simp add: decode_HcopHeader_def)
qed

lemma decode_encode_HcopHeader [codec_simps]:
  "length pre = off \<Longrightarrow> decode_HcopHeader (pre @ encode_HcopHeader h @ post) off = Some h"
  by (auto simp: decode_HcopHeader_def encode_HcopHeader_def codec_simps)

lemma with_HcopHeader_Some_iff: "(\<exists>p. with_HcopHeader f pkt = Some p) \<longleftrightarrow> 30 \<le> length pkt"
  using decode_HcopHeader_Some_iff[of pkt 14] by (auto simp: with_HcopHeader_def bind_eq_Some_conv)

lemma with_HcopHeader_length: "with_HcopHeader f pkt = Some p \<Longrightarrow> length p = length pkt"
  using decode_HcopHeader_Some_iff[of pkt 14] by (auto simp: with_HcopHeader_def bind_eq_Some_conv)

lemma decode_wr_HcopHeader [codec_simps]:
  "30 \<le> length pkt \<Longrightarrow> decode_HcopHeader (wr 14 (encode_HcopHeader h) pkt) 14 = Some h"
  by (simp add: wr_def decode_encode_HcopHeader)

lemma with_HcopHeader_decode:
  assumes "with_HcopHeader f pkt = Some p"
  obtains h where "decode_HcopHeader pkt 14 = Some h" "decode_HcopHeader p 14 = Some (f h)"
    "\<forall>i. i < length pkt \<and> (i < 14 \<or> 30 \<le> i) \<longrightarrow> p ! i = pkt ! i"
proof -
  from assms obtain h where h: "decode_HcopHeader pkt 14 = Some h"
    and p: "p = wr 14 (encode_HcopHeader (f h)) pkt"
    by (auto simp: with_HcopHeader_def bind_eq_Some_conv)
  from h have len: "30 \<le> length pkt" using decode_HcopHeader_Some_iff[of pkt 14] by auto
  show ?thesis
    by (rule that[OF h]) (use len in \<open>auto simp: p codec_simps nth_wr\<close>)
qed

section \<open>The recorded tier path is the one decoded\<close>

fun path_string :: "u8 list \<Rightarrow> string" where
  "path_string [] = ''''"
| "path_string [t] = tier_letter (ucast t AND 0x0F)"
| "path_string (t # u # ts) = tier_letter (ucast t AND 0x0F) @ ''->'' @ path_string (u # ts)"

abbreviation append_tier :: "u32 \<Rightarrow> u8 \<Rightarrow> u32" where
  "append_tier p t \<equiv> push_bit 4 p OR (ucast t AND 0x0F)"

lemma and_15: "(w :: 'a::len word) AND 0x0F = take_bit 4 w"
proof -
  have "(0x0F :: 'a word) = mask 4" by (simp add: mask_eq_exp_minus_1)
  then show ?thesis by (simp only: take_bit_eq_mask)
qed

lemma nibble_append_0: "append_tier p t AND 0x0F = ucast t AND 0x0F"
  unfolding and_15 by (rule bit_word_eqI) (auto simp: bit_simps)

lemma nibble_append_Suc:
  "j < 7 \<Longrightarrow> drop_bit (Suc j * 4) (append_tier p t) AND 0x0F = drop_bit (j * 4) p AND 0x0F"
  unfolding and_15 by (rule bit_word_eqI) (auto simp: bit_simps ac_simps)

lemma nibble_path:
  "i < length ts \<Longrightarrow> i < 8 \<Longrightarrow>
   drop_bit (i * 4) (foldl append_tier p ts) AND 0x0F = ucast (ts ! (length ts - 1 - i)) AND 0x0F"
proof (induction ts arbitrary: i rule: rev_induct)
  case Nil
  then show ?case by simp
next
  case (snoc t ts)
  show ?case
  proof (cases i)
    case 0
    then show ?thesis using nibble_append_0[of "foldl append_tier p ts" t] by (simp add: nth_append)
  next
    case (Suc j)
    with snoc.prems have j: "j < 7" "j < length ts" by auto
    have "drop_bit (i * 4) (foldl append_tier p (ts @ [t])) AND 0x0F
        = drop_bit (j * 4) (foldl append_tier p ts) AND 0x0F"
      unfolding Suc foldl_append foldl.simps by (rule nibble_append_Suc[OF j(1)])
    also have "\<dots> = ucast (ts ! (length ts - 1 - j)) AND 0x0F"
      using j by (intro snoc.IH) auto
    also have "ts ! (length ts - 1 - j) = (ts @ [t]) ! (length (ts @ [t]) - 1 - i)"
    proof -
      have "length ts - 1 - j < length ts" "length (ts @ [t]) - 1 - i = length ts - 1 - j"
        using j Suc by auto
      then show ?thesis by (simp only: nth_append if_True)
    qed
    finally show ?thesis .

  qed
qed

lemma path_string_Cons:
  "path_string (t # ts) = tier_letter (ucast t AND 0x0F) @ (if ts = [] then '''' else ''->'') @ path_string ts"
  by (cases ts) auto

lemma decode_path_loop_foldl:
  "n \<le> length ts \<Longrightarrow> n \<le> 8 \<Longrightarrow>
   decode_path_loop (foldl append_tier p ts) n = Some (path_string (drop (length ts - n) ts))"
proof (induction n)
  case 0
  then show ?case by simp
next
  case (Suc n)
  have "drop (length ts - Suc n) ts = ts ! (length ts - 1 - n) # drop (length ts - n) ts"
    using Suc.prems Cons_nth_drop_Suc[of "length ts - Suc n" ts] by (simp add: Suc_diff_Suc)
  moreover have "drop (length ts - n) ts = [] \<longleftrightarrow> n = 0" using Suc.prems by auto
  moreover have "decode_path_loop (foldl append_tier p ts) n = Some (path_string (drop (length ts - n) ts))"
    using Suc by simp
  moreover have "drop_bit (n * 4) (foldl append_tier p ts) AND 0x0F
      = ucast (ts ! (length ts - 1 - n)) AND 0x0F"
    using Suc.prems by (intro nibble_path) auto
  ultimately show ?case using Suc.prems by (simp add: path_string_Cons)
qed

lemma decode_path_loop_None_iff: "decode_path_loop p n = None \<longleftrightarrow> 8 < n"
  by (induction n) auto

lemma fold_APPEND_PATH:
  "tier_path (fold HCOP_APPEND_PATH ts h) = foldl append_tier (tier_path h) ts"
  "num_tier_crossings (fold HCOP_APPEND_PATH ts h) = num_tier_crossings h + of_nat (length ts)"
  by (induction ts arbitrary: h) (auto simp: HCOP_APPEND_PATH_def)

text \<open>
  A packet whose header starts with no recorded crossing and then crosses at most eight
  tiers (each node applies \<^verbatim>\<open>HCOP_APPEND_PATH\<close>) carries exactly that route: decoding the path
  field with the crossing counter prints the tiers in the order they were crossed.
\<close>

theorem tier_path_roundtrip:
  assumes "tier_path h = 0" "num_tier_crossings h = 0" "ts \<noteq> []" "length ts \<le> 8"
  shows "DecodeTierPath (tier_path (fold HCOP_APPEND_PATH ts h))
           (num_tier_crossings (fold HCOP_APPEND_PATH ts h)) = Some (path_string ts)"
proof -
  have u: "unat (of_nat (length ts) :: u8) = length ts"
    using assms(4) by (simp add: unat_of_nat)
  then have "(of_nat (length ts) :: u8) \<noteq> 0"
    using assms(3) by (metis length_0_conv unat_0)
  with u show ?thesis
    using assms decode_path_loop_foldl[of "length ts" ts 0]
    by (simp add: fold_APPEND_PATH DecodeTierPath_def)
qed

theorem tier_path_roundtrip_witness:
  "DecodeTierPath (tier_path (fold HCOP_APPEND_PATH [0, 1, 0]
      \<lparr> primitive_type = 1, exception_type = 0, operation_id = 7, source_tier = 2,
        num_tier_crossings = 0, tier_path = 0, payload_len = 0 \<rparr>)) 3 = Some ''S->D->S''"
  using tier_path_roundtrip[of
      "\<lparr> primitive_type = 1, exception_type = 0, operation_id = 7, source_tier = 2,
        num_tier_crossings = 0, tier_path = 0, payload_len = 0 \<rparr>" "[0, 1, 0]"]
  by (simp add: HCOP_APPEND_PATH_def tier_letter_def)

text \<open>
  The decoder is defined exactly up to eight crossings: a counter above eight makes it
  shift a 32-bit word by 32 bits or more.
\<close>

theorem DecodeTierPath_defined_iff:
  "DecodeTierPath path crossings = None \<longleftrightarrow> 8 < unat crossings"
  by (auto simp: DecodeTierPath_def decode_path_loop_None_iff)

end
