(* ===== verification/Paxos_State.thy ===== *)
theory Paxos_State
  imports Paxos_Proto Hcop_Proto
begin

text \<open>
  The Paxos replica \<^verbatim>\<open>PaxosNode\<close> (\<^verbatim>\<open>lib/hcop/paxos_state.h\<close>, \<^verbatim>\<open>paxos_state.cc\<close>): acceptor and
  proposer state per instance, the proposer API, the six message handlers, the dispatcher and
  the message builders. An operation returns its status, the messages it pushed and the new
  node; \<open>None\<close> is a read or copy outside a buffer, which the C++ leaves undefined. The optional
  exception callback is the log of its invocations.
\<close>

section \<open>State\<close>

datatype PaxosStatus =
    Px_kOk
  | Px_kInstanceOverflow
  | Px_kAlreadyCommitted
  | Px_kValueTooLarge
  | Px_kInvalidMessage

record InstanceState =
  highest_promised :: ProposalNum
  accepted_proposal :: ProposalNum
  accepted_value_len :: u16
  accepted_value :: bytes
  is_committed :: bool
  committed_value_len :: u16
  committed_value :: bytes

abbreviation zero_value :: bytes where
  "zero_value \<equiv> replicate kMaxValueSize 0"

definition InstanceState_init :: InstanceState where
  "InstanceState_init = \<lparr> highest_promised = pn_null, accepted_proposal = pn_null,
     accepted_value_len = 0, accepted_value = zero_value, is_committed = False,
     committed_value_len = 0, committed_value = zero_value \<rparr>"

record ProposerInstanceState =
  ps_proposal :: ProposalNum
  ps_value_len :: u16
  ps_value :: bytes
  promise_count :: u16
  highest_accepted_in_promises :: ProposalNum
  highest_accepted_value_len :: u16
  highest_accepted_value :: bytes
  accepted_count :: u16
  ps_committed :: bool

definition ProposerInstanceState_init :: ProposerInstanceState where
  "ProposerInstanceState_init = \<lparr> ps_proposal = pn_null, ps_value_len = 0, ps_value = zero_value,
     promise_count = 0, highest_accepted_in_promises = pn_null, highest_accepted_value_len = 0,
     highest_accepted_value = zero_value, accepted_count = 0, ps_committed = False \<rparr>"

record PaxosNode =
  node_id :: u8
  num_replicas :: u16
  quorum :: u16
  leader_id :: u8
  current_round :: u32
  max_instances :: u32
  instances :: "(u32 \<times> InstanceState) list"
  proposer_state :: "(u32 \<times> ProposerInstanceState) list"
  exception_cb :: "(u16 \<times> u32) list option"

type_synonym paxos_result = "(PaxosStatus \<times> OutMessage list \<times> PaxosNode) option"

text \<open>The constructor asserts its arguments; \<open>None\<close> is the failed assertion.\<close>

definition PaxosNode_new :: "u8 \<Rightarrow> u16 \<Rightarrow> u32 \<Rightarrow> PaxosNode option" where
  "PaxosNode_new nid nr mi =
     (if 3 \<le> nr \<and> nr \<le> 5 \<and> ucast nid < nr
      then Some \<lparr> node_id = nid, num_replicas = nr, quorum = nr div 2 + 1, leader_id = 0,
                  current_round = 0, max_instances = mi, instances = [], proposer_state = [],
                  exception_cb = None \<rparr>
      else None)"

definition SetExceptionCallback :: "PaxosNode \<Rightarrow> PaxosNode" where
  "SetExceptionCallback n = n\<lparr> exception_cb := Some [] \<rparr>"

definition SetLeader :: "u8 \<Rightarrow> PaxosNode \<Rightarrow> PaxosNode" where
  "SetLeader l n = n\<lparr> leader_id := l \<rparr>"

definition IsLeader :: "PaxosNode \<Rightarrow> bool" where
  "IsLeader n \<longleftrightarrow> node_id n = leader_id n"

definition NextRound :: "PaxosNode \<Rightarrow> u32 \<times> PaxosNode" where
  "NextRound n = (current_round n + 1, n\<lparr> current_round := current_round n + 1 \<rparr>)"

definition InstanceCount :: "PaxosNode \<Rightarrow> nat" where
  "InstanceCount n = length (instances n)"

definition GetInstance :: "u32 \<Rightarrow> PaxosNode \<Rightarrow> InstanceState option" where
  "GetInstance iid n = map_of (instances n) iid"

definition exception_call :: "u16 \<Rightarrow> u32 \<Rightarrow> PaxosNode \<Rightarrow> PaxosNode" where
  "exception_call t iid n = n\<lparr> exception_cb := map_option (\<lambda>l. l @ [(t, iid)]) (exception_cb n) \<rparr>"

section \<open>Internal helpers\<close>

definition GetOrCreateInstance :: "u32 \<Rightarrow> PaxosNode \<Rightarrow> PaxosNode \<times> InstanceState option" where
  "GetOrCreateInstance iid n =
     (case map_of (instances n) iid of
        Some inst \<Rightarrow> (n, Some inst)
      | None \<Rightarrow>
          if unat (max_instances n) \<le> length (instances n)
          then (exception_call kPaxosStateOverflow iid n, None)
          else (n\<lparr> instances := AList.update iid InstanceState_init (instances n) \<rparr>,
                Some InstanceState_init))"

text \<open>Stores through the pointer to an instance, and through the reference to a proposer entry.\<close>

definition put_instance :: "u32 \<Rightarrow> InstanceState \<Rightarrow> PaxosNode \<Rightarrow> PaxosNode" where
  "put_instance iid inst n = n\<lparr> instances := AList.update iid inst (instances n) \<rparr>"

definition put_proposer :: "u32 \<Rightarrow> ProposerInstanceState \<Rightarrow> PaxosNode \<Rightarrow> PaxosNode" where
  "put_proposer iid ps n = n\<lparr> proposer_state := AList.update iid ps (proposer_state n) \<rparr>"

definition get_proposer :: "u32 \<Rightarrow> PaxosNode \<Rightarrow> ProposerInstanceState" where
  "get_proposer iid n =
     (case map_of (proposer_state n) iid of Some ps \<Rightarrow> ps | None \<Rightarrow> ProposerInstanceState_init)"

definition clamp_len :: "u16 \<Rightarrow> u16" where
  "clamp_len l = min l 128"

section \<open>Message builders\<close>

definition make_hdr :: "u8 \<Rightarrow> PaxosNode \<Rightarrow> u32 \<Rightarrow> PaxosMsgHeader" where
  "make_hdr t n iid = \<lparr> px_msg_type = t, px_sender_id = node_id n,
     px_num_replicas = num_replicas n, px_instance_id = iid \<rparr>"

definition MakePromise :: "PaxosNode \<Rightarrow> u8 \<Rightarrow> u32 \<Rightarrow> InstanceState \<Rightarrow> OutMessage option" where
  "MakePromise n dest iid inst = do {
     v \<leftarrow> memcpy zero_value (accepted_value inst) (unat (accepted_value_len inst));
     Some \<lparr> dest_id = dest, out_data = enc_PromiseMsg
       \<lparr> prom_hdr = make_hdr kPromise n iid, prom_promised = highest_promised inst,
         prom_accepted_proposal = accepted_proposal inst,
         prom_accepted_value_len = accepted_value_len inst, prom_accepted_value = v \<rparr> \<rparr> }"

definition MakeAccepted ::
  "PaxosNode \<Rightarrow> u8 \<Rightarrow> u32 \<Rightarrow> ProposalNum \<Rightarrow> bytes \<Rightarrow> u16 \<Rightarrow> OutMessage option" where
  "MakeAccepted n dest iid prop val vlen = do {
     v \<leftarrow> memcpy zero_value val (unat (clamp_len vlen));
     Some \<lparr> dest_id = dest, out_data = enc_AcceptedMsg
       \<lparr> accd_hdr = make_hdr kAccepted n iid, accd_proposal = prop,
         accd_value_len = clamp_len vlen, accd_value = v \<rparr> \<rparr> }"

definition MakeLearn :: "PaxosNode \<Rightarrow> u8 \<Rightarrow> u32 \<Rightarrow> bytes \<Rightarrow> u16 \<Rightarrow> OutMessage option" where
  "MakeLearn n dest iid val vlen = do {
     v \<leftarrow> memcpy zero_value val (unat (clamp_len vlen));
     Some \<lparr> dest_id = dest, out_data = enc_LearnMsg
       \<lparr> learn_hdr = make_hdr kLearn n iid, learn_value_len = clamp_len vlen, learn_value = v \<rparr> \<rparr> }"

definition MakeNack :: "PaxosNode \<Rightarrow> u8 \<Rightarrow> u32 \<Rightarrow> ProposalNum \<Rightarrow> OutMessage" where
  "MakeNack n dest iid highest = \<lparr> dest_id = dest, out_data = enc_NackMsg
     \<lparr> nack_hdr = make_hdr kNack n iid, nack_highest_seen = highest \<rparr> \<rparr>"

definition MakeAcceptBroadcast ::
  "PaxosNode \<Rightarrow> u32 \<Rightarrow> ProposalNum \<Rightarrow> bytes \<Rightarrow> u16 \<Rightarrow> OutMessage option" where
  "MakeAcceptBroadcast n iid prop val vlen = do {
     v \<leftarrow> memcpy zero_value val (unat (clamp_len vlen));
     Some \<lparr> dest_id = kBroadcast, out_data = enc_AcceptMsg
       \<lparr> acc_hdr = make_hdr kAccept n iid, acc_proposal = prop,
         acc_value_len = clamp_len vlen, acc_value = v \<rparr> \<rparr> }"

definition MakePrepareBroadcast :: "PaxosNode \<Rightarrow> u32 \<Rightarrow> ProposalNum \<Rightarrow> OutMessage" where
  "MakePrepareBroadcast n iid prop = \<lparr> dest_id = kBroadcast, out_data = enc_PrepareMsg
     \<lparr> prep_hdr = make_hdr kPrepare n iid, prep_proposal = prop \<rparr> \<rparr>"

section \<open>Proposer API\<close>

definition Propose :: "u32 \<Rightarrow> bytes \<Rightarrow> u16 \<Rightarrow> PaxosNode \<Rightarrow> paxos_result" where
  "Propose iid val vlen n =
     (if kMaxValueSize < unat vlen then Some (Px_kValueTooLarge, [], n)
      else if (case map_of (instances n) iid of Some i \<Rightarrow> is_committed i | None \<Rightarrow> False)
      then Some (Px_kAlreadyCommitted, [], n)
      else (case GetOrCreateInstance iid n of
          (n1, None) \<Rightarrow> Some (Px_kInstanceOverflow, [], n1)
        | (n1, Some inst) \<Rightarrow>
            (case NextRound n1 of (r, n2) \<Rightarrow>
               let prop = ProposalNum r (ucast (node_id n2)) 0; ps = get_proposer iid n2 in do {
                 v \<leftarrow> memcpy (ps_value ps) val (unat vlen);
                 m \<leftarrow> MakeAcceptBroadcast n2 iid prop val vlen;
                 Some (Px_kOk, [m], put_proposer iid (ps\<lparr> ps_proposal := prop, ps_value_len := vlen,
                        ps_value := v, accepted_count := 0, ps_committed := False \<rparr>) n2) })))"

definition StartLeaderElection :: "u32 \<Rightarrow> PaxosNode \<Rightarrow> paxos_result" where
  "StartLeaderElection iid n =
     (case GetOrCreateInstance iid n of
        (n1, None) \<Rightarrow> Some (Px_kInstanceOverflow, [], n1)
      | (n1, Some inst) \<Rightarrow>
          (case NextRound (exception_call kPaxosLeaderElection iid n1) of (r, n2) \<Rightarrow>
             let prop = ProposalNum r (ucast (node_id n2)) 0; ps = get_proposer iid n2 in
             Some (Px_kOk, [MakePrepareBroadcast n2 iid prop],
               put_proposer iid (ps\<lparr> ps_proposal := prop, promise_count := 0,
                 highest_accepted_in_promises := pn_null, highest_accepted_value_len := 0,
                 accepted_count := 0, ps_committed := False \<rparr>) n2)))"

section \<open>Message handlers\<close>

definition HandlePrepare :: "PrepareMsg \<Rightarrow> PaxosNode \<Rightarrow> paxos_result" where
  "HandlePrepare msg n =
     (let iid = px_instance_id (prep_hdr msg); snd_id = px_sender_id (prep_hdr msg) in
      case GetOrCreateInstance iid n of
        (n1, None) \<Rightarrow> Some (Px_kInstanceOverflow, [], n1)
      | (n1, Some inst) \<Rightarrow>
          if prep_proposal msg > highest_promised inst then
            (let inst' = inst\<lparr> highest_promised := prep_proposal msg \<rparr>; n2 = put_instance iid inst' n1 in do {
               m \<leftarrow> MakePromise n2 snd_id iid inst';
               Some (Px_kOk, [m], n2) })
          else Some (Px_kOk, [MakeNack n1 snd_id iid (highest_promised inst)], n1))"

text \<open>The bookkeeping of one promise, then the quorum test of \<^verbatim>\<open>HandlePromise\<close>.\<close>

definition record_promise :: "PromiseMsg \<Rightarrow> ProposerInstanceState \<Rightarrow> ProposerInstanceState option" where
  "record_promise msg ps =
     (let ps1 = ps\<lparr> promise_count := promise_count ps + 1 \<rparr> in
      if \<not> IsNull (prom_accepted_proposal msg) \<and>
         prom_accepted_proposal msg > highest_accepted_in_promises ps1
      then do {
        v \<leftarrow> memcpy (highest_accepted_value ps1) (prom_accepted_value msg)
               (unat (clamp_len (prom_accepted_value_len msg)));
        Some (ps1\<lparr> highest_accepted_in_promises := prom_accepted_proposal msg,
                   highest_accepted_value_len := prom_accepted_value_len msg,
                   highest_accepted_value := v \<rparr>) }
      else Some ps1)"

definition HandlePromise :: "PromiseMsg \<Rightarrow> PaxosNode \<Rightarrow> paxos_result" where
  "HandlePromise msg n =
     (let iid = px_instance_id (prom_hdr msg) in
      case map_of (proposer_state n) iid of
        None \<Rightarrow> Some (Px_kOk, [], n)
      | Some ps \<Rightarrow>
          if \<not> pn_eq (prom_promised msg) (ps_proposal ps) then Some (Px_kOk, [], n)
          else do {
            ps1 \<leftarrow> record_promise msg ps;
            if quorum n \<le> promise_count ps1 then
              (let ps2 = ps1\<lparr> accepted_count := 0 \<rparr>;
                   use = (if \<not> IsNull (highest_accepted_in_promises ps1)
                          then (highest_accepted_value ps1, highest_accepted_value_len ps1)
                          else (ps_value ps1, ps_value_len ps1)) in do {
                 m \<leftarrow> MakeAcceptBroadcast n iid (ps_proposal ps2) (fst use) (snd use);
                 Some (Px_kOk, [m], put_proposer iid ps2 n) })
            else Some (Px_kOk, [], put_proposer iid ps1 n) })"

definition HandleAccept :: "AcceptMsg \<Rightarrow> PaxosNode \<Rightarrow> paxos_result" where
  "HandleAccept msg n =
     (let iid = px_instance_id (acc_hdr msg); snd_id = px_sender_id (acc_hdr msg) in
      case GetOrCreateInstance iid n of
        (n1, None) \<Rightarrow> Some (Px_kInstanceOverflow, [], n1)
      | (n1, Some inst) \<Rightarrow>
          if is_committed inst then do {
            m \<leftarrow> MakeLearn n1 snd_id iid (committed_value inst) (committed_value_len inst);
            Some (Px_kAlreadyCommitted, [m], n1) }
          else if acc_proposal msg \<ge> highest_promised inst then do {
            v \<leftarrow> memcpy (accepted_value inst) (acc_value msg) (unat (clamp_len (acc_value_len msg)));
            m \<leftarrow> MakeAccepted n1 snd_id iid (acc_proposal msg) (acc_value msg) (acc_value_len msg);
            Some (Px_kOk, [m], put_instance iid
              (inst\<lparr> highest_promised := acc_proposal msg, accepted_proposal := acc_proposal msg,
                     accepted_value_len := clamp_len (acc_value_len msg), accepted_value := v \<rparr>) n1) }
          else Some (Px_kOk, [MakeNack n1 snd_id iid (highest_promised inst)],
                     exception_call kPaxosConflict iid n1))"

text \<open>Recording a committed value in an instance, as \<^verbatim>\<open>HandleAccepted\<close> and \<^verbatim>\<open>HandleLearn\<close> do.\<close>

definition commit_value :: "bytes \<Rightarrow> u16 \<Rightarrow> InstanceState \<Rightarrow> InstanceState option" where
  "commit_value val vlen inst = do {
     v \<leftarrow> memcpy (committed_value inst) val (unat (clamp_len vlen));
     Some (inst\<lparr> is_committed := True, committed_value_len := vlen, committed_value := v \<rparr>) }"

definition learn_broadcast :: "PaxosNode \<Rightarrow> u32 \<Rightarrow> bytes \<Rightarrow> u16 \<Rightarrow> OutMessage list option" where
  "learn_broadcast n iid val vlen =
     those (map (\<lambda>i. MakeLearn n (of_nat i) iid val vlen)
                (filter (\<lambda>i. i \<noteq> unat (node_id n)) [0..<unat (num_replicas n)]))"

definition HandleAccepted :: "AcceptedMsg \<Rightarrow> PaxosNode \<Rightarrow> paxos_result" where
  "HandleAccepted msg n =
     (let iid = px_instance_id (accd_hdr msg) in
      case map_of (proposer_state n) iid of
        None \<Rightarrow> Some (Px_kOk, [], n)
      | Some ps \<Rightarrow>
          if \<not> pn_eq (accd_proposal msg) (ps_proposal ps) then Some (Px_kOk, [], n)
          else if ps_committed ps then Some (Px_kAlreadyCommitted, [], n)
          else
            (let ps1 = ps\<lparr> accepted_count := accepted_count ps + 1 \<rparr> in
             if quorum n \<le> accepted_count ps1 then
               (let n1 = put_proposer iid (ps1\<lparr> ps_committed := True \<rparr>) n in do {
                  n3 \<leftarrow> (case GetOrCreateInstance iid n1 of
                           (n2, None) \<Rightarrow> Some n2
                         | (n2, Some inst) \<Rightarrow> do {
                             inst' \<leftarrow> commit_value (accd_value msg) (accd_value_len msg) inst;
                             Some (put_instance iid inst' n2) });
                  ms \<leftarrow> learn_broadcast n3 iid (accd_value msg) (accd_value_len msg);
                  Some (Px_kOk, ms, n3) })
             else Some (Px_kOk, [], put_proposer iid ps1 n)))"

definition HandleLearn :: "LearnMsg \<Rightarrow> PaxosNode \<Rightarrow> paxos_result" where
  "HandleLearn msg n =
     (let iid = px_instance_id (learn_hdr msg) in
      case GetOrCreateInstance iid n of
        (n1, None) \<Rightarrow> Some (Px_kInstanceOverflow, [], n1)
      | (n1, Some inst) \<Rightarrow>
          if \<not> is_committed inst then do {
            inst' \<leftarrow> commit_value (learn_value msg) (learn_value_len msg) inst;
            Some (Px_kOk, [], put_instance iid inst' n1) }
          else Some (Px_kOk, [], n1))"

definition HandleNack :: "NackMsg \<Rightarrow> PaxosNode \<Rightarrow> paxos_result" where
  "HandleNack msg n =
     (let n1 = exception_call kPaxosConflict (px_instance_id (nack_hdr msg)) n in
      Some (Px_kOk, [],
        if current_round n1 \<le> pn_round (nack_highest_seen msg)
        then n1\<lparr> current_round := pn_round (nack_highest_seen msg) \<rparr> else n1))"

section \<open>Dispatch\<close>

definition HandleMessage :: "bytes \<Rightarrow> PaxosNode \<Rightarrow> paxos_result" where
  "HandleMessage data n =
     (let len = length data; invalid = Some (Px_kInvalidMessage, [], n) in
      if len < sizeof_PaxosMsgHeader then invalid
      else do {
        hdr \<leftarrow> dec_px_hdr data;
        let t = px_msg_type hdr in
        if t = kPrepare then
          (if sizeof_PrepareMsg \<le> len
           then do { m \<leftarrow> dec_PrepareMsg data; HandlePrepare m n } else invalid)
        else if t = kPromise then
          (if sizeof_PromiseMsg - kMaxValueSize \<le> len
           then do { m \<leftarrow> dec_PromiseMsg data; HandlePromise m n } else invalid)
        else if t = kAccept then
          (if sizeof_AcceptMsg - kMaxValueSize \<le> len
           then do { m \<leftarrow> dec_AcceptMsg data; HandleAccept m n } else invalid)
        else if t = kAccepted then
          (if sizeof_AcceptedMsg - kMaxValueSize \<le> len
           then do { m \<leftarrow> dec_AcceptedMsg data; HandleAccepted m n } else invalid)
        else if t = kLearn then
          (if sizeof_LearnMsg - kMaxValueSize \<le> len
           then do { m \<leftarrow> dec_LearnMsg data; HandleLearn m n } else invalid)
        else if t = kNack then
          (if sizeof_NackMsg \<le> len
           then do { m \<leftarrow> dec_NackMsg data; HandleNack m n } else invalid)
        else invalid })"

section \<open>Operations as steps of a node\<close>

datatype paxos_op =
    OpPropose u32 bytes u16
  | OpElect u32
  | OpMsg bytes

fun paxos_step :: "paxos_op \<Rightarrow> PaxosNode \<Rightarrow> paxos_result" where
  "paxos_step (OpPropose iid val vlen) n = Propose iid val vlen n"
| "paxos_step (OpElect iid) n = StartLeaderElection iid n"
| "paxos_step (OpMsg data) n = HandleMessage data n"

text \<open>A run collects the messages of its steps; it is \<open>None\<close> when a step is undefined.\<close>

fun paxos_run :: "paxos_op list \<Rightarrow> PaxosNode \<Rightarrow> (OutMessage list \<times> PaxosNode) option" where
  "paxos_run [] n = Some ([], n)"
| "paxos_run (p # ps) n = do {
     (st, ms, n1) \<leftarrow> paxos_step p n;
     (ms', n2) \<leftarrow> paxos_run ps n1;
     Some (ms @ ms', n2) }"

section \<open>Well-formed nodes\<close>

definition inst_ok :: "InstanceState \<Rightarrow> bool" where
  "inst_ok i \<longleftrightarrow> accepted_proposal i \<le> highest_promised i \<and>
     length (accepted_value i) = kMaxValueSize \<and> unat (accepted_value_len i) \<le> kMaxValueSize \<and>
     length (committed_value i) = kMaxValueSize"

definition ps_ok :: "ProposerInstanceState \<Rightarrow> bool" where
  "ps_ok ps \<longleftrightarrow> length (ps_value ps) = kMaxValueSize \<and> length (highest_accepted_value ps) = kMaxValueSize"

definition paxos_inv :: "PaxosNode \<Rightarrow> bool" where
  "paxos_inv n \<longleftrightarrow> keys_ok (instances n) \<and> keys_ok (proposer_state n) \<and>
     length (instances n) \<le> unat (max_instances n) \<and>
     (\<forall>iid i. map_of (instances n) iid = Some i \<longrightarrow> inst_ok i) \<and>
     (\<forall>iid ps. map_of (proposer_state n) iid = Some ps \<longrightarrow> ps_ok ps) \<and>
     3 \<le> num_replicas n \<and> num_replicas n \<le> 5 \<and> quorum n = num_replicas n div 2 + 1 \<and>
     ucast (node_id n) < num_replicas n"

lemma clamp_len_le [simp]: "unat (clamp_len l) \<le> 128"
proof -
  have "clamp_len l \<le> 128" by (simp add: clamp_len_def)
  then show ?thesis by (simp add: word_le_nat_alt)
qed

lemma clamp_len_id: "unat l \<le> 128 \<Longrightarrow> clamp_len l = l"
  by (simp add: clamp_len_def min_def word_le_nat_alt)

lemma inst_ok_init [simp]: "inst_ok InstanceState_init"
  by (simp add: inst_ok_def InstanceState_init_def)

lemma ps_ok_init [simp]: "ps_ok ProposerInstanceState_init"
  by (simp add: ps_ok_def ProposerInstanceState_init_def)

lemma paxos_inv_new: "PaxosNode_new nid nr mi = Some n \<Longrightarrow> paxos_inv n"
  by (auto simp: PaxosNode_new_def paxos_inv_def split: if_splits)

lemma exception_call_fields [simp]:
  "instances (exception_call t iid n) = instances n"
  "proposer_state (exception_call t iid n) = proposer_state n"
  "max_instances (exception_call t iid n) = max_instances n"
  "num_replicas (exception_call t iid n) = num_replicas n"
  "quorum (exception_call t iid n) = quorum n"
  "node_id (exception_call t iid n) = node_id n"
  "current_round (exception_call t iid n) = current_round n"
  by (simp_all add: exception_call_def)

lemma NextRound_fields [simp]:
  "fst (NextRound n) = current_round n + 1"
  "snd (NextRound n) = n\<lparr> current_round := current_round n + 1 \<rparr>"
  by (simp_all add: NextRound_def)

text \<open>The instance table is a capacity-bounded table.\<close>

interpretation px_table: bounded_table
  "\<lambda>iid n. map_of (instances n) iid" "\<lambda>n. length (instances n)" "\<lambda>n. unat (max_instances n)"
  GetOrCreateInstance InstanceState_init
  by unfold_locales
    (auto simp: GetOrCreateInstance_def length_AList_update split: option.splits if_splits)

lemma GetOrCreateInstance_cases:
  assumes "GetOrCreateInstance iid n = (n1, r)"
  obtains (hit) i where "map_of (instances n) iid = Some i" "n1 = n" "r = Some i"
  | (full) "map_of (instances n) iid = None" "unat (max_instances n) \<le> length (instances n)"
      "n1 = exception_call kPaxosStateOverflow iid n" "r = None"
  | (fresh) "map_of (instances n) iid = None" "length (instances n) < unat (max_instances n)"
      "n1 = put_instance iid InstanceState_init n" "r = Some InstanceState_init"
  using assms
  by (auto simp: GetOrCreateInstance_def put_instance_def split: option.splits if_splits)

lemma paxos_inv_exception [simp, inv_intros]: "paxos_inv (exception_call t iid n) = paxos_inv n"
  by (simp add: paxos_inv_def)

lemma paxos_inv_round [simp]: "paxos_inv (n\<lparr> current_round := r \<rparr>) = paxos_inv n"
  by (simp add: paxos_inv_def)

lemma paxos_inv_put_proposer [inv_intros]:
  "paxos_inv n \<Longrightarrow> ps_ok ps \<Longrightarrow> paxos_inv (put_proposer iid ps n)"
  by (auto simp: paxos_inv_def put_proposer_def)

lemma paxos_inv_put_instance [inv_intros]:
  "paxos_inv n \<Longrightarrow> map_of (instances n) iid = Some j \<Longrightarrow> inst_ok i \<Longrightarrow> paxos_inv (put_instance iid i n)"
  by (auto simp: paxos_inv_def put_instance_def)

lemma paxos_inv_GetOrCreate:
  assumes "paxos_inv n" "GetOrCreateInstance iid n = (n1, r)"
  shows "paxos_inv n1" "r = Some i \<Longrightarrow> inst_ok i \<and> map_of (instances n1) iid = Some i"
  using assms(2)
  by (cases rule: GetOrCreateInstance_cases;
      use assms(1) in \<open>auto simp: paxos_inv_def put_instance_def length_AList_update\<close>)+

lemma paxos_inv_get_proposer [simp]: "paxos_inv n \<Longrightarrow> ps_ok (get_proposer iid n)"
  by (auto simp: get_proposer_def paxos_inv_def split: option.splits)

lemma paxos_invD:
  "paxos_inv n \<Longrightarrow> map_of (proposer_state n) iid = Some ps \<Longrightarrow> ps_ok ps"
  "paxos_inv n \<Longrightarrow> map_of (instances n) iid = Some i \<Longrightarrow> inst_ok i"
  by (auto simp: paxos_inv_def)

section \<open>Every operation keeps nodes well-formed\<close>

lemma memcpy_SomeD: "memcpy d s k = Some v \<Longrightarrow> length v = length d \<and> k \<le> length s \<and> k \<le> length d"
  by (auto simp: memcpy_def split: if_splits)

lemma record_promise_ok: "ps_ok ps \<Longrightarrow> record_promise m ps = Some ps1 \<Longrightarrow> ps_ok ps1"
  by (auto simp: record_promise_def ps_ok_def Let_def bind_eq_Some_conv split: if_splits
      dest!: memcpy_SomeD)

lemma commit_value_ok: "inst_ok i \<Longrightarrow> commit_value v l i = Some j \<Longrightarrow> inst_ok j"
  by (auto simp: commit_value_def inst_ok_def bind_eq_Some_conv dest!: memcpy_SomeD)

lemma Propose_inv:
  assumes "paxos_inv n" "Propose iid val vlen n = Some (st, ms, n')"
  shows "paxos_inv n'"
proof -
  obtain n1 r where g: "GetOrCreateInstance iid n = (n1, r)" by fastforce
  note n1 = paxos_inv_GetOrCreate(1)[OF assms(1) g]
  have ok: "ps_ok (get_proposer iid (snd (NextRound n1)))" using n1 by simp
  from assms(2) g n1 assms(1) ok show ?thesis
    by (auto simp: Propose_def Let_def NextRound_def bind_eq_Some_conv ps_ok_def
        split: if_splits option.splits dest!: memcpy_SomeD intro!: paxos_inv_put_proposer)
qed

lemma StartLeaderElection_inv:
  assumes "paxos_inv n" "StartLeaderElection iid n = Some (st, ms, n')"
  shows "paxos_inv n'"
proof -
  obtain n1 r where g: "GetOrCreateInstance iid n = (n1, r)" by fastforce
  note n1 = paxos_inv_GetOrCreate(1)[OF assms(1) g]
  have ok: "ps_ok (get_proposer iid (snd (NextRound (exception_call kPaxosLeaderElection iid n1))))"
    using n1 by simp
  from assms(2) g n1 ok show ?thesis
    by (auto simp: StartLeaderElection_def Let_def NextRound_def ps_ok_def
        split: option.splits intro!: paxos_inv_put_proposer)
qed

lemma HandlePrepare_inv:
  assumes "paxos_inv n" "HandlePrepare m n = Some (st, ms, n')"
  shows "paxos_inv n'"
proof -
  let ?iid = "px_instance_id (prep_hdr m)"
  obtain n1 r where g: "GetOrCreateInstance ?iid n = (n1, r)" by fastforce
  note n1 = paxos_inv_GetOrCreate[OF assms(1) g]
  from assms(2) g n1 show ?thesis
    by (auto simp: HandlePrepare_def Let_def bind_eq_Some_conv inst_ok_def
        split: if_splits option.splits intro!: paxos_inv_put_instance
        intro: order_trans[OF _ less_imp_le])
qed

lemma HandlePromise_inv:
  assumes "paxos_inv n" "HandlePromise m n = Some (st, ms, n')"
  shows "paxos_inv n'"
proof -
  let ?iid = "px_instance_id (prom_hdr m)"
  have rp: "ps_ok ps1"
    if "map_of (proposer_state n) ?iid = Some ps" "record_promise m ps = Some ps1" for ps ps1
    using that paxos_invD(1)[OF assms(1)] record_promise_ok by blast
  from assms show ?thesis
    by (auto simp: HandlePromise_def Let_def bind_eq_Some_conv
        split: if_splits option.splits intro!: paxos_inv_put_proposer dest: rp)
      (auto simp: ps_ok_def dest: rp)
qed

lemma HandleAccept_inv:
  assumes "paxos_inv n" "HandleAccept m n = Some (st, ms, n')"
  shows "paxos_inv n'"
proof -
  let ?iid = "px_instance_id (acc_hdr m)"
  obtain n1 r where g: "GetOrCreateInstance ?iid n = (n1, r)" by fastforce
  note n1 = paxos_inv_GetOrCreate[OF assms(1) g]
  from assms(2) g n1 show ?thesis
    by (auto simp: HandleAccept_def Let_def bind_eq_Some_conv inst_ok_def
        split: if_splits option.splits intro!: paxos_inv_put_instance dest!: memcpy_SomeD)
qed

lemma HandleAccepted_inv:
  assumes "paxos_inv n" "HandleAccepted m n = Some (st, ms, n')"
  shows "paxos_inv n'"
proof -
  let ?iid = "px_instance_id (accd_hdr m)"
  have put: "paxos_inv (put_proposer ?iid (ps\<lparr> accepted_count := c, ps_committed := b \<rparr>) n)"
    if "map_of (proposer_state n) ?iid = Some ps" for ps c b
    using that assms(1) paxos_invD(1)[OF assms(1) that]
    by (intro paxos_inv_put_proposer) (auto simp: ps_ok_def)
  have put1: "paxos_inv (put_proposer ?iid (ps\<lparr> accepted_count := c \<rparr>) n)"
    if "map_of (proposer_state n) ?iid = Some ps" for ps c
    using that assms(1) paxos_invD(1)[OF assms(1) that]
    by (intro paxos_inv_put_proposer) (auto simp: ps_ok_def)
  from assms show ?thesis
    by (auto simp: HandleAccepted_def Let_def bind_eq_Some_conv put1
        split: if_splits option.splits prod.splits
        dest: paxos_inv_GetOrCreate[OF put]
        intro: paxos_inv_put_instance commit_value_ok)
qed

lemma HandleLearn_inv:
  assumes "paxos_inv n" "HandleLearn m n = Some (st, ms, n')"
  shows "paxos_inv n'"
proof -
  let ?iid = "px_instance_id (learn_hdr m)"
  obtain n1 r where g: "GetOrCreateInstance ?iid n = (n1, r)" by fastforce
  note n1 = paxos_inv_GetOrCreate[OF assms(1) g]
  from assms(2) g n1 show ?thesis
    by (auto simp: HandleLearn_def Let_def bind_eq_Some_conv
        split: if_splits option.splits intro!: paxos_inv_put_instance dest: commit_value_ok)
qed

lemma HandleNack_inv:
  "paxos_inv n \<Longrightarrow> HandleNack m n = Some (st, ms, n') \<Longrightarrow> paxos_inv n'"
  by (auto simp: HandleNack_def Let_def split: if_splits)

lemma HandleMessage_cases [consumes 1]:
  assumes "HandleMessage data n = Some r"
  obtains (invalid) "r = (Px_kInvalidMessage, [], n)"
  | (prepare) m where "dec_PrepareMsg data = Some m" "HandlePrepare m n = Some r"
  | (promise) m where "dec_PromiseMsg data = Some m" "HandlePromise m n = Some r"
  | (accept) m where "dec_AcceptMsg data = Some m" "HandleAccept m n = Some r"
  | (accepted) m where "dec_AcceptedMsg data = Some m" "HandleAccepted m n = Some r"
      "px_msg_type (accd_hdr m) = kAccepted"
  | (learn) m where "dec_LearnMsg data = Some m" "HandleLearn m n = Some r"
  | (nack) m where "dec_NackMsg data = Some m" "HandleNack m n = Some r"
  using assms
  by (auto simp: HandleMessage_def Let_def bind_eq_Some_conv dec_AcceptedMsg_def split: if_splits)

lemmas handler_invs = HandlePrepare_inv HandlePromise_inv HandleAccept_inv HandleAccepted_inv
  HandleLearn_inv HandleNack_inv

lemma HandleMessage_inv:
  assumes "paxos_inv n" "HandleMessage data n = Some (st, ms, n')"
  shows "paxos_inv n'"
  using assms(2) by (cases rule: HandleMessage_cases) (use assms(1) in \<open>auto intro: handler_invs\<close>)

lemma paxos_step_inv: "paxos_inv n \<Longrightarrow> paxos_step p n = Some (st, ms, n') \<Longrightarrow> paxos_inv n'"
  by (cases p) (auto intro: Propose_inv StartLeaderElection_inv HandleMessage_inv)

end
