(* ===== verification/Lock_State.thy ===== *)
theory Lock_State
  imports Hcop_Proto
begin

text \<open>
  The lock service \<^verbatim>\<open>LockManager\<close> (\<^verbatim>\<open>lib/hcop/lock_proto.h\<close>, \<^verbatim>\<open>lock_state.h\<close>,
  \<^verbatim>\<open>lock_state.cc\<close>): per-key mutual exclusion with leases, a bounded queue of waiters per key
  and a bounded number of keys. An operation returns its status, the messages it pushed and the
  new manager. Time is the unsigned 64-bit nanosecond count that the caller passes, so that the
  end of a lease wraps as in the code.
\<close>

section \<open>Wire messages\<close>

definition kAcquire :: u8 where [simp]: "kAcquire = 1"
definition kGrant :: u8 where [simp]: "kGrant = 2"
definition kRelease :: u8 where [simp]: "kRelease = 3"
definition kDeny :: u8 where [simp]: "kDeny = 4"
definition kTimeout :: u8 where [simp]: "kTimeout = 5"

record LockMsgHeader =
  lk_msg_type :: u8
  lk_requester_id :: u8
  lk_pad :: u16
  lk_lock_key :: u64

record AcquireMsg =
  acq_hdr :: LockMsgHeader
  acq_lease_duration_ns :: u64

record GrantMsg =
  grant_hdr :: LockMsgHeader
  grant_lease_expiry_ns :: u64

record ReleaseMsg =
  rel_hdr :: LockMsgHeader

record DenyMsg =
  deny_hdr :: LockMsgHeader
  deny_holder_id :: u8

record TimeoutMsg =
  tmo_hdr :: LockMsgHeader

definition sizeof_LockMsgHeader :: nat where [simp]: "sizeof_LockMsgHeader = 12"
definition sizeof_AcquireMsg :: nat where [simp]: "sizeof_AcquireMsg = 20"
definition sizeof_ReleaseMsg :: nat where [simp]: "sizeof_ReleaseMsg = 12"

definition enc_lk_hdr :: "LockMsgHeader \<Rightarrow> bytes" where
  "enc_lk_hdr h = le_bytes 1 (lk_msg_type h) @ le_bytes 1 (lk_requester_id h) @
     le_bytes 2 (lk_pad h) @ le_bytes 8 (lk_lock_key h)"

definition dec_lk_hdr :: "bytes \<Rightarrow> LockMsgHeader option" where
  "dec_lk_hdr bs = do {
     t \<leftarrow> rd8 bs 0;
     r \<leftarrow> rd8 bs 1;
     p \<leftarrow> rd16 bs 2;
     k \<leftarrow> rd64 bs 4;
     Some \<lparr> lk_msg_type = t, lk_requester_id = r, lk_pad = p, lk_lock_key = k \<rparr> }"

definition enc_AcquireMsg :: "AcquireMsg \<Rightarrow> bytes" where
  "enc_AcquireMsg m = enc_lk_hdr (acq_hdr m) @ le_bytes 8 (acq_lease_duration_ns m)"

definition dec_AcquireMsg :: "bytes \<Rightarrow> AcquireMsg option" where
  "dec_AcquireMsg bs = do {
     h \<leftarrow> dec_lk_hdr bs;
     d \<leftarrow> rd64 bs 12;
     Some \<lparr> acq_hdr = h, acq_lease_duration_ns = d \<rparr> }"

definition enc_GrantMsg :: "GrantMsg \<Rightarrow> bytes" where
  "enc_GrantMsg m = enc_lk_hdr (grant_hdr m) @ le_bytes 8 (grant_lease_expiry_ns m)"

definition dec_GrantMsg :: "bytes \<Rightarrow> GrantMsg option" where
  "dec_GrantMsg bs = do {
     h \<leftarrow> dec_lk_hdr bs;
     e \<leftarrow> rd64 bs 12;
     Some \<lparr> grant_hdr = h, grant_lease_expiry_ns = e \<rparr> }"

definition enc_ReleaseMsg :: "ReleaseMsg \<Rightarrow> bytes" where
  "enc_ReleaseMsg m = enc_lk_hdr (rel_hdr m)"

definition dec_ReleaseMsg :: "bytes \<Rightarrow> ReleaseMsg option" where
  "dec_ReleaseMsg bs = do { h \<leftarrow> dec_lk_hdr bs; Some \<lparr> rel_hdr = h \<rparr> }"

definition enc_DenyMsg :: "DenyMsg \<Rightarrow> bytes" where
  "enc_DenyMsg m = enc_lk_hdr (deny_hdr m) @ le_bytes 1 (deny_holder_id m) @ replicate 7 0"

definition enc_TimeoutMsg :: "TimeoutMsg \<Rightarrow> bytes" where
  "enc_TimeoutMsg m = enc_lk_hdr (tmo_hdr m)"

section \<open>State\<close>

datatype LockStatus =
    Lk_kOk
  | Lk_kGranted
  | Lk_kDenied
  | Lk_kKeyOverflow
  | Lk_kContention
  | Lk_kNotHeld
  | Lk_kInvalidMessage

record WaitingRequest =
  requester_id :: u8
  lease_duration_ns :: u64

definition kFree :: u8 where [simp]: "kFree = 0xFF"

record KeyState =
  holder_id :: u8
  lease_expiry_ns :: u64
  waiters :: "WaitingRequest list"

definition KeyState_init :: KeyState where
  "KeyState_init = \<lparr> holder_id = kFree, lease_expiry_ns = 0, waiters = [] \<rparr>"

record LockManager =
  max_keys :: u32
  default_lease_ns :: u64
  max_waiters_per_key :: u16
  keys :: "(u64 \<times> KeyState) list"
  lk_exception_cb :: "(u16 \<times> u64) list option"

type_synonym lock_result = "LockStatus \<times> OutMessage list \<times> LockManager"

definition LockManager_new :: "u32 \<Rightarrow> u64 \<Rightarrow> u16 \<Rightarrow> LockManager" where
  "LockManager_new mk dl mw = \<lparr> max_keys = mk, default_lease_ns = dl, max_waiters_per_key = mw,
     keys = [], lk_exception_cb = None \<rparr>"

definition SetExceptionCallback_lock :: "LockManager \<Rightarrow> LockManager" where
  "SetExceptionCallback_lock s = s\<lparr> lk_exception_cb := Some [] \<rparr>"

definition KeyCount :: "LockManager \<Rightarrow> nat" where
  "KeyCount s = length (keys s)"

definition GetKeyState :: "u64 \<Rightarrow> LockManager \<Rightarrow> KeyState option" where
  "GetKeyState k s = map_of (keys s) k"

definition exception_call_lock :: "u16 \<Rightarrow> u64 \<Rightarrow> LockManager \<Rightarrow> LockManager" where
  "exception_call_lock t k s = s\<lparr> lk_exception_cb := map_option (\<lambda>l. l @ [(t, k)]) (lk_exception_cb s) \<rparr>"

section \<open>Message builders\<close>

definition lk_make_hdr :: "u8 \<Rightarrow> u8 \<Rightarrow> u64 \<Rightarrow> LockMsgHeader" where
  "lk_make_hdr t dest k = \<lparr> lk_msg_type = t, lk_requester_id = dest, lk_pad = 0, lk_lock_key = k \<rparr>"

definition MakeGrant :: "u8 \<Rightarrow> u64 \<Rightarrow> u64 \<Rightarrow> OutMessage" where
  "MakeGrant dest k expiry = \<lparr> dest_id = dest, out_data = enc_GrantMsg
     \<lparr> grant_hdr = lk_make_hdr kGrant dest k, grant_lease_expiry_ns = expiry \<rparr> \<rparr>"

definition MakeDeny :: "u8 \<Rightarrow> u64 \<Rightarrow> u8 \<Rightarrow> OutMessage" where
  "MakeDeny dest k holder = \<lparr> dest_id = dest, out_data = enc_DenyMsg
     \<lparr> deny_hdr = lk_make_hdr kDeny dest k, deny_holder_id = holder \<rparr> \<rparr>"

definition MakeTimeout :: "u8 \<Rightarrow> u64 \<Rightarrow> OutMessage" where
  "MakeTimeout dest k = \<lparr> dest_id = dest, out_data = enc_TimeoutMsg
     \<lparr> tmo_hdr = lk_make_hdr kTimeout dest k \<rparr> \<rparr>"

section \<open>Internal helpers\<close>

definition GetOrCreateKey :: "u64 \<Rightarrow> LockManager \<Rightarrow> LockManager \<times> KeyState option" where
  "GetOrCreateKey k s =
     (case map_of (keys s) k of
        Some ks \<Rightarrow> (s, Some ks)
      | None \<Rightarrow>
          if unat (max_keys s) \<le> length (keys s)
          then (exception_call_lock kLockStateOverflow k s, None)
          else (s\<lparr> keys := AList.update k KeyState_init (keys s) \<rparr>, Some KeyState_init))"

text \<open>The store through the pointer or reference to a key's entry.\<close>

definition put_key :: "u64 \<Rightarrow> KeyState \<Rightarrow> LockManager \<Rightarrow> LockManager" where
  "put_key k ks s = s\<lparr> keys := AList.update k ks (keys s) \<rparr>"

definition GrantLock :: "KeyState \<Rightarrow> u64 \<Rightarrow> u8 \<Rightarrow> u64 \<Rightarrow> u64 \<Rightarrow> KeyState \<times> OutMessage list" where
  "GrantLock ks k r lease now =
     (let ks' = ks\<lparr> holder_id := r, lease_expiry_ns := now + lease \<rparr> in
      (ks', [MakeGrant r k (lease_expiry_ns ks')]))"

definition GrantNextWaiter :: "KeyState \<Rightarrow> u64 \<Rightarrow> u64 \<Rightarrow> bool \<times> KeyState \<times> OutMessage list" where
  "GrantNextWaiter ks k now =
     (case waiters ks of
        [] \<Rightarrow> (False, ks, [])
      | w # ws \<Rightarrow> (True, GrantLock (ks\<lparr> waiters := ws \<rparr>) k (requester_id w) (lease_duration_ns w) now))"

definition MaybeRemoveKey :: "u64 \<Rightarrow> LockManager \<Rightarrow> LockManager" where
  "MaybeRemoveKey k s =
     (case map_of (keys s) k of
        None \<Rightarrow> s
      | Some ks \<Rightarrow> if holder_id ks = kFree \<and> waiters ks = []
                   then s\<lparr> keys := AList.delete k (keys s) \<rparr> else s)"

text \<open>The release that \<^verbatim>\<open>Release\<close> and \<^verbatim>\<open>CheckTimeouts\<close> share: free, hand over, or collect the key.\<close>

definition release_key :: "u64 \<Rightarrow> KeyState \<Rightarrow> u64 \<Rightarrow> LockManager \<Rightarrow> OutMessage list \<times> LockManager" where
  "release_key k ks now s =
     (case GrantNextWaiter (ks\<lparr> holder_id := kFree, lease_expiry_ns := 0 \<rparr>) k now of
        (granted, ks', out) \<Rightarrow>
          (out, if granted then put_key k ks' s else MaybeRemoveKey k (put_key k ks' s)))"

section \<open>Operations\<close>

definition Acquire :: "u64 \<Rightarrow> u8 \<Rightarrow> u64 \<Rightarrow> u64 \<Rightarrow> LockManager \<Rightarrow> lock_result" where
  "Acquire k r lease0 now s =
     (let lease = (if lease0 = 0 then default_lease_ns s else lease0) in
      case GetOrCreateKey k s of
        (s1, None) \<Rightarrow> (Lk_kKeyOverflow, [], s1)
      | (s1, Some ks) \<Rightarrow>
          if holder_id ks = kFree then
            (case GrantLock ks k r lease now of (ks', out) \<Rightarrow> (Lk_kGranted, out, put_key k ks' s1))
          else if holder_id ks = r then
            (let ks' = ks\<lparr> lease_expiry_ns := now + lease \<rparr> in
             (Lk_kGranted, [MakeGrant r k (lease_expiry_ns ks')], put_key k ks' s1))
          else if max_waiters_per_key s1 = 0 then
            (Lk_kContention, [MakeDeny r k (holder_id ks)], exception_call_lock kLockContention k s1)
          else if unat (max_waiters_per_key s1) \<le> length (waiters ks) then
            (Lk_kContention, [MakeDeny r k (holder_id ks)], exception_call_lock kLockContention k s1)
          else if \<exists>w\<in>set (waiters ks). requester_id w = r then
            (Lk_kDenied, [MakeDeny r k (holder_id ks)], s1)
          else
            (Lk_kDenied, [MakeDeny r k (holder_id ks)],
             put_key k (ks\<lparr> waiters := waiters ks @ [\<lparr> requester_id = r, lease_duration_ns = lease \<rparr>] \<rparr>) s1))"

definition Release :: "u64 \<Rightarrow> u8 \<Rightarrow> u64 \<Rightarrow> LockManager \<Rightarrow> lock_result" where
  "Release k r now s =
     (case map_of (keys s) k of
        None \<Rightarrow> (Lk_kNotHeld, [], s)
      | Some ks \<Rightarrow>
          if holder_id ks \<noteq> r then (Lk_kNotHeld, [], s)
          else (case release_key k ks now s of (out, s') \<Rightarrow> (Lk_kOk, out, s')))"

definition lease_expired :: "u64 \<Rightarrow> KeyState \<Rightarrow> bool" where
  "lease_expired now ks \<longleftrightarrow> holder_id ks \<noteq> kFree \<and> lease_expiry_ns ks > 0 \<and> now \<ge> lease_expiry_ns ks"

fun expire_keys :: "u64 list \<Rightarrow> u64 \<Rightarrow> LockManager \<Rightarrow> u32 \<times> OutMessage list \<times> LockManager" where
  "expire_keys [] now s = (0, [], s)"
| "expire_keys (k # ks) now s =
     (case map_of (keys s) k of
        None \<Rightarrow> expire_keys ks now s
      | Some st \<Rightarrow>
          if holder_id st = kFree then expire_keys ks now s
          else (case release_key k st now (exception_call_lock kLockTimeoutCheck k s) of
                  (out, s1) \<Rightarrow>
                    (case expire_keys ks now s1 of
                       (n, out', s2) \<Rightarrow> (n + 1, MakeTimeout (holder_id st) k # out @ out', s2))))"

definition CheckTimeouts :: "u64 \<Rightarrow> LockManager \<Rightarrow> u32 \<times> OutMessage list \<times> LockManager" where
  "CheckTimeouts now s =
     expire_keys (map fst (filter (\<lambda>(k, ks). lease_expired now ks) (keys s))) now s"

definition HandleAcquire :: "AcquireMsg \<Rightarrow> u64 \<Rightarrow> LockManager \<Rightarrow> lock_result" where
  "HandleAcquire msg now s = Acquire (lk_lock_key (acq_hdr msg)) (lk_requester_id (acq_hdr msg))
     (acq_lease_duration_ns msg) now s"

definition HandleRelease :: "ReleaseMsg \<Rightarrow> u64 \<Rightarrow> LockManager \<Rightarrow> lock_result" where
  "HandleRelease msg now s = Release (lk_lock_key (rel_hdr msg)) (lk_requester_id (rel_hdr msg)) now s"

definition HandleMessage_lock :: "bytes \<Rightarrow> u64 \<Rightarrow> LockManager \<Rightarrow> lock_result option" where
  "HandleMessage_lock data now s =
     (let len = length data; invalid = Some (Lk_kInvalidMessage, [], s) in
      if len < sizeof_LockMsgHeader then invalid
      else do {
        hdr \<leftarrow> dec_lk_hdr data;
        let t = lk_msg_type hdr in
        if t = kAcquire then
          (if sizeof_AcquireMsg \<le> len
           then do { m \<leftarrow> dec_AcquireMsg data; Some (HandleAcquire m now s) } else invalid)
        else if t = kRelease then
          (if sizeof_ReleaseMsg \<le> len
           then do { m \<leftarrow> dec_ReleaseMsg data; Some (HandleRelease m now s) } else invalid)
        else invalid })"

end
