(* ===== verification/Bitmap.thy ===== *)
theory Bitmap
  imports Prelude
begin

unbundle bit_operations_syntax

text \<open>
  Sets of small indices kept in the bits of a machine word, as the barrier keeps the arrived
  participants and the core pool the busy cores: the interface locale, its consequences on
  cardinalities, and its interpretation on the 64-bit operations of the code.
\<close>

section \<open>Interface\<close>

locale index_set =
  fixes indices :: "'w \<Rightarrow> nat set"
    and add :: "nat \<Rightarrow> 'w \<Rightarrow> 'w"
    and remove :: "nat \<Rightarrow> 'w \<Rightarrow> 'w"
    and member :: "nat \<Rightarrow> 'w \<Rightarrow> bool"
    and none :: "'w"
    and bound :: nat
  assumes indices_none: "indices none = {}"
    and indices_add: "i < bound \<Longrightarrow> indices (add i w) = insert i (indices w)"
    and indices_remove: "i < bound \<Longrightarrow> indices (remove i w) = indices w - {i}"
    and member_iff: "i < bound \<Longrightarrow> member i w \<longleftrightarrow> i \<in> indices w"
    and indices_bound: "indices w \<subseteq> {..<bound}"
begin

lemma finite_indices: "finite (indices w)"
  using indices_bound by (rule finite_subset) simp

lemma card_indices_bound: "card (indices w) \<le> bound"
  using card_mono[OF _ indices_bound, of w] by simp

lemma card_add: "i < bound \<Longrightarrow> \<not> member i w \<Longrightarrow> card (indices (add i w)) = Suc (card (indices w))"
  by (simp add: indices_add member_iff finite_indices)

lemma card_remove: "i < bound \<Longrightarrow> member i w \<Longrightarrow> Suc (card (indices (remove i w))) = card (indices w)"
  using card_Suc_Diff1[OF finite_indices, of i w] by (simp add: indices_remove member_iff)

lemma add_remove: "i < bound \<Longrightarrow> \<not> member i w \<Longrightarrow> indices (remove i (add i w)) = indices w"
  by (simp add: indices_add indices_remove member_iff)

lemma free_index:
  assumes "n \<le> bound" "indices w \<subseteq> {..<n}" "card (indices w) < n"
  shows "\<exists>i<n. \<not> member i w"
proof (rule ccontr)
  assume "\<not> ?thesis"
  then have "{..<n} \<subseteq> indices w" using assms(1) member_iff by auto
  from card_mono[OF finite_indices this] assms(3) show False by simp
qed

end

section \<open>64-bit words\<close>

definition mask64 :: "nat \<Rightarrow> u64" where
  "mask64 i = push_bit i 1"

definition bits_of :: "u64 \<Rightarrow> nat set" where
  "bits_of w = {i. bit w i}"

lemma bit_mask64: "bit (mask64 i) j \<longleftrightarrow> j = i \<and> i < 64"
  by (auto simp: mask64_def bit_simps)

interpretation bm64: index_set bits_of "\<lambda>i w. w OR mask64 i" "\<lambda>i w. w AND NOT (mask64 i)"
  "\<lambda>i w. w AND mask64 i \<noteq> 0" 0 64
proof unfold_locales
  show "bits_of w \<subseteq> {..<64}" for w
    using bit_imp_le_length[of w] by (auto simp: bits_of_def)
  show "i < 64 \<Longrightarrow> (w AND mask64 i \<noteq> 0) = (i \<in> bits_of w)" for i w
    by (auto simp: bits_of_def bit_eq_iff[of "w AND mask64 i" 0] bit_simps bit_mask64)
  show "i < 64 \<Longrightarrow> bits_of (w AND NOT (mask64 i)) = bits_of w - {i}" for i w
    using bit_imp_le_length[of w] by (auto simp: bits_of_def bit_simps bit_mask64)
qed (auto simp: bits_of_def bit_simps bit_mask64)

lemma mask64_clear: "i < 64 \<Longrightarrow> w AND mask64 i = 0 \<longleftrightarrow> i \<notin> bits_of w"
  using bm64.member_iff by blast

end
