(* ===== verification/Barrier_State.thy ===== *)
theory Barrier_State
  imports Hcop_Proto Bitmap
begin

text \<open>
  The barrier service \<^verbatim>\<open>BarrierManager\<close> (\<^verbatim>\<open>lib/hcop/barrier_proto.h\<close>, \<^verbatim>\<open>barrier_state.h\<close>,
  \<^verbatim>\<open>barrier_state.cc\<close>): a bounded table of barriers, each with a generation, a number of
  participants, and the arrivals of the current generation as a count and a 64-bit bitmap. An
  arrival returns its status, the messages it pushed and the new manager.
\<close>

section \<open>Wire messages\<close>

definition kArrive :: u8 where [simp]: "kArrive = 1"
definition kRelease_barrier :: u8 where [simp]: "kRelease_barrier = 2"

record BarrierMsgHeader =
  br_msg_type :: u8
  br_sender_id :: u8
  br_generation :: u16
  br_barrier_id :: u32

definition sizeof_BarrierMsgHeader :: nat where [simp]: "sizeof_BarrierMsgHeader = 8"

definition enc_br_hdr :: "BarrierMsgHeader \<Rightarrow> bytes" where
  "enc_br_hdr h = le_bytes 1 (br_msg_type h) @ le_bytes 1 (br_sender_id h) @
     le_bytes 2 (br_generation h) @ le_bytes 4 (br_barrier_id h)"

definition dec_br_hdr :: "bytes \<Rightarrow> BarrierMsgHeader option" where
  "dec_br_hdr bs = do {
     t \<leftarrow> rd8 bs 0;
     s \<leftarrow> rd8 bs 1;
     g \<leftarrow> rd16 bs 2;
     b \<leftarrow> rd32 bs 4;
     Some \<lparr> br_msg_type = t, br_sender_id = s, br_generation = g, br_barrier_id = b \<rparr> }"

section \<open>State\<close>

datatype BarrierStatus =
    Br_kOk
  | Br_kRelease
  | Br_kLateArrival
  | Br_kFutureArrival
  | Br_kDuplicateArrival
  | Br_kLayoutOverflow
  | Br_kInvalidMessage
  | Br_kInvalidConfiguration

record BarrierState =
  current_generation :: u16
  num_participants :: u16
  arrived_count :: u16
  arrived_bitmap :: u64

definition sizeof_BarrierState :: nat where [simp]: "sizeof_BarrierState = 16"

record BarrierManager =
  max_barriers :: u32
  default_participants :: u16
  barriers :: "(u32 \<times> BarrierState) list"
  br_exception_cb :: "(u16 \<times> u32) list option"

type_synonym barrier_result = "BarrierStatus \<times> OutMessage list \<times> BarrierManager"

definition BarrierManager_new :: "u32 \<Rightarrow> u16 \<Rightarrow> BarrierManager" where
  "BarrierManager_new mb dp = \<lparr> max_barriers = mb, default_participants = dp, barriers = [],
     br_exception_cb = None \<rparr>"

definition SetExceptionCallback_barrier :: "BarrierManager \<Rightarrow> BarrierManager" where
  "SetExceptionCallback_barrier s = s\<lparr> br_exception_cb := Some [] \<rparr>"

definition BarrierCount :: "BarrierManager \<Rightarrow> nat" where
  "BarrierCount s = length (barriers s)"

definition MemoryUsedBytes :: "BarrierManager \<Rightarrow> nat" where
  "MemoryUsedBytes s = length (barriers s) * sizeof_BarrierState"

definition GetBarrier :: "u32 \<Rightarrow> BarrierManager \<Rightarrow> BarrierState option" where
  "GetBarrier b s = map_of (barriers s) b"

definition exception_call_barrier :: "u16 \<Rightarrow> u32 \<Rightarrow> BarrierManager \<Rightarrow> BarrierManager" where
  "exception_call_barrier t b s =
     s\<lparr> br_exception_cb := map_option (\<lambda>l. l @ [(t, b)]) (br_exception_cb s) \<rparr>"

definition put_barrier :: "u32 \<Rightarrow> BarrierState \<Rightarrow> BarrierManager \<Rightarrow> BarrierManager" where
  "put_barrier b st s = s\<lparr> barriers := AList.update b st (barriers s) \<rparr>"

section \<open>Operations\<close>

definition MakeRelease :: "u32 \<Rightarrow> u16 \<Rightarrow> OutMessage" where
  "MakeRelease b g = \<lparr> dest_id = kBroadcast, out_data = enc_br_hdr
     \<lparr> br_msg_type = kRelease_barrier, br_sender_id = kBroadcast, br_generation = g, br_barrier_id = b \<rparr> \<rparr>"

definition SetParticipants :: "u32 \<Rightarrow> u16 \<Rightarrow> BarrierManager \<Rightarrow> BarrierStatus \<times> BarrierManager" where
  "SetParticipants b n s =
     (if n < 2 \<or> n > 64 then (Br_kInvalidConfiguration, s)
      else (Br_kOk, put_barrier b \<lparr> current_generation = 0, num_participants = n,
                                    arrived_count = 0, arrived_bitmap = 0 \<rparr> s))"

text \<open>The part of \<^verbatim>\<open>Arrive\<close> after the barrier was found: generation tests, duplicates, release.\<close>

definition arrive_at :: "u32 \<Rightarrow> BarrierState \<Rightarrow> u16 \<Rightarrow> u8 \<Rightarrow> BarrierManager \<Rightarrow> barrier_result" where
  "arrive_at b st g sid s =
     (if g < current_generation st then (Br_kLateArrival, [], exception_call_barrier kBarrierLateArrival b s)
      else if g > current_generation st then (Br_kFutureArrival, [], s)
      else if sid < 64 \<and> (arrived_bitmap st AND mask64 (unat sid)) \<noteq> 0 then (Br_kDuplicateArrival, [], s)
      else
        (let bm = (if sid < 64 then arrived_bitmap st OR mask64 (unat sid) else arrived_bitmap st);
             cnt = arrived_count st + 1 in
         if cnt \<ge> num_participants st
         then (Br_kRelease, [MakeRelease b (current_generation st)],
               put_barrier b (st\<lparr> current_generation := current_generation st + 1,
                                  arrived_count := 0, arrived_bitmap := 0 \<rparr>) s)
         else (Br_kOk, [], put_barrier b (st\<lparr> arrived_count := cnt, arrived_bitmap := bm \<rparr>) s)))"

definition Arrive :: "u32 \<Rightarrow> u16 \<Rightarrow> u8 \<Rightarrow> BarrierManager \<Rightarrow> barrier_result" where
  "Arrive b g sid s =
     (case map_of (barriers s) b of
        Some st \<Rightarrow> arrive_at b st g sid s
      | None \<Rightarrow>
          if unat (max_barriers s) \<le> length (barriers s)
          then (Br_kLayoutOverflow, [], exception_call_barrier kBarrierGenerationOverflow b s)
          else (case SetParticipants b (default_participants s) s of
                  (status, s1) \<Rightarrow>
                    if status \<noteq> Br_kOk then (status, [], s1)
                    else (case map_of (barriers s1) b of
                            None \<Rightarrow> (Br_kInvalidConfiguration, [], s1)
                          | Some st \<Rightarrow> arrive_at b st g sid s1)))"

definition HandleMessage_barrier :: "bytes \<Rightarrow> BarrierManager \<Rightarrow> barrier_result option" where
  "HandleMessage_barrier data s =
     (if length data < sizeof_BarrierMsgHeader then Some (Br_kInvalidMessage, [], s)
      else do {
        hdr \<leftarrow> dec_br_hdr data;
        if br_msg_type hdr = kArrive
        then Some (Arrive (br_barrier_id hdr) (br_generation hdr) (br_sender_id hdr) s)
        else Some (Br_kInvalidMessage, [], s) })"

end
