(* ===== verification/Primitive_Engine.thy ===== *)
theory Primitive_Engine
  imports Paxos_State Lock_State Barrier_State
begin

text \<open>
  The primitive engine of the switch (\<^verbatim>\<open>sims/net/hcop_switch\<close>): its configuration
  (\<^verbatim>\<open>switch_config.h\<close>, \<^verbatim>\<open>switch_config.cc\<close>) and the processing of one packet
  (\<^verbatim>\<open>primitive_engine.h\<close>, \<^verbatim>\<open>primitive_engine.cc\<close>). A packet is modified in place and a routing
  decision is returned. \<open>None\<close> is an access outside the packet or a failed assertion.
\<close>

section \<open>Configuration\<close>

datatype PlacementMode = kProcessAndForward | kForwardOnly

record SwitchConfig =
  sram_pages_total :: u32
  tcam_blocks_total :: u32
  pipeline_stages :: u32
  stage_latency_ns :: u64
  switch_node_id :: u8
  sw_num_replicas :: u8
  barrier_default_participants :: u8
  placement_mode :: PlacementMode
  fallback_port_index :: int
  node_port_map :: "(u8 \<times> int) list"
  sw_telemetry_interval_ms :: u64

definition SwitchConfig_init :: SwitchConfig where
  "SwitchConfig_init = \<lparr> sram_pages_total = 6400, tcam_blocks_total = 1920, pipeline_stages = 20,
     stage_latency_ns = 50, switch_node_id = 0, sw_num_replicas = 3, barrier_default_participants = 3,
     placement_mode = kProcessAndForward, fallback_port_index = -1, node_port_map = [],
     sw_telemetry_interval_ms = 100 \<rparr>"

text \<open>
  A configuration document is what the loader uses of it: the converted value of each field it
  asks for, or none. The costs in SRAM pages are floating-point numbers and enter through the
  capacities of the engine below.
\<close>

record SwitchTopology =
  tp_fallback_port_index :: "int option"
  tp_dpu_port_index :: "int option"
  tp_nodes :: "(u8 \<times> int) list option"

record SwitchJson =
  sj_sram_pages_total :: "u32 option"
  sj_tcam_blocks_total :: "u32 option"
  sj_pipeline_stages :: "u32 option"
  sj_stage_latency_ns :: "u64 option"
  sj_topology :: "SwitchTopology option"
  sj_placement_mode :: "string option"
  sj_num_replicas :: "u8 option"
  sj_switch_node_id :: "u8 option"
  sj_barrier_default_participants :: "u8 option"
  sj_telemetry_interval_ms :: "u64 option"

datatype switch_config_error = SwCannotOpen | SwSramZero | SwTcamZero

definition apply_topology :: "SwitchTopology \<Rightarrow> SwitchConfig \<Rightarrow> SwitchConfig" where
  "apply_topology t c =
     (let c1 = (case tp_fallback_port_index t of
                  Some p \<Rightarrow> c\<lparr> fallback_port_index := p \<rparr>
                | None \<Rightarrow> (case tp_dpu_port_index t of Some p \<Rightarrow> c\<lparr> fallback_port_index := p \<rparr> | None \<Rightarrow> c)) in
      c1\<lparr> node_port_map := fold (\<lambda>(i, p) m. AList.update i p m) (case_option [] id (tp_nodes t)) (node_port_map c1) \<rparr>)"

definition Load :: "SwitchJson option \<Rightarrow> switch_config_error + SwitchConfig" where
  "Load file = (case file of None \<Rightarrow> Inl SwCannotOpen | Some j \<Rightarrow>
     (let c1 = SwitchConfig_init\<lparr>
            sram_pages_total := case_option (sram_pages_total SwitchConfig_init) id (sj_sram_pages_total j),
            tcam_blocks_total := case_option (tcam_blocks_total SwitchConfig_init) id (sj_tcam_blocks_total j),
            pipeline_stages := case_option (pipeline_stages SwitchConfig_init) id (sj_pipeline_stages j),
            stage_latency_ns := case_option (stage_latency_ns SwitchConfig_init) id (sj_stage_latency_ns j) \<rparr>;
          c2 = (case sj_topology j of Some t \<Rightarrow> apply_topology t c1 | None \<Rightarrow> c1);
          c3 = (case sj_placement_mode j of
                  Some m \<Rightarrow> c2\<lparr> placement_mode := (if m = ''forward_only'' then kForwardOnly else kProcessAndForward) \<rparr>
                | None \<Rightarrow> c2) in
      if sram_pages_total c3 = 0 then Inl SwSramZero
      else if tcam_blocks_total c3 = 0 then Inl SwTcamZero
      else Inr (c3\<lparr>
            sw_num_replicas := case_option (sw_num_replicas c3) id (sj_num_replicas j),
            switch_node_id := case_option (switch_node_id c3) id (sj_switch_node_id j),
            barrier_default_participants :=
              case_option (barrier_default_participants c3) id (sj_barrier_default_participants j),
            sw_telemetry_interval_ms :=
              case_option (sw_telemetry_interval_ms c3) id (sj_telemetry_interval_ms j) \<rparr>)))"

section \<open>State and initialisation\<close>

record PrimitiveEngine =
  config :: SwitchConfig
  paxos :: PaxosNode
  locks :: LockManager
  barrier_mgr :: BarrierManager

text \<open>
  The capacities are floating-point quotients converted to \<^verbatim>\<open>size_t\<close>; each is given as the
  quotient, or none when the cost per entry is not positive. The engine raises them to at least
  one, and the constructors take them as 32-bit numbers.
\<close>

definition engine_capacity :: "u64 option \<Rightarrow> u32" where
  "engine_capacity quot = (let c = (case quot of Some q \<Rightarrow> q | None \<Rightarrow> 10000) in ucast (if c < 1 then 1 else c))"

definition Init :: "SwitchConfig \<Rightarrow> u64 option \<Rightarrow> u64 option \<Rightarrow> u64 option \<Rightarrow> PrimitiveEngine option" where
  "Init cfg pq lq bq = do {
     p \<leftarrow> PaxosNode_new (switch_node_id cfg) (ucast (sw_num_replicas cfg)) (engine_capacity pq);
     Some \<lparr> config = cfg, paxos = p, locks = LockManager_new (engine_capacity lq) 10000000 0,
            barrier_mgr = BarrierManager_new (engine_capacity bq) (ucast (barrier_default_participants cfg)) \<rparr> }"

definition GetPortForNode :: "PrimitiveEngine \<Rightarrow> u8 \<Rightarrow> int" where
  "GetPortForNode e nid = (case map_of (node_port_map (config e)) nid of Some p \<Rightarrow> p | None \<Rightarrow> -1)"

section \<open>Routing\<close>

datatype Action = kUnicast | kMulticast | kDrop | kToFallback | kBroadcastAll

record RoutingDecision =
  action :: Action
  dst_ports :: "int list"

abbreviation decide :: "Action \<Rightarrow> RoutingDecision" where
  "decide a \<equiv> \<lparr> action = a, dst_ports = [] \<rparr>"

type_synonym engine_result = "(RoutingDecision \<times> bytes \<times> PrimitiveEngine) option"

definition resize :: "nat \<Rightarrow> bytes \<Rightarrow> bytes" where
  "resize n bs = take n bs @ replicate (n - length bs) 0"

definition UpdatePacketPayload :: "bytes \<Rightarrow> bytes \<Rightarrow> bytes option" where
  "UpdatePacketPayload pkt payload = do {
     p \<leftarrow> with_HcopHeader (\<lambda>h. h\<lparr> payload_len := of_nat (length payload) \<rparr>)
            (wr 30 payload (resize (30 + length payload) pkt));
     Some (wr 6 [0x02, 0x00, 0x53, 0x57, 0x54, 0x00] p) }"

definition AGGREGATE_ROUTING :: "PrimitiveEngine \<Rightarrow> OutMessage list \<Rightarrow> bytes \<Rightarrow> (RoutingDecision \<times> bytes) option" where
  "AGGREGATE_ROUTING e out pkt = do {
     p \<leftarrow> UpdatePacketPayload pkt (out_data (hd out));
     let ports = filter (\<lambda>p. p \<ge> 0) (map (\<lambda>m. GetPortForNode e (dest_id m)) (filter (\<lambda>m. dest_id m \<noteq> 255) out));
     Some (if \<exists>m\<in>set out. dest_id m = 255 then decide kBroadcastAll
           else if length ports > 1 then \<lparr> action = kMulticast, dst_ports = ports \<rparr>
           else if length ports = 1 then \<lparr> action = kUnicast, dst_ports = ports \<rparr>
           else decide kDrop, p) }"

definition set_exception :: "u16 \<Rightarrow> bytes \<Rightarrow> bytes option" where
  "set_exception x = with_HcopHeader (\<lambda>h. h\<lparr> exception_type := x \<rparr>)"

definition get_exception :: "bytes \<Rightarrow> u16 option" where
  "get_exception pkt = map_option exception_type (decode_HcopHeader pkt 14)"

section \<open>Primitives\<close>

definition HandlePaxos :: "bytes \<Rightarrow> PrimitiveEngine \<Rightarrow> engine_result" where
  "HandlePaxos pkt e = do {
     (status, out, n) \<leftarrow> Paxos_State.HandleMessage (drop 30 pkt) (paxos e);
     let e1 = e\<lparr> paxos := n \<rparr>;
     if status \<noteq> Px_kOk then do {
       pkt1 \<leftarrow> (if status = Px_kInstanceOverflow then set_exception kPaxosStateOverflow pkt else Some pkt);
       x \<leftarrow> get_exception pkt1;
       Some (if x \<noteq> 0 then decide kToFallback else decide kDrop, pkt1, e1) }
     else if out = [] then Some (decide kDrop, pkt, e1)
     else do { (d, p) \<leftarrow> AGGREGATE_ROUTING e1 out pkt; Some (d, p, e1) } }"

definition HandleLock :: "bytes \<Rightarrow> u64 \<Rightarrow> PrimitiveEngine \<Rightarrow> engine_result" where
  "HandleLock pkt now e = do {
     (status, out, m) \<leftarrow> HandleMessage_lock (drop 30 pkt) now (locks e);
     let e1 = e\<lparr> locks := m \<rparr>;
     let abnormal = (status \<noteq> Lk_kOk \<and> status \<noteq> Lk_kGranted \<and> status \<noteq> Lk_kNotHeld);
     pkt1 \<leftarrow> (if status = Lk_kContention then set_exception kLockContention pkt
              else if status = Lk_kKeyOverflow then set_exception kLockStateOverflow pkt else Some pkt);
     x \<leftarrow> get_exception pkt1;
     if abnormal \<and> status \<noteq> Lk_kDenied \<and> x \<noteq> 0 then Some (decide kToFallback, pkt1, e1)
     else if out = [] then do {
       t \<leftarrow> rd8 pkt1 30;
       Some (if t = kRelease \<and> fallback_port_index (config e) \<ge> 0 then decide kToFallback else decide kDrop,
             pkt1, e1) }
     else do { (d, p) \<leftarrow> AGGREGATE_ROUTING e1 out pkt1; Some (d, p, e1) } }"

definition HandleBarrier :: "bytes \<Rightarrow> PrimitiveEngine \<Rightarrow> engine_result" where
  "HandleBarrier pkt e = do {
     (status, out, m) \<leftarrow> HandleMessage_barrier (drop 30 pkt) (barrier_mgr e);
     let e1 = e\<lparr> barrier_mgr := m \<rparr>;
     if status \<noteq> Br_kOk \<and> status \<noteq> Br_kRelease then
       (if status = Br_kFutureArrival then Some (decide kDrop, pkt, e1)
        else do {
          pkt1 \<leftarrow> (if status = Br_kLateArrival then set_exception kBarrierLateArrival pkt
                   else if status = Br_kLayoutOverflow then set_exception kBarrierGenerationOverflow pkt
                   else Some pkt);
          x \<leftarrow> get_exception pkt1;
          Some (if x \<noteq> 0 then decide kToFallback else decide kDrop, pkt1, e1) })
     else if out = [] then Some (decide kDrop, pkt, e1)
     else do { (d, p) \<leftarrow> AGGREGATE_ROUTING e1 out pkt; Some (d, p, e1) } }"

text \<open>
  Whether a packet that comes back from the fallback tier is a response; it reads the message
  type, the first byte after the header.
\<close>

definition is_response :: "bytes \<Rightarrow> u16 \<Rightarrow> bool option" where
  "is_response pkt prim =
     (if prim = kPrimitiveBarrier then map_option (\<lambda>t. t = kRelease_barrier) (rd8 pkt 30)
      else if prim = kPrimitiveLock then map_option (\<lambda>t. t = kGrant \<or> t = kDeny \<or> t = kTimeout) (rd8 pkt 30)
      else if prim = kPrimitivePaxos then map_option (\<lambda>t. t \<noteq> 1 \<and> t \<noteq> 3) (rd8 pkt 30)
      else Some False)"

definition HandlePacket_engine :: "bytes \<Rightarrow> int \<Rightarrow> u64 \<Rightarrow> PrimitiveEngine \<Rightarrow> engine_result" where
  "HandlePacket_engine pkt0 ingress now e =
     (let fb = fallback_port_index (config e) in
      if length pkt0 < 14 then Some (decide kDrop, pkt0, e)
      else if (push_bit 8 (ucast (pkt0 ! 12)) OR ucast (pkt0 ! 13) :: u16) \<noteq> kHcopEtherType
      then Some (decide kMulticast, pkt0, e)
      else if length pkt0 < 30 then Some (decide kDrop, pkt0, e)
      else do {
        pkt \<leftarrow> with_HcopHeader (HCOP_APPEND_PATH kTierSwitch) pkt0;
        hdr \<leftarrow> decode_HcopHeader pkt 14;
        if placement_mode (config e) = kForwardOnly then
          Some (if fb \<ge> 0 \<and> ingress = fb then decide kMulticast
                else if fb \<ge> 0 then decide kToFallback
                else decide kMulticast, pkt, e)
        else do {
          resp \<leftarrow> (if fb \<ge> 0 \<and> ingress = fb then is_response pkt (primitive_type hdr) else Some False);
          if resp then Some (decide kMulticast, pkt, e)
          else if exception_type hdr \<noteq> 0 then
            Some (if fb \<ge> 0 then decide kToFallback else decide kDrop, pkt, e)
          else if primitive_type hdr = kPrimitivePaxos then HandlePaxos pkt e
          else if primitive_type hdr = kPrimitiveLock then HandleLock pkt now e
          else if primitive_type hdr = kPrimitiveBarrier then HandleBarrier pkt e
          else Some (decide kDrop, pkt, e) } })"

end
