(* ===== verification/Paxos_Safety.thy ===== *)
theory Paxos_Safety
  imports Paxos_State
begin

text \<open>
  Properties of a single Paxos replica: memory safety of message handling, monotonicity of
  promises, the promise every acceptance respects, capacity of the instance log, and the
  behaviour of each handler on its branches.
\<close>

section \<open>Memory safety of the handlers\<close>

text \<open>
  A message with a value array announces the length of its value in a field; the dispatcher
  only checks that the fixed fields are present. The handlers stay inside the buffer when the
  announced bytes (at most \<^const>\<open>kMaxValueSize\<close>) are there.
\<close>

definition value_in_bounds :: "bytes \<Rightarrow> nat \<Rightarrow> nat \<Rightarrow> bool" where
  "value_in_bounds data lenoff valoff =
     (case rd16 data lenoff of None \<Rightarrow> True | Some l \<Rightarrow> valoff + unat (clamp_len l) \<le> length data)"

definition payload_in_bounds :: "bytes \<Rightarrow> bool" where
  "payload_in_bounds data =
     (case rd8 data 0 of None \<Rightarrow> True
      | Some t \<Rightarrow>
          if t = kPromise then value_in_bounds data 24 26
          else if t = kAccept \<or> t = kAccepted then value_in_bounds data 16 18
          else if t = kLearn then value_in_bounds data 8 10
          else True)"

lemma MakeAcceptBroadcast_total:
  "unat (clamp_len l) \<le> length v \<Longrightarrow> \<exists>m. MakeAcceptBroadcast n iid p v l = Some m"
  by (simp add: MakeAcceptBroadcast_def)

lemma MakeAccepted_total:
  "unat (clamp_len l) \<le> length v \<Longrightarrow> \<exists>m. MakeAccepted n d iid p v l = Some m"
  by (simp add: MakeAccepted_def)

lemma MakeLearn_total: "unat (clamp_len l) \<le> length v \<Longrightarrow> \<exists>m. MakeLearn n d iid v l = Some m"
  by (simp add: MakeLearn_def)

lemma MakePromise_total: "inst_ok i \<Longrightarrow> \<exists>m. MakePromise n d iid i = Some m"
  by (simp add: MakePromise_def inst_ok_def)

lemma those_map_Some: "(\<And>x. x \<in> set xs \<Longrightarrow> \<exists>y. f x = Some y) \<Longrightarrow> \<exists>ys. those (map f xs) = Some ys"
  by (induction xs) fastforce+

lemma learn_broadcast_total:
  "unat (clamp_len l) \<le> length v \<Longrightarrow> \<exists>ms. learn_broadcast n iid v l = Some ms"
  unfolding learn_broadcast_def by (rule those_map_Some) (rule MakeLearn_total)

lemma commit_value_total:
  "inst_ok i \<Longrightarrow> unat (clamp_len l) \<le> length v \<Longrightarrow> \<exists>j. commit_value v l i = Some j"
  by (simp add: commit_value_def inst_ok_def)

lemma Propose_total:
  assumes "paxos_inv n" "unat vlen \<le> length val"
  shows "\<exists>r. Propose iid val vlen n = Some r"
proof -
  obtain n1 r where g: "GetOrCreateInstance iid n = (n1, r)" by fastforce
  note n1 = paxos_inv_GetOrCreate(1)[OF assms(1) g]
  have "ps_ok (get_proposer iid (snd (NextRound n1)))" using n1 by simp
  then show ?thesis using g assms(2)
    by (auto simp: Propose_def Let_def NextRound_def ps_ok_def MakeAcceptBroadcast_def clamp_len_id
        split: option.splits)
qed

lemma HandlePrepare_total:
  assumes "paxos_inv n"
  shows "\<exists>r. HandlePrepare m n = Some r"
proof -
  let ?iid = "px_instance_id (prep_hdr m)"
  obtain n1 r where g: "GetOrCreateInstance ?iid n = (n1, r)" by fastforce
  show ?thesis
  proof (cases r)
    case None
    with g show ?thesis by (simp add: HandlePrepare_def Let_def)
  next
    case (Some i)
    have "\<exists>o'. MakePromise n2 d iid (i\<lparr> highest_promised := p \<rparr>) = Some o'" for n2 d iid p
      using paxos_inv_GetOrCreate(2)[OF assms g Some] by (simp add: MakePromise_def inst_ok_def)
    then obtain o' where "MakePromise (put_instance ?iid (i\<lparr> highest_promised := prep_proposal m \<rparr>) n1)
        (px_sender_id (prep_hdr m)) ?iid (i\<lparr> highest_promised := prep_proposal m \<rparr>) = Some o'"
      by blast
    with g Some show ?thesis by (simp add: HandlePrepare_def Let_def)
  qed
qed

lemma HandlePromise_total:
  assumes "paxos_inv n" "unat (clamp_len (prom_accepted_value_len m)) \<le> length (prom_accepted_value m)"
  shows "\<exists>r. HandlePromise m n = Some r"
proof -
  let ?iid = "px_instance_id (prom_hdr m)"
  have rp: "\<exists>ps1. record_promise m ps = Some ps1" if "ps_ok ps" for ps
    using that assms(2) by (simp add: record_promise_def ps_ok_def Let_def)
  have ab: "\<exists>o'. MakeAcceptBroadcast n ?iid p (fst (if b then (highest_accepted_value ps1, l1)
        else (ps_value ps1, l2))) (snd (if b then (highest_accepted_value ps1, l1) else (ps_value ps1, l2))) = Some o'"
    if "ps_ok ps1" for p b ps1 l1 l2
    using that by (intro MakeAcceptBroadcast_total) (simp add: ps_ok_def)
  show ?thesis
  proof (cases "map_of (proposer_state n) ?iid")
    case None
    then show ?thesis by (simp add: HandlePromise_def)
  next
    case (Some ps)
    note ok = paxos_invD(1)[OF assms(1) Some]
    then obtain ps1 where 1: "record_promise m ps = Some ps1" using rp by blast
    obtain o' where "MakeAcceptBroadcast n ?iid (ps_proposal ps1)
        (fst (if \<not> IsNull (highest_accepted_in_promises ps1) then (highest_accepted_value ps1, highest_accepted_value_len ps1)
              else (ps_value ps1, ps_value_len ps1)))
        (snd (if \<not> IsNull (highest_accepted_in_promises ps1) then (highest_accepted_value ps1, highest_accepted_value_len ps1)
              else (ps_value ps1, ps_value_len ps1))) = Some o'"
      using ab[OF record_promise_ok[OF ok 1]] by blast
    with Some 1 show ?thesis by (simp add: HandlePromise_def Let_def)
  qed
qed

lemma HandleAccept_total:
  assumes "paxos_inv n" "unat (clamp_len (acc_value_len m)) \<le> length (acc_value m)"
  shows "\<exists>r. HandleAccept m n = Some r"
proof -
  obtain n1 r where g: "GetOrCreateInstance (px_instance_id (acc_hdr m)) n = (n1, r)" by fastforce
  from paxos_inv_GetOrCreate(2)[OF assms(1) g] assms(2) show ?thesis
    by (auto simp: HandleAccept_def Let_def g MakeLearn_def MakeAccepted_def inst_ok_def
        split: option.splits)
qed

lemma HandleAccepted_total:
  assumes "paxos_inv n" "unat (clamp_len (accd_value_len m)) \<le> length (accd_value m)"
  shows "\<exists>r. HandleAccepted m n = Some r"
proof (cases "map_of (proposer_state n) (px_instance_id (accd_hdr m))")
  case None
  then show ?thesis by (simp add: HandleAccepted_def)
next
  case (Some ps)
  let ?iid = "px_instance_id (accd_hdr m)"
  let ?n1 = "put_proposer ?iid (ps\<lparr> accepted_count := accepted_count ps + 1, ps_committed := True \<rparr>) n"
  have inv: "paxos_inv ?n1"
    using assms(1) paxos_invD(1)[OF assms(1) Some]
    by (intro paxos_inv_put_proposer) (auto simp: ps_ok_def)
  obtain n2 r where g: "GetOrCreateInstance ?iid ?n1 = (n2, r)" by fastforce
  have c: "\<exists>j. commit_value (accd_value m) (accd_value_len m) i = Some j" if "r = Some i" for i
    using paxos_inv_GetOrCreate(2)[OF inv g that] assms(2) by (intro commit_value_total) auto
  have l: "\<exists>ms. learn_broadcast n3 ?iid (accd_value m) (accd_value_len m) = Some ms" for n3
    using assms(2) by (rule learn_broadcast_total)
  show ?thesis
  proof (cases r)
    case None
    with g Some l[of n2] show ?thesis by (auto simp: HandleAccepted_def Let_def)
  next
    case (Some i)
    from c[OF this] obtain j where j: "commit_value (accd_value m) (accd_value_len m) i = Some j" by blast
    with g Some \<open>map_of (proposer_state n) ?iid = Some ps\<close> l[of "put_instance ?iid j n2"]
    show ?thesis by (auto simp: HandleAccepted_def Let_def)
  qed
qed

lemma HandleLearn_total:
  assumes "paxos_inv n" "unat (clamp_len (learn_value_len m)) \<le> length (learn_value m)"
  shows "\<exists>r. HandleLearn m n = Some r"
proof -
  obtain n1 r where g: "GetOrCreateInstance (px_instance_id (learn_hdr m)) n = (n1, r)" by fastforce
  have c: "\<exists>j. commit_value (learn_value m) (learn_value_len m) i = Some j" if "r = Some i" for i
    using paxos_inv_GetOrCreate(2)[OF assms(1) g that] assms(2) by (intro commit_value_total) auto
  then show ?thesis using g by (fastforce simp: HandleLearn_def Let_def split: option.splits)
qed

lemma HandleNack_total: "\<exists>r. HandleNack m n = Some r"
  by (simp add: HandleNack_def Let_def)

lemma StartLeaderElection_total: "\<exists>r. StartLeaderElection iid n = Some r"
  by (auto simp: StartLeaderElection_def Let_def split: prod.splits option.splits)

lemma rd8_Some_take: "rd8 bs 0 = Some t \<Longrightarrow> 1 \<le> length bs"
  using rdw_Some_lengthD[of 1 bs 0] by auto

lemma dec_px_hdr_type: "dec_px_hdr bs = Some h \<Longrightarrow> rd8 bs 0 = Some (px_msg_type h)"
  by (auto simp: dec_px_hdr_def bind_eq_Some_conv)

lemma dec_value_bounds:
  "dec_PromiseMsg bs = Some p \<Longrightarrow> value_in_bounds bs 24 26 \<Longrightarrow>
     unat (clamp_len (prom_accepted_value_len p)) \<le> length (prom_accepted_value p)"
  "dec_AcceptMsg bs = Some a \<Longrightarrow> value_in_bounds bs 16 18 \<Longrightarrow>
     unat (clamp_len (acc_value_len a)) \<le> length (acc_value a)"
  "dec_AcceptedMsg bs = Some d \<Longrightarrow> value_in_bounds bs 16 18 \<Longrightarrow>
     unat (clamp_len (accd_value_len d)) \<le> length (accd_value d)"
  "dec_LearnMsg bs = Some l \<Longrightarrow> value_in_bounds bs 8 10 \<Longrightarrow>
     unat (clamp_len (learn_value_len l)) \<le> length (learn_value l)"
  by (auto simp: dec_PromiseMsg_def dec_AcceptMsg_def dec_AcceptedMsg_def dec_LearnMsg_def
      value_in_bounds_def bind_eq_Some_conv)

lemma dec_enough:
  "16 \<le> length bs \<Longrightarrow> \<exists>m. dec_PrepareMsg bs = Some m"
  "26 \<le> length bs \<Longrightarrow> \<exists>m. dec_PromiseMsg bs = Some m"
  "18 \<le> length bs \<Longrightarrow> \<exists>m. dec_AcceptMsg bs = Some m"
  "18 \<le> length bs \<Longrightarrow> \<exists>m. dec_AcceptedMsg bs = Some m"
  "10 \<le> length bs \<Longrightarrow> \<exists>m. dec_LearnMsg bs = Some m"
  "16 \<le> length bs \<Longrightarrow> \<exists>m. dec_NackMsg bs = Some m"
  by (simp_all add: dec_PrepareMsg_def dec_PromiseMsg_def dec_AcceptMsg_def dec_AcceptedMsg_def
      dec_LearnMsg_def dec_NackMsg_def dec_px_hdr_def dec_pn_def)

lemma HandleMessage_total:
  assumes inv: "paxos_inv n" and pay: "payload_in_bounds data"
  shows "\<exists>r. HandleMessage data n = Some r"
proof (cases "length data < 8")
  case True
  then show ?thesis by (simp add: HandleMessage_def)
next
  case False
  then obtain h where h: "dec_px_hdr data = Some h" using dec_px_hdr_enough[of data] by auto
  note t = dec_px_hdr_type[OF h]
  have prep: "\<exists>r. (dec_PrepareMsg data \<bind> (\<lambda>m. HandlePrepare m n)) = Some r" if "16 \<le> length data"
    using dec_enough(1)[OF that] HandlePrepare_total[OF inv] by auto
  have prom: "\<exists>r. (dec_PromiseMsg data \<bind> (\<lambda>m. HandlePromise m n)) = Some r"
    if "26 \<le> length data" "px_msg_type h = 2"
    using dec_enough(2)[OF that(1)] HandlePromise_total[OF inv] dec_value_bounds(1) pay t that(2)
    by (fastforce simp: payload_in_bounds_def)
  have acc: "\<exists>r. (dec_AcceptMsg data \<bind> (\<lambda>m. HandleAccept m n)) = Some r"
    if "18 \<le> length data" "px_msg_type h = 3"
    using dec_enough(3)[OF that(1)] HandleAccept_total[OF inv] dec_value_bounds(2) pay t that(2)
    by (fastforce simp: payload_in_bounds_def)
  have accd: "\<exists>r. (dec_AcceptedMsg data \<bind> (\<lambda>m. HandleAccepted m n)) = Some r"
    if "18 \<le> length data" "px_msg_type h = 4"
    using dec_enough(4)[OF that(1)] HandleAccepted_total[OF inv] dec_value_bounds(3) pay t that(2)
    by (fastforce simp: payload_in_bounds_def)
  have learn: "\<exists>r. (dec_LearnMsg data \<bind> (\<lambda>m. HandleLearn m n)) = Some r"
    if "10 \<le> length data" "px_msg_type h = 5"
    using dec_enough(5)[OF that(1)] HandleLearn_total[OF inv] dec_value_bounds(4) pay t that(2)
    by (fastforce simp: payload_in_bounds_def)
  have nack: "\<exists>r. (dec_NackMsg data \<bind> (\<lambda>m. HandleNack m n)) = Some r" if "16 \<le> length data"
    using dec_enough(6)[OF that] HandleNack_total by auto
  show ?thesis
    using False h prep prom acc accd learn nack by (simp add: HandleMessage_def Let_def)
qed

section \<open>How instances evolve\<close>

text \<open>
  Two properties relate an instance before and after an operation: promises and acceptances
  only grow, and a committed value is kept. Both are proved once, for any reflexive and
  transitive relation that the updates of the acceptor handlers respect. The locale
  \<open>instance_evolution\<close> covers every operation but the handling of ACCEPTED; its extension
  \<open>instance_evolution_commit\<close> adds that one, for relations that recording a committed value
  always respects.
\<close>

definition evolves :: "(InstanceState \<Rightarrow> InstanceState \<Rightarrow> bool) \<Rightarrow> PaxosNode \<Rightarrow> PaxosNode \<Rightarrow> bool" where
  "evolves R n n' \<longleftrightarrow> (\<forall>iid i. map_of (instances n) iid = Some i \<longrightarrow>
     (\<exists>j. map_of (instances n') iid = Some j \<and> R i j))"

lemma instances_frame [simp]:
  "instances (put_proposer iid ps n) = instances n"
  "instances (snd (NextRound n)) = instances n"
  by (simp_all add: put_proposer_def)

locale instance_evolution =
  fixes R :: "InstanceState \<Rightarrow> InstanceState \<Rightarrow> bool"
  assumes R_refl: "R i i"
    and R_trans: "R i j \<Longrightarrow> R j k \<Longrightarrow> R i k"
    and R_promise: "inst_ok i \<Longrightarrow> highest_promised i < p \<Longrightarrow> R i (i\<lparr> highest_promised := p \<rparr>)"
    and R_accept: "inst_ok i \<Longrightarrow> \<not> is_committed i \<Longrightarrow> highest_promised i \<le> p \<Longrightarrow>
          R i (i\<lparr> highest_promised := p, accepted_proposal := p, accepted_value_len := l, accepted_value := v \<rparr>)"
    and R_learn: "\<not> is_committed i \<Longrightarrow> commit_value v l i = Some j \<Longrightarrow> R i j"
begin

lemma ev_same: "instances n' = instances n \<Longrightarrow> evolves R n n'"
  by (simp add: evolves_def R_refl)

lemma ev_trans: "evolves R a b \<Longrightarrow> evolves R b c \<Longrightarrow> evolves R a c"
  unfolding evolves_def by (meson R_trans)

lemma ev_put: "map_of (instances n) iid = Some i \<Longrightarrow> R i j \<Longrightarrow> evolves R n (put_instance iid j n)"
  by (auto simp: evolves_def put_instance_def R_refl)

lemma ev_GetOrCreate: "GetOrCreateInstance iid n = (n1, r) \<Longrightarrow> evolves R n n1"
  by (cases rule: GetOrCreateInstance_cases) (auto simp: evolves_def put_instance_def R_refl)

lemma ev_via: "GetOrCreateInstance iid n = (n1, r) \<Longrightarrow> instances n' = instances n1 \<Longrightarrow> evolves R n n'"
  using ev_GetOrCreate[of iid n n1 r] by (simp add: evolves_def)

lemma ev_put_via:
  assumes "paxos_inv n" "GetOrCreateInstance iid n = (n1, Some i)" "R i j"
  shows "evolves R n (put_instance iid j n1)"
  using assms paxos_inv_GetOrCreate(2)[OF assms(1,2)]
  by (intro ev_trans[OF ev_GetOrCreate ev_put]) auto

lemma ev_Propose: "Propose iid val vlen n = Some (st, ms, n') \<Longrightarrow> evolves R n n'"
  by (auto simp: Propose_def Let_def NextRound_def bind_eq_Some_conv
      split: if_splits option.splits prod.splits intro: ev_via ev_same)

lemma ev_StartLeaderElection: "StartLeaderElection iid n = Some (st, ms, n') \<Longrightarrow> evolves R n n'"
  by (auto simp: StartLeaderElection_def Let_def NextRound_def
      split: option.splits prod.splits intro: ev_via)

lemma ev_HandlePrepare:
  assumes "paxos_inv n" "HandlePrepare m n = Some (st, ms, n')"
  shows "evolves R n n'"
proof -
  obtain n1 r where g: "GetOrCreateInstance (px_instance_id (prep_hdr m)) n = (n1, r)" by fastforce
  from assms(2) g paxos_inv_GetOrCreate(2)[OF assms(1) g] show ?thesis
    by (auto simp: HandlePrepare_def Let_def bind_eq_Some_conv
        split: option.splits if_splits intro: ev_GetOrCreate ev_put_via[OF assms(1)] R_promise)
qed

lemma ev_HandlePromise: "HandlePromise m n = Some (st, ms, n') \<Longrightarrow> evolves R n n'"
  by (auto simp: HandlePromise_def Let_def bind_eq_Some_conv
      split: option.splits if_splits intro!: ev_same)

lemma ev_HandleAccept:
  assumes "paxos_inv n" "HandleAccept m n = Some (st, ms, n')"
  shows "evolves R n n'"
proof -
  obtain n1 r where g: "GetOrCreateInstance (px_instance_id (acc_hdr m)) n = (n1, r)" by fastforce
  from assms(2) g paxos_inv_GetOrCreate(2)[OF assms(1) g] show ?thesis
    by (auto simp: HandleAccept_def Let_def bind_eq_Some_conv
        split: option.splits if_splits intro: ev_via ev_put_via[OF assms(1)] R_accept)
qed

lemma ev_HandleLearn:
  assumes "paxos_inv n" "HandleLearn m n = Some (st, ms, n')"
  shows "evolves R n n'"
  using assms(2)
  by (auto simp: HandleLearn_def Let_def bind_eq_Some_conv
      split: option.splits if_splits prod.splits
      intro: ev_put_via[OF assms(1)] ev_GetOrCreate R_learn)

lemma ev_HandleNack: "HandleNack m n = Some (st, ms, n') \<Longrightarrow> evolves R n n'"
  by (auto simp: HandleNack_def Let_def intro!: ev_same split: if_splits)

lemma ev_step_not_accepted:
  assumes "paxos_inv n" "paxos_step p n = Some (st, ms, n')"
    and "\<And>data m. p = OpMsg data \<Longrightarrow> dec_AcceptedMsg data = Some m \<Longrightarrow> px_msg_type (accd_hdr m) \<noteq> kAccepted"
  shows "evolves R n n'"
proof (cases p)
  case (OpMsg data)
  with assms(2) have "HandleMessage data n = Some (st, ms, n')" by simp
  then show ?thesis
  proof (cases rule: HandleMessage_cases)
    case (accepted m)
    with assms(3)[OF OpMsg] show ?thesis by blast
  qed (use assms(1) in \<open>auto intro: ev_HandlePrepare ev_HandlePromise ev_HandleAccept
      ev_HandleLearn ev_HandleNack ev_same\<close>)
qed (use assms in \<open>auto intro: ev_Propose ev_StartLeaderElection\<close>)

end

locale instance_evolution_commit = instance_evolution +
  assumes R_commit: "commit_value v l i = Some j \<Longrightarrow> R i j"
begin

lemma ev_HandleAccepted:
  assumes "paxos_inv n" "HandleAccepted m n = Some (st, ms, n')"
  shows "evolves R n n'"
proof (cases "map_of (proposer_state n) (px_instance_id (accd_hdr m))")
  case None
  with assms show ?thesis by (auto simp: HandleAccepted_def intro: ev_same)
next
  case (Some ps)
  let ?iid = "px_instance_id (accd_hdr m)"
  let ?n1 = "put_proposer ?iid (ps\<lparr> accepted_count := accepted_count ps + 1, ps_committed := True \<rparr>) n"
  have inv: "paxos_inv ?n1"
    using assms(1) paxos_invD(1)[OF assms(1) Some]
    by (intro paxos_inv_put_proposer) (auto simp: ps_ok_def)
  have 1: "evolves R n ?n1" by (rule ev_same) simp
  obtain n2 r where g: "GetOrCreateInstance ?iid ?n1 = (n2, r)" by fastforce
  have 2: "evolves R n n2" using ev_trans[OF 1 ev_GetOrCreate[OF g]] .
  have 3: "evolves R n (put_instance ?iid j n2)"
    if "r = Some i" "commit_value v l i = Some j" for i j v l
    using ev_trans[OF 1 ev_put_via[OF inv _ R_commit[OF that(2)]]] g that(1) by blast
  from assms(2) Some g 2 3 show ?thesis
    by (auto simp: HandleAccepted_def Let_def bind_eq_Some_conv
        split: option.splits if_splits intro: ev_same)
qed

lemma ev_step:
  assumes "paxos_inv n" "paxos_step p n = Some (st, ms, n')"
  shows "evolves R n n'"
proof (cases p)
  case (OpMsg data)
  with assms(2) have "HandleMessage data n = Some (st, ms, n')" by simp
  then show ?thesis
    by (cases rule: HandleMessage_cases)
      (use assms(1) in \<open>auto intro: ev_HandlePrepare ev_HandlePromise ev_HandleAccept
        ev_HandleAccepted ev_HandleLearn ev_HandleNack ev_same\<close>)
qed (use assms in \<open>auto intro: ev_Propose ev_StartLeaderElection\<close>)

lemma ev_run: "paxos_inv n \<Longrightarrow> paxos_run ps n = Some (ms, n') \<Longrightarrow> evolves R n n'"
proof (induction ps arbitrary: n ms)
  case Nil
  then show ?case by (simp add: ev_same)
next
  case (Cons p ps)
  then obtain st ms1 n1 ms2 where 1: "paxos_step p n = Some (st, ms1, n1)"
    and 2: "paxos_run ps n1 = Some (ms2, n')" by (auto simp: bind_eq_Some_conv)
  from Cons.IH[OF paxos_step_inv[OF Cons.prems(1) 1] 2] ev_step[OF Cons.prems(1) 1]
  show ?case by (blast intro: ev_trans)
qed

end

definition inst_le :: "InstanceState \<Rightarrow> InstanceState \<Rightarrow> bool" where
  "inst_le i j \<longleftrightarrow> highest_promised i \<le> highest_promised j \<and>
     accepted_proposal i \<le> accepted_proposal j \<and> (is_committed i \<longrightarrow> is_committed j)"

definition same_commit :: "InstanceState \<Rightarrow> InstanceState \<Rightarrow> bool" where
  "same_commit i j \<longleftrightarrow> (is_committed i \<longrightarrow> is_committed j \<and>
     committed_value_len j = committed_value_len i \<and> committed_value j = committed_value i)"

interpretation acceptor: instance_evolution_commit inst_le
proof unfold_locales
  fix i :: InstanceState and p :: ProposalNum and l :: u16 and v :: bytes
  assume "inst_ok i" "highest_promised i \<le> p"
  then show "inst_le i (i\<lparr> highest_promised := p, accepted_proposal := p, accepted_value_len := l, accepted_value := v \<rparr>)"
    using order_trans[of "accepted_proposal i" "highest_promised i" p] by (simp add: inst_ok_def inst_le_def)
next
  fix i j k assume "inst_le i j" "inst_le j k"
  then show "inst_le i k" unfolding inst_le_def by (meson order_trans)
qed (auto simp: inst_le_def commit_value_def bind_eq_Some_conv less_imp_le)

interpretation committed: instance_evolution same_commit
  by unfold_locales (auto simp: same_commit_def)

section \<open>What the emitted messages say\<close>

lemma dec_enc_px_hdr' [codec_simps]:
  "dec_px_hdr (enc_PromiseMsg prom) = Some (prom_hdr prom)"
  "dec_px_hdr (enc_AcceptMsg acc) = Some (acc_hdr acc)"
  "dec_px_hdr (enc_AcceptedMsg accd) = Some (accd_hdr accd)"
  "dec_px_hdr (enc_LearnMsg learn) = Some (learn_hdr learn)"
  "dec_px_hdr (enc_PrepareMsg prep) = Some (prep_hdr prep)"
  "dec_px_hdr (enc_NackMsg nack) = Some (nack_hdr nack)"
  by (simp_all add: enc_PromiseMsg_def enc_AcceptMsg_def enc_AcceptedMsg_def enc_LearnMsg_def
      enc_PrepareMsg_def enc_NackMsg_def codec_simps)

lemma builder_hdr:
  "MakePromise n d iid i = Some m \<Longrightarrow> dec_px_hdr (out_data m) = Some (make_hdr kPromise n iid)"
  "MakeAccepted n d iid p v l = Some m \<Longrightarrow> dec_px_hdr (out_data m) = Some (make_hdr kAccepted n iid)"
  "MakeLearn n d iid v l = Some m \<Longrightarrow> dec_px_hdr (out_data m) = Some (make_hdr kLearn n iid)"
  "MakeAcceptBroadcast n iid p v l = Some m \<Longrightarrow> dec_px_hdr (out_data m) = Some (make_hdr kAccept n iid)"
  "dec_px_hdr (out_data (MakeNack n d iid p)) = Some (make_hdr kNack n iid)"
  "dec_px_hdr (out_data (MakePrepareBroadcast n iid p)) = Some (make_hdr kPrepare n iid)"
  by (auto simp: MakePromise_def MakeAccepted_def MakeLearn_def MakeAcceptBroadcast_def
      MakeNack_def MakePrepareBroadcast_def bind_eq_Some_conv codec_simps)

lemma those_SomeD: "those xs = Some ys \<Longrightarrow> y \<in> set ys \<Longrightarrow> Some y \<in> set xs"
  by (induction xs arbitrary: ys) (auto split: option.splits)

lemma learn_broadcast_hdr:
  "learn_broadcast n iid v l = Some ms \<Longrightarrow> m \<in> set ms \<Longrightarrow>
   dec_px_hdr (out_data m) = Some (make_hdr kLearn n iid)"
  by (auto simp: learn_broadcast_def dest!: those_SomeD builder_hdr(3) sym[of "Some m"])

definition is_accepted_msg :: "OutMessage \<Rightarrow> bool" where
  "is_accepted_msg m = (map_option px_msg_type (dec_px_hdr (out_data m)) = Some kAccepted)"

lemma make_hdr_sel [simp]:
  "px_msg_type (make_hdr t n iid) = t" "px_instance_id (make_hdr t n iid) = iid"
  "px_sender_id (make_hdr t n iid) = node_id n" "px_num_replicas (make_hdr t n iid) = num_replicas n"
  by (simp_all add: make_hdr_def)

lemma not_accepted_msg:
  "MakePromise n d iid i = Some m \<Longrightarrow> \<not> is_accepted_msg m"
  "MakeLearn n d iid v l = Some m \<Longrightarrow> \<not> is_accepted_msg m"
  "MakeAcceptBroadcast n iid p v l = Some m \<Longrightarrow> \<not> is_accepted_msg m"
  "\<not> is_accepted_msg (MakeNack n d iid p)"
  "\<not> is_accepted_msg (MakePrepareBroadcast n iid p)"
  "learn_broadcast n iid v l = Some ms \<Longrightarrow> m \<in> set ms \<Longrightarrow> \<not> is_accepted_msg m"
  by (auto simp: is_accepted_msg_def builder_hdr(5,6) dest: builder_hdr(1-4))
    (auto simp: learn_broadcast_hdr)

text \<open>The instance a node claims to have accepted is the one it recorded.\<close>

definition recorded :: "PaxosNode \<Rightarrow> AcceptedMsg \<Rightarrow> bool" where
  "recorded n a \<longleftrightarrow> (\<exists>j. map_of (instances n) (px_instance_id (accd_hdr a)) = Some j \<and>
     highest_promised j = accd_proposal a \<and> accepted_proposal j = accd_proposal a \<and>
     accepted_value_len j = accd_value_len a \<and>
     take (unat (accd_value_len a)) (accepted_value j) = take (unat (accd_value_len a)) (accd_value a))"

lemma MakeAccepted_decode:
  assumes "MakeAccepted n d iid p v l = Some m"
  shows "dec_AcceptedMsg (out_data m) = Some \<lparr> accd_hdr = make_hdr kAccepted n iid, accd_proposal = p,
     accd_value_len = clamp_len l,
     accd_value = take (unat (clamp_len l)) v @ drop (unat (clamp_len l)) zero_value \<rparr>"
  using assms by (auto simp: MakeAccepted_def bind_eq_Some_conv memcpy_def codec_simps split: if_splits)

lemma HandleAccept_emits:
  assumes "paxos_inv n" "HandleAccept m n = Some (st, ms, n')" "x \<in> set ms" "is_accepted_msg x"
  shows "\<exists>a. dec_AcceptedMsg (out_data x) = Some a \<and> recorded n' a"
proof -
  obtain n1 r where g: "GetOrCreateInstance (px_instance_id (acc_hdr m)) n = (n1, r)" by fastforce
  from assms(2-4) g show ?thesis
    by (auto simp: HandleAccept_def Let_def bind_eq_Some_conv recorded_def put_instance_def memcpy_def
        split: option.splits if_splits dest!: MakeAccepted_decode dest: not_accepted_msg(1-3,6) simp: not_accepted_msg(4,5))
qed

lemma HandleMessage_emits:
  assumes "paxos_inv n" "HandleMessage data n = Some (st, ms, n')" "x \<in> set ms" "is_accepted_msg x"
  shows "\<exists>a. dec_AcceptedMsg (out_data x) = Some a \<and> recorded n' a"
  using assms(2)
proof (cases rule: HandleMessage_cases)
  case invalid
  with assms(3) show ?thesis by simp
next
  case (prepare m)
  with assms(3,4) show ?thesis
    by (auto simp: HandlePrepare_def Let_def bind_eq_Some_conv split: prod.splits option.splits if_splits
        dest: not_accepted_msg(1-3,6) simp: not_accepted_msg(4,5))
next
  case (promise m)
  with assms(3,4) show ?thesis
    by (auto simp: HandlePromise_def Let_def bind_eq_Some_conv split: option.splits if_splits
        dest: not_accepted_msg(1-3,6) simp: not_accepted_msg(4,5))
next
  case (accept m)
  with HandleAccept_emits assms show ?thesis by blast
next
  case (accepted m)
  with assms(3,4) show ?thesis
    by (auto simp: HandleAccepted_def Let_def bind_eq_Some_conv split: option.splits if_splits
        dest: not_accepted_msg(1-3,6) simp: not_accepted_msg(4,5))
next
  case (learn m)
  with assms(3,4) show ?thesis
    by (auto simp: HandleLearn_def Let_def bind_eq_Some_conv split: prod.splits option.splits if_splits)
next
  case (nack m)
  with assms(3) show ?thesis by (simp add: HandleNack_def Let_def)
qed

lemma paxos_step_emits:
  assumes "paxos_inv n" "paxos_step p n = Some (st, ms, n')" "x \<in> set ms" "is_accepted_msg x"
  shows "\<exists>a. dec_AcceptedMsg (out_data x) = Some a \<and> recorded n' a"
proof (cases p)
  case (OpPropose iid val vlen)
  with assms(2-4) show ?thesis
    by (auto simp: Propose_def Let_def bind_eq_Some_conv split: prod.splits option.splits if_splits
        dest: not_accepted_msg(1-3,6) simp: not_accepted_msg(4,5))
next
  case (OpElect iid)
  with assms(2-4) show ?thesis
    by (auto simp: StartLeaderElection_def Let_def not_accepted_msg(4,5) split: prod.splits option.splits)
next
  case (OpMsg data)
  with assms HandleMessage_emits show ?thesis by auto
qed

section \<open>Properties of a replica\<close>

lemma paxos_run_inv: "paxos_inv n \<Longrightarrow> paxos_run ps n = Some (ms, n') \<Longrightarrow> paxos_inv n'"
  by (induction ps arbitrary: n ms) (auto simp: bind_eq_Some_conv dest: paxos_step_inv)

text \<open>
  C24. Every node reached from the constructor by any sequence of proposals, elections and
  received messages is well-formed: the instance log never exceeds its capacity, its keys are
  unique, every value array keeps its fixed size, and no acceptor has accepted a proposal
  above its highest promise.
\<close>

theorem paxos_reachable_well_formed:
  assumes "PaxosNode_new nid nr mi = Some n0" "paxos_run ps n0 = Some (ms, n)"
  shows "paxos_inv n"
  using assms paxos_run_inv paxos_inv_new by blast

definition demo_node :: PaxosNode where
  "demo_node = \<lparr> node_id = 0, num_replicas = 3, quorum = 2, leader_id = 0, current_round = 0,
     max_instances = 4, instances = [], proposer_state = [], exception_cb = None \<rparr>"

lemma demo_node_new: "PaxosNode_new 0 3 4 = Some demo_node"
  by (simp add: PaxosNode_new_def demo_node_def)

theorem paxos_reachable_well_formed_witness:
  "\<exists>ms n. paxos_run [OpElect 5, OpPropose 6 [1, 2] 2] demo_node = Some (ms, n) \<and> paxos_inv n"
proof -
  have "\<exists>ms n. paxos_run [OpElect 5, OpPropose 6 [1, 2] 2] demo_node = Some (ms, n)"
    by (simp add: StartLeaderElection_def Propose_def GetOrCreateInstance_def demo_node_def Let_def
        NextRound_def get_proposer_def ProposerInstanceState_init_def MakeAcceptBroadcast_def
        put_proposer_def clamp_len_def exception_call_def)
  then show ?thesis using paxos_reachable_well_formed[OF demo_node_new] by blast
qed

text \<open>
  C25. Handling any received bytes on a well-formed node stays inside its buffers as long as the
  value bytes that the message announces were received: the dispatcher returns a status.
\<close>

theorem HandleMessage_memory_safe:
  assumes "paxos_inv n" "payload_in_bounds data"
  shows "\<exists>st ms n'. HandleMessage data n = Some (st, ms, n')"
  using HandleMessage_total[OF assms] by auto

theorem HandleMessage_memory_safe_witness:
  "\<exists>st ms n'. HandleMessage [5, 0, 0, 0, 0, 0, 0, 0, 1, 0, 7] demo_node = Some (st, ms, n')"
proof (rule HandleMessage_memory_safe)
  show "paxos_inv demo_node" by (rule paxos_inv_new[OF demo_node_new])
  show "payload_in_bounds [5, 0, 0, 0, 0, 0, 0, 0, 1, 0, 7]" by code_simp
qed

text \<open>
  Without the announced bytes a handler does read past the received buffer: a LEARN of ten
  bytes whose length field announces a full value passes the dispatcher's length test.
\<close>

theorem truncated_learn_over_reads:
  "HandleMessage [5, 0, 0, 0, 0, 0, 0, 0, 128, 0] demo_node = None"
  by code_simp

text \<open>
  C2. A promise is respected: once an acceptor's highest promise for an instance is at least
  \<open>p\<close>, whatever it does afterwards, every ACCEPTED message it emits for that instance carries a
  proposal number of at least \<open>p\<close>.
\<close>

theorem promise_respected:
  assumes "paxos_inv n" "GetInstance iid n = Some i" "p \<le> highest_promised i"
    and "paxos_run ps n = Some (ms, n')"
    and "x \<in> set ms" "is_accepted_msg x" "dec_AcceptedMsg (out_data x) = Some a"
    and "px_instance_id (accd_hdr a) = iid"
  shows "p \<le> accd_proposal a"
  using assms(1-5)
proof (induction ps arbitrary: n i ms)
  case Nil
  then show ?case by simp
next
  case (Cons q ps)
  then obtain st ms1 n1 ms2 where 1: "paxos_step q n = Some (st, ms1, n1)"
    and 2: "paxos_run ps n1 = Some (ms2, n')" and ms: "ms = ms1 @ ms2"
    by (auto simp: bind_eq_Some_conv)
  note inv1 = paxos_step_inv[OF Cons.prems(1) 1]
  obtain j where j: "GetInstance iid n1 = Some j" "inst_le i j"
    using acceptor.ev_step[OF Cons.prems(1) 1] Cons.prems(2)
    by (auto simp: evolves_def GetInstance_def)
  then have pj: "p \<le> highest_promised j"
    using Cons.prems(3) by (auto simp: inst_le_def intro: order_trans)
  show ?case
  proof (cases "x \<in> set ms1")
    case True
    with paxos_step_emits[OF Cons.prems(1) 1 _ assms(6)] assms(7,8) j pj show ?thesis
      by (auto simp: recorded_def GetInstance_def)
  next
    case False
    with Cons.prems(5) ms have "x \<in> set ms2" by auto
    with Cons.IH[OF inv1 j(1) pj 2] show ?thesis by simp
  qed
qed

definition demo_hdr :: "u8 \<Rightarrow> u8 \<Rightarrow> PaxosMsgHeader" where
  "demo_hdr t s = \<lparr> px_msg_type = t, px_sender_id = s, px_num_replicas = 3, px_instance_id = 7 \<rparr>"

definition demo_prepare :: bytes where
  "demo_prepare = enc_PrepareMsg \<lparr> prep_hdr = demo_hdr kPrepare 1, prep_proposal = ProposalNum 3 1 0 \<rparr>"

definition demo_accept :: bytes where
  "demo_accept = enc_AcceptMsg \<lparr> acc_hdr = demo_hdr kAccept 1, acc_proposal = ProposalNum 4 1 0,
     acc_value_len = 1, acc_value = 9 # replicate 127 0 \<rparr>"

definition promised_node :: PaxosNode where
  "promised_node = snd (snd (the (HandleMessage demo_prepare demo_node)))"

theorem promise_respected_witness:
  "\<exists>x a. x \<in> set (fst (the (paxos_run [OpMsg demo_accept] promised_node))) \<and>
         dec_AcceptedMsg (out_data x) = Some a \<and> ProposalNum 3 1 0 \<le> accd_proposal a"
proof -
  let ?r = "paxos_run [OpMsg demo_accept] promised_node"
  let ?x = "hd (fst (the ?r))"
  let ?a = "the (dec_AcceptedMsg (out_data ?x))"
  have ne: "?r \<noteq> None" "GetInstance 7 promised_node \<noteq> None" "fst (the ?r) \<noteq> []"
      "dec_AcceptedMsg (out_data ?x) \<noteq> None" "HandleMessage demo_prepare demo_node \<noteq> None"
    by code_simp+
  have ev: "is_accepted_msg ?x" "px_instance_id (accd_hdr ?a) = 7"
      "ProposalNum 3 1 0 \<le> highest_promised (the (GetInstance 7 promised_node))"
    by code_simp+
  from ne(5) obtain st ms n' where "HandleMessage demo_prepare demo_node = Some (st, ms, n')" by auto
  then have inv: "paxos_inv promised_node"
    using HandleMessage_inv[OF paxos_inv_new[OF demo_node_new]] by (simp add: promised_node_def)
  from ne(1) obtain ms2 n2 where r: "?r = Some (ms2, n2)" by auto
  have "ProposalNum 3 1 0 \<le> accd_proposal ?a"
    using promise_respected[OF inv _ ev(3) r _ ev(1) _ ev(2)] ne r by auto
  with ne r show ?thesis by (intro exI[of _ ?x] exI[of _ ?a]) auto
qed

text \<open>
  C23. A committed instance stays committed, and its committed value is changed by no operation
  but the handling of an ACCEPTED message: neither a LEARN nor any other message, proposal or
  election overwrites it.
\<close>

theorem committed_value_stable:
  assumes "paxos_inv n" "GetInstance iid n = Some i" "is_committed i"
    and "paxos_step p n = Some (st, ms, n')"
    and "\<And>data h. p = OpMsg data \<Longrightarrow> dec_px_hdr data = Some h \<Longrightarrow> px_msg_type h \<noteq> kAccepted"
  shows "\<exists>j. GetInstance iid n' = Some j \<and> is_committed j \<and>
             committed_value_len j = committed_value_len i \<and> committed_value j = committed_value i"
proof -
  have "evolves same_commit n n'"
    using assms(5) by (intro committed.ev_step_not_accepted[OF assms(1,4)])
      (auto simp: dec_AcceptedMsg_def bind_eq_Some_conv)
  with assms(2,3) show ?thesis by (auto simp: evolves_def same_commit_def GetInstance_def)
qed

definition demo_learn :: bytes where
  "demo_learn = enc_LearnMsg \<lparr> learn_hdr = demo_hdr kLearn 1, learn_value_len = 1,
     learn_value = 5 # replicate 127 0 \<rparr>"

definition committed_node :: PaxosNode where
  "committed_node = snd (snd (the (HandleMessage demo_learn demo_node)))"

theorem committed_value_stable_witness:
  "\<exists>st ms n' j. paxos_step (OpMsg demo_prepare) committed_node = Some (st, ms, n') \<and>
     GetInstance 7 n' = Some j \<and> is_committed j \<and> take 1 (committed_value j) = [5]"
proof -
  have ne: "paxos_step (OpMsg demo_prepare) committed_node \<noteq> None" "GetInstance 7 committed_node \<noteq> None"
      "HandleMessage demo_learn demo_node \<noteq> None"
    by code_simp+
  have ev: "is_committed (the (GetInstance 7 committed_node))"
      "take 1 (committed_value (the (GetInstance 7 committed_node))) = [5]"
      "px_msg_type (the (dec_px_hdr demo_prepare)) \<noteq> kAccepted"
    by code_simp+
  from ne(3) obtain st ms n' where "HandleMessage demo_learn demo_node = Some (st, ms, n')" by auto
  then have inv: "paxos_inv committed_node"
    using HandleMessage_inv[OF paxos_inv_new[OF demo_node_new]] by (simp add: committed_node_def)
  from ne(1) obtain st ms n' where r: "paxos_step (OpMsg demo_prepare) committed_node = Some (st, ms, n')"
    by auto
  have i: "GetInstance 7 committed_node = Some (the (GetInstance 7 committed_node))" using ne(2) by simp
  have "\<exists>j. GetInstance 7 n' = Some j \<and> is_committed j \<and>
      committed_value_len j = committed_value_len (the (GetInstance 7 committed_node)) \<and>
      committed_value j = committed_value (the (GetInstance 7 committed_node))"
    by (rule committed_value_stable[OF inv i ev(1) r]) (use ev(3) in auto)
  with r ev(2) show ?thesis by auto
qed

section \<open>Departures from Paxos\<close>

text \<open>
  The handlers depart from the protocol in three ways. Votes are counted per message and not per
  sender, so that one acceptor's ACCEPTED, delivered twice, commits in a group of three. Every
  promise beyond the quorum sends a new ACCEPT, so that one proposal number can carry two values.
  A quorum of ACCEPTED messages overwrites a value that the node has already learned.
\<close>

definition demo_accepted :: "u8 \<Rightarrow> bytes" where
  "demo_accepted s = enc_AcceptedMsg \<lparr> accd_hdr = demo_hdr kAccepted s, accd_proposal = ProposalNum 1 0 0,
     accd_value_len = 1, accd_value = 9 # replicate 127 0 \<rparr>"

definition demo_promise :: "u8 \<Rightarrow> ProposalNum \<Rightarrow> u8 \<Rightarrow> bytes" where
  "demo_promise s acc v = enc_PromiseMsg \<lparr> prom_hdr = demo_hdr kPromise s, prom_promised = ProposalNum 1 0 0,
     prom_accepted_proposal = acc, prom_accepted_value_len = 1, prom_accepted_value = v # replicate 127 0 \<rparr>"

definition demo_node5 :: PaxosNode where
  "demo_node5 = demo_node\<lparr> num_replicas := 5, quorum := 3 \<rparr>"

definition run_instance :: "paxos_op list \<Rightarrow> PaxosNode \<Rightarrow> InstanceState" where
  "run_instance ops n = the (GetInstance 7 (snd (the (paxos_run ops n))))"

theorem duplicate_accepted_commits:
  "is_committed (run_instance [OpPropose 7 [9] 1, OpMsg (demo_accepted 1), OpMsg (demo_accepted 1)] demo_node)"
  by code_simp

theorem learned_value_overwritten:
  "let ops = [OpPropose 7 [9] 1, OpMsg demo_learn] in
   hd (committed_value (run_instance ops demo_node)) = 5 \<and>
   hd (committed_value (run_instance (ops @ [OpMsg (demo_accepted 1), OpMsg (demo_accepted 2)]) demo_node)) = 9"
  by code_simp

theorem one_proposal_two_values:
  "map (\<lambda>m. map_option (\<lambda>a. (pn_round (acc_proposal a), hd (acc_value a))) (dec_AcceptMsg (out_data m)))
     (drop 1 (fst (the (paxos_run [OpElect 7, OpMsg (demo_promise 1 pn_null 0), OpMsg (demo_promise 2 pn_null 0),
        OpMsg (demo_promise 3 (ProposalNum 1 3 0) 8), OpMsg (demo_promise 4 (ProposalNum 1 4 0) 9)] demo_node5)))) =
   [Some (1, 8), Some (1, 9)]"
  by code_simp

end
