(* ===== verification/Lock_Safety.thy ===== *)
theory Lock_Safety
  imports Lock_State
begin

text \<open>
  Correctness of the lock service: for every key it implements a bounded first-in first-out
  queue of distinct requesters whose head holds the lock, and the clients that have been told
  that they hold a lock are never more than one.
\<close>

section \<open>Well-formed managers\<close>

definition queue_of :: "KeyState \<Rightarrow> u8 list" where
  "queue_of ks = holder_id ks # map requester_id (waiters ks)"

definition lock_queue :: "u64 \<Rightarrow> LockManager \<Rightarrow> u8 list" where
  "lock_queue k s = (case map_of (keys s) k of None \<Rightarrow> [] | Some ks \<Rightarrow> queue_of ks)"

definition key_ok :: "u16 \<Rightarrow> KeyState \<Rightarrow> bool" where
  "key_ok mw ks \<longleftrightarrow> distinct (queue_of ks) \<and> kFree \<notin> set (queue_of ks) \<and> length (waiters ks) \<le> unat mw"

definition lock_inv :: "LockManager \<Rightarrow> bool" where
  "lock_inv s \<longleftrightarrow> keys_ok (keys s) \<and> length (keys s) \<le> unat (max_keys s) \<and>
     (\<forall>k ks. map_of (keys s) k = Some ks \<longrightarrow> key_ok (max_waiters_per_key s) ks)"

lemma lock_inv_new: "lock_inv (LockManager_new mk dl mw)"
  by (simp add: lock_inv_def LockManager_new_def)

lemma exception_call_lock_fields [simp]:
  "keys (exception_call_lock t k s) = keys s"
  "max_keys (exception_call_lock t k s) = max_keys s"
  "max_waiters_per_key (exception_call_lock t k s) = max_waiters_per_key s"
  by (simp_all add: exception_call_lock_def)

lemma put_key_fields [simp]:
  "keys (put_key k ks s) = AList.update k ks (keys s)"
  "max_keys (put_key k ks s) = max_keys s"
  "max_waiters_per_key (put_key k ks s) = max_waiters_per_key s"
  by (simp_all add: put_key_def)

lemma lock_inv_exception [simp]: "lock_inv (exception_call_lock t k s) = lock_inv s"
  by (simp add: lock_inv_def)

interpretation lk_table: bounded_table
  "\<lambda>k s. map_of (keys s) k" "\<lambda>s. length (keys s)" "\<lambda>s. unat (max_keys s)" GetOrCreateKey KeyState_init
  by unfold_locales (auto simp: GetOrCreateKey_def length_AList_update split: option.splits)

lemma lock_invD:
  "lock_inv s \<Longrightarrow> map_of (keys s) k = Some ks \<Longrightarrow> key_ok (max_waiters_per_key s) ks"
  by (simp add: lock_inv_def)

lemma key_ok_held [simp]: "key_ok mw ks \<Longrightarrow> holder_id ks \<noteq> kFree"
  by (auto simp: key_ok_def queue_of_def)

lemma lock_inv_put:
  assumes "lock_inv s" "map_of (keys s) k \<noteq> None" "key_ok (max_waiters_per_key s) ks"
  shows "lock_inv (put_key k ks s)"
  using assms by (auto simp: lock_inv_def length_AList_update)

text \<open>The three outcomes of \<^const>\<open>GetOrCreateKey\<close>.\<close>

lemma GetOrCreateKey_cases:
  assumes "GetOrCreateKey k s = (s1, r)"
  obtains (hit) ks where "map_of (keys s) k = Some ks" "s1 = s" "r = Some ks"
  | (full) "map_of (keys s) k = None" "unat (max_keys s) \<le> length (keys s)" "r = None"
      "s1 = exception_call_lock kLockStateOverflow k s"
  | (fresh) "map_of (keys s) k = None" "length (keys s) < unat (max_keys s)" "r = Some KeyState_init"
      "s1 = put_key k KeyState_init s"
  using assms by (auto simp: GetOrCreateKey_def put_key_def split: option.splits if_splits)

section \<open>The queue specification\<close>

definition spec_acquire :: "u16 \<Rightarrow> u8 \<Rightarrow> u8 list \<Rightarrow> u8 list" where
  "spec_acquire mw r q = (if q = [] then [r] else if r \<in> set q \<or> unat mw < length q then q else q @ [r])"

definition spec_release :: "u8 \<Rightarrow> u8 list \<Rightarrow> u8 list" where
  "spec_release r q = (if q \<noteq> [] \<and> hd q = r then tl q else q)"

lemma lock_queue_exception [simp]: "lock_queue k' (exception_call_lock t k s) = lock_queue k' s"
  by (simp add: lock_queue_def)

lemma lock_queue_put [simp]: "lock_queue k' (put_key k ks s) = (if k' = k then queue_of ks else lock_queue k' s)"
  by (simp add: lock_queue_def)

lemma lock_queue_Some: "map_of (keys s) k = Some ks \<Longrightarrow> lock_queue k s = queue_of ks"
  by (simp add: lock_queue_def)

lemma lock_queue_None: "map_of (keys s) k = None \<Longrightarrow> lock_queue k s = []"
  by (simp add: lock_queue_def)

lemma queue_of_Nil [simp]: "queue_of ks \<noteq> []"
  by (simp add: queue_of_def)

lemma lock_queue_empty_iff: "lock_queue k s = [] \<longleftrightarrow> map_of (keys s) k = None"
  by (simp add: lock_queue_def split: option.splits)

section \<open>Acquire\<close>

lemma GrantLock_fields [simp]:
  "fst (GrantLock ks k r lease now) = ks\<lparr> holder_id := r, lease_expiry_ns := now + lease \<rparr>"
  "snd (GrantLock ks k r lease now) = [MakeGrant r k (now + lease)]"
  by (simp_all add: GrantLock_def Let_def)

lemma queue_of_update [simp]:
  "queue_of (ks\<lparr> lease_expiry_ns := e \<rparr>) = queue_of ks"
  "queue_of (ks\<lparr> holder_id := r \<rparr>) = r # tl (queue_of ks)"
  "queue_of (ks\<lparr> waiters := ws \<rparr>) = holder_id ks # map requester_id ws"
  by (simp_all add: queue_of_def)

text \<open>The outcomes of an acquisition on a well-formed manager.\<close>

lemma Acquire_cases:
  assumes "lock_inv s" "Acquire k r lease now s = (st, out, s')"
  obtains (overflow) "map_of (keys s) k = None" "unat (max_keys s) \<le> length (keys s)"
      "st = Lk_kKeyOverflow" "out = []" "s' = exception_call_lock kLockStateOverflow k s"
  | (grant) e where "map_of (keys s) k = None" "length (keys s) < unat (max_keys s)" "st = Lk_kGranted"
      "out = [MakeGrant r k e]" "s' = put_key k \<lparr> holder_id = r, lease_expiry_ns = e, waiters = [] \<rparr> s"
  | (refresh) ks e where "map_of (keys s) k = Some ks" "holder_id ks = r" "st = Lk_kGranted"
      "out = [MakeGrant r k e]" "s' = put_key k (ks\<lparr> lease_expiry_ns := e \<rparr>) s"
  | (contention) ks where "map_of (keys s) k = Some ks" "holder_id ks \<noteq> r" "st = Lk_kContention"
      "unat (max_waiters_per_key s) \<le> length (waiters ks)"
      "out = [MakeDeny r k (holder_id ks)]" "s' = exception_call_lock kLockContention k s"
  | (duplicate) ks where "map_of (keys s) k = Some ks" "holder_id ks \<noteq> r" "st = Lk_kDenied"
      "r \<in> requester_id ` set (waiters ks)" "out = [MakeDeny r k (holder_id ks)]" "s' = s"
  | (enqueue) ks l where "map_of (keys s) k = Some ks" "holder_id ks \<noteq> r" "st = Lk_kDenied"
      "r \<notin> requester_id ` set (waiters ks)" "length (waiters ks) < unat (max_waiters_per_key s)"
      "out = [MakeDeny r k (holder_id ks)]"
      "s' = put_key k (ks\<lparr> waiters := waiters ks @ [\<lparr> requester_id = r, lease_duration_ns = l \<rparr>] \<rparr>) s"
proof -
  obtain s1 x where g: "GetOrCreateKey k s = (s1, x)" by fastforce
  then show ?thesis
  proof (cases rule: GetOrCreateKey_cases)
    case (hit ks)
    note held = key_ok_held[OF lock_invD[OF assms(1) hit(1)]]
    from assms(2) g hit held show ?thesis
      by (auto simp: Acquire_def Let_def split: if_splits
          intro: refresh contention duplicate enqueue)
  next
    case full
    with assms(2) g show ?thesis by (intro overflow) (auto simp: Acquire_def Let_def)
  next
    case fresh
    with assms(2) g show ?thesis
      by (intro grant) (auto simp: Acquire_def Let_def KeyState_init_def GrantLock_def put_key_def)
  qed
qed

lemma Acquire_inv [inv_intros]:
  assumes "lock_inv s" "r \<noteq> kFree" "Acquire k r lease now s = (st, out, s')"
  shows "lock_inv s'"
  using assms(1,3)
proof (cases rule: Acquire_cases)
  case (grant e)
  with assms(1,2) show ?thesis by (auto simp: lock_inv_def length_AList_update key_ok_def queue_of_def)
next
  case (refresh ks e)
  with lock_invD[OF assms(1) refresh(1)] assms(1) show ?thesis
    by (auto intro!: lock_inv_put simp: key_ok_def)
next
  case (enqueue ks l)
  with lock_invD[OF assms(1) enqueue(1)] assms(1,2) show ?thesis
    by (auto intro!: lock_inv_put simp: key_ok_def queue_of_def)
qed (use assms(1) in simp_all)

lemma Acquire_queue:
  assumes "lock_inv s" "Acquire k r lease now s = (st, out, s')"
  shows "lock_queue k' s' = (if k' = k \<and> st \<noteq> Lk_kKeyOverflow
     then spec_acquire (max_waiters_per_key s) r (lock_queue k s) else lock_queue k' s)"
  using assms
proof (cases rule: Acquire_cases)
  case (grant e)
  then show ?thesis by (simp add: spec_acquire_def lock_queue_None queue_of_def)
next
  case (refresh ks e)
  then show ?thesis by (auto simp: spec_acquire_def lock_queue_Some queue_of_def)
next
  case (contention ks)
  then show ?thesis by (auto simp: spec_acquire_def lock_queue_Some queue_of_def)
next
  case (duplicate ks)
  then show ?thesis by (auto simp: spec_acquire_def lock_queue_Some queue_of_def)
next
  case (enqueue ks l)
  then show ?thesis by (auto simp: spec_acquire_def lock_queue_Some queue_of_def)
qed simp

lemma Acquire_overflow_iff:
  assumes "lock_inv s" "Acquire k r lease now s = (st, out, s')"
  shows "st = Lk_kKeyOverflow \<longleftrightarrow> lock_queue k s = [] \<and> KeyCount s = unat (max_keys s)"
  using assms(1,2)
  by (cases rule: Acquire_cases)
    (use assms(1) in \<open>auto simp: lock_queue_empty_iff lock_inv_def KeyCount_def\<close>)

section \<open>Release\<close>

text \<open>A release gives the key to the first waiter, or drops the key.\<close>

lemma release_key_cases:
  assumes "map_of (keys s) k = Some ks" "release_key k ks now s = (out, s')"
  obtains (hand_over) w ws where "waiters ks = w # ws" "out = [MakeGrant (requester_id w) k (now + lease_duration_ns w)]"
      "s' = put_key k \<lparr> holder_id = requester_id w, lease_expiry_ns = now + lease_duration_ns w, waiters = ws \<rparr> s"
  | (drop) "waiters ks = []" "out = []" "\<And>k'. map_of (keys s') k' = (if k' = k then None else map_of (keys s) k')"
      "keys_ok (keys s) \<Longrightarrow> keys_ok (keys s')" "length (keys s') \<le> length (keys s)"
      "max_keys s' = max_keys s" "max_waiters_per_key s' = max_waiters_per_key s"
proof (cases "waiters ks")
  case Nil
  with assms show ?thesis
    using length_AList_delete_le[of k "AList.update k (ks\<lparr> holder_id := kFree, lease_expiry_ns := 0 \<rparr>) (keys s)"]
    by (intro drop) (auto simp: release_key_def GrantNextWaiter_def MaybeRemoveKey_def)
next
  case (Cons w ws)
  with assms show ?thesis
    by (cases ks, intro hand_over)
      (auto simp: release_key_def GrantNextWaiter_def GrantLock_def Let_def put_key_def)
qed

lemma release_key_inv [inv_intros]:
  assumes "lock_inv s" "map_of (keys s) k = Some ks" "release_key k ks now s = (out, s')"
  shows "lock_inv s'"
  using assms(2,3)
proof (cases rule: release_key_cases)
  case (hand_over w ws)
  with assms(1,2) lock_invD[OF assms(1,2)] show ?thesis
    by (auto intro!: lock_inv_put simp: key_ok_def queue_of_def)
next
  case drop
  with assms(1) show ?thesis by (auto simp: lock_inv_def)
qed

lemma release_key_queue:
  assumes "map_of (keys s) k = Some ks" "release_key k ks now s = (out, s')"
  shows "lock_queue k' s' = (if k' = k then tl (lock_queue k s) else lock_queue k' s)"
  using assms
proof (cases rule: release_key_cases)
  case drop
  with assms(1) show ?thesis by (simp add: lock_queue_def queue_of_def)
qed (use assms(1) in \<open>simp add: lock_queue_Some queue_of_def\<close>)

lemma Release_inv [inv_intros]:
  "lock_inv s \<Longrightarrow> Release k r now s = (st, out, s') \<Longrightarrow> lock_inv s'"
  by (auto simp: Release_def split: option.splits if_splits prod.splits intro: release_key_inv)

lemma Release_queue:
  assumes "Release k r now s = (st, out, s')"
  shows "lock_queue k' s' = (if k' = k then spec_release r (lock_queue k s) else lock_queue k' s)"
  using assms
  by (auto simp: Release_def spec_release_def lock_queue_empty_iff release_key_queue
      split: option.splits if_splits prod.splits)
    (simp_all add: lock_queue_Some queue_of_def)

section \<open>Lease expiry\<close>

definition expire_out :: "u64 \<Rightarrow> LockManager \<Rightarrow> u64 \<Rightarrow> OutMessage list" where
  "expire_out now s k = (case map_of (keys s) k of None \<Rightarrow> []
     | Some ks \<Rightarrow> MakeTimeout (holder_id ks) k #
         (case waiters ks of [] \<Rightarrow> [] | w # ws \<Rightarrow> [MakeGrant (requester_id w) k (now + lease_duration_ns w)]))"

lemma release_key_other:
  assumes "map_of (keys s) k = Some ks" "release_key k ks now s = (out, s')" "k' \<noteq> k"
  shows "map_of (keys s') k' = map_of (keys s) k'"
  using assms(1,2) by (cases rule: release_key_cases) (use assms(3) in auto)

lemma release_key_out:
  assumes "map_of (keys s) k = Some ks" "release_key k ks now s = (out, s')"
  shows "MakeTimeout (holder_id ks) k # out = expire_out now s k"
  using assms(1,2) by (cases rule: release_key_cases) (use assms(1) in \<open>auto simp: expire_out_def\<close>)

text \<open>
  Expiring distinct tracked keys gives every one of them to its next waiter, touches no other
  key, and sends each old holder its revocation followed by the grant to the next one.
\<close>

lemma expire_keys_spec:
  assumes "lock_inv s" "distinct ks" "\<And>k. k \<in> set ks \<Longrightarrow> map_of (keys s) k \<noteq> None"
    and "expire_keys ks now s = (n, out, s')"
  shows "lock_inv s' \<and> n = of_nat (length ks) \<and> out = concat (map (expire_out now s) ks) \<and>
    (\<forall>k. lock_queue k s' = (if k \<in> set ks then tl (lock_queue k s) else lock_queue k s)) \<and>
    (\<forall>k. k \<notin> set ks \<longrightarrow> map_of (keys s') k = map_of (keys s) k)"
  using assms
proof (induction ks arbitrary: s n out s')
  case Nil
  then show ?case by simp
next
  case (Cons k ks)
  from Cons.prems(3)[of k] obtain st where st: "map_of (keys s) k = Some st" by auto
  have held: "holder_id st \<noteq> kFree" by (rule key_ok_held[OF lock_invD[OF Cons.prems(1) st]])
  let ?s0 = "exception_call_lock kLockTimeoutCheck k s"
  obtain out1 s1 where r: "release_key k st now ?s0 = (out1, s1)" by fastforce
  obtain m out2 s2 where e: "expire_keys ks now s1 = (m, out2, s2)" by (metis prod_cases3)
  have st0: "map_of (keys ?s0) k = Some st" using st by simp
  have inv1: "lock_inv s1" using release_key_inv[OF _ st0 r] Cons.prems(1) by simp
  have other: "map_of (keys s1) k' = map_of (keys s) k'" if "k' \<noteq> k" for k'
    using release_key_other[OF st0 r that] by simp
  have later: "map_of (keys s1) k' = map_of (keys s) k'" if "k' \<in> set ks" for k'
    using that Cons.prems(2) by (intro other) auto
  have out1: "MakeTimeout (holder_id st) k # out1 = expire_out now s k"
    using release_key_out[OF st0 r] by (simp add: expire_out_def)
  have ih: "lock_inv s2 \<and> m = of_nat (length ks) \<and> out2 = concat (map (expire_out now s1) ks) \<and>
    (\<forall>k. lock_queue k s2 = (if k \<in> set ks then tl (lock_queue k s1) else lock_queue k s1)) \<and>
    (\<forall>k. k \<notin> set ks \<longrightarrow> map_of (keys s2) k = map_of (keys s1) k)"
    using Cons.prems(2,3) later by (intro Cons.IH[OF inv1 _ _ e]) auto
  have same: "map (expire_out now s1) ks = map (expire_out now s) ks"
    using later by (simp add: expire_out_def)
  have res: "n = m + 1" "out = MakeTimeout (holder_id st) k # out1 @ out2" "s' = s2"
    using Cons.prems(4) st held r e by (auto simp del: kFree_def)
  have q1: "lock_queue k' s1 = (if k' = k then tl (lock_queue k s) else lock_queue k' s)" for k'
    using release_key_queue[OF st0 r] by simp
  from ih same out1 other q1 Cons.prems(2) show ?case unfolding res by auto
qed

definition expired_keys :: "u64 \<Rightarrow> LockManager \<Rightarrow> u64 list" where
  "expired_keys now s = map fst (filter (\<lambda>(k, ks). lease_expired now ks) (keys s))"

lemma expired_keys_iff:
  "keys_ok (keys s) \<Longrightarrow>
   k \<in> set (expired_keys now s) \<longleftrightarrow> (\<exists>ks. map_of (keys s) k = Some ks \<and> lease_expired now ks)"
  by (force simp: expired_keys_def)

lemma distinct_expired_keys: "keys_ok (keys s) \<Longrightarrow> distinct (expired_keys now s)"
  by (simp add: expired_keys_def distinct_map_filter)

lemma length_expired_keys: "length (expired_keys now s) \<le> length (keys s)"
  by (simp add: expired_keys_def)

lemma CheckTimeouts_spec:
  assumes "lock_inv s" "CheckTimeouts now s = (n, out, s')"
  shows "lock_inv s' \<and> n = of_nat (length (expired_keys now s)) \<and>
    out = concat (map (expire_out now s) (expired_keys now s)) \<and>
    (\<forall>k. lock_queue k s' = (if k \<in> set (expired_keys now s) then tl (lock_queue k s) else lock_queue k s)) \<and>
    (\<forall>k. k \<notin> set (expired_keys now s) \<longrightarrow> map_of (keys s') k = map_of (keys s) k)"
proof (rule expire_keys_spec[OF assms(1)])
  have ok: "keys_ok (keys s)" using assms(1) by (simp add: lock_inv_def)
  then show "distinct (expired_keys now s)" by (rule distinct_expired_keys)
  show "k \<in> set (expired_keys now s) \<Longrightarrow> map_of (keys s) k \<noteq> None" for k
    using expired_keys_iff[OF ok] by auto
  show "expire_keys (expired_keys now s) now s = (n, out, s')"
    using assms(2) by (simp add: CheckTimeouts_def expired_keys_def)
qed

section \<open>Steps and runs\<close>

datatype lock_op =
    LkAcquire u64 u8 u64 u64
  | LkRelease u64 u8 u64
  | LkTimeouts u64

fun lock_step :: "lock_op \<Rightarrow> LockManager \<Rightarrow> OutMessage list \<times> LockManager" where
  "lock_step (LkAcquire k r lease now) s = snd (Acquire k r lease now s)"
| "lock_step (LkRelease k r now) s = snd (Release k r now s)"
| "lock_step (LkTimeouts now) s = snd (CheckTimeouts now s)"

fun lock_op_ok :: "lock_op \<Rightarrow> bool" where
  "lock_op_ok (LkAcquire k r lease now) = (r \<noteq> kFree)"
| "lock_op_ok _ = True"

lemma lock_step_inv:
  assumes "lock_inv s" "lock_op_ok p"
  shows "lock_inv (snd (lock_step p s))"
proof (cases p)
  case (LkAcquire k r lease now)
  then show ?thesis using Acquire_inv[OF assms(1)] assms(2) by (metis lock_op_ok.simps(1) lock_step.simps(1) prod.collapse)
next
  case (LkRelease k r now)
  then show ?thesis using Release_inv[OF assms(1)] by (metis lock_step.simps(2) prod.collapse)
next
  case (LkTimeouts now)
  then show ?thesis using CheckTimeouts_spec[OF assms(1)] by (metis lock_step.simps(3) prod.collapse)
qed

text \<open>The abstract lock service: a queue of requesters per key, at most \<open>mk\<close> of them non-empty.\<close>

fun lock_spec :: "nat \<Rightarrow> u16 \<Rightarrow> u64 set \<Rightarrow> lock_op \<Rightarrow> (u64 \<Rightarrow> u8 list) \<Rightarrow> u64 \<Rightarrow> u8 list" where
  "lock_spec mk mw ex (LkAcquire k r lease now) Q =
     (if Q k = [] \<and> card {k. Q k \<noteq> []} = mk then Q else Q(k := spec_acquire mw r (Q k)))"
| "lock_spec mk mw ex (LkRelease k r now) Q = Q(k := spec_release r (Q k))"
| "lock_spec mk mw ex (LkTimeouts now) Q = (\<lambda>k. if k \<in> ex then tl (Q k) else Q k)"

fun op_time :: "lock_op \<Rightarrow> u64" where
  "op_time (LkAcquire k r lease now) = now"
| "op_time (LkRelease k r now) = now"
| "op_time (LkTimeouts now) = now"

lemma KeyCount_card: "lock_inv s \<Longrightarrow> card {k. lock_queue k s \<noteq> []} = KeyCount s"
proof -
  assume "lock_inv s"
  moreover have "{k. lock_queue k s \<noteq> []} = set (map fst (keys s))"
    by (auto simp: lock_queue_empty_iff map_of_eq_None_iff)
  ultimately show ?thesis by (simp only: distinct_card lock_inv_def KeyCount_def length_map)
qed

section \<open>What the clients are told\<close>

lemma length_enc_lk_hdr [simp, codec_simps]: "length (enc_lk_hdr h) = 12"
  by (simp add: enc_lk_hdr_def)

lemma dec_enc_lk_hdr [codec_simps]: "dec_lk_hdr (enc_lk_hdr h @ bs) = Some h"
  by (simp add: dec_lk_hdr_def enc_lk_hdr_def codec_simps)

lemma dec_enc_lk_hdr_last [codec_simps]: "dec_lk_hdr (enc_lk_hdr h) = Some h"
  using dec_enc_lk_hdr[of h "[]"] by simp

text \<open>
  A client believes that it holds a key from the moment it is sent a GRANT for it until it
  releases the key or is sent a TIMEOUT. The set holds the pairs of a key and a client that
  believes to hold it.
\<close>

definition hears :: "OutMessage \<Rightarrow> (u64 \<times> u8) set \<Rightarrow> (u64 \<times> u8) set" where
  "hears m B = (case dec_lk_hdr (out_data m) of
       None \<Rightarrow> B
     | Some h \<Rightarrow> if lk_msg_type h = kGrant then insert (lk_lock_key h, dest_id m) B
                 else if lk_msg_type h = kTimeout then B - {(lk_lock_key h, dest_id m)} else B)"

fun gives_up :: "lock_op \<Rightarrow> (u64 \<times> u8) set \<Rightarrow> (u64 \<times> u8) set" where
  "gives_up (LkRelease k r now) B = B - {(k, r)}"
| "gives_up _ B = B"

fun lock_run :: "lock_op list \<Rightarrow> LockManager \<times> (u64 \<times> u8) set \<Rightarrow> LockManager \<times> (u64 \<times> u8) set" where
  "lock_run [] x = x"
| "lock_run (p # ps) (s, B) = (case lock_step p s of (out, s') \<Rightarrow> lock_run ps (s', fold hears out (gives_up p B)))"

lemma hears_messages [simp]:
  "hears (MakeGrant r k e) B = insert (k, r) B"
  "hears (MakeDeny r k h) B = B"
  "hears (MakeTimeout r k) B = B - {(k, r)}"
  by (simp_all add: hears_def MakeGrant_def MakeDeny_def MakeTimeout_def lk_make_hdr_def
      enc_GrantMsg_def enc_DenyMsg_def enc_TimeoutMsg_def codec_simps)

definition holders :: "LockManager \<Rightarrow> (u64 \<times> u8) set" where
  "holders s = {(k, r). \<exists>ks. GetKeyState k s = Some ks \<and> holder_id ks = r}"

lemma holders_put: "holders (put_key k ks s) = insert (k, holder_id ks) {x \<in> holders s. fst x \<noteq> k}"
  by (auto simp: holders_def GetKeyState_def split: if_splits)

lemma holders_exception [simp]: "holders (exception_call_lock t k s) = holders s"
  by (simp add: holders_def GetKeyState_def)

lemma holders_key: "map_of (keys s) k = Some ks \<Longrightarrow> {x \<in> holders s. fst x \<noteq> k} = holders s - {(k, holder_id ks)}"
  by (auto simp: holders_def GetKeyState_def)

lemma holders_untracked: "map_of (keys s) k = None \<Longrightarrow> {x \<in> holders s. fst x \<noteq> k} = holders s"
  by (auto simp: holders_def GetKeyState_def)

lemma release_key_holders:
  assumes "map_of (keys s) k = Some ks" "release_key k ks now s = (out, s')"
  shows "fold hears out (holders s - {(k, holder_id ks)}) = holders s'"
  using assms
proof (cases rule: release_key_cases)
  case (hand_over w ws)
  with assms(1) show ?thesis by (simp add: holders_put holders_key)
next
  case drop
  with assms(1) show ?thesis by (auto simp: holders_def GetKeyState_def split: if_splits)
qed

lemma expire_keys_holders:
  "lock_inv s \<Longrightarrow> expire_keys ks now s = (n, out, s') \<Longrightarrow> fold hears out (holders s) = holders s'"
proof (induction ks arbitrary: s n out)
  case (Cons k ks)
  show ?case
  proof (cases "map_of (keys s) k")
    case (Some st)
    let ?s0 = "exception_call_lock kLockTimeoutCheck k s"
    obtain out1 s1 where r: "release_key k st now ?s0 = (out1, s1)" by fastforce
    obtain m out2 s2 where e: "expire_keys ks now s1 = (m, out2, s2)" by (metis prod_cases3)
    have "lock_inv s1" using release_key_inv[OF _ _ r] Cons.prems(1) Some by simp
    moreover have "fold hears out1 (holders s - {(k, holder_id st)}) = holders s1"
      using release_key_holders[OF _ r] Some by simp
    ultimately show ?thesis
      using Cons.IH[of s1] Cons.prems(2) key_ok_held[OF lock_invD[OF Cons.prems(1) Some]] Some r e
      by (auto simp del: kFree_def)
  qed (use Cons in simp)
qed simp

lemma lock_step_holders:
  assumes "lock_inv s" "lock_step p s = (out, s')"
  shows "fold hears out (gives_up p (holders s)) = holders s'"
proof (cases p)
  case (LkAcquire k r lease now)
  then obtain st where a: "Acquire k r lease now s = (st, out, s')" using assms(2) by (cases "Acquire k r lease now s") auto
  from assms(1) a show ?thesis
    by (cases rule: Acquire_cases)
      (auto simp: LkAcquire holders_put holders_untracked holders_key, auto simp: holders_def GetKeyState_def)
next
  case (LkRelease k r now)
  then obtain st where "Release k r now s = (st, out, s')" using assms(2) by (cases "Release k r now s") auto
  then show ?thesis unfolding LkRelease
    by (auto simp: Release_def release_key_holders split: option.splits if_splits prod.splits)
      (auto simp: holders_def GetKeyState_def)
next
  case (LkTimeouts now)
  with assms show ?thesis by (auto simp: CheckTimeouts_def expire_keys_holders prod_eq_iff)
qed

lemma lock_run_inv:
  assumes "lock_inv s" "\<forall>p\<in>set ps. lock_op_ok p" "lock_run ps (s, holders s) = (s', B)"
  shows "lock_inv s' \<and> B = holders s'"
  using assms
proof (induction ps arbitrary: s)
  case (Cons p ps)
  obtain out s1 where st: "lock_step p s = (out, s1)" by fastforce
  have "lock_inv s1" using lock_step_inv[OF Cons.prems(1), of p] Cons.prems(2) st by simp
  then show ?case
    using Cons.IH[of s1] Cons.prems(2,3) st lock_step_holders[OF Cons.prems(1) st] by simp
qed simp

lemma holders_new: "holders (LockManager_new mk dl mw) = {}"
  by (simp add: holders_def GetKeyState_def LockManager_new_def)

section \<open>Received messages\<close>

text \<open>The lock manager's table stays bounded whatever identifiers the requesters use.\<close>

definition lock_table_ok :: "LockManager \<Rightarrow> bool" where
  "lock_table_ok s \<longleftrightarrow> keys_ok (keys s) \<and> length (keys s) \<le> unat (max_keys s)"

lemma lock_table_ok_put: "lock_table_ok s \<Longrightarrow> map_of (keys s) k \<noteq> None \<Longrightarrow> lock_table_ok (put_key k ks s)"
  by (auto simp: lock_table_ok_def)

lemma GetOrCreateKey_table:
  assumes "lock_table_ok s" "GetOrCreateKey k s = (s1, r)"
  shows "lock_table_ok s1" "r = Some ks \<Longrightarrow> map_of (keys s1) k \<noteq> None"
  using assms(2,1) by (cases rule: GetOrCreateKey_cases; auto simp: lock_table_ok_def length_AList_update)+

lemma lock_table_ok_exception [simp]: "lock_table_ok (exception_call_lock t k s) = lock_table_ok s"
  by (simp add: lock_table_ok_def)

lemma Acquire_table:
  assumes "lock_table_ok s" "Acquire k r lease now s = (st, out, s')"
  shows "lock_table_ok s'"
proof -
  obtain s1 x where g: "GetOrCreateKey k s = (s1, x)" by fastforce
  from assms(2) g GetOrCreateKey_table[OF assms(1) g] show ?thesis
    by (auto simp: Acquire_def Let_def GrantLock_def split: option.splits if_splits intro!: lock_table_ok_put)
qed

lemma Release_table:
  assumes "lock_table_ok s" "Release k r now s = (st, out, s')"
  shows "lock_table_ok s'"
proof (cases "map_of (keys s) k")
  case (Some ks)
  show ?thesis
  proof (cases "holder_id ks = r")
    case True
    with Some assms(2) have r: "release_key k ks now s = (out, s')" by (auto simp: Release_def split: prod.splits)
    from Some r show ?thesis
      by (cases rule: release_key_cases) (use assms(1) Some in \<open>auto simp: lock_table_ok_def\<close>)
  qed (use assms Some in \<open>auto simp: Release_def\<close>)
qed (use assms in \<open>auto simp: Release_def\<close>)

lemma HandleMessage_lock_table:
  "lock_table_ok s \<Longrightarrow> HandleMessage_lock data now s = Some (st, out, s') \<Longrightarrow> lock_table_ok s'"
  by (auto simp: HandleMessage_lock_def Let_def bind_eq_Some_conv HandleAcquire_def HandleRelease_def
      split: if_splits dest: Acquire_table Release_table)

lemma HandleMessage_lock_total: "HandleMessage_lock data now s \<noteq> None"
  by (simp add: HandleMessage_lock_def dec_lk_hdr_def dec_AcquireMsg_def dec_ReleaseMsg_def Let_def prod_eq_iff)

section \<open>Properties of the lock service\<close>

text \<open>
  C1. Mutual exclusion. In every run of acquisitions, releases and timeout checks by requesters
  other than the reserved identifier 0xFF, the clients that were told that they hold a lock, and
  were not told otherwise and did not release it, are the recorded holders, so that no two
  different clients ever believe to hold the same key.
\<close>

theorem lock_mutual_exclusion:
  assumes "\<forall>p\<in>set ps. lock_op_ok p" "lock_run ps (LockManager_new mk dl mw, {}) = (s, B)"
  shows "B = holders s \<and> (\<forall>k r r'. (k, r) \<in> B \<longrightarrow> (k, r') \<in> B \<longrightarrow> r = r')"
proof -
  have "B = holders s"
    using lock_run_inv[OF lock_inv_new[of mk dl mw], of ps] assms by (simp add: holders_new)
  then show ?thesis by (auto simp: holders_def)
qed

definition demo_lock_ops :: "lock_op list" where
  "demo_lock_ops = [LkAcquire 7 1 10 100, LkAcquire 7 2 10 101, LkAcquire 8 2 10 102, LkTimeouts 110,
     LkRelease 7 2 111, LkAcquire 7 3 0 120]"

theorem lock_mutual_exclusion_witness:
  "snd (lock_run demo_lock_ops (LockManager_new 4 50 2, {})) =
     holders (fst (lock_run demo_lock_ops (LockManager_new 4 50 2, {}))) \<and>
   snd (lock_run demo_lock_ops (LockManager_new 4 50 2, {})) = {(7, 3), (8, 2)}"
proof -
  have 1: "\<forall>p\<in>set demo_lock_ops. lock_op_ok p" by (simp add: demo_lock_ops_def)
  have 2: "snd (lock_run demo_lock_ops (LockManager_new 4 50 2, {})) = {(7, 3), (8, 2)}" by code_simp
  from lock_mutual_exclusion[OF 1, of 4 50 2] 2 show ?thesis by (metis prod.collapse)
qed



text \<open>
  The manager stays within its memory: in every run it tracks at most the configured number
  of keys, every tracked key is held, and its queue holds distinct requesters up to the bound.
\<close>

theorem lock_state_bounded:
  assumes "\<forall>p\<in>set ps. lock_op_ok p" "lock_run ps (LockManager_new mk dl mw, {}) = (s, B)"
  shows "lock_inv s"
  using lock_run_inv[OF lock_inv_new[of mk dl mw], of ps] assms by (simp add: holders_new)

theorem lock_state_bounded_witness:
  "lock_inv (fst (lock_run demo_lock_ops (LockManager_new 4 50 2, {})))"
proof -
  have 1: "\<forall>p\<in>set demo_lock_ops. lock_op_ok p" by (simp add: demo_lock_ops_def)
  from lock_state_bounded[OF 1, of 4 50 2] show ?thesis by (metis prod.collapse)
qed

text \<open>
  C26. A timeout check revokes exactly the expired leases. It counts them, sends each old holder a
  TIMEOUT followed by the GRANT to the next waiter if there is one, and leaves every key whose
  lease has not expired as it was. The 32-bit count does not wrap.
\<close>

theorem CheckTimeouts_correct:
  assumes "lock_inv s" "CheckTimeouts now s = (n, out, s')"
  shows "unat n = length (expired_keys now s) \<and>
    out = concat (map (expire_out now s) (expired_keys now s)) \<and>
    (\<forall>k ks. GetKeyState k s = Some ks \<and> \<not> lease_expired now ks \<longrightarrow> GetKeyState k s' = Some ks) \<and>
    (\<forall>k ks. GetKeyState k s = Some ks \<and> lease_expired now ks \<longrightarrow> lock_queue k s' = tl (lock_queue k s))"
proof -
  have ok: "keys_ok (keys s)" and le: "length (keys s) \<le> unat (max_keys s)"
    using assms(1) by (simp_all add: lock_inv_def)
  have "length (expired_keys now s) < 2 ^ 32"
    using length_expired_keys[of now s] le unat_width(3)[of "max_keys s"] by linarith
  then have "unat (of_nat (length (expired_keys now s)) :: u32) = length (expired_keys now s)"
    by (simp add: unsigned_of_nat take_bit_nat_eq_self)
  with CheckTimeouts_spec[OF assms] show ?thesis
    by (auto simp: GetKeyState_def expired_keys_iff[OF ok])
qed

theorem CheckTimeouts_correct_witness:
  "let s = snd (lock_step (LkAcquire 7 1 10 100) (LockManager_new 4 50 2)) in
   unat (fst (CheckTimeouts 110 s)) = 1 \<and> unat (fst (CheckTimeouts 109 s)) = 0"
proof -
  define s where "s = snd (lock_step (LkAcquire 7 1 10 100) (LockManager_new 4 50 2))"
  have inv: "lock_inv s" unfolding s_def by (rule lock_step_inv[OF lock_inv_new]) simp
  have "length (expired_keys 110 s) = 1" "length (expired_keys 109 s) = 0" unfolding s_def by code_simp+
  moreover have "unat (fst (CheckTimeouts now s)) = length (expired_keys now s)" for now
    using CheckTimeouts_correct[OF inv, of now] by (cases "CheckTimeouts now s") simp
  ultimately show ?thesis unfolding Let_def unfolding s_def[symmetric] by presburger
qed

text \<open>
  Received bytes. The dispatcher reads inside the received buffer whatever was received, and
  an encoded ACQUIRE or RELEASE has the effect of the operation it names.
\<close>

theorem HandleMessage_lock_decodes:
  "(\<exists>st out s'. HandleMessage_lock data now s = Some (st, out, s')) \<and>
   HandleMessage_lock (enc_AcquireMsg \<lparr> acq_hdr = lk_make_hdr kAcquire r k, acq_lease_duration_ns = l \<rparr>) now s =
     Some (Acquire k r l now s) \<and>
   HandleMessage_lock (enc_ReleaseMsg \<lparr> rel_hdr = lk_make_hdr kRelease r k \<rparr>) now s = Some (Release k r now s)"
proof (intro conjI)
  show "\<exists>st out s'. HandleMessage_lock data now s = Some (st, out, s')"
    by (simp add: HandleMessage_lock_def dec_lk_hdr_def dec_AcquireMsg_def dec_ReleaseMsg_def Let_def prod_eq_iff)
qed (simp_all add: HandleMessage_lock_def HandleAcquire_def HandleRelease_def enc_AcquireMsg_def
    enc_ReleaseMsg_def dec_AcquireMsg_def dec_ReleaseMsg_def lk_make_hdr_def codec_simps)

section \<open>Departures from mutual exclusion\<close>

text \<open>
  The identifier 0xFF marks a free key and is also a possible requester: an acquisition by 0xFF
  is granted and leaves the key free for the next one. A lease that ends beyond the 64-bit range
  wraps and is revoked by the next check.
\<close>

theorem reserved_requester_breaks_mutex:
  "snd (lock_run [LkAcquire 7 255 10 100, LkAcquire 7 1 10 101] (LockManager_new 4 50 2, {})) = {(7, 255), (7, 1)}"
  by code_simp

theorem lease_end_wraps:
  "fst (CheckTimeouts 100 (snd (lock_step (LkAcquire 7 1 0xFFFFFFFFFFFFFFFF 100) (LockManager_new 4 50 2)))) = 1"
  by code_simp

end
