(* ===== verification/Barrier_Safety.thy ===== *)
theory Barrier_Safety
  imports Barrier_State
begin

text \<open>
  Correctness of the barrier service: it implements a set of arrived participants per
  generation, never releases a generation before all its participants arrived, and does release
  it when they have.
\<close>

section \<open>Well-formed barriers\<close>

definition barrier_ok :: "BarrierState \<Rightarrow> bool" where
  "barrier_ok st \<longleftrightarrow> 2 \<le> num_participants st \<and> num_participants st \<le> 64 \<and>
     arrived_count st < num_participants st \<and> card (bits_of (arrived_bitmap st)) \<le> unat (arrived_count st)"

definition barriers_inv :: "BarrierManager \<Rightarrow> bool" where
  "barriers_inv s \<longleftrightarrow> keys_ok (barriers s) \<and> (\<forall>b st. map_of (barriers s) b = Some st \<longrightarrow> barrier_ok st)"

text \<open>When every sender has a bit, the count is the number of arrived participants.\<close>

definition barrier_exact :: "BarrierState \<Rightarrow> bool" where
  "barrier_exact st \<longleftrightarrow> barrier_ok st \<and> card (bits_of (arrived_bitmap st)) = unat (arrived_count st)"

lemma barrier_fields [simp]:
  "barriers (exception_call_barrier t b s) = barriers s"
  "max_barriers (exception_call_barrier t b s) = max_barriers s"
  "default_participants (exception_call_barrier t b s) = default_participants s"
  "barriers (put_barrier b st s) = AList.update b st (barriers s)"
  "max_barriers (put_barrier b st s) = max_barriers s"
  "default_participants (put_barrier b st s) = default_participants s"
  by (simp_all add: exception_call_barrier_def put_barrier_def)

lemma u8_lt_64: "(x :: u8) < 64 \<longleftrightarrow> unat x < 64"
  by (simp add: word_less_nat_alt)

lemma count_step:
  assumes "barrier_ok st" "\<not> num_participants st \<le> arrived_count st + 1"
  shows "unat (arrived_count st + 1) = Suc (unat (arrived_count st))"
    "arrived_count st + 1 < num_participants st"
  using assms by (simp_all add: barrier_ok_def word_less_nat_alt word_le_nat_alt unat_word_ariths not_le) 

text \<open>The outcomes of an arrival at a known barrier.\<close>

lemma arrive_at_cases:
  assumes "arrive_at b st g sid s = (status, out, s')"
  obtains (late) "g < current_generation st" "status = Br_kLateArrival" "out = []"
      "s' = exception_call_barrier kBarrierLateArrival b s"
  | (future) "current_generation st < g" "status = Br_kFutureArrival" "out = []" "s' = s"
  | (duplicate) "g = current_generation st" "unat sid < 64" "unat sid \<in> bits_of (arrived_bitmap st)"
      "status = Br_kDuplicateArrival" "out = []" "s' = s"
  | (release) "g = current_generation st" "unat sid < 64 \<Longrightarrow> unat sid \<notin> bits_of (arrived_bitmap st)"
      "num_participants st \<le> arrived_count st + 1" "status = Br_kRelease" "out = [MakeRelease b g]"
      "s' = put_barrier b (st\<lparr> current_generation := g + 1, arrived_count := 0, arrived_bitmap := 0 \<rparr>) s"
  | (arrived) bm where "g = current_generation st" "unat sid < 64 \<Longrightarrow> unat sid \<notin> bits_of (arrived_bitmap st)"
      "\<not> num_participants st \<le> arrived_count st + 1" "status = Br_kOk" "out = []"
      "bm = (if unat sid < 64 then arrived_bitmap st OR mask64 (unat sid) else arrived_bitmap st)"
      "s' = put_barrier b (st\<lparr> arrived_count := arrived_count st + 1, arrived_bitmap := bm \<rparr>) s"
  using assms
  by (auto simp: arrive_at_def Let_def u8_lt_64 mask64_clear split: if_splits)

lemma barrier_ok_reset [simp]:
  "barrier_ok st \<Longrightarrow> barrier_ok (st\<lparr> current_generation := g, arrived_count := 0, arrived_bitmap := 0 \<rparr>)"
  by (auto simp: barrier_ok_def bm64.indices_none word_less_nat_alt word_le_nat_alt)

lemma barriers_inv_put:
  "barriers_inv s \<Longrightarrow> barrier_ok st \<Longrightarrow> barriers_inv (put_barrier b st s)"
  by (auto simp: barriers_inv_def)

lemma arrive_at_inv [inv_intros]:
  assumes "barriers_inv s" "map_of (barriers s) b = Some st" "arrive_at b st g sid s = (status, out, s')"
  shows "barriers_inv s'"
proof -
  have ok: "barrier_ok st" using assms(1,2) by (simp add: barriers_inv_def)
  from assms(3) show ?thesis
  proof (cases rule: arrive_at_cases)
    case (arrived bm)
    have "card (bits_of bm) \<le> Suc (card (bits_of (arrived_bitmap st)))"
      using arrived(2,6) by (auto simp: bm64.card_add bm64.member_iff)
    then have "barrier_ok (st\<lparr> arrived_count := arrived_count st + 1, arrived_bitmap := bm \<rparr>)"
      using ok count_step[OF ok arrived(3)] by (auto simp: barrier_ok_def)
    with arrived(7) assms(1) show ?thesis by (simp add: barriers_inv_put)
  next
    case release
    with ok assms(1) show ?thesis by (simp add: barriers_inv_put)
  qed (use assms(1) in \<open>auto simp: barriers_inv_def\<close>)
qed

definition fresh_barrier :: "u16 \<Rightarrow> BarrierState" where
  "fresh_barrier n = \<lparr> current_generation = 0, num_participants = n, arrived_count = 0, arrived_bitmap = 0 \<rparr>"

lemma fresh_exact: "\<not> (n < 2 \<or> n > 64) \<Longrightarrow> barrier_exact (fresh_barrier n)"
  by (auto simp: barrier_exact_def barrier_ok_def fresh_barrier_def bm64.indices_none
      word_less_nat_alt word_le_nat_alt)

lemma SetParticipants_inv [inv_intros]:
  "barriers_inv s \<Longrightarrow> SetParticipants b n s = (status, s') \<Longrightarrow> barriers_inv s'"
  using fresh_exact[of n]
  by (auto simp: SetParticipants_def fresh_barrier_def barrier_exact_def split: if_splits intro: barriers_inv_put)

text \<open>An arrival is rejected for lack of room, or happens at the known or freshly created barrier.\<close>

lemma Arrive_cases:
  assumes "Arrive b g sid s = (status, out, s')"
  obtains (known) st where "map_of (barriers s) b = Some st" "arrive_at b st g sid s = (status, out, s')"
  | (full) "map_of (barriers s) b = None" "unat (max_barriers s) \<le> length (barriers s)"
      "status = Br_kLayoutOverflow" "out = []" "s' = exception_call_barrier kBarrierGenerationOverflow b s"
  | (invalid) "map_of (barriers s) b = None" "status = Br_kInvalidConfiguration" "out = []" "s' = s"
      "default_participants s < 2 \<or> default_participants s > 64"
  | (fresh) s1 where "map_of (barriers s) b = None" "length (barriers s) < unat (max_barriers s)"
      "\<not> (default_participants s < 2 \<or> default_participants s > 64)"
      "s1 = put_barrier b (fresh_barrier (default_participants s)) s"
      "arrive_at b (fresh_barrier (default_participants s)) g sid s1 = (status, out, s')"
  using assms
  by (auto simp: Arrive_def SetParticipants_def fresh_barrier_def split: option.splits if_splits)

lemma Arrive_inv [inv_intros]:
  assumes "barriers_inv s" "Arrive b g sid s = (status, out, s')"
  shows "barriers_inv s'"
  using assms(2)
proof (cases rule: Arrive_cases)
  case (known st)
  with assms(1) show ?thesis by (auto intro: arrive_at_inv)
next
  case (fresh s1)
  have "barriers_inv s1"
    using fresh(4) barriers_inv_put[OF assms(1)] fresh_exact[OF fresh(3)] by (simp add: barrier_exact_def)
  then show ?thesis by (rule arrive_at_inv[OF _ _ fresh(5)]) (simp add: fresh(4))
qed (use assms(1) in \<open>auto simp: barriers_inv_def\<close>)

section \<open>The set specification\<close>

definition abs_barrier :: "BarrierState \<Rightarrow> nat \<times> u16 \<times> nat set" where
  "abs_barrier st = (unat (num_participants st), current_generation st, bits_of (arrived_bitmap st))"

fun spec_arrive :: "u16 \<Rightarrow> nat \<Rightarrow> nat \<times> u16 \<times> nat set \<Rightarrow> bool \<times> nat \<times> u16 \<times> nat set" where
  "spec_arrive g p (n, cur, A) =
     (if g \<noteq> cur \<or> p \<in> A then (False, n, cur, A)
      else if card (insert p A) = n then (True, n, cur + 1, {})
      else (False, n, cur, insert p A))"

lemma arrive_at_refines:
  assumes "barrier_exact st" "unat sid < 64" "map_of (barriers s) b = Some st"
    and "arrive_at b st g sid s = (status, out, s')"
  obtains st' where "map_of (barriers s') b = Some st'" "barrier_exact st'"
    "(status = Br_kRelease, abs_barrier st') = spec_arrive g (unat sid) (abs_barrier st)"
    "out = (if status = Br_kRelease then [MakeRelease b g] else [])"
proof -
  have ok: "barrier_ok st" and ex: "card (bits_of (arrived_bitmap st)) = unat (arrived_count st)"
    using assms(1) by (simp_all add: barrier_exact_def)
  from assms(4) show ?thesis
  proof (cases rule: arrive_at_cases)
    case release
    have "unat (num_participants st) = Suc (card (bits_of (arrived_bitmap st)))"
      using release(3) ok ex by (simp add: barrier_ok_def word_less_nat_alt word_le_nat_alt unat_word_ariths)
    with release assms(2) show ?thesis
      by (intro that[of "st\<lparr> current_generation := g + 1, arrived_count := 0, arrived_bitmap := 0 \<rparr>"])
        (use ok in \<open>auto simp: abs_barrier_def barrier_exact_def bm64.indices_none bm64.finite_indices\<close>)
  next
    case (arrived bm)
    note c = count_step[OF ok arrived(3)]
    have bm: "bits_of bm = insert (unat sid) (bits_of (arrived_bitmap st))"
      using arrived(6) assms(2) by (simp add: bm64.indices_add)
    have n: "Suc (card (bits_of (arrived_bitmap st))) \<noteq> unat (num_participants st)"
      using c ex by (simp add: word_less_nat_alt)
    have "barrier_exact (st\<lparr> arrived_count := arrived_count st + 1, arrived_bitmap := bm \<rparr>)"
      using ok c ex bm arrived(2) assms(2) by (auto simp: barrier_exact_def barrier_ok_def bm64.finite_indices)
    with arrived bm n assms(2) show ?thesis
      by (intro that[of "st\<lparr> arrived_count := arrived_count st + 1, arrived_bitmap := bm \<rparr>"])
        (auto simp: abs_barrier_def bm64.finite_indices)
  qed (use assms in \<open>auto simp: abs_barrier_def intro!: that[of st]\<close>)
qed

section \<open>Runs of arrivals at one barrier\<close>

fun arrive_run :: "u32 \<Rightarrow> (u16 \<times> u8) list \<Rightarrow> BarrierManager \<Rightarrow> (BarrierStatus list \<times> OutMessage list) \<times> BarrierManager" where
  "arrive_run b [] s = (([], []), s)"
| "arrive_run b ((g, sid) # as) s =
     (case Arrive b g sid s of (st, out, s1) \<Rightarrow>
        (case arrive_run b as s1 of ((sts, outs), s2) \<Rightarrow> ((st # sts, out @ outs), s2)))"

definition all_have_bits :: "(u16 \<times> u8) list \<Rightarrow> bool" where
  "all_have_bits as \<longleftrightarrow> (\<forall>(g, sid)\<in>set as. unat sid < 64)"

lemma Arrive_known: "map_of (barriers s) b = Some st \<Longrightarrow> Arrive b g sid s = arrive_at b st g sid s"
  by (simp add: Arrive_def)

text \<open>
  The arrivals recorded for the current generation have all been made with that generation
  number, by the given history.
\<close>

lemma arrive_run_history:
  assumes "map_of (barriers s) b = Some st" "barrier_exact st" "all_have_bits as"
    and "bits_of (arrived_bitmap st) \<subseteq> {unat p |p. (current_generation st, p) \<in> H}"
    and "arrive_run b as s = (r, s')"
  shows "\<exists>st'. map_of (barriers s') b = Some st' \<and> barrier_exact st' \<and>
    num_participants st' = num_participants st \<and>
    bits_of (arrived_bitmap st') \<subseteq> {unat p |p. (current_generation st', p) \<in> H \<union> set as}"
  using assms
proof (induction as arbitrary: s st r H)
  case (Cons a as)
  obtain g sid where a: "a = (g, sid)" by (cases a)
  obtain status out s1 where st1: "Arrive b g sid s = (status, out, s1)" by (metis prod_cases3)
  have sid: "unat sid < 64" using Cons.prems(3) by (simp add: all_have_bits_def a)
  from st1 have at: "arrive_at b st g sid s = (status, out, s1)" by (simp add: Arrive_known[OF Cons.prems(1)])
  obtain st' where st': "map_of (barriers s1) b = Some st'" "barrier_exact st'"
    "(status = Br_kRelease, abs_barrier st') = spec_arrive g (unat sid) (abs_barrier st)"
    by (rule arrive_at_refines[OF Cons.prems(2) sid Cons.prems(1) at])
  have n: "num_participants st' = num_participants st"
    using st'(3) by (auto simp: abs_barrier_def split: if_splits intro: unsigned_word_eqI)
  have "bits_of (arrived_bitmap st') \<subseteq> {unat p |p. (current_generation st', p) \<in> insert a H}"
    using st'(3) Cons.prems(4) a by (auto simp: abs_barrier_def split: if_splits)
  with Cons.IH[OF st'(1,2), of "insert a H"] Cons.prems(3,5) a st1 n show ?case
    by (auto simp: all_have_bits_def split: prod.splits)
qed (auto simp: all_have_bits_def)

text \<open>
  Arrivals of distinct participants that do not complete the generation are all recorded.
\<close>

lemma arrive_run_partial:
  assumes "map_of (barriers s) b = Some st" "barrier_exact st" "current_generation st = g"
    and "distinct ps" "\<forall>p\<in>set ps. unat p < 64 \<and> unat p \<notin> bits_of (arrived_bitmap st)"
    and "card (bits_of (arrived_bitmap st)) + length ps < unat (num_participants st)"
  shows "\<exists>s' st'. arrive_run b (map (Pair g) ps) s = ((replicate (length ps) Br_kOk, []), s') \<and>
    map_of (barriers s') b = Some st' \<and> barrier_exact st' \<and> current_generation st' = g \<and>
    num_participants st' = num_participants st \<and>
    bits_of (arrived_bitmap st') = bits_of (arrived_bitmap st) \<union> unat ` set ps"
  using assms
proof (induction ps arbitrary: s st)
  case (Cons p ps)
  obtain status out s1 where ar: "Arrive b g p s = (status, out, s1)" by (metis prod_cases3)
  then have at: "arrive_at b st g p s = (status, out, s1)" by (simp add: Arrive_known[OF Cons.prems(1)])
  have p: "unat p < 64" "unat p \<notin> bits_of (arrived_bitmap st)" using Cons.prems(5) by auto
  have "Suc (unat (arrived_count st)) < unat (num_participants st)"
    using Cons.prems(2,6) by (simp add: barrier_exact_def)
  then have room: "\<not> num_participants st \<le> arrived_count st + 1"
    using unat_width(2)[of "num_participants st"] by (simp add: word_le_nat_alt unat_word_ariths)
  have ne: "status = Br_kOk" "out = []"
    using at Cons.prems(3)[symmetric] p room by (cases rule: arrive_at_cases; simp)+
  obtain st1 where st1: "map_of (barriers s1) b = Some st1" "barrier_exact st1"
      "(status = Br_kRelease, abs_barrier st1) = spec_arrive g (unat p) (abs_barrier st)"
    by (rule arrive_at_refines[OF Cons.prems(2) p(1) Cons.prems(1) at])
  then have abs: "num_participants st1 = num_participants st" "current_generation st1 = g"
      "bits_of (arrived_bitmap st1) = insert (unat p) (bits_of (arrived_bitmap st))"
    using ne p Cons.prems(3) by (auto simp: abs_barrier_def split: if_splits intro: unsigned_word_eqI)
  have "\<forall>q\<in>set ps. unat q < 64 \<and> unat q \<notin> bits_of (arrived_bitmap st1)"
    using Cons.prems(4,5) abs(3) by (auto dest: unsigned_word_eqI)
  moreover have "card (bits_of (arrived_bitmap st1)) + length ps < unat (num_participants st1)"
    using Cons.prems(6) abs p by (simp add: bm64.finite_indices)
  ultimately obtain s' st' where "arrive_run b (map (Pair g) ps) s1 = ((replicate (length ps) Br_kOk, []), s')"
      "map_of (barriers s') b = Some st'" "barrier_exact st'" "current_generation st' = g"
      "num_participants st' = num_participants st1"
      "bits_of (arrived_bitmap st') = bits_of (arrived_bitmap st1) \<union> unat ` set ps"
    using Cons.IH[OF st1(1,2) abs(2)] Cons.prems(4) by auto
  with ar ne abs show ?case by (intro exI[of _ s'] exI[of _ st']) simp
qed simp

lemma arrive_run_append:
  "arrive_run b (as @ bs) s =
     (case arrive_run b as s of ((sts, outs), s1) \<Rightarrow>
        (case arrive_run b bs s1 of ((sts', outs'), s2) \<Rightarrow> ((sts @ sts', outs @ outs'), s2)))"
  by (induction b as s rule: arrive_run.induct) (auto split: prod.splits)

section \<open>Received messages\<close>

lemma HandleMessage_barrier_inv:
  "barriers_inv s \<Longrightarrow> HandleMessage_barrier data s = Some (st, out, s') \<Longrightarrow> barriers_inv s'"
  by (auto simp: HandleMessage_barrier_def bind_eq_Some_conv split: if_splits dest: Arrive_inv)

lemma HandleMessage_barrier_total: "HandleMessage_barrier data s \<noteq> None"
  by (simp add: HandleMessage_barrier_def dec_br_hdr_def prod_eq_iff)

section \<open>Properties of the barrier service\<close>

text \<open>
  C9. No early release. After any history of arrivals at a barrier just set up by
  \<open>SetParticipants\<close>, by senders with identifiers below 64, which have a bit in the bitmap (one
  without releases alone, \<open>sender_without_bit_releases_alone\<close>), an arrival that releases generation \<open>g\<close> is preceded by
  arrivals with that generation number of at least as many distinct senders as the barrier has
  participants, itself included.
\<close>

theorem barrier_no_early_release:
  assumes "SetParticipants b n s0 = (Br_kOk, s)" "all_have_bits (h @ [(g, sid)])"
    and "arrive_run b h s = (r, s1)" "Arrive b g sid s1 = (Br_kRelease, out, s2)"
  shows "unat n \<le> card {p. (g, p) \<in> set (h @ [(g, sid)])}"
proof -
  have st: "map_of (barriers s) b = Some (fresh_barrier n)" "barrier_exact (fresh_barrier n)"
    using assms(1) fresh_exact[of n] by (auto simp: SetParticipants_def fresh_barrier_def split: if_splits)
  obtain st' where st': "map_of (barriers s1) b = Some st'" "barrier_exact st'" "num_participants st' = n"
      "bits_of (arrived_bitmap st') \<subseteq> {unat p |p. (current_generation st', p) \<in> {} \<union> set h}"
    using arrive_run_history[OF st, of h "{}" r s1] assms(2,3)
    by (auto simp: fresh_barrier_def bm64.indices_none all_have_bits_def)
  have sid: "unat sid < 64" using assms(2) by (simp add: all_have_bits_def)
  from assms(4) st'(1) have at: "arrive_at b st' g sid s1 = (Br_kRelease, out, s2)" by (simp add: Arrive_known)
  from at have g: "g = current_generation st'" and card: "unat n \<le> Suc (card (bits_of (arrived_bitmap st')))"
      and new: "unat sid \<notin> bits_of (arrived_bitmap st')"
    using st'(2,3) sid by (cases rule: arrive_at_cases;
      simp add: barrier_exact_def barrier_ok_def word_less_nat_alt word_le_nat_alt unat_word_ariths)+
  let ?P = "{p. (g, p) \<in> set (h @ [(g, sid)])}"
  have "insert (unat sid) (bits_of (arrived_bitmap st')) \<subseteq> unat ` ?P" using st'(4) g by auto
  then have "card (insert (unat sid) (bits_of (arrived_bitmap st'))) \<le> card ?P"
    by (meson card_image_le card_mono finite finite_imageI le_trans)
  with card new show ?thesis by (simp add: bm64.finite_indices)
qed

definition demo_barrier :: BarrierManager where
  "demo_barrier = snd (SetParticipants 5 2 (BarrierManager_new 4 3))"

theorem barrier_no_early_release_witness:
  "unat (2 :: u16) \<le> card {p. (0, p) \<in> set ([(0, 3), (1, 9), (0, 3)] @ [(0 :: u16, 4 :: u8)])}"
proof -
  have 1: "SetParticipants 5 2 (BarrierManager_new 4 3) = (Br_kOk, demo_barrier)" by code_simp
  have 2: "all_have_bits ([(0, 3), (1, 9), (0, 3)] @ [(0, 4)])" by (simp add: all_have_bits_def)
  let ?r = "arrive_run 5 [(0, 3), (1, 9), (0, 3)] demo_barrier"
  have 3: "fst (Arrive 5 0 4 (snd ?r)) = Br_kRelease" by code_simp
  show ?thesis
    using barrier_no_early_release[OF 1 2, of "fst ?r" "snd ?r"] 3 by (metis prod.collapse)
qed

text \<open>
  C15. Release. When the participants of a barrier arrive at the current generation, each once and
  in any order, all arrivals but the last are recorded and the last releases the barrier: exactly
  one RELEASE with that generation is broadcast and the next generation starts empty.
\<close>

theorem barrier_round_releases:
  assumes "GetBarrier b s = Some st" "barrier_exact st" "arrived_bitmap st = 0"
    and "distinct ps" "\<forall>p\<in>set ps. unat p < 64" "length ps = unat (num_participants st)"
  shows "\<exists>s' st'. arrive_run b (map (Pair (current_generation st)) ps) s =
      ((replicate (length ps - 1) Br_kOk @ [Br_kRelease], [MakeRelease b (current_generation st)]), s') \<and>
    GetBarrier b s' = Some st' \<and> current_generation st' = current_generation st + 1 \<and>
    num_participants st' = num_participants st \<and> bits_of (arrived_bitmap st') = {} \<and> barrier_exact st'"
proof -
  let ?g = "current_generation st"
  have "2 \<le> unat (num_participants st)" using assms(2) by (simp add: barrier_exact_def barrier_ok_def word_le_nat_alt)
  with assms(6) obtain qs q where ps: "ps = qs @ [q]" by (cases ps rule: rev_cases) auto
  have none: "bits_of (arrived_bitmap st) = {}" by (simp add: assms(3) bm64.indices_none)
  obtain s1 st1 where s1: "arrive_run b (map (Pair ?g) qs) s = ((replicate (length qs) Br_kOk, []), s1)"
      "map_of (barriers s1) b = Some st1" "barrier_exact st1" "current_generation st1 = ?g"
      "num_participants st1 = num_participants st" "bits_of (arrived_bitmap st1) = unat ` set qs"
    using arrive_run_partial[of s b st ?g qs] assms ps none by (auto simp: GetBarrier_def)
  obtain status out s2 where ar: "Arrive b ?g q s1 = (status, out, s2)" by (metis prod_cases3)
  have q: "unat q < 64" "unat q \<notin> unat ` set qs" using assms(4,5) ps by (auto dest: unsigned_word_eqI)
  have "inj_on unat (set qs)" by (auto simp: inj_on_def dest: unsigned_word_eqI)
  then have card: "card (insert (unat q) (unat ` set qs)) = unat (num_participants st)"
    using q assms(4,6) ps by (simp add: card_image distinct_card)
  from ar have at: "arrive_at b st1 ?g q s1 = (status, out, s2)" by (simp add: Arrive_known[OF s1(2)])
  obtain st2 where "map_of (barriers s2) b = Some st2" "barrier_exact st2"
      "(status = Br_kRelease, abs_barrier st2) = spec_arrive ?g (unat q) (abs_barrier st1)"
      "out = (if status = Br_kRelease then [MakeRelease b ?g] else [])"
    by (rule arrive_at_refines[OF s1(3) q(1) s1(2) at])
  with s1 q card ar ps show ?thesis
    by (auto simp: abs_barrier_def arrive_run_append GetBarrier_def split: if_splits intro: unsigned_word_eqI)
qed

theorem barrier_round_releases_witness:
  "\<exists>s'. arrive_run 5 (map (Pair 0) [9, 3]) demo_barrier =
     (([Br_kOk, Br_kRelease], [MakeRelease 5 0]), s')"
proof -
  have 1: "GetBarrier 5 demo_barrier = Some (fresh_barrier 2)" by code_simp
  have 2: "barrier_exact (fresh_barrier 2)" by (rule fresh_exact) simp
  from barrier_round_releases[OF 1 2, of "[9, 3]"] show ?thesis by (auto simp: fresh_barrier_def)
qed



text \<open>
  Arrivals keep the table within its capacity and every barrier well-formed: two to 64
  participants, fewer arrivals recorded than participants, no more bits than arrivals.
\<close>

theorem barrier_state_bounded:
  assumes "barriers_inv s" "BarrierCount s \<le> unat (max_barriers s)" "Arrive b g sid s = (status, out, s')"
  shows "barriers_inv s' \<and> BarrierCount s' \<le> unat (max_barriers s')"
proof -
  have "BarrierCount s' \<le> unat (max_barriers s')"
    using assms(3)
  proof (cases rule: Arrive_cases)
    case (known st)
    from known(2) assms(2) known(1) show ?thesis by (cases rule: arrive_at_cases) (auto simp: BarrierCount_def)
  next
    case (fresh s1)
    from fresh(5) show ?thesis
      by (cases rule: arrive_at_cases) (use fresh in \<open>auto simp: BarrierCount_def length_AList_update\<close>)
  qed (use assms(2) in \<open>auto simp: BarrierCount_def\<close>)
  with Arrive_inv[OF assms(1,3)] show ?thesis by simp
qed

theorem barrier_state_bounded_witness:
  "barriers_inv (snd (snd (Arrive 8 0 1 (BarrierManager_new 1 3))))"
proof -
  have 1: "barriers_inv (BarrierManager_new 1 3)" by (simp add: barriers_inv_def BarrierManager_new_def)
  have 2: "BarrierCount (BarrierManager_new 1 3) \<le> unat (max_barriers (BarrierManager_new 1 3))" by code_simp
  from barrier_state_bounded[OF 1 2, of 8 0 1] show ?thesis by (metis prod.collapse)
qed

text \<open>
  Received bytes. The dispatcher reads inside the received buffer whatever was received, and
  an encoded ARRIVE is handled as the arrival it announces.
\<close>

theorem HandleMessage_barrier_decodes:
  "(\<exists>st out s'. HandleMessage_barrier data s = Some (st, out, s')) \<and>
   HandleMessage_barrier (enc_br_hdr \<lparr> br_msg_type = kArrive, br_sender_id = sid, br_generation = g,
     br_barrier_id = b \<rparr>) s = Some (Arrive b g sid s)"
proof
  show "\<exists>st out s'. HandleMessage_barrier data s = Some (st, out, s')"
    by (simp add: HandleMessage_barrier_def dec_br_hdr_def prod_eq_iff)
  show "HandleMessage_barrier (enc_br_hdr \<lparr> br_msg_type = kArrive, br_sender_id = sid, br_generation = g,
     br_barrier_id = b \<rparr>) s = Some (Arrive b g sid s)"
    by (simp add: HandleMessage_barrier_def dec_br_hdr_def enc_br_hdr_def codec_simps)
qed

section \<open>Departures\<close>

text \<open>
  A sender without a bit in the bitmap is counted on every arrival, so that one such sender
  releases a barrier of two. A straggler of the last generation before the wrap is reported as an
  arrival for a future generation. Configuring barriers ignores the capacity of the table.
\<close>

theorem sender_without_bit_releases_alone:
  "fst (fst (arrive_run 5 [(0, 64), (0, 64)] demo_barrier)) = [Br_kOk, Br_kRelease]"
  by code_simp

theorem straggler_after_wrap_is_future:
  "let s = put_barrier 5 ((fresh_barrier 2)\<lparr> current_generation := 65535 \<rparr>) demo_barrier in
   fst (fst (arrive_run 5 [(65535, 1), (65535, 2), (65535, 3)] s)) = [Br_kOk, Br_kRelease, Br_kFutureArrival]"
  by code_simp

theorem SetParticipants_ignores_capacity:
  "BarrierCount (snd (SetParticipants 6 2 (snd (SetParticipants 5 2 (BarrierManager_new 1 3))))) = 2"
  by code_simp

end
