(* ===== verification/Engine_Safety.thy ===== *)
theory Engine_Safety
  imports Primitive_Engine Paxos_Safety Lock_Safety Barrier_Safety
begin

text \<open>
  Correctness of the primitive engine: every packet with a payload is processed inside its buffer,
  the state machines stay well-formed, responses carry the payload that was meant for each of
  their destinations, and exceptional packets reach the fallback tier unmodified but for their
  header.
\<close>

section \<open>Packets\<close>

lemma set_exception_total: "30 \<le> length pkt \<Longrightarrow> set_exception x pkt \<noteq> None"
  using with_HcopHeader_Some_iff[of _ pkt] by (metis not_Some_eq set_exception_def)

lemma set_exception_frame:
  assumes "set_exception x pkt = Some p"
  shows "length p = length pkt" "drop 30 p = drop 30 pkt" "get_exception p = Some x" "take 14 p = take 14 pkt"
proof -
  obtain h where h: "decode_HcopHeader pkt 14 = Some h" "p = wr 14 (encode_HcopHeader (h\<lparr> exception_type := x \<rparr>)) pkt"
    using assms by (auto simp: set_exception_def with_HcopHeader_def bind_eq_Some_conv)
  have len: "30 \<le> length pkt" using h(1) decode_HcopHeader_Some_iff[of pkt 14] by auto
  show "length p = length pkt" "drop 30 p = drop 30 pkt" "take 14 p = take 14 pkt"
    using h(2) len by (simp_all add: wr_def)
  show "get_exception p = Some x" using h(2) len by (simp add: get_exception_def codec_simps)
qed

lemma get_exception_total: "30 \<le> length pkt \<Longrightarrow> \<exists>x. get_exception pkt = Some x"
  using decode_HcopHeader_Some_iff[of pkt 14] by (auto simp: get_exception_def)

lemma length_resize [simp]: "length (resize n bs) = n"
  by (simp add: resize_def)

lemma rdw_take_append:
  "off + n \<le> k \<Longrightarrow> k \<le> length bs \<Longrightarrow> rdw n (take k bs @ xs) off = rdw n bs off"
  by (auto simp: rdw_def rd_def drop_take min_def)

lemma UpdatePacketPayload_spec:
  assumes "30 \<le> length pkt"
  shows "\<exists>p. UpdatePacketPayload pkt payload = Some p \<and> drop 30 p = payload \<and> length p = 30 + length payload \<and>
    map_option exception_type (decode_HcopHeader p 14) = map_option exception_type (decode_HcopHeader pkt 14) \<and>
    map_option operation_id (decode_HcopHeader p 14) = map_option operation_id (decode_HcopHeader pkt 14)"
proof -
  let ?q = "wr 30 payload (resize (30 + length payload) pkt)"
  have q: "?q = take 30 pkt @ payload" using assms by (simp add: wr_def resize_def)
  have same: "decode_HcopHeader (take 30 pkt @ payload) 14 = decode_HcopHeader pkt 14"
    using assms by (simp add: decode_HcopHeader_def rdw_take_append drop_take)
  obtain h where h: "decode_HcopHeader pkt 14 = Some h"
    using decode_HcopHeader_Some_iff[of pkt 14] assms by auto
  let ?h = "h\<lparr> payload_len := of_nat (length payload) \<rparr>"
  let ?p = "wr 6 [0x02, 0x00, 0x53, 0x57, 0x54, 0x00] (wr 14 (encode_HcopHeader ?h) (take 30 pkt @ payload))"
  have u: "UpdatePacketPayload pkt payload = Some ?p"
    using h same by (simp add: UpdatePacketPayload_def with_HcopHeader_def q)
  have p: "?p = (take 6 pkt @ [0x02, 0x00, 0x53, 0x57, 0x54, 0x00] @ take 2 (drop 12 pkt)) @ encode_HcopHeader ?h @ payload"
    using assms by (simp add: wr_def drop_take)
  have l: "length (take 6 pkt @ [0x02, 0x00, 0x53, 0x57, 0x54, 0x00] @ take 2 (drop 12 pkt)) = 14"
    using assms by simp
  have d: "decode_HcopHeader ?p 14 = Some ?h" unfolding p by (rule decode_encode_HcopHeader[OF l])
  have "drop 30 ?p = payload" "length ?p = 30 + length payload" unfolding p using assms by simp_all
  with u d h show ?thesis by auto
qed

section \<open>Messages of one operation share their payload\<close>

definition uniform :: "OutMessage list \<Rightarrow> bool" where
  "uniform out \<longleftrightarrow> (\<forall>m\<in>set out. out_data m = out_data (hd out))"

lemma uniform_short [simp]: "uniform []" "uniform [m]"
  by (simp_all add: uniform_def)

lemma those_map_SomeD: "those (map f xs) = Some ys \<Longrightarrow> \<forall>y\<in>set ys. \<exists>x\<in>set xs. f x = Some y"
  by (induction xs arbitrary: ys) (fastforce split: option.splits)+

lemma learn_broadcast_uniform:
  assumes "learn_broadcast n iid v l = Some ms"
  shows "uniform ms"
proof -
  obtain d where "\<forall>m\<in>set ms. out_data m = d"
  proof (cases "memcpy zero_value v (unat (clamp_len l))")
    case (Some a)
    have "\<forall>m\<in>set ms. out_data m = enc_LearnMsg \<lparr> learn_hdr = make_hdr kLearn n iid,
        learn_value_len = clamp_len l, learn_value = a \<rparr>"
      using those_map_SomeD[OF assms[unfolded learn_broadcast_def]] Some by (auto simp: MakeLearn_def)
    then show ?thesis by (rule that)
  next
    case None
    then have "ms = []" using those_map_SomeD[OF assms[unfolded learn_broadcast_def]]
      by (cases ms) (auto simp: MakeLearn_def)
    then show ?thesis using that by simp
  qed
  then show ?thesis by (cases ms) (auto simp: uniform_def)
qed

lemma handler_uniform:
  "HandlePrepare pm n = Some (st, out, n') \<Longrightarrow> uniform out"
  "HandlePromise prm n = Some (st, out, n') \<Longrightarrow> uniform out"
  "HandleAccept am n = Some (st, out, n') \<Longrightarrow> uniform out"
  "HandleLearn lm n = Some (st, out, n') \<Longrightarrow> uniform out"
  "HandleNack nm n = Some (st, out, n') \<Longrightarrow> uniform out"
      apply (auto simp: HandlePrepare_def Let_def bind_eq_Some_conv split: option.splits if_splits prod.splits)[1]
     apply (auto simp: HandlePromise_def Let_def bind_eq_Some_conv split: option.splits if_splits prod.splits)[1]
    apply (auto simp: HandleAccept_def Let_def bind_eq_Some_conv split: option.splits if_splits prod.splits)[1]
   apply (auto simp: HandleLearn_def Let_def bind_eq_Some_conv split: option.splits if_splits prod.splits)[1]
  by (auto simp: HandleNack_def Let_def bind_eq_Some_conv split: option.splits if_splits prod.splits)

lemma HandleAccepted_uniform: "HandleAccepted m n = Some (st, out, n') \<Longrightarrow> uniform out"
  by (auto simp: HandleAccepted_def Let_def bind_eq_Some_conv split: option.splits if_splits prod.splits
      dest: learn_broadcast_uniform)

lemma HandleMessage_uniform:
  assumes "Paxos_State.HandleMessage data n = Some (st, out, n')"
  shows "uniform out"
  using assms by (cases rule: HandleMessage_cases) (auto dest: handler_uniform HandleAccepted_uniform)

lemma release_key_single: "release_key k ks now s = (out, s') \<Longrightarrow> uniform out"
  by (auto simp: release_key_def GrantNextWaiter_def GrantLock_def Let_def split: list.splits prod.splits if_splits)

lemma Acquire_uniform: "Acquire k r lease now s = (st, out, s') \<Longrightarrow> uniform out"
  by (auto simp: Acquire_def GrantLock_def Let_def split: prod.splits option.splits if_splits)

lemma Release_uniform: "Release k r now s = (st, out, s') \<Longrightarrow> uniform out"
  by (auto simp: Release_def dest: release_key_single split: prod.splits option.splits if_splits)

lemma HandleMessage_lock_uniform:
  "HandleMessage_lock data now s = Some (st, out, s') \<Longrightarrow> uniform out"
  by (auto simp: HandleMessage_lock_def Let_def bind_eq_Some_conv HandleAcquire_def HandleRelease_def
      split: if_splits dest: Acquire_uniform Release_uniform)

lemma Arrive_uniform: "Arrive b g sid s = (st, out, s') \<Longrightarrow> uniform out"
  by (auto simp: Arrive_def arrive_at_def Let_def split: prod.splits option.splits if_splits)

lemma HandleMessage_barrier_uniform:
  "HandleMessage_barrier data s = Some (st, out, s') \<Longrightarrow> uniform out"
  by (auto simp: HandleMessage_barrier_def Let_def bind_eq_Some_conv dest: Arrive_uniform split: if_splits)

text \<open>
  The decision of a non-empty response reaches every addressed node that has a port, with the
  payload of its message.
\<close>

definition delivers :: "PrimitiveEngine \<Rightarrow> OutMessage list \<Rightarrow> RoutingDecision \<Rightarrow> bytes \<Rightarrow> bool" where
  "delivers e out d pkt \<longleftrightarrow>
     (\<forall>m\<in>set out. drop 30 pkt = out_data m \<and>
        (if dest_id m = 255 then action d = kBroadcastAll
         else GetPortForNode e (dest_id m) \<ge> 0 \<longrightarrow>
           action d = kBroadcastAll \<or>
           action d = kUnicast \<and> dst_ports d = [GetPortForNode e (dest_id m)] \<or>
           action d = kMulticast \<and> GetPortForNode e (dest_id m) \<in> set (dst_ports d)))"

lemma AGGREGATE_ROUTING_delivers:
  assumes "30 \<le> length pkt" "uniform out" "out \<noteq> []"
  shows "\<exists>d p. AGGREGATE_ROUTING e out pkt = Some (d, p) \<and> delivers e out d p"
proof -
  obtain p where p: "UpdatePacketPayload pkt (out_data (hd out)) = Some p" "drop 30 p = out_data (hd out)"
    using UpdatePacketPayload_spec[OF assms(1), of "out_data (hd out)"] by auto
  define ports where
    "ports = filter (\<lambda>p. p \<ge> 0) (map (\<lambda>m. GetPortForNode e (dest_id m)) (filter (\<lambda>m. dest_id m \<noteq> 255) out))"
  let ?d = "if \<exists>m\<in>set out. dest_id m = 255 then decide kBroadcastAll
           else if length ports > 1 then \<lparr> action = kMulticast, dst_ports = ports \<rparr>
           else if length ports = 1 then \<lparr> action = kUnicast, dst_ports = ports \<rparr> else decide kDrop"
  have r: "AGGREGATE_ROUTING e out pkt = Some (?d, p)" by (simp add: AGGREGATE_ROUTING_def p(1) Let_def ports_def)
  have mem: "m \<in> set out \<Longrightarrow> dest_id m \<noteq> 255 \<Longrightarrow> GetPortForNode e (dest_id m) \<ge> 0 \<Longrightarrow>
      GetPortForNode e (dest_id m) \<in> set ports" for m by (auto simp: ports_def)
  have "delivers e out ?d p" unfolding delivers_def
  proof (intro ballI conjI)
    fix m assume m: "m \<in> set out"
    then show "drop 30 p = out_data m" using assms(2) p(2) by (auto simp: uniform_def)
    show "if dest_id m = 255 then action ?d = kBroadcastAll
      else GetPortForNode e (dest_id m) \<ge> 0 \<longrightarrow> action ?d = kBroadcastAll \<or>
        action ?d = kUnicast \<and> dst_ports ?d = [GetPortForNode e (dest_id m)] \<or>
        action ?d = kMulticast \<and> GetPortForNode e (dest_id m) \<in> set (dst_ports ?d)"
      using m mem[OF m] by (cases ports; cases "tl ports") auto
  qed
  with r show ?thesis by blast
qed

section \<open>The engine invariant\<close>

definition engine_inv :: "PrimitiveEngine \<Rightarrow> bool" where
  "engine_inv e \<longleftrightarrow> paxos_inv (paxos e) \<and> lock_table_ok (locks e) \<and> barriers_inv (barrier_mgr e)"

lemma engine_inv_Init:
  assumes "Init cfg pq lq bq = Some e"
  shows "engine_inv e" "config e = cfg"
  using assms by (auto simp: Init_def bind_eq_Some_conv engine_inv_def lock_table_ok_def LockManager_new_def
      barriers_inv_def BarrierManager_new_def dest: paxos_inv_new)

lemma AGGREGATE_ROUTING_total:
  "30 \<le> length pkt \<Longrightarrow> \<exists>d p. AGGREGATE_ROUTING e out pkt = Some (d, p)"
  using UpdatePacketPayload_spec[of pkt "out_data (hd out)"] by (auto simp: AGGREGATE_ROUTING_def Let_def)

lemma HandlePaxos_safe:
  assumes "30 \<le> length pkt" "engine_inv e" "payload_in_bounds (drop 30 pkt)"
  shows "\<exists>d p e'. HandlePaxos pkt e = Some (d, p, e') \<and> engine_inv e' \<and> config e' = config e"
proof -
  obtain st out n where r: "Paxos_State.HandleMessage (drop 30 pkt) (paxos e) = Some (st, out, n)"
    using HandleMessage_total[OF _ assms(3), of "paxos e"] assms(2) by (auto simp: engine_inv_def)
  have n: "engine_inv (e\<lparr> paxos := n \<rparr>)"
    using assms(2) HandleMessage_inv[OF _ r] by (auto simp: engine_inv_def)
  obtain p where p: "set_exception kPaxosStateOverflow pkt = Some p" using set_exception_total[OF assms(1)] by blast
  then have lp: "30 \<le> length p" using set_exception_frame(1)[OF p] assms(1) by simp
  from r n p get_exception_total[OF lp] get_exception_total[OF assms(1)]
    AGGREGATE_ROUTING_total[OF assms(1), of "e\<lparr> paxos := n \<rparr>" out]
  show ?thesis by (auto simp: HandlePaxos_def Let_def)
qed

lemma HandleLock_safe:
  assumes "31 \<le> length pkt" "engine_inv e"
  shows "\<exists>d p e'. HandleLock pkt now e = Some (d, p, e') \<and> engine_inv e' \<and> config e' = config e"
proof -
  obtain st out m where r: "HandleMessage_lock (drop 30 pkt) now (locks e) = Some (st, out, m)"
    using HandleMessage_lock_total[of "drop 30 pkt" now "locks e"] by auto
  let ?e = "e\<lparr> locks := m \<rparr>"
  have m: "engine_inv ?e" using assms(2) HandleMessage_lock_table[OF _ r] by (auto simp: engine_inv_def)
  have l: "30 \<le> length pkt" using assms(1) by simp
  obtain p x where p: "(if st = Lk_kContention then set_exception kLockContention pkt
              else if st = Lk_kKeyOverflow then set_exception kLockStateOverflow pkt else Some pkt) = Some p"
    and lp: "length p = length pkt" and x: "get_exception p = Some x"
  proof -
    obtain p where "(if st = Lk_kContention then set_exception kLockContention pkt
              else if st = Lk_kKeyOverflow then set_exception kLockStateOverflow pkt else Some pkt) = Some p"
      using set_exception_total[OF l, of kLockContention] set_exception_total[OF l, of kLockStateOverflow]
      by (cases "st = Lk_kContention"; cases "st = Lk_kKeyOverflow") auto
    moreover from this have "length p = length pkt" by (auto split: if_splits dest: set_exception_frame)
    ultimately show thesis using that get_exception_total[of p] l by auto
  qed
  have t: "\<exists>t. rd8 p 30 = Some t" using lp assms(1) by simp
  have l2: "30 \<le> length p" using lp l by simp
  from r m p x t AGGREGATE_ROUTING_total[OF l2, of ?e out] l2 lp assms(1)
  have "HandleLock pkt now e = Some r \<Longrightarrow> engine_inv (snd (snd r)) \<and> config (snd (snd r)) = config e"
    "HandleLock pkt now e \<noteq> None" for r
    by (auto simp: HandleLock_def Let_def bind_eq_Some_conv split: if_splits)
  then show ?thesis by (metis not_None_eq prod.collapse)
qed

lemma HandleBarrier_safe:
  assumes "30 \<le> length pkt" "engine_inv e"
  shows "\<exists>d p e'. HandleBarrier pkt e = Some (d, p, e') \<and> engine_inv e' \<and> config e' = config e"
proof -
  obtain st out m where r: "HandleMessage_barrier (drop 30 pkt) (barrier_mgr e) = Some (st, out, m)"
    using HandleMessage_barrier_total[of "drop 30 pkt" "barrier_mgr e"] by auto
  let ?e = "e\<lparr> barrier_mgr := m \<rparr>"
  have m: "engine_inv ?e" using assms(2) HandleMessage_barrier_inv[OF _ r] by (auto simp: engine_inv_def)
  have x: "\<exists>p y. set_exception x pkt = Some p \<and> get_exception p = Some y" for x
    using set_exception_total[OF assms(1), of x] set_exception_frame(3) by blast
  from r m x[of kBarrierLateArrival] x[of kBarrierGenerationOverflow] get_exception_total[OF assms(1)]
    AGGREGATE_ROUTING_total[OF assms(1), of ?e out]
  show ?thesis by (auto simp: HandleBarrier_def Let_def)
qed

section \<open>The dispatcher\<close>

lemma append_path_frame:
  assumes "with_HcopHeader (HCOP_APPEND_PATH t) pkt = Some p"
  shows "length p = length pkt" "drop 30 p = drop 30 pkt" "30 \<le> length pkt"
    "\<exists>h. decode_HcopHeader pkt 14 = Some h \<and> decode_HcopHeader p 14 = Some (HCOP_APPEND_PATH t h)"
proof -
  show l: "length p = length pkt" by (rule with_HcopHeader_length[OF assms])
  show len: "30 \<le> length pkt" using assms with_HcopHeader_Some_iff by blast
  obtain h where h: "decode_HcopHeader pkt 14 = Some h" "decode_HcopHeader p 14 = Some (HCOP_APPEND_PATH t h)"
    "\<forall>i. i < length pkt \<and> (i < 14 \<or> 30 \<le> i) \<longrightarrow> p ! i = pkt ! i"
    using with_HcopHeader_decode[OF assms] by metis
  show "drop 30 p = drop 30 pkt" using h(3) l len by (intro nth_equalityI) auto
  show "\<exists>h. decode_HcopHeader pkt 14 = Some h \<and> decode_HcopHeader p 14 = Some (HCOP_APPEND_PATH t h)"
    using h by blast
qed

definition is_hcop :: "bytes \<Rightarrow> bool" where
  "is_hcop pkt \<longleftrightarrow> 30 \<le> length pkt \<and> (push_bit 8 (ucast (pkt ! 12)) OR ucast (pkt ! 13) :: u16) = kHcopEtherType"

definition header_of :: "bytes \<Rightarrow> HcopHeader" where
  "header_of pkt = the (decode_HcopHeader pkt 14)"

text \<open>How the engine treats a coordination packet, after it has recorded its tier.\<close>

lemma HandlePacket_engine_hcop:
  assumes "is_hcop pkt"
  obtains p where "with_HcopHeader (HCOP_APPEND_PATH kTierSwitch) pkt = Some p" "length p = length pkt"
    "drop 30 p = drop 30 pkt"
    "decode_HcopHeader p 14 = Some (HCOP_APPEND_PATH kTierSwitch (header_of pkt))"
    "HandlePacket_engine pkt ingress now e =
       (let fb = fallback_port_index (config e); h = header_of pkt in
        if placement_mode (config e) = kForwardOnly then
          Some (if fb \<ge> 0 \<and> ingress \<noteq> fb then decide kToFallback else decide kMulticast, p, e)
        else do {
          resp \<leftarrow> (if fb \<ge> 0 \<and> ingress = fb then is_response p (primitive_type h) else Some False);
          if resp then Some (decide kMulticast, p, e)
          else if exception_type h \<noteq> 0 then Some (if fb \<ge> 0 then decide kToFallback else decide kDrop, p, e)
          else if primitive_type h = kPrimitivePaxos then HandlePaxos p e
          else if primitive_type h = kPrimitiveLock then HandleLock p now e
          else if primitive_type h = kPrimitiveBarrier then HandleBarrier p e
          else Some (decide kDrop, p, e) })"
proof -
  have l: "30 \<le> length pkt" using assms by (simp add: is_hcop_def)
  then obtain p where p: "with_HcopHeader (HCOP_APPEND_PATH kTierSwitch) pkt = Some p"
    using with_HcopHeader_Some_iff by blast
  note f = append_path_frame[OF p]
  then have d: "decode_HcopHeader p 14 = Some (HCOP_APPEND_PATH kTierSwitch (header_of pkt))"
    by (auto simp: header_of_def)
  show thesis
    by (rule that[OF p f(1,2) d])
      (use assms l p d in \<open>simp add: HandlePacket_engine_def is_hcop_def Let_def HCOP_APPEND_PATH_def\<close>)
qed

lemma is_response_total: "31 \<le> length p \<Longrightarrow> \<exists>b. is_response p t = Some b"
  by (cases "t = kPrimitiveBarrier"; cases "t = kPrimitiveLock"; cases "t = kPrimitivePaxos") (auto simp: is_response_def)

section \<open>What the engine does with the result of a state machine\<close>

text \<open>
  The statuses of the state machines as the engine distinguishes them. Responses that accompany an
  ignored status are not sent: of the consensus protocol, only those of status \<open>Px_kOk\<close> are.
\<close>

datatype outcome = Respond | Escalate u16 | Ignore

type_synonym machine_result = "outcome \<times> OutMessage list \<times> PrimitiveEngine"

definition paxos_machine :: "bytes \<Rightarrow> PrimitiveEngine \<Rightarrow> machine_result option" where
  "paxos_machine data e = map_option (\<lambda>(st, out, n).
     (if st = Px_kOk then Respond
      else if st = Px_kInstanceOverflow then Escalate kPaxosStateOverflow else Ignore,
      out, e\<lparr> paxos := n \<rparr>)) (Paxos_State.HandleMessage data (paxos e))"

definition lock_machine :: "u64 \<Rightarrow> bytes \<Rightarrow> PrimitiveEngine \<Rightarrow> machine_result option" where
  "lock_machine now data e = map_option (\<lambda>(st, out, m).
     (if st = Lk_kContention then Escalate kLockContention
      else if st = Lk_kKeyOverflow then Escalate kLockStateOverflow
      else if st = Lk_kInvalidMessage then Ignore else Respond,
      out, e\<lparr> locks := m \<rparr>)) (HandleMessage_lock data now (locks e))"

definition barrier_machine :: "bytes \<Rightarrow> PrimitiveEngine \<Rightarrow> machine_result option" where
  "barrier_machine data e = map_option (\<lambda>(st, out, m).
     (if st = Br_kOk \<or> st = Br_kRelease then Respond
      else if st = Br_kLateArrival then Escalate kBarrierLateArrival
      else if st = Br_kLayoutOverflow then Escalate kBarrierGenerationOverflow else Ignore,
      out, e\<lparr> barrier_mgr := m \<rparr>)) (HandleMessage_barrier data (barrier_mgr e))"

definition engine_machine :: "u16 \<Rightarrow> u64 \<Rightarrow> bytes \<Rightarrow> PrimitiveEngine \<Rightarrow> machine_result option" where
  "engine_machine t now data e =
     (if t = kPrimitivePaxos then paxos_machine data e
      else if t = kPrimitiveLock then lock_machine now data e
      else if t = kPrimitiveBarrier then barrier_machine data e
      else Some (Ignore, [], e))"

text \<open>
  The contract between a state machine's result and the routed packet: the state is the
  machine's; responses are delivered; an escalated packet goes to the fallback tier with the
  exception in its header and its payload untouched; anything else is dropped or, for a release
  of a key the switch does not hold, forwarded.
\<close>

definition meets :: "bytes \<Rightarrow> machine_result \<Rightarrow> RoutingDecision \<times> bytes \<times> PrimitiveEngine \<Rightarrow> bool" where
  "meets pkt r x = (case (r, x) of ((oc, out, e1), (d, p, e')) \<Rightarrow> e' = e1 \<and>
     (case oc of
        Escalate c \<Rightarrow> d = decide kToFallback \<and> drop 30 p = drop 30 pkt \<and> get_exception p = Some c
      | Respond \<Rightarrow> if out = [] then action d \<in> {kDrop, kToFallback} \<and> p = pkt else delivers e1 out d p
      | Ignore \<Rightarrow> action d \<in> {kDrop, kToFallback} \<and> p = pkt))"

locale engine_primitive =
  fixes H :: "bytes \<Rightarrow> PrimitiveEngine \<Rightarrow> engine_result"
    and machine :: "bytes \<Rightarrow> PrimitiveEngine \<Rightarrow> machine_result option"
  assumes one_payload: "machine data e = Some (oc, out, e1) \<Longrightarrow> uniform out"
    and responds: "\<lbrakk>31 \<le> length pkt; get_exception pkt = Some 0; machine (drop 30 pkt) e = Some (Respond, out, e1);
        out \<noteq> []\<rbrakk> \<Longrightarrow> H pkt e = do { (d, p) \<leftarrow> AGGREGATE_ROUTING e1 out pkt; Some (d, p, e1) }"
    and escalates: "\<lbrakk>31 \<le> length pkt; machine (drop 30 pkt) e = Some (Escalate c, out, e1)\<rbrakk> \<Longrightarrow>
        H pkt e = map_option (\<lambda>p. (decide kToFallback, p, e1)) (set_exception c pkt)"
    and silent: "\<lbrakk>31 \<le> length pkt; get_exception pkt = Some 0; machine (drop 30 pkt) e = Some (oc, out, e1);
        oc = Ignore \<or> oc = Respond \<and> out = []\<rbrakk> \<Longrightarrow>
        \<exists>d. H pkt e = Some (d, pkt, e1) \<and> action d \<in> {kDrop, kToFallback}"
begin

lemma meets_contract:
  assumes "31 \<le> length pkt" "get_exception pkt = Some 0" "machine (drop 30 pkt) e = Some (oc, out, e1)"
  shows "\<exists>x. H pkt e = Some x \<and> meets pkt (oc, out, e1) x"
proof (cases "oc = Ignore \<or> oc = Respond \<and> out = []")
  case True
  from silent[OF assms True] True show ?thesis by (auto simp: meets_def)
next
  case False
  then consider c where "oc = Escalate c" | "oc = Respond" "out \<noteq> []" by (cases oc) auto
  then show ?thesis
  proof cases
    case (1 c)
    obtain p where p: "set_exception c pkt = Some p" using set_exception_total[of pkt c] assms(1) by auto
    with escalates[OF assms(1) assms(3)[unfolded 1]] 1 set_exception_frame[OF p]
    show ?thesis by (auto simp: meets_def)
  next
    case 2
    have l: "30 \<le> length pkt" using assms(1) by simp
    from AGGREGATE_ROUTING_delivers[OF l one_payload[OF assms(3)] 2(2), of e1]
      responds[OF assms(1,2) assms(3)[unfolded 2(1)] 2(2)] 2
    show ?thesis by (auto simp: meets_def)
  qed
qed

end

lemma set_exception_get: "30 \<le> length pkt \<Longrightarrow> \<exists>p. set_exception c pkt = Some p \<and> get_exception p = Some c"
  using set_exception_total set_exception_frame(3) by blast

lemma Acquire_valid: "Acquire k r lease now s \<noteq> (Lk_kInvalidMessage, out, s')"
  by (auto simp: Acquire_def Let_def split: if_splits option.splits prod.splits)

lemma Release_valid: "Release k r now s \<noteq> (Lk_kInvalidMessage, out, s')"
  by (auto simp: Release_def split: if_splits option.splits prod.splits)

lemma kInvalidMessage_silent:
  "HandleMessage_lock data now s = Some (Lk_kInvalidMessage, out, s') \<Longrightarrow> out = []"
  by (auto simp: HandleMessage_lock_def Let_def bind_eq_Some_conv HandleAcquire_def HandleRelease_def
      Acquire_valid Release_valid split: if_splits)

interpretation px_prim: engine_primitive HandlePaxos paxos_machine
proof
  show "uniform out" if "paxos_machine data e = Some (oc, out, e1)" for data e oc out e1
    using that HandleMessage_uniform by (auto simp: paxos_machine_def)
next
  fix pkt e out e1
  assume "31 \<le> length pkt" "get_exception pkt = Some 0" "paxos_machine (drop 30 pkt) e = Some (Respond, out, e1)" "out \<noteq> []"
  then show "HandlePaxos pkt e = do { (d, p) \<leftarrow> AGGREGATE_ROUTING e1 out pkt; Some (d, p, e1) }"
    by (auto simp: paxos_machine_def HandlePaxos_def Let_def split: if_splits)
next
  fix pkt e c out e1
  assume "31 \<le> length pkt" "paxos_machine (drop 30 pkt) e = Some (Escalate c, out, e1)"
  then show "HandlePaxos pkt e = map_option (\<lambda>p. (decide kToFallback, p, e1)) (set_exception c pkt)"
    using set_exception_get[of pkt c] by (auto simp: paxos_machine_def HandlePaxos_def Let_def split: if_splits)
next
  fix pkt e oc out e1
  assume "31 \<le> length pkt" "get_exception pkt = Some 0" "paxos_machine (drop 30 pkt) e = Some (oc, out, e1)"
    "oc = Ignore \<or> oc = Respond \<and> out = []"
  then show "\<exists>d. HandlePaxos pkt e = Some (d, pkt, e1) \<and> action d \<in> {kDrop, kToFallback}"
    by (auto simp: paxos_machine_def HandlePaxos_def Let_def split: if_splits)
qed

interpretation br_prim: engine_primitive HandleBarrier barrier_machine
proof
  show "uniform out" if "barrier_machine data e = Some (oc, out, e1)" for data e oc out e1
    using that HandleMessage_barrier_uniform by (auto simp: barrier_machine_def)
next
  fix pkt e out e1
  assume "31 \<le> length pkt" "get_exception pkt = Some 0" "barrier_machine (drop 30 pkt) e = Some (Respond, out, e1)" "out \<noteq> []"
  then show "HandleBarrier pkt e = do { (d, p) \<leftarrow> AGGREGATE_ROUTING e1 out pkt; Some (d, p, e1) }"
    by (auto simp: barrier_machine_def HandleBarrier_def Let_def split: if_splits)
next
  fix pkt e c out e1
  assume "31 \<le> length pkt" "barrier_machine (drop 30 pkt) e = Some (Escalate c, out, e1)"
  then show "HandleBarrier pkt e = map_option (\<lambda>p. (decide kToFallback, p, e1)) (set_exception c pkt)"
    using set_exception_get[of pkt c] by (auto simp: barrier_machine_def HandleBarrier_def Let_def split: if_splits)
next
  fix pkt e oc out e1
  assume "31 \<le> length pkt" "get_exception pkt = Some 0" "barrier_machine (drop 30 pkt) e = Some (oc, out, e1)"
    "oc = Ignore \<or> oc = Respond \<and> out = []"
  then show "\<exists>d. HandleBarrier pkt e = Some (d, pkt, e1) \<and> action d \<in> {kDrop, kToFallback}"
    by (auto simp: barrier_machine_def HandleBarrier_def Let_def split: if_splits)
qed

interpretation lk_prim: engine_primitive "\<lambda>pkt. HandleLock pkt now" "lock_machine now" for now
proof
  show "uniform out" if "lock_machine now data e = Some (oc, out, e1)" for data e oc out e1
    using that HandleMessage_lock_uniform by (auto simp: lock_machine_def)
next
  fix pkt e out e1
  assume "31 \<le> length pkt" "get_exception pkt = Some 0" "lock_machine now (drop 30 pkt) e = Some (Respond, out, e1)" "out \<noteq> []"
  then show "HandleLock pkt now e = do { (d, p) \<leftarrow> AGGREGATE_ROUTING e1 out pkt; Some (d, p, e1) }"
    by (auto simp: lock_machine_def HandleLock_def Let_def split: if_splits)
next
  fix pkt e c out e1
  assume "31 \<le> length pkt" "lock_machine now (drop 30 pkt) e = Some (Escalate c, out, e1)"
  then show "HandleLock pkt now e = map_option (\<lambda>p. (decide kToFallback, p, e1)) (set_exception c pkt)"
    using set_exception_get[of pkt c] by (auto simp: lock_machine_def HandleLock_def Let_def split: if_splits)
next
  fix pkt e oc out e1
  assume a: "31 \<le> length pkt" "get_exception pkt = Some 0" "lock_machine now (drop 30 pkt) e = Some (oc, out, e1)"
    "oc = Ignore \<or> oc = Respond \<and> out = []"
  then have "out = []" using kInvalidMessage_silent by (auto simp: lock_machine_def split: if_splits)
  with a show "\<exists>d. HandleLock pkt now e = Some (d, pkt, e1) \<and> action d \<in> {kDrop, kToFallback}"
    by (auto simp: lock_machine_def HandleLock_def Let_def split: if_splits)
qed

lemma engine_total:
  assumes "engine_inv e" "length pkt \<noteq> 30" "payload_in_bounds (drop 30 pkt)"
  shows "\<exists>d p e'. HandlePacket_engine pkt ingress now e = Some (d, p, e') \<and> engine_inv e' \<and> config e' = config e"
proof (cases "is_hcop pkt")
  case True
  then obtain p where p: "length p = length pkt" "drop 30 p = drop 30 pkt"
    "HandlePacket_engine pkt ingress now e =
       (let fb = fallback_port_index (config e); h = header_of pkt in
        if placement_mode (config e) = kForwardOnly then
          Some (if fb \<ge> 0 \<and> ingress \<noteq> fb then decide kToFallback else decide kMulticast, p, e)
        else do {
          resp \<leftarrow> (if fb \<ge> 0 \<and> ingress = fb then is_response p (primitive_type h) else Some False);
          if resp then Some (decide kMulticast, p, e)
          else if exception_type h \<noteq> 0 then Some (if fb \<ge> 0 then decide kToFallback else decide kDrop, p, e)
          else if primitive_type h = kPrimitivePaxos then HandlePaxos p e
          else if primitive_type h = kPrimitiveLock then HandleLock p now e
          else if primitive_type h = kPrimitiveBarrier then HandleBarrier p e
          else Some (decide kDrop, p, e) })"
    using HandlePacket_engine_hcop by metis
  have l: "31 \<le> length p" using True assms(2) p(1) by (simp add: is_hcop_def)
  from p(3) assms(1) is_response_total[OF l, of "primitive_type (header_of pkt)"] HandlePaxos_safe[of p e] HandleLock_safe[OF l assms(1), of now]
    HandleBarrier_safe[of p e] l p(2) assms(3)
  show ?thesis by (auto simp: Let_def)
next
  case False
  with assms(1) show ?thesis by (auto simp: HandlePacket_engine_def is_hcop_def Let_def)
qed

lemma engine_meets:
  assumes "is_hcop pkt" "length pkt \<noteq> 30" "placement_mode (config e) = kProcessAndForward"
    "ingress \<noteq> fallback_port_index (config e)" "exception_type (header_of pkt) = 0"
    "engine_machine (primitive_type (header_of pkt)) now (drop 30 pkt) e = Some r"
    "with_HcopHeader (HCOP_APPEND_PATH kTierSwitch) pkt = Some p"
  shows "\<exists>x. HandlePacket_engine pkt ingress now e = Some x \<and> meets p r x"
proof -
  obtain q where "with_HcopHeader (HCOP_APPEND_PATH kTierSwitch) pkt = Some q" "length q = length pkt"
    "drop 30 q = drop 30 pkt" and q: "decode_HcopHeader q 14 = Some (HCOP_APPEND_PATH kTierSwitch (header_of pkt))"
    and run: "HandlePacket_engine pkt ingress now e =
       (let t = primitive_type (header_of pkt) in
          if t = kPrimitivePaxos then HandlePaxos q e
          else if t = kPrimitiveLock then HandleLock q now e
          else if t = kPrimitiveBarrier then HandleBarrier q e
          else Some (decide kDrop, q, e))"
    by (rule HandlePacket_engine_hcop[OF assms(1), of ingress now e]) (use assms in \<open>simp add: Let_def\<close>)
  then have l: "31 \<le> length p" and d: "drop 30 p = drop 30 pkt" and pq: "p = q"
    using assms(1,2,7) by (simp_all add: is_hcop_def)
  have x: "get_exception p = Some 0" using q assms(5) by (simp add: get_exception_def pq HCOP_APPEND_PATH_def)
  obtain oc out e1 where r: "r = (oc, out, e1)" by (cases r)
  show ?thesis
    using assms(6) run px_prim.meets_contract[OF l x, of e oc out e1] lk_prim.meets_contract[OF l x, of now e oc out e1]
      br_prim.meets_contract[OF l x, of e oc out e1]
    by (auto simp: engine_machine_def Let_def d[unfolded pq] r pq meets_def[of _ "(Ignore, _)"] split: if_splits)
qed

section \<open>Properties of the engine\<close>

text \<open>
  C32. On a well-formed engine every packet that carries at least one payload byte is processed
  inside its buffer, whatever its contents, provided the value bytes a consensus message announces
  are there: the engine returns a decision, and its three state machines are well-formed again.
\<close>

theorem engine_memory_safe:
  assumes "engine_inv e" "length pkt \<noteq> 30" "payload_in_bounds (drop 30 pkt)"
  shows "\<exists>d p e'. HandlePacket_engine pkt ingress now e = Some (d, p, e') \<and> engine_inv e' \<and> config e' = config e"
  by (rule engine_total[OF assms])

definition demo_switch_config :: SwitchConfig where
  "demo_switch_config = SwitchConfig_init\<lparr> fallback_port_index := 0, node_port_map := [(1, 1), (2, 2)] \<rparr>"

definition demo_engine :: PrimitiveEngine where
  "demo_engine = the (Init demo_switch_config (Some 4) (Some 4) (Some 4))"

lemma demo_engine_Init: "Init demo_switch_config (Some 4) (Some 4) (Some 4) = Some demo_engine"
proof -
  have "Init demo_switch_config (Some 4) (Some 4) (Some 4) \<noteq> None" by code_simp
  then show ?thesis by (auto simp: demo_engine_def)
qed

definition demo_acquire :: "u8 \<Rightarrow> bytes" where
  "demo_acquire r = replicate 12 0 @ [0x88, 0xB5] @
     encode_HcopHeader \<lparr> primitive_type = kPrimitiveLock, exception_type = 0, operation_id = 7, source_tier = 2,
       num_tier_crossings = 0, tier_path = 0, payload_len = 20 \<rparr> @
     enc_AcquireMsg \<lparr> acq_hdr = \<lparr> lk_msg_type = kAcquire, lk_requester_id = r, lk_pad = 0, lk_lock_key = 5 \<rparr>,
       acq_lease_duration_ns = 1000 \<rparr>"

theorem engine_memory_safe_witness:
  "\<exists>d p e'. HandlePacket_engine (demo_acquire 1) 1 100 demo_engine = Some (d, p, e') \<and> engine_inv e' \<and>
     config e' = config demo_engine"
proof (rule engine_memory_safe)
  show "engine_inv demo_engine" by (rule engine_inv_Init[OF demo_engine_Init])
  show "length (demo_acquire 1) \<noteq> 30" by code_simp
  show "payload_in_bounds (drop 30 (demo_acquire 1))" by code_simp
qed

text \<open>
  A coordination packet of exactly thirty bytes has no payload, and the engine reads a payload
  byte all the same.
\<close>

theorem empty_lock_packet_over_reads:
  "HandlePacket_engine (take 30 (demo_acquire 1)) 1 100 demo_engine = None"
  by code_simp

lemma demo_acquire_type: "primitive_type (header_of (demo_acquire 1)) = kPrimitiveLock"
  by code_simp



text \<open>
  In forward-only mode the switch is transparent: no state machine runs, the payload is
  unchanged, one tier crossing is recorded, and a packet goes to the fallback tier unless it came
  from there.
\<close>

theorem forward_only_transparent:
  assumes "is_hcop pkt" "placement_mode (config e) = kForwardOnly"
  shows "\<exists>d p. HandlePacket_engine pkt ingress now e = Some (d, p, e) \<and> drop 30 p = drop 30 pkt \<and>
    decode_HcopHeader p 14 = Some (HCOP_APPEND_PATH kTierSwitch (header_of pkt)) \<and>
    (action d = kToFallback \<longleftrightarrow> 0 \<le> fallback_port_index (config e) \<and> ingress \<noteq> fallback_port_index (config e))"
proof -
  obtain p where "drop 30 p = drop 30 pkt" "decode_HcopHeader p 14 = Some (HCOP_APPEND_PATH kTierSwitch (header_of pkt))"
    "HandlePacket_engine pkt ingress now e =
      Some (if fallback_port_index (config e) \<ge> 0 \<and> ingress \<noteq> fallback_port_index (config e)
            then decide kToFallback else decide kMulticast, p, e)"
    by (rule HandlePacket_engine_hcop[OF assms(1), of ingress now e]) (use assms(2) in \<open>simp add: Let_def\<close>)
  then show ?thesis by auto
qed

theorem forward_only_transparent_witness:
  "\<exists>d p. HandlePacket_engine (demo_acquire 1) 1 100 (demo_engine\<lparr> config := (config demo_engine)\<lparr> placement_mode := kForwardOnly \<rparr> \<rparr>) =
     Some (d, p, demo_engine\<lparr> config := (config demo_engine)\<lparr> placement_mode := kForwardOnly \<rparr> \<rparr>) \<and> action d = kToFallback"
proof -
  have "is_hcop (demo_acquire 1)" "fallback_port_index (config demo_engine) = 0" by code_simp+
  with forward_only_transparent[of "demo_acquire 1"
      "demo_engine\<lparr> config := (config demo_engine)\<lparr> placement_mode := kForwardOnly \<rparr> \<rparr>" 1 100]
  show ?thesis by auto
qed

lemma map_of_fold_update:
  "map_of (fold (\<lambda>(i, p) m. AList.update i p m) xs m) k =
     (case map_of (rev xs) k of Some p \<Rightarrow> Some p | None \<Rightarrow> map_of m k)"
  by (induction xs arbitrary: m) (auto simp: update_conv' split: option.splits)

lemma apply_topology_fields:
  "sram_pages_total (apply_topology t c) = sram_pages_total c"
  "tcam_blocks_total (apply_topology t c) = tcam_blocks_total c"
  "map_of (node_port_map (apply_topology t c)) i =
     (case map_of (rev (case_option [] id (tp_nodes t))) i of Some p \<Rightarrow> Some p | None \<Rightarrow> map_of (node_port_map c) i)"
  by (simp_all add: apply_topology_def Let_def map_of_fold_update split: option.split)

text \<open>
  Loading a configuration fails exactly when the file cannot be read or a declared resource
  total is zero; a loaded configuration never has a zero resource total, and its node table maps
  each node of the topology to the port of its last entry.
\<close>

theorem Load_correct:
  "(case Load doc of
      Inl err \<Rightarrow> (case doc of None \<Rightarrow> err = SwCannotOpen
        | Some j \<Rightarrow> sj_sram_pages_total j = Some 0 \<and> err = SwSramZero \<or>
                    sj_sram_pages_total j \<noteq> Some 0 \<and> sj_tcam_blocks_total j = Some 0 \<and> err = SwTcamZero)
    | Inr c \<Rightarrow> sram_pages_total c \<noteq> 0 \<and> tcam_blocks_total c \<noteq> 0 \<and>
        (\<exists>j. doc = Some j \<and> sj_sram_pages_total j \<noteq> Some 0 \<and> sj_tcam_blocks_total j \<noteq> Some 0 \<and>
          (\<forall>i. map_of (node_port_map c) i =
             (case sj_topology j of Some t \<Rightarrow> map_of (rev (case_option [] id (tp_nodes t))) i | None \<Rightarrow> None))))"
proof (cases doc)
  case (Some j)
  show ?thesis
    by (cases "sj_sram_pages_total j"; cases "sj_tcam_blocks_total j"; cases "sj_topology j"; cases "sj_placement_mode j")
      (simp_all add: Some Load_def Let_def SwitchConfig_init_def apply_topology_fields split: option.split)
qed (simp add: Load_def)

text \<open>
  The capacity handed to a state machine is at least one whenever the quotient of resources
  fits the 32 bits of its constructor, and then it is that quotient raised to one.
\<close>

theorem engine_capacity_positive:
  assumes "case q of Some c \<Rightarrow> unat c < 2 ^ 32 | None \<Rightarrow> True"
  shows "unat (engine_capacity q) = (case q of Some c \<Rightarrow> max 1 (unat c) | None \<Rightarrow> 10000)"
proof (cases q)
  case (Some c)
  then have c: "unat c < 2 ^ 32" using assms by simp
  show ?thesis
  proof (cases "c < 1")
    case True
    then have "c = 0" by (simp add: word_less_nat_alt unat_eq_0)
    with True Some show ?thesis by (simp add: engine_capacity_def)
  next
    case False
    then have "1 \<le> unat c" by (metis less_one not_le unat_1 word_less_nat_alt)
    moreover have "unat (ucast c :: u32) = unat c"
      using c by (simp add: unsigned_ucast_eq take_bit_nat_eq_self)
    ultimately show ?thesis using False Some by (simp add: engine_capacity_def max_def)
  qed
qed (simp add: engine_capacity_def)

theorem engine_capacity_positive_witness: "unat (engine_capacity (Some 0)) = 1 \<and> unat (engine_capacity (Some 9)) = 9"
  using engine_capacity_positive[of "Some 0"] engine_capacity_positive[of "Some 9"] by simp

text \<open>A quotient of exactly \<open>2 ^ 32\<close> passes the clamp and is truncated to no capacity at all.\<close>

theorem engine_capacity_truncated: "engine_capacity (Some 0x100000000) = 0"
  by code_simp

text \<open>
  An acceptor answers an ACCEPT for a committed instance with the learned value and the status
  \<^verbatim>\<open>kAlreadyCommitted\<close>; the engine drops every answer whose status is not \<^verbatim>\<open>kOk\<close>, this one too.
\<close>

definition demo_paxos_packet :: "bytes \<Rightarrow> bytes" where
  "demo_paxos_packet m = replicate 12 0 @ [0x88, 0xB5] @
     encode_HcopHeader \<lparr> primitive_type = kPrimitivePaxos, exception_type = 0, operation_id = 7, source_tier = 2,
       num_tier_crossings = 0, tier_path = 0, payload_len = of_nat (length m) \<rparr> @ m"

definition demo_accept_pkt :: bytes where
  "demo_accept_pkt = enc_AcceptMsg \<lparr> acc_hdr = demo_hdr kAccept 1, acc_proposal = ProposalNum 1 0 0,
     acc_value_len = 1, acc_value = 9 # replicate 127 0 \<rparr>"

definition demo_committed_engine :: PrimitiveEngine where
  "demo_committed_engine = snd (snd (the (HandlePacket_engine (demo_paxos_packet demo_learn) 1 0 demo_engine)))"

theorem commit_reply_dropped:
  "length (fst (snd (the (Paxos_State.HandleMessage demo_accept_pkt (paxos demo_committed_engine))))) = 1 \<and>
   map_option (action \<circ> fst) (HandlePacket_engine (demo_paxos_packet demo_accept_pkt) 1 0 demo_committed_engine) = Some kDrop"
  by code_simp

end
