(* ===== verification/Dpu_Resources.thy ===== *)
theory Dpu_Resources
  imports Bitmap
begin

text \<open>
  The resources of the DPU model (\<^verbatim>\<open>sims/nic/dpu_bm\<close>): the pool of ARM cores
  (\<^verbatim>\<open>arm_core_pool.cc\<close>), the simulated DRAM (\<^verbatim>\<open>dram_store.cc\<close>) and the configuration
  (\<^verbatim>\<open>dpu_config.h\<close>, \<^verbatim>\<open>dpu_config.cc\<close>). \<open>None\<close> is a failed assertion, a copy outside a
  buffer, or a container growing beyond its maximal size.
\<close>

section \<open>Core pool\<close>

record ArmCorePool =
  cp_capacity :: u32
  cp_active :: u32
  cp_in_use :: u64

definition ArmCorePool_new :: "u32 \<Rightarrow> ArmCorePool option" where
  "ArmCorePool_new cap =
     (if cap > 0 \<and> cap \<le> 64 then Some \<lparr> cp_capacity = cap, cp_active = 0, cp_in_use = 0 \<rparr> else None)"

definition TryAcquire :: "ArmCorePool \<Rightarrow> u32 option \<times> ArmCorePool" where
  "TryAcquire p =
     (if cp_active p \<ge> cp_capacity p then (None, p)
      else (case find (\<lambda>i. cp_in_use p AND mask64 i = 0) [0..<unat (cp_capacity p)] of
              None \<Rightarrow> (None, p)
            | Some i \<Rightarrow> (Some (of_nat i),
                p\<lparr> cp_in_use := cp_in_use p OR mask64 i, cp_active := cp_active p + 1 \<rparr>)))"

definition Release_core :: "u32 \<Rightarrow> ArmCorePool \<Rightarrow> ArmCorePool option" where
  "Release_core c p =
     (if c < cp_capacity p \<and> cp_in_use p AND mask64 (unat c) \<noteq> 0
      then Some (p\<lparr> cp_in_use := cp_in_use p AND NOT (mask64 (unat c)), cp_active := cp_active p - 1 \<rparr>)
      else None)"

definition ActiveCount :: "ArmCorePool \<Rightarrow> u32" where
  "ActiveCount p = cp_active p"

definition Capacity :: "ArmCorePool \<Rightarrow> u32" where
  "Capacity p = cp_capacity p"

definition busy :: "ArmCorePool \<Rightarrow> nat set" where
  "busy p = bits_of (cp_in_use p)"

definition pool_inv :: "ArmCorePool \<Rightarrow> bool" where
  "pool_inv p \<longleftrightarrow> 0 < cp_capacity p \<and> unat (cp_capacity p) \<le> 64 \<and> busy p \<subseteq> {..<unat (cp_capacity p)} \<and>
     unat (cp_active p) = card (busy p)"

lemma pool_inv_new: "ArmCorePool_new cap = Some p \<Longrightarrow> pool_inv p"
  by (auto simp: ArmCorePool_new_def pool_inv_def busy_def bm64.indices_none word_le_nat_alt split: if_splits)

lemma find_upt_Some:
  "find P [0..<n] = Some i \<longleftrightarrow> i < n \<and> P i \<and> (\<forall>j<i. \<not> P j)"
  by (auto simp: find_Some_iff)

lemma find_upt_None: "find P [0..<n] = None \<longleftrightarrow> (\<forall>i<n. \<not> P i)"
  by (auto simp: find_None_iff)

text \<open>An acquisition fails on a full pool, or takes the least free core.\<close>

lemma TryAcquire_cases:
  assumes "pool_inv p" "TryAcquire p = (r, p')"
  obtains (full) "cp_active p = cp_capacity p" "busy p = {..<unat (cp_capacity p)}" "r = None" "p' = p"
  | (core) i where "r = Some (of_nat i)" "i < unat (cp_capacity p)" "i \<notin> busy p" "{..<i} \<subseteq> busy p"
      "busy p' = insert i (busy p)" "cp_capacity p' = cp_capacity p" "unat (cp_active p') = Suc (unat (cp_active p))"
proof (cases "cp_active p \<ge> cp_capacity p")
  case True
  have sub: "busy p \<subseteq> {..<unat (cp_capacity p)}" and card: "card (busy p) = unat (cp_active p)"
    using assms(1) by (simp_all add: pool_inv_def)
  have le: "card (busy p) \<le> unat (cp_capacity p)" using card_mono[OF _ sub] by simp
  then have eq: "unat (cp_active p) = unat (cp_capacity p)" using True card by (simp add: word_le_nat_alt)
  then have "busy p = {..<unat (cp_capacity p)}" using sub card by (intro card_subset_eq) auto
  with True eq assms(2) show ?thesis
    by (intro full) (auto simp: TryAcquire_def intro: unsigned_word_eqI)
next
  case False
  then have lt: "card (bits_of (cp_in_use p)) < unat (cp_capacity p)"
    using assms(1) by (simp add: pool_inv_def busy_def word_le_nat_alt)
  have b: "unat (cp_capacity p) \<le> 64" "bits_of (cp_in_use p) \<subseteq> {..<unat (cp_capacity p)}"
    using assms(1) by (simp_all add: pool_inv_def busy_def)
  let ?f = "find (\<lambda>i. cp_in_use p AND mask64 i = 0) [0..<unat (cp_capacity p)]"
  obtain i where i: "?f = Some i" using bm64.free_index[OF b lt] by (cases ?f) (auto simp: find_upt_None)
  then have i': "i < unat (cp_capacity p)" "i \<notin> busy p" "\<forall>j<i. j \<in> busy p"
    using b by (auto simp: find_upt_Some busy_def mask64_clear)
  from i False assms(2) have r: "r = Some (of_nat i)"
      "p' = p\<lparr> cp_in_use := cp_in_use p OR mask64 i, cp_active := cp_active p + 1 \<rparr>"
    by (auto simp: TryAcquire_def)
  have "unat (cp_active p) < 64" using lt b assms(1) by (simp add: pool_inv_def busy_def)
  with r i' b show ?thesis by (intro core[of i]) (auto simp: busy_def bm64.indices_add unat_word_ariths)
qed

lemma TryAcquire_inv [inv_intros]:
  assumes "pool_inv p" "TryAcquire p = (r, p')"
  shows "pool_inv p'"
  using assms
proof (cases rule: TryAcquire_cases)
  case (core i)
  have "finite (busy p)" by (simp add: busy_def bm64.finite_indices)
  with core assms(1) show ?thesis by (auto simp: pool_inv_def)
qed (use assms(1) in simp)

lemma Release_core_cases:
  assumes "pool_inv p" "Release_core c p = Some p'"
  obtains "unat c \<in> busy p" "busy p' = busy p - {unat c}" "cp_capacity p' = cp_capacity p"
    "Suc (unat (cp_active p')) = unat (cp_active p)"
proof -
  have c: "unat c < 64" "unat c \<in> busy p" "p' = p\<lparr> cp_in_use := cp_in_use p AND NOT (mask64 (unat c)),
      cp_active := cp_active p - 1 \<rparr>"
    using assms by (auto simp: Release_core_def pool_inv_def busy_def word_less_nat_alt mask64_clear split: if_splits)
  have "0 < card (busy p)" using c(2) bm64.finite_indices by (auto simp: busy_def card_gt_0_iff)
  then have "unat (cp_active p - 1) = unat (cp_active p) - 1" and "0 < unat (cp_active p)"
    using assms(1) by (simp_all add: pool_inv_def unat_sub word_le_nat_alt)
  with c that show ?thesis by (auto simp: busy_def bm64.indices_remove)
qed

lemma Release_core_inv [inv_intros]:
  assumes "pool_inv p" "Release_core c p = Some p'"
  shows "pool_inv p'"
proof -
  obtain "unat c \<in> busy p" "busy p' = busy p - {unat c}" "cp_capacity p' = cp_capacity p"
      "Suc (unat (cp_active p')) = unat (cp_active p)"
    using Release_core_cases[OF assms] .
  moreover have "finite (busy p)" by (simp add: busy_def bm64.finite_indices)
  ultimately show ?thesis using assms(1) by (auto simp: pool_inv_def)
qed

lemma Release_core_defined:
  "pool_inv p \<Longrightarrow> unat c \<in> busy p \<Longrightarrow> Release_core c p \<noteq> None"
  by (auto simp: Release_core_def pool_inv_def busy_def mask64_clear word_less_nat_alt)

text \<open>
  The core pool. On a well-formed pool an acquisition succeeds exactly when a core is free;
  then it hands out the least core that was not in use, marks it, and a release of that core
  brings back the same set of busy cores.
\<close>

theorem core_pool_correct:
  assumes "pool_inv p" "TryAcquire p = (r, p')"
  shows "(r = None \<longleftrightarrow> card (busy p) = unat (Capacity p)) \<and>
    (\<forall>c. r = Some c \<longrightarrow> unat c < unat (Capacity p) \<and> unat c \<notin> busy p \<and> {..<unat c} \<subseteq> busy p \<and>
       busy p' = insert (unat c) (busy p) \<and> unat (ActiveCount p') = card (busy p') \<and>
       (\<exists>q. Release_core c p' = Some q \<and> busy q = busy p \<and> ActiveCount q = ActiveCount p))"
  using assms
proof (cases rule: TryAcquire_cases)
  case full
  then show ?thesis by (simp add: Capacity_def)
next
  case (core i)
  have inv': "pool_inv p'" by (rule TryAcquire_inv[OF assms])
  have i: "unat (of_nat i :: u32) = i"
    using core(2) assms(1) by (simp add: pool_inv_def unsigned_of_nat take_bit_nat_eq_self)
  have lt: "card (busy p) < unat (cp_capacity p)"
    using core assms(1) inv' card_mono[of "{..<unat (cp_capacity p)}" "busy p'"] by (auto simp: pool_inv_def)
  obtain q where q: "Release_core (of_nat i) p' = Some q"
    using Release_core_defined[OF inv', of "of_nat i"] core i by auto
  obtain "busy q = busy p' - {i}" "Suc (unat (cp_active q)) = unat (cp_active p')"
    using Release_core_cases[OF inv' q] i by metis
  with core have "busy q = busy p" "cp_active q = cp_active p" by (auto intro: unsigned_word_eqI)
  with core i lt q inv' show ?thesis by (auto simp: Capacity_def ActiveCount_def pool_inv_def)
qed

theorem core_pool_correct_witness:
  "\<exists>q. Release_core 1 (snd (TryAcquire \<lparr> cp_capacity = 3, cp_active = 2, cp_in_use = 5 \<rparr>)) = Some q \<and>
       busy q = busy \<lparr> cp_capacity = 3, cp_active = 2, cp_in_use = 5 \<rparr>"
proof -
  let ?p = "\<lparr> cp_capacity = 3, cp_active = 2, cp_in_use = 5 \<rparr>"
  have "busy ?p = {0, 2}"
  proof
    show "busy ?p \<subseteq> {0, 2}"
    proof
      fix i assume i: "i \<in> busy ?p"
      then have "i < 64" using bm64.indices_bound[of 5] by (auto simp: busy_def)
      then have "i \<in> set [0..<64]" by simp
      moreover have "\<forall>i\<in>set [0..<64]. bit (5 :: u64) i \<longrightarrow> i = 0 \<or> i = 2" by code_simp
      ultimately show "i \<in> {0, 2}" using i by (auto simp: busy_def bits_of_def)
    qed
    have "bit (5 :: u64) 0" "bit (5 :: u64) 2" by code_simp+
    then show "{0, 2} \<subseteq> busy ?p" by (simp add: busy_def bits_of_def)
  qed
  then have inv: "pool_inv ?p" by (simp add: pool_inv_def)
  have "fst (TryAcquire ?p) = Some 1" by code_simp
  with core_pool_correct[OF inv] show ?thesis by (metis prod.collapse)
qed

section \<open>Simulated DRAM\<close>

record DramStore =
  capacity_bytes :: u64
  used_bytes :: u64
  store :: "(u64 \<times> bytes) list"

definition DramStore_new :: "u64 \<Rightarrow> DramStore" where
  "DramStore_new cap = \<lparr> capacity_bytes = cap, used_bytes = 0, store = [] \<rparr>"

text \<open>The largest size of a \<^verbatim>\<open>std::vector\<close> of bytes; a larger resize throws.\<close>

definition vector_max_size :: u64 where [simp]: "vector_max_size = 0x7FFFFFFFFFFFFFFF"

definition Allocate :: "u64 \<Rightarrow> u64 \<Rightarrow> DramStore \<Rightarrow> (bool \<times> DramStore) option" where
  "Allocate k sz d =
     (if map_of (store d) k \<noteq> None then Some (False, d)
      else if used_bytes d + sz > capacity_bytes d then Some (False, d)
      else if sz > vector_max_size then None
      else Some (True, d\<lparr> store := AList.update k (replicate (unat sz) 0) (store d),
                          used_bytes := used_bytes d + sz \<rparr>))"

definition Read :: "u64 \<Rightarrow> DramStore \<Rightarrow> bytes option" where
  "Read k d = map_of (store d) k"

definition Write :: "u64 \<Rightarrow> bytes \<Rightarrow> u64 \<Rightarrow> DramStore \<Rightarrow> (bool \<times> DramStore) option" where
  "Write k data len d =
     (case map_of (store d) k of
        None \<Rightarrow> Some (False, d)
      | Some old \<Rightarrow>
          let delta = len - of_nat (length old) in
          if len \<noteq> of_nat (length old) \<and> 0 < sint delta \<and> used_bytes d + delta > capacity_bytes d
          then Some (False, d)
          else if len > vector_max_size then None
          else do {
            new \<leftarrow> memcpy (replicate (unat len) 0) data (unat len);
            Some (True, d\<lparr> store := AList.update k new (store d), used_bytes := used_bytes d + delta \<rparr>) })"

definition Free :: "u64 \<Rightarrow> DramStore \<Rightarrow> DramStore" where
  "Free k d =
     (case map_of (store d) k of
        None \<Rightarrow> d
      | Some v \<Rightarrow> d\<lparr> used_bytes := used_bytes d - of_nat (length v), store := AList.delete k (store d) \<rparr>)"

definition stored :: "DramStore \<Rightarrow> nat" where
  "stored d = sum_list (map (length \<circ> snd) (store d))"

definition dram_inv :: "DramStore \<Rightarrow> bool" where
  "dram_inv d \<longleftrightarrow> keys_ok (store d) \<and> unat (used_bytes d) = stored d \<and> used_bytes d \<le> capacity_bytes d \<and>
     unat (capacity_bytes d) < 2 ^ 63"

lemma sum_update_None:
  "map_of m k = None \<Longrightarrow>
   sum_list (map (length \<circ> snd) (AList.update k v m)) = sum_list (map (length \<circ> snd) m) + length v"
  by (induction m) (auto split: if_splits)

lemma sum_update_Some:
  "map_of m k = Some w \<Longrightarrow> keys_ok m \<Longrightarrow>
   sum_list (map (length \<circ> snd) (AList.update k v m)) + length w = sum_list (map (length \<circ> snd) m) + length v"
  by (induction m) (auto split: if_splits)

lemma sum_delete:
  "map_of m k = Some w \<Longrightarrow> keys_ok m \<Longrightarrow>
   sum_list (map (length \<circ> snd) (AList.delete k m)) + length w = sum_list (map (length \<circ> snd) m)"
  by (induction m) (auto split: if_splits simp: delete_idem)

lemma stored_ge: "map_of (store d) k = Some v \<Longrightarrow> length v \<le> stored d"
  unfolding stored_def by (rule member_le_sum_list) (auto dest: map_of_SomeD intro!: image_eqI)

lemma dram_invD:
  assumes "dram_inv d"
  shows "keys_ok (store d)" "unat (used_bytes d) = stored d" "stored d \<le> unat (capacity_bytes d)"
    "unat (capacity_bytes d) < 2 ^ 63"
  using assms by (auto simp: dram_inv_def word_le_nat_alt)

lemma unat_add_u64: "unat a + unat b < 2 ^ 64 \<Longrightarrow> unat (a + b :: u64) = unat a + unat b"
  by (simp add: unat_word_ariths)

lemma Allocate_inv [inv_intros]:
  assumes "dram_inv d" "unat sz < 2 ^ 63" "Allocate k sz d = Some (ok, d')"
  shows "dram_inv d'"
proof (cases ok)
  case True
  note d = dram_invD[OF assms(1)]
  have sum: "unat (used_bytes d + sz) = unat (used_bytes d) + unat sz"
    using d assms(2) by (intro unat_add_u64) simp
  have new: "map_of (store d) k = None" and le: "used_bytes d + sz \<le> capacity_bytes d"
      and d': "d' = d\<lparr> store := AList.update k (replicate (unat sz) 0) (store d), used_bytes := used_bytes d + sz \<rparr>"
    using True assms(3) by (simp_all add: Allocate_def not_less split: if_splits)
  from sum d le show ?thesis
    unfolding d' by (simp add: dram_inv_def stored_def sum_update_None[OF new])
qed (use assms in \<open>auto simp: Allocate_def split: if_splits\<close>)

lemma unat_of_length: "n < 2 ^ 63 \<Longrightarrow> unat (of_nat n :: u64) = n"
  by (simp add: unsigned_of_nat take_bit_nat_eq_self)

lemma sint_u64_pos:
  assumes "unat a < 2 ^ 63" "unat b < 2 ^ 63"
  shows "0 < sint (a - b :: u64) \<longleftrightarrow> unat b < unat a"
proof -
  let ?i = "int (unat a) - int (unat b)"
  have "a - b = of_int ?i" by simp
  then have "sint (a - b) = signed_take_bit 63 ?i" by (simp only: signed_of_int) simp
  also have "\<dots> = ?i"
  proof (rule signed_take_bit_int_eq_self)
    have "int (unat a) < int (2 ^ 63)" "int (unat b) < int (2 ^ 63)"
      using assms by (simp_all only: of_nat_less_iff)
    then show "- (2 ^ 63) \<le> ?i" "?i < 2 ^ 63" by (simp_all only: of_nat_power of_nat_numeral)
  qed
  finally show ?thesis by linarith
qed

lemma Write_used:
  assumes "unat a < 2 ^ 63" "unat b < 2 ^ 63" "unat b \<le> unat u" "unat u < 2 ^ 63"
  shows "unat (u + (a - b) :: u64) = unat u - unat b + unat a"
proof -
  have eq: "u + (a - b) = of_nat (unat u - unat b + unat a)"
    using assms(3) by (simp add: of_nat_diff)
  have "unat u - unat b + unat a < 2 ^ 64" using assms by simp
  then show ?thesis unfolding eq by (simp only: unsigned_of_nat take_bit_nat_eq_self) (simp add: take_bit_nat_eq_self)
qed

lemma Write_inv [inv_intros]:
  assumes "dram_inv d" "unat len < 2 ^ 63" "Write k data len d = Some (ok, d')"
  shows "dram_inv d'"
proof (cases ok)
  case True
  note d = dram_invD[OF assms(1)]
  from True assms(3) obtain old new where old: "map_of (store d) k = Some old"
      and new: "memcpy (replicate (unat len) 0) data (unat len) = Some new"
      and fits: "\<not> (len \<noteq> of_nat (length old) \<and> 0 < sint (len - of_nat (length old)) \<and>
                  used_bytes d + (len - of_nat (length old)) > capacity_bytes d)"
      and d': "d' = d\<lparr> store := AList.update k new (store d), used_bytes := used_bytes d + (len - of_nat (length old)) \<rparr>"
    by (auto simp: Write_def Let_def bind_eq_Some_conv simp del: vector_max_size_def split: option.splits if_splits)
  have lo: "unat (of_nat (length old) :: u64) = length old" "length old \<le> stored d"
    using stored_ge[OF old] d by (auto intro!: unat_of_length)
  have used: "unat (used_bytes d + (len - of_nat (length old))) = stored d - length old + unat len"
    using Write_used[of len "of_nat (length old)" "used_bytes d"] assms(2) lo d by simp
  have ln: "length new = unat len" using memcpy_length[OF new] by simp
  have "stored d' = stored d - length old + unat len"
    using sum_update_Some[OF old d(1), of new] lo(2) ln by (simp add: stored_def d')
  moreover have "used_bytes d + (len - of_nat (length old)) \<le> capacity_bytes d"
    using fits sint_u64_pos[of len "of_nat (length old)"] assms(2) lo d used
    by (auto simp: not_less word_le_nat_alt)
  ultimately show ?thesis using d used by (simp add: dram_inv_def d')
qed (use assms in \<open>auto simp: Write_def Let_def bind_eq_Some_conv split: option.splits if_splits\<close>)

lemma Free_inv [inv_intros]:
  assumes "dram_inv d"
  shows "dram_inv (Free k d)"
proof (cases "map_of (store d) k")
  case (Some v)
  note d = dram_invD[OF assms]
  have lv: "unat (of_nat (length v) :: u64) = length v" "length v \<le> stored d"
    using stored_ge[OF Some] d by (auto intro!: unat_of_length)
  have "unat (used_bytes d - of_nat (length v)) = stored d - length v"
    using lv d by (simp add: unat_sub word_le_nat_alt)
  moreover have "sum_list (map (length \<circ> snd) (AList.delete k (store d))) = stored d - length v"
    using sum_delete[OF Some d(1)] by (simp add: stored_def)
  ultimately show ?thesis using d Some by (simp add: Free_def dram_inv_def stored_def word_le_nat_alt)
qed (use assms in \<open>simp add: Free_def\<close>)

text \<open>
  C27. The DRAM. For requests below half of the address range, and a capacity below it, the
  recorded usage is the sum of the sizes stored and never exceeds the capacity, whatever is
  allocated, written or freed; what a successful write stores is what a read returns.
\<close>

theorem dram_accounting:
  assumes "dram_inv d" "unat n < 2 ^ 63"
  shows "(\<forall>ok d'. Allocate k n d = Some (ok, d') \<longrightarrow> dram_inv d') \<and>
    (\<forall>ok d'. Write k data n d = Some (ok, d') \<longrightarrow> dram_inv d' \<and> (ok \<longrightarrow> Read k d' = Some (take (unat n) data))) \<and>
    dram_inv (Free k d)"
proof (intro conjI allI impI)
  show "Allocate k n d = Some (ok, d') \<Longrightarrow> dram_inv d'" for ok d' by (rule Allocate_inv[OF assms])
  show "Write k data n d = Some (ok, d') \<Longrightarrow> dram_inv d'" for ok d' by (rule Write_inv[OF assms])
  show "Read k d' = Some (take (unat n) data)" if "Write k data n d = Some (ok, d')" "ok" for ok d'
    using that by (auto simp: Write_def Read_def Let_def bind_eq_Some_conv memcpy_def split: option.splits if_splits)
  show "dram_inv (Free k d)" by (rule Free_inv[OF assms(1)])
qed

theorem dram_accounting_witness:
  "dram_inv (snd (the (Allocate 7 3 (DramStore_new 10))))"
proof -
  have 1: "dram_inv (DramStore_new 10)" by (simp add: dram_inv_def DramStore_new_def stored_def)
  have 2: "unat (3 :: u64) < 2 ^ 63" by simp
  have "Allocate 7 3 (DramStore_new 10) \<noteq> None" by code_simp
  then show ?thesis using dram_accounting[OF 1 2, of 7] by (metis not_None_eq option.sel prod.collapse)
qed

section \<open>Configuration\<close>

text \<open>
  The JSON file is read by a library outside the repository. A document is what the loader uses
  of it: for each field it asks for, the value converted to the field's type, or none when the
  document has no such field.
\<close>

record DpuConfig =
  arm_cores :: u32
  dram_capacity_mb :: u64
  pcie_gen :: u32
  pcie_lanes :: u32
  per_packet_base_latency_ns :: u64
  service_rate_pps :: u64
  host_processing_latency_ns :: u64
  crypto_accel :: bool
  doca_flow_steering :: bool
  cfg_node_id :: u8
  cfg_num_replicas :: u16
  telemetry_interval_ms :: u64

definition DpuConfig_init :: DpuConfig where
  "DpuConfig_init = \<lparr> arm_cores = 16, dram_capacity_mb = 16384, pcie_gen = 5, pcie_lanes = 16,
     per_packet_base_latency_ns = 2000, service_rate_pps = 40000000, host_processing_latency_ns = 15000,
     crypto_accel = True, doca_flow_steering = True, cfg_node_id = 0, cfg_num_replicas = 3,
     telemetry_interval_ms = 100 \<rparr>"

record DpuJson =
  js_arm_cores :: "u32 option"
  js_dram_capacity_mb :: "u64 option"
  js_pcie_gen :: "u32 option"
  js_pcie_lanes :: "u32 option"
  js_per_packet_base_latency_ns :: "u64 option"
  js_service_rate_pps :: "u64 option"
  js_host_processing_latency_ns :: "u64 option"
  js_crypto_accel :: "bool option"
  js_doca_flow_steering :: "bool option"
  js_node_id :: "u8 option"
  js_num_replicas :: "u16 option"
  js_telemetry_interval_ms :: "u64 option"

datatype config_error =
    CannotOpen
  | MalformedJson
  | ArmCoresZero
  | DramCapacityZero
  | BaseLatencyZero
  | ServiceRateZero
  | NumReplicasZero
  | NodeIdTooLarge

definition Validate :: "DpuConfig \<Rightarrow> config_error + unit" where
  "Validate cfg =
     (if arm_cores cfg = 0 then Inl ArmCoresZero
      else if dram_capacity_mb cfg = 0 then Inl DramCapacityZero
      else if per_packet_base_latency_ns cfg = 0 then Inl BaseLatencyZero
      else if service_rate_pps cfg = 0 then Inl ServiceRateZero
      else if cfg_num_replicas cfg < 1 then Inl NumReplicasZero
      else if ucast (cfg_node_id cfg) \<ge> cfg_num_replicas cfg then Inl NodeIdTooLarge
      else Inr ())"

definition apply_json :: "DpuJson \<Rightarrow> DpuConfig \<Rightarrow> DpuConfig" where
  "apply_json j c =
     \<lparr> arm_cores = case_option (arm_cores c) id (js_arm_cores j),
       dram_capacity_mb = case_option (dram_capacity_mb c) id (js_dram_capacity_mb j),
       pcie_gen = case_option (pcie_gen c) id (js_pcie_gen j),
       pcie_lanes = case_option (pcie_lanes c) id (js_pcie_lanes j),
       per_packet_base_latency_ns =
         case_option (per_packet_base_latency_ns c) id (js_per_packet_base_latency_ns j),
       service_rate_pps = case_option (service_rate_pps c) id (js_service_rate_pps j),
       host_processing_latency_ns =
         case_option (host_processing_latency_ns c) id (js_host_processing_latency_ns j),
       crypto_accel = case_option (crypto_accel c) id (js_crypto_accel j),
       doca_flow_steering = case_option (doca_flow_steering c) id (js_doca_flow_steering j),
       cfg_node_id = case_option (cfg_node_id c) id (js_node_id j),
       cfg_num_replicas = case_option (cfg_num_replicas c) id (js_num_replicas j),
       telemetry_interval_ms = case_option (telemetry_interval_ms c) id (js_telemetry_interval_ms j) \<rparr>"

text \<open>The file is unreadable, is not JSON, or is a document.\<close>

datatype config_file = Unreadable | NotJson | Document DpuJson

fun LoadConfig :: "config_file \<Rightarrow> config_error + DpuConfig" where
  "LoadConfig Unreadable = Inl CannotOpen"
| "LoadConfig NotJson = Inl MalformedJson"
| "LoadConfig (Document j) =
     (let cfg = apply_json j DpuConfig_init in
      case Validate cfg of Inl e \<Rightarrow> Inl e | Inr _ \<Rightarrow> Inr cfg)"

definition DefaultConfig :: "config_error + DpuConfig" where
  "DefaultConfig = (case Validate DpuConfig_init of Inl e \<Rightarrow> Inl e | Inr _ \<Rightarrow> Inr DpuConfig_init)"

lemma DefaultConfig_valid: "DefaultConfig = Inr DpuConfig_init"
  by (simp add: DefaultConfig_def Validate_def DpuConfig_init_def)

lemma LoadConfig_valid:
  "LoadConfig f = Inr cfg \<Longrightarrow> arm_cores cfg \<noteq> 0 \<and> dram_capacity_mb cfg \<noteq> 0 \<and>
     per_packet_base_latency_ns cfg \<noteq> 0 \<and> service_rate_pps cfg \<noteq> 0 \<and>
     unat (cfg_node_id cfg) < unat (cfg_num_replicas cfg)"
proof (induction f rule: LoadConfig.induct)
  case (3 j)
  have u: "unat (ucast x :: u16) = unat x" for x :: u8
    by (simp add: unsigned_ucast_eq take_bit_nat_eq_self order_less_trans[OF unat_width(1)])
  from 3 show ?case
    by (auto simp: Validate_def Let_def not_le word_less_nat_alt u split: if_splits sum.splits)
qed simp_all

end
