(* ===== verification/Dpu_Device.thy ===== *)
theory Dpu_Device
  imports Paxos_Safety Lock_Safety Barrier_Safety Dpu_Resources
begin

text \<open>
  The DPU model (\<^verbatim>\<open>sims/nic/dpu_bm\<close>): the device that receives Ethernet frames, takes an ARM
  core, delays the processing, and runs the handler of the packet's primitive
  (\<^verbatim>\<open>dpu_bm.h\<close>, \<^verbatim>\<open>dpu_bm.cc\<close>), and the three handlers (\<^verbatim>\<open>paxos_dpu_handler.cc\<close>,
  \<^verbatim>\<open>lock_dpu_handler.cc\<close>, \<^verbatim>\<open>barrier_dpu_handler.cc\<close>). What the device asks of the runner, to
  send a frame or to schedule an event, is returned as a list of effects. \<open>None\<close> is an access
  outside a buffer or a failed assertion.
\<close>

section \<open>Handlers\<close>

record PacketContext =
  ctx_port :: u8
  ctx_operation_id :: u32
  ctx_source_tier :: u8
  full_frame :: bytes
  full_frame_len :: nat

text \<open>What a handler asks of the device: to send a frame or to escalate one to the host.\<close>

datatype handler_action = ActSend bytes | ActEscalate bytes

definition build_frame :: "u16 \<Rightarrow> u16 \<Rightarrow> OutMessage \<Rightarrow> PacketContext \<Rightarrow> bytes option" where
  "build_frame prim exc msg ctx = do {
     src \<leftarrow> rd (full_frame ctx) 0 6;
     in_hdr \<leftarrow> decode_HcopHeader (full_frame ctx) 14;
     let hdr = HCOP_APPEND_PATH kTierDpu
       \<lparr> primitive_type = prim, exception_type = exc, operation_id = ctx_operation_id ctx,
         source_tier = kTierDpu, num_tier_crossings = num_tier_crossings in_hdr,
         tier_path = tier_path in_hdr, payload_len = of_nat (length (out_data msg)) \<rparr>;
     Some (replicate 6 0xFF @ src @ [ucast (drop_bit 8 kHcopEtherType), ucast kHcopEtherType] @
           encode_HcopHeader hdr @ out_data msg) }"

definition SendResponses :: "(OutMessage \<Rightarrow> PacketContext \<Rightarrow> bytes option) \<Rightarrow> OutMessage list \<Rightarrow>
    PacketContext \<Rightarrow> handler_action list option" where
  "SendResponses build msgs ctx = map_option (map ActSend) (those (map (\<lambda>m. build m ctx) msgs))"

definition BuildFrame_paxos :: "OutMessage \<Rightarrow> PacketContext \<Rightarrow> bytes option" where
  "BuildFrame_paxos = build_frame kPrimitivePaxos kPaxosNoException"

definition HandlePacket_paxos :: "PaxosNode \<Rightarrow> bytes \<Rightarrow> PacketContext \<Rightarrow> (handler_action list \<times> PaxosNode) option" where
  "HandlePacket_paxos node data ctx = do {
     (status, responses, node') \<leftarrow> Paxos_State.HandleMessage data node;
     if status = Px_kInstanceOverflow
     then Some ([ActEscalate (take (full_frame_len ctx) (full_frame ctx))], node')
     else do { acts \<leftarrow> SendResponses BuildFrame_paxos responses ctx; Some (acts, node') } }"

definition BuildFrame_lock :: "OutMessage \<Rightarrow> PacketContext \<Rightarrow> bytes option" where
  "BuildFrame_lock = build_frame kPrimitiveLock kLockNoException"

definition HandlePacket_lock :: "LockManager \<Rightarrow> bytes \<Rightarrow> PacketContext \<Rightarrow> (handler_action list \<times> LockManager) option" where
  "HandlePacket_lock mgr data ctx = do {
     (status, responses, mgr') \<leftarrow> HandleMessage_lock data 0 mgr;
     if status = Lk_kKeyOverflow
     then Some ([ActEscalate (take (full_frame_len ctx) (full_frame ctx))], mgr')
     else do { acts \<leftarrow> SendResponses BuildFrame_lock responses ctx; Some (acts, mgr') } }"

definition BuildFrame_barrier :: "OutMessage \<Rightarrow> PacketContext \<Rightarrow> bytes option" where
  "BuildFrame_barrier = build_frame kPrimitiveBarrier kBarrierNoException"

definition HandlePacket_barrier :: "BarrierManager \<Rightarrow> bytes \<Rightarrow> PacketContext \<Rightarrow> (handler_action list \<times> BarrierManager) option" where
  "HandlePacket_barrier mgr data ctx = do {
     (status, responses, mgr') \<leftarrow> HandleMessage_barrier data mgr;
     if status = Br_kLayoutOverflow
     then Some ([ActEscalate (take (full_frame_len ctx) (full_frame ctx))], mgr')
     else do { acts \<leftarrow> SendResponses BuildFrame_barrier responses ctx; Some (acts, mgr') } }"

datatype PrimitiveHandler =
    PaxosDpuHandler PaxosNode
  | LockDpuHandler LockManager
  | BarrierDpuHandler BarrierManager

fun PrimitiveType :: "PrimitiveHandler \<Rightarrow> u16" where
  "PrimitiveType (PaxosDpuHandler n) = kPrimitivePaxos"
| "PrimitiveType (LockDpuHandler m) = kPrimitiveLock"
| "PrimitiveType (BarrierDpuHandler m) = kPrimitiveBarrier"

fun HandlePacket :: "PrimitiveHandler \<Rightarrow> bytes \<Rightarrow> PacketContext \<Rightarrow> (handler_action list \<times> PrimitiveHandler) option" where
  "HandlePacket (PaxosDpuHandler n) data ctx = map_option (map_prod id PaxosDpuHandler) (HandlePacket_paxos n data ctx)"
| "HandlePacket (LockDpuHandler m) data ctx = map_option (map_prod id LockDpuHandler) (HandlePacket_lock m data ctx)"
| "HandlePacket (BarrierDpuHandler m) data ctx = map_option (map_prod id BarrierDpuHandler) (HandlePacket_barrier m data ctx)"

section \<open>Device\<close>

record ProcessingEvent =
  ev_core_id :: u32
  ev_primitive_type :: u16
  ev_ctx :: PacketContext
  ev_payload :: bytes
  ev_time :: u64

record DpuDevice =
  cfg :: DpuConfig
  core_pool :: ArmCorePool
  dram :: DramStore
  handlers :: "(u16 \<times> PrimitiveHandler) list"
  pkts_processed :: u64
  pkts_dropped :: u64
  pkts_escalated :: u64
  pkts_queued :: u64
  sampling_interval_ps :: u64
  sampling_time :: u64

datatype dpu_effect =
    EthSend bytes
  | ScheduleProcessing ProcessingEvent
  | ScheduleSampling u64

definition RegisterHandler :: "PrimitiveHandler \<Rightarrow> DpuDevice \<Rightarrow> DpuDevice" where
  "RegisterHandler h d = d\<lparr> handlers := AList.update (PrimitiveType h) h (handlers d) \<rparr>"

definition DpuDevice_new :: "DpuConfig \<Rightarrow> DpuDevice option" where
  "DpuDevice_new c = do {
     pool \<leftarrow> ArmCorePool_new (arm_cores c);
     node \<leftarrow> PaxosNode_new (cfg_node_id c) (cfg_num_replicas c) 1000000;
     let iv = telemetry_interval_ms c * 1000 * 1000000;
     let d = \<lparr> cfg = c, core_pool = pool, dram = DramStore_new (dram_capacity_mb c * 1024 * 1024),
               handlers = [], pkts_processed = 0, pkts_dropped = 0, pkts_escalated = 0, pkts_queued = 0,
               sampling_interval_ps = iv, sampling_time = iv \<rparr>;
     Some (RegisterHandler (BarrierDpuHandler (BarrierManager_new 1000000 2))
          (RegisterHandler (LockDpuHandler (LockManager_new 1000000 10000000 16))
          (RegisterHandler (PaxosDpuHandler node) d))) }"

record PcieDevIntro =
  bars :: "(u64 \<times> u64) list"
  pci_vendor_id :: u16
  pci_device_id :: u16
  pci_class :: u8
  pci_subclass :: u8
  pci_revision :: u8
  pci_msi_nvecs :: u8
  pci_msix_nvecs :: u16
  pci_msix_table_bar :: u8
  pci_msix_pba_bar :: u8
  pci_msix_table_offset :: u32
  pci_msix_pba_offset :: u32
  psi_msix_cap_offset :: u16

definition SetupIntro :: "PcieDevIntro \<Rightarrow> u64 \<Rightarrow> DpuDevice \<Rightarrow> PcieDevIntro \<times> dpu_effect list \<times> DpuDevice" where
  "SetupIntro di now d =
     (di\<lparr> bars := (bars di)[0 := (64 * 1024, 2), 3 := (4 * 1024, 2 OR 8)],
          pci_vendor_id := 0x15B3, pci_device_id := 0xA2DC, pci_class := 2, pci_subclass := 0,
          pci_revision := 1, pci_msi_nvecs := 1, pci_msix_nvecs := 8, pci_msix_table_bar := 3,
          pci_msix_pba_bar := 3, pci_msix_table_offset := 0, pci_msix_pba_offset := 0x800,
          psi_msix_cap_offset := 0x70 \<rparr>,
      [ScheduleSampling (now + sampling_interval_ps d)],
      d\<lparr> sampling_time := now + sampling_interval_ps d \<rparr>)"

definition RegRead :: "u8 \<Rightarrow> u64 \<Rightarrow> nat \<Rightarrow> DpuDevice \<Rightarrow> bytes" where
  "RegRead bar addr len d =
     (if bar \<noteq> 0 \<or> len \<noteq> 4 then replicate len 0
      else le_bytes 4
        (if addr = 0x00 then 1
         else if addr = 0x04 then ActiveCount (core_pool d)
         else if addr = 0x08 then Capacity (core_pool d)
         else if addr = 0x0C then ucast (used_bytes (dram d))
         else if addr = 0x10 then ucast (drop_bit 32 (used_bytes (dram d)))
         else if addr = 0x14 then ucast (capacity_bytes (dram d))
         else if addr = 0x18 then ucast (drop_bit 32 (capacity_bytes (dram d)))
         else if addr = 0x1C then ucast (pkts_processed d)
         else if addr = 0x20 then ucast (pkts_dropped d)
         else if addr = 0x24 then ucast (pkts_escalated d)
         else (0 :: u32)))"

definition RegWrite :: "u8 \<Rightarrow> u64 \<Rightarrow> bytes \<Rightarrow> DpuDevice \<Rightarrow> DpuDevice" where
  "RegWrite bar addr src d = d"

definition EscalateToHost :: "bytes \<Rightarrow> DpuDevice \<Rightarrow> dpu_effect list \<times> DpuDevice" where
  "EscalateToHost data d = ([EthSend data], d\<lparr> pkts_escalated := pkts_escalated d + 1 \<rparr>)"

definition EthRx :: "u8 \<Rightarrow> bytes \<Rightarrow> u64 \<Rightarrow> DpuDevice \<Rightarrow> (dpu_effect list \<times> DpuDevice) option" where
  "EthRx port frame now d =
     (let dropped = Some ([], d\<lparr> pkts_dropped := pkts_dropped d + 1 \<rparr>) in
      if length frame < kMinHcopFrameLen then dropped
      else if (push_bit 8 (ucast (frame ! 12)) OR ucast (frame ! 13) :: u16) \<noteq> kHcopEtherType then dropped
      else do {
        hdr \<leftarrow> decode_HcopHeader frame 14;
        (case map_of (handlers d) (primitive_type hdr) of
           None \<Rightarrow> dropped
         | Some _ \<Rightarrow>
             (case TryAcquire (core_pool d) of
                (None, pool) \<Rightarrow> do {
                  f \<leftarrow> with_HcopHeader (\<lambda>h. HCOP_APPEND_PATH kTierDpu (h\<lparr> exception_type := kDpuCoreExhausted \<rparr>)) frame;
                  Some (EscalateToHost f (d\<lparr> core_pool := pool \<rparr>)) }
              | (Some core, pool) \<Rightarrow> do {
                  f \<leftarrow> with_HcopHeader (HCOP_APPEND_PATH kTierDpu) frame;
                  let evt = \<lparr> ev_core_id = core, ev_primitive_type = primitive_type hdr,
                        ev_ctx = \<lparr> ctx_port = port, ctx_operation_id = operation_id hdr,
                                   ctx_source_tier = source_tier hdr, full_frame = f,
                                   full_frame_len = length frame \<rparr>,
                        ev_payload = f, ev_time = now + per_packet_base_latency_ns (cfg d) * 1000 \<rparr>;
                  Some ([ScheduleProcessing evt],
                        d\<lparr> core_pool := pool, pkts_queued := pkts_queued d + 1 \<rparr>) })) })"

text \<open>The device carries out the actions of a handler in order.\<close>

fun run_actions :: "handler_action list \<Rightarrow> DpuDevice \<Rightarrow> dpu_effect list \<times> DpuDevice" where
  "run_actions [] d = ([], d)"
| "run_actions (ActSend f # as) d = (case run_actions as d of (es, d') \<Rightarrow> (EthSend f # es, d'))"
| "run_actions (ActEscalate f # as) d =
     (case EscalateToHost f d of (es, d1) \<Rightarrow> (case run_actions as d1 of (es', d2) \<Rightarrow> (es @ es', d2)))"

definition Timed :: "ProcessingEvent \<Rightarrow> DpuDevice \<Rightarrow> (dpu_effect list \<times> DpuDevice) option" where
  "Timed evt d = do {
     (es, d1) \<leftarrow> (case map_of (handlers d) (ev_primitive_type evt) of
        Some h \<Rightarrow> do {
          (acts, h') \<leftarrow> HandlePacket h (drop kMinHcopFrameLen (ev_payload evt)) (ev_ctx evt);
          (case run_actions acts (d\<lparr> handlers := AList.update (ev_primitive_type evt) h' (handlers d) \<rparr>) of
             (es, d') \<Rightarrow> Some (es, d'\<lparr> pkts_processed := pkts_processed d' + 1 \<rparr>)) }
      | None \<Rightarrow> Some ([], d\<lparr> pkts_dropped := pkts_dropped d + 1 \<rparr>));
     let d2 = (if pkts_queued d1 > 0 then d1\<lparr> pkts_queued := pkts_queued d1 - 1 \<rparr> else d1);
     pool \<leftarrow> Release_core (ev_core_id evt) (core_pool d2);
     Some (es, d2\<lparr> core_pool := pool \<rparr>) }"

definition Timed_sampling :: "u64 \<Rightarrow> DpuDevice \<Rightarrow> dpu_effect list \<times> DpuDevice" where
  "Timed_sampling now d = ([ScheduleSampling (now + sampling_interval_ps d)],
     d\<lparr> sampling_time := now + sampling_interval_ps d \<rparr>)"

end
