(* ===== verification/Dpu_Safety.thy ===== *)
theory Dpu_Safety
  imports Dpu_Device
begin

text \<open>
  Correctness of the DPU device: the handler interface and its three implementations, the frames
  that handlers build, and the conservation of cores between the frames received and the
  processing events that are pending in the runner.
\<close>

section \<open>The handler interface\<close>

definition frame_ok :: "PacketContext \<Rightarrow> bool" where
  "frame_ok ctx \<longleftrightarrow> kMinHcopFrameLen \<le> length (full_frame ctx) \<and> full_frame_len ctx = length (full_frame ctx)"

text \<open>
  A handler keeps its invariant on every packet it handles, handles every packet whose payload is
  well-formed for it, and only sends or escalates.
\<close>

locale primitive_handler =
  fixes handle :: "'s \<Rightarrow> bytes \<Rightarrow> PacketContext \<Rightarrow> (handler_action list \<times> 's) option"
    and inv :: "'s \<Rightarrow> bool"
    and acceptable :: "bytes \<Rightarrow> bool"
  assumes keeps_inv: "inv s \<Longrightarrow> handle s data ctx = Some (acts, s') \<Longrightarrow> inv s'"
    and handles: "inv s \<Longrightarrow> acceptable data \<Longrightarrow> frame_ok ctx \<Longrightarrow> handle s data ctx \<noteq> None"
begin

lemma handled: "inv s \<Longrightarrow> acceptable data \<Longrightarrow> frame_ok ctx \<Longrightarrow> \<exists>acts s'. handle s data ctx = Some (acts, s') \<and> inv s'"
  using handles keeps_inv by fastforce

end

section \<open>Frames built by the handlers\<close>

lemma those_map_total: "(\<And>x. x \<in> set xs \<Longrightarrow> f x \<noteq> None) \<Longrightarrow> \<exists>ys. those (map f xs) = Some ys"
  by (induction xs) (auto split: option.splits)

lemma frame_ok_reads:
  assumes "frame_ok ctx"
  shows "rd (full_frame ctx) 0 6 = Some (take 6 (full_frame ctx))"
    and "\<exists>h. decode_HcopHeader (full_frame ctx) 14 = Some h"
  using assms decode_HcopHeader_Some_iff[of "full_frame ctx" 14] by (auto simp: frame_ok_def rd_def)

lemma build_frame_total: "frame_ok ctx \<Longrightarrow> build_frame prim exc msg ctx \<noteq> None"
  using frame_ok_reads[of ctx] by (auto simp: build_frame_def Let_def)

lemma SendResponses_total:
  "frame_ok ctx \<Longrightarrow> \<exists>acts. SendResponses (build_frame prim exc) msgs ctx = Some acts"
  using those_map_total[of msgs "\<lambda>m. build_frame prim exc m ctx"] build_frame_total
  by (auto simp: SendResponses_def)

lemmas BuildFrame_defs = BuildFrame_paxos_def BuildFrame_lock_def BuildFrame_barrier_def

interpretation paxos_handler: primitive_handler HandlePacket_paxos paxos_inv payload_in_bounds
proof unfold_locales
  show "paxos_inv s'" if "paxos_inv s" "HandlePacket_paxos s data ctx = Some (acts, s')" for s data ctx acts s'
    using that by (auto simp: HandlePacket_paxos_def bind_eq_Some_conv split: if_splits dest: HandleMessage_inv)
  show "HandlePacket_paxos s data ctx \<noteq> None" if "paxos_inv s" "payload_in_bounds data" "frame_ok ctx" for s data ctx
  proof -
    note pre = that
    obtain st out s' where h: "Paxos_State.HandleMessage data s = Some (st, out, s')" using HandleMessage_total[OF pre(1,2)] by auto
    obtain acts where "SendResponses (build_frame kPrimitivePaxos kPaxosNoException) out ctx = Some acts"
      using SendResponses_total[OF pre(3)] by blast
    with h show ?thesis by (simp add: HandlePacket_paxos_def BuildFrame_defs)
  qed
qed

interpretation lock_handler: primitive_handler HandlePacket_lock lock_table_ok "\<lambda>_. True"
proof unfold_locales
  show "lock_table_ok s'" if "lock_table_ok s" "HandlePacket_lock s data ctx = Some (acts, s')" for s data ctx acts s'
    using that by (auto simp: HandlePacket_lock_def bind_eq_Some_conv split: if_splits dest: HandleMessage_lock_table)
  show "HandlePacket_lock s data ctx \<noteq> None" if "frame_ok ctx" for s data ctx
  proof -
    note pre = that
    obtain st out s' where h: "HandleMessage_lock data 0 s = Some (st, out, s')" using HandleMessage_lock_total[of data 0 s] by auto
    obtain acts where "SendResponses (build_frame kPrimitiveLock kLockNoException) out ctx = Some acts"
      using SendResponses_total[OF pre] by blast
    with h show ?thesis by (simp add: HandlePacket_lock_def BuildFrame_defs)
  qed
qed

interpretation barrier_handler: primitive_handler HandlePacket_barrier barriers_inv "\<lambda>_. True"
proof unfold_locales
  show "barriers_inv s'" if "barriers_inv s" "HandlePacket_barrier s data ctx = Some (acts, s')" for s data ctx acts s'
    using that by (auto simp: HandlePacket_barrier_def bind_eq_Some_conv split: if_splits dest: HandleMessage_barrier_inv)
  show "HandlePacket_barrier s data ctx \<noteq> None" if "frame_ok ctx" for s data ctx
  proof -
    note pre = that
    obtain st out s' where h: "HandleMessage_barrier data s = Some (st, out, s')" using HandleMessage_barrier_total[of data s] by auto
    obtain acts where "SendResponses (build_frame kPrimitiveBarrier kBarrierNoException) out ctx = Some acts"
      using SendResponses_total[OF pre] by blast
    with h show ?thesis by (simp add: HandlePacket_barrier_def BuildFrame_defs)
  qed
qed

section \<open>The registry of handlers\<close>

fun handler_inv :: "PrimitiveHandler \<Rightarrow> bool" where
  "handler_inv (PaxosDpuHandler n) = paxos_inv n"
| "handler_inv (LockDpuHandler m) = lock_table_ok m"
| "handler_inv (BarrierDpuHandler m) = barriers_inv m"

text \<open>Only Paxos payloads can announce more bytes than were received.\<close>

fun payload_ok :: "PrimitiveHandler \<Rightarrow> bytes \<Rightarrow> bool" where
  "payload_ok (PaxosDpuHandler n) data = payload_in_bounds data"
| "payload_ok _ data = True"

lemma HandlePacket_inv:
  assumes "handler_inv h" "HandlePacket h data ctx = Some (acts, h')"
  shows "handler_inv h' \<and> PrimitiveType h' = PrimitiveType h"
  using assms
  by (cases h) (auto dest: paxos_handler.keeps_inv lock_handler.keeps_inv barrier_handler.keeps_inv)

lemma HandlePacket_handled:
  assumes "handler_inv h" "payload_ok h data" "frame_ok ctx"
  shows "\<exists>acts h'. HandlePacket h data ctx = Some (acts, h')"
proof (cases h)
  case (PaxosDpuHandler n)
  with paxos_handler.handled[of n data ctx] assms show ?thesis by auto
next
  case (LockDpuHandler m)
  with lock_handler.handled[of m ctx data] assms show ?thesis by auto
next
  case (BarrierDpuHandler m)
  with barrier_handler.handled[of m ctx data] assms show ?thesis by auto
qed

definition registry_ok :: "DpuDevice \<Rightarrow> bool" where
  "registry_ok d \<longleftrightarrow> (\<forall>t h. map_of (handlers d) t = Some h \<longrightarrow> handler_inv h \<and> PrimitiveType h = t)"

section \<open>Reception\<close>

text \<open>A received frame is dropped, escalated because no core is free, or scheduled on a core.\<close>

lemma EthRx_cases:
  assumes "EthRx port frame now d = Some (es, d')"
  obtains (drop) "es = []" "d' = d\<lparr> pkts_dropped := pkts_dropped d + 1 \<rparr>"
  | (escalate) f where "fst (TryAcquire (core_pool d)) = None" "es = [EthSend f]"
      "with_HcopHeader (\<lambda>h. HCOP_APPEND_PATH kTierDpu (h\<lparr> exception_type := kDpuCoreExhausted \<rparr>)) frame = Some f"
      "d' = d\<lparr> core_pool := snd (TryAcquire (core_pool d)), pkts_escalated := pkts_escalated d + 1 \<rparr>"
  | (schedule) c hdr f e where "fst (TryAcquire (core_pool d)) = Some c" "decode_HcopHeader frame 14 = Some hdr"
      "map_of (handlers d) (primitive_type hdr) \<noteq> None" "with_HcopHeader (HCOP_APPEND_PATH kTierDpu) frame = Some f"
      "es = [ScheduleProcessing e]" "ev_core_id e = c" "ev_primitive_type e = primitive_type hdr"
      "ev_payload e = f" "full_frame (ev_ctx e) = f" "full_frame_len (ev_ctx e) = length frame"
      "ctx_operation_id (ev_ctx e) = operation_id hdr" "30 \<le> length frame"
      "d' = d\<lparr> core_pool := snd (TryAcquire (core_pool d)), pkts_queued := pkts_queued d + 1 \<rparr>"
  using assms
  by (auto simp: EthRx_def Let_def EscalateToHost_def bind_eq_Some_conv simp del: kHcopEtherType_def
      split: if_splits option.splits prod.splits)

lemma EthRx_total: "EthRx port frame now d \<noteq> None"
proof (cases "length frame < 30")
  case False
  obtain hdr where "decode_HcopHeader frame 14 = Some hdr"
    using decode_HcopHeader_Some_iff[of frame 14] False by auto
  moreover obtain f where "with_HcopHeader (HCOP_APPEND_PATH kTierDpu) frame = Some f"
    using with_HcopHeader_Some_iff[of "HCOP_APPEND_PATH kTierDpu" frame] False by auto
  moreover obtain f' where
    "with_HcopHeader (\<lambda>h. HCOP_APPEND_PATH kTierDpu (h\<lparr> exception_type := kDpuCoreExhausted \<rparr>)) frame = Some f'"
    using with_HcopHeader_Some_iff[of _ frame] False by (meson not_le)
  ultimately show ?thesis
    by (simp add: EthRx_def Let_def EscalateToHost_def split: option.splits prod.splits)
qed (simp add: EthRx_def)

section \<open>The device and its pending events\<close>

fun scheduled :: "dpu_effect list \<Rightarrow> ProcessingEvent list" where
  "scheduled [] = []"
| "scheduled (ScheduleProcessing e # es) = e # scheduled es"
| "scheduled (_ # es) = scheduled es"

text \<open>
  A step is the reception of a frame, the completion of any pending event, or a sampling event.
  The runner may deliver pending events in any order.
\<close>

inductive dpu_step :: "DpuDevice \<times> ProcessingEvent list \<Rightarrow> DpuDevice \<times> ProcessingEvent list \<Rightarrow> bool" where
  rx: "EthRx port frame now d = Some (es, d') \<Longrightarrow> dpu_step (d, P) (d', P @ scheduled es)"
| timed: "i < length P \<Longrightarrow> Timed (P ! i) d = Some (es, d') \<Longrightarrow>
    dpu_step (d, P) (d', take i P @ drop (Suc i) P)"
| sampling: "Timed_sampling now d = (es, d') \<Longrightarrow> dpu_step (d, P) (d', P @ scheduled es)"

definition event_ok :: "DpuDevice \<Rightarrow> ProcessingEvent \<Rightarrow> bool" where
  "event_ok d e \<longleftrightarrow> map_of (handlers d) (ev_primitive_type e) \<noteq> None \<and> frame_ok (ev_ctx e) \<and>
     ev_payload e = full_frame (ev_ctx e)"

definition cores :: "ProcessingEvent list \<Rightarrow> nat list" where
  "cores P = map (\<lambda>e. unat (ev_core_id e)) P"

fun dpu_inv :: "DpuDevice \<times> ProcessingEvent list \<Rightarrow> bool" where
  "dpu_inv (d, P) \<longleftrightarrow> pool_inv (core_pool d) \<and> distinct (cores P) \<and> set (cores P) = busy (core_pool d) \<and>
     unat (pkts_queued d) = length P \<and> registry_ok d \<and> (\<forall>e\<in>set P. event_ok d e)"

lemma dpu_inv_new:
  assumes "DpuDevice_new c = Some d"
  shows "dpu_inv (d, [])"
proof -
  obtain pool node where p: "ArmCorePool_new (arm_cores c) = Some pool"
      and n: "PaxosNode_new (cfg_node_id c) (cfg_num_replicas c) 1000000 = Some node"
    using assms by (auto simp: DpuDevice_new_def bind_eq_Some_conv)
  have b: "busy pool = {}" using p by (auto simp: ArmCorePool_new_def busy_def bm64.indices_none split: if_splits)
  have "lock_table_ok (LockManager_new 1000000 10000000 16)" "barriers_inv (BarrierManager_new 1000000 2)"
    by (simp_all add: lock_table_ok_def LockManager_new_def barriers_inv_def BarrierManager_new_def)
  with assms p n b pool_inv_new[OF p] paxos_inv_new[OF n] show ?thesis
    by (auto simp: DpuDevice_new_def RegisterHandler_def registry_ok_def cores_def Let_def split: if_splits)
qed

lemma run_actions_frame:
  "run_actions acts d = (es, d') \<Longrightarrow> scheduled es = [] \<and> (\<exists>n. d' = d\<lparr> pkts_escalated := n \<rparr>)"
proof (induction acts d arbitrary: es d' rule: run_actions.induct)
  case (1 d)
  then show ?case by (auto intro: exI[of _ "pkts_escalated d"])
next
  case (2 f as d)
  then show ?case by (auto split: prod.splits)
next
  case (3 f as d)
  then show ?case by (fastforce simp: EscalateToHost_def split: prod.splits)
qed

text \<open>A pending event of a registered primitive runs its handler and gives back its core.\<close>

lemma Timed_cases:
  assumes "Timed e d = Some (es, d')" "map_of (handlers d) (ev_primitive_type e) = Some h"
  obtains acts h' pool n where "HandlePacket h (drop kMinHcopFrameLen (ev_payload e)) (ev_ctx e) = Some (acts, h')"
    "Release_core (ev_core_id e) (core_pool d) = Some pool" "scheduled es = []"
    "d' = d\<lparr> handlers := AList.update (ev_primitive_type e) h' (handlers d), pkts_escalated := n,
             pkts_processed := pkts_processed d + 1,
             pkts_queued := (if pkts_queued d > 0 then pkts_queued d - 1 else pkts_queued d), core_pool := pool \<rparr>"
proof -
  obtain acts h' where h: "HandlePacket h (drop kMinHcopFrameLen (ev_payload e)) (ev_ctx e) = Some (acts, h')"
    using assms by (auto simp: Timed_def bind_eq_Some_conv)
  let ?d0 = "d\<lparr> handlers := AList.update (ev_primitive_type e) h' (handlers d) \<rparr>"
  obtain es1 d1 where r: "run_actions acts ?d0 = (es1, d1)" by fastforce
  obtain n where n: "scheduled es1 = []" "d1 = ?d0\<lparr> pkts_escalated := n \<rparr>"
    using run_actions_frame[OF r] by auto
  obtain pool where pool: "Release_core (ev_core_id e) (core_pool d) = Some pool"
    using assms h r n by (auto simp: Timed_def bind_eq_Some_conv Let_def split: if_splits)
  have "es = es1" and d': "d' = (let d2 = d1\<lparr> pkts_processed := pkts_processed d + 1 \<rparr> in
      (if pkts_queued d > 0 then d2\<lparr> pkts_queued := pkts_queued d - 1 \<rparr> else d2)\<lparr> core_pool := pool \<rparr>)"
    using assms h r n pool by (simp_all add: Timed_def Let_def split: if_splits)
  moreover have "d' = d\<lparr> handlers := AList.update (ev_primitive_type e) h' (handlers d), pkts_escalated := n,
      pkts_processed := pkts_processed d + 1,
      pkts_queued := (if pkts_queued d > 0 then pkts_queued d - 1 else pkts_queued d), core_pool := pool \<rparr>"
    by (cases d) (simp add: d' n Let_def)
  ultimately show ?thesis using that[OF h pool] n(1) by blast
qed

lemma remove_nth:
  assumes "distinct xs" "i < length xs"
  shows "set (take i xs @ drop (Suc i) xs) = set xs - {xs ! i}" "distinct (take i xs @ drop (Suc i) xs)"
proof -
  have xs: "xs = take i xs @ xs ! i # drop (Suc i) xs" using assms(2) by (rule id_take_nth_drop)
  then have d: "distinct (take i xs @ xs ! i # drop (Suc i) xs)" using assms(1) by simp
  then show "distinct (take i xs @ drop (Suc i) xs)" by simp
  have "set xs = insert (xs ! i) (set (take i xs @ drop (Suc i) xs))"
    using arg_cong[OF xs, of set] by auto
  with d show "set (take i xs @ drop (Suc i) xs) = set xs - {xs ! i}" by auto
qed

lemma EthRx_inv:
  assumes "dpu_inv (d, P)" "EthRx port frame now d = Some (es, d')"
  shows "dpu_inv (d', P @ scheduled es)"
  using assms(2)
proof (cases rule: EthRx_cases)
  case drop
  with assms(1) show ?thesis by (auto simp: registry_ok_def event_ok_def)
next
  case (escalate f)
  have "snd (TryAcquire (core_pool d)) = core_pool d"
    using escalate(1) by (auto simp: TryAcquire_def split: option.splits if_splits)
  with escalate assms(1) show ?thesis by (auto simp: registry_ok_def event_ok_def)
next
  case (schedule c hdr f e)
  have inv: "pool_inv (core_pool d)" using assms(1) by simp
  let ?p = "snd (TryAcquire (core_pool d))"
  have tp: "TryAcquire (core_pool d) = (Some c, ?p)" using schedule(1) by (metis prod.collapse)
  obtain i where i: "c = of_nat i" "i < unat (cp_capacity (core_pool d))" "i \<notin> busy (core_pool d)"
      "busy ?p = insert i (busy (core_pool d))"
    using inv tp by (cases rule: TryAcquire_cases) auto
  have pi: "pool_inv ?p" using TryAcquire_inv[OF inv, of "fst (TryAcquire (core_pool d))" ?p] by simp
  have c: "unat c = i" using i(1,2) inv by (simp add: pool_inv_def unsigned_of_nat take_bit_nat_eq_self)
  have "card (busy (core_pool d)) \<le> 64" using bm64.card_indices_bound by (simp add: busy_def)
  then have "length P \<le> 64" using assms(1) distinct_card[of "cores P"] by (simp add: cores_def)
  then have q: "unat (pkts_queued d + 1) = Suc (length P)"
    using assms(1) by (simp add: unat_word_ariths)
  have "frame_ok (ev_ctx e)"
    using schedule with_HcopHeader_length[OF schedule(4)] by (simp add: frame_ok_def)
  with schedule assms(1) i c pi q show ?thesis
    by (auto simp: cores_def registry_ok_def event_ok_def)
qed

lemma Timed_inv:
  assumes "dpu_inv (d, P)" "i < length P" "Timed (P ! i) d = Some (es, d')"
  shows "dpu_inv (d', take i P @ drop (Suc i) P)"
proof -
  let ?e = "P ! i" let ?Q = "take i P @ drop (Suc i) P"
  have ev: "event_ok d ?e" using assms(1,2) by simp
  then obtain h where h: "map_of (handlers d) (ev_primitive_type ?e) = Some h" by (auto simp: event_ok_def)
  obtain acts h' pool n where t: "HandlePacket h (drop kMinHcopFrameLen (ev_payload ?e)) (ev_ctx ?e) = Some (acts, h')"
    "Release_core (ev_core_id ?e) (core_pool d) = Some pool"
    "d' = d\<lparr> handlers := AList.update (ev_primitive_type ?e) h' (handlers d), pkts_escalated := n,
             pkts_processed := pkts_processed d + 1,
             pkts_queued := (if pkts_queued d > 0 then pkts_queued d - 1 else pkts_queued d), core_pool := pool \<rparr>"
    by (rule Timed_cases[OF assms(3) h])
  have hi: "handler_inv h' \<and> PrimitiveType h' = ev_primitive_type ?e"
    using HandlePacket_inv[OF _ t(1)] h assms(1) by (simp add: registry_ok_def)
  have inv: "pool_inv (core_pool d)" and len: "unat (pkts_queued d) = length P"
      and dist: "distinct (cores P)" "set (cores P) = busy (core_pool d)"
    using assms(1) by simp_all
  have b: "busy pool = busy (core_pool d) - {unat (ev_core_id ?e)}"
    using Release_core_cases[OF inv t(2)] by metis
  have cq: "cores ?Q = take i (cores P) @ drop (Suc i) (cores P)" by (simp add: cores_def take_map drop_map)
  have ci: "cores P ! i = unat (ev_core_id ?e)" and il: "i < length (cores P)"
    using assms(2) by (simp_all add: cores_def)
  have q: "unat (pkts_queued d - 1) = length P - 1" and pos: "0 < pkts_queued d"
    using len assms(2) by (auto simp add: unat_sub word_le_nat_alt word_less_nat_alt)
  have "set ?Q \<subseteq> set P" by (auto dest: in_set_takeD in_set_dropD)
  then have evs: "\<forall>e\<in>set ?Q. event_ok d' e" using assms(1) t(3) by (auto simp: event_ok_def)
  have "registry_ok d'" using assms(1) hi t(3) by (auto simp: registry_ok_def)
  moreover have "pool_inv (core_pool d')" using Release_core_inv[OF inv t(2)] t(3) by simp
  moreover have "unat (pkts_queued d') = length ?Q" using t(3) q pos assms(2) by simp
  ultimately show ?thesis
    using remove_nth[OF dist(1) il] evs t(3) b cq ci dist(2) by simp
qed

lemma dpu_step_inv:
  assumes "dpu_step x y" "dpu_inv x"
  shows "dpu_inv y"
  using assms(1)
proof cases
  case (rx port frame now d es d' P)
  with assms(2) EthRx_inv[of d P] show ?thesis by blast
next
  case (timed i P d es d')
  with assms(2) Timed_inv[of d P i] show ?thesis by blast
next
  case (sampling now d es d' P)
  with assms(2) show ?thesis by (auto simp: Timed_sampling_def registry_ok_def event_ok_def)
qed

lemma dpu_reachable_inv: "dpu_step\<^sup>*\<^sup>* x y \<Longrightarrow> dpu_inv x \<Longrightarrow> dpu_inv y"
  by (induction rule: rtranclp_induct) (auto intro: dpu_step_inv)

section \<open>Properties of the device\<close>

lemma dpu_inv_length:
  assumes "dpu_inv (d, P)"
  shows "length P = card (busy (core_pool d))" "length P \<le> unat (Capacity (core_pool d))"
proof -
  show eq: "length P = card (busy (core_pool d))"
    using assms distinct_card[of "cores P"] by (simp add: cores_def)
  have "card (busy (core_pool d)) \<le> card {..<unat (cp_capacity (core_pool d))}"
    using assms by (intro card_mono) (auto simp: pool_inv_def)
  with eq show "length P \<le> unat (Capacity (core_pool d))" by (simp add: Capacity_def)
qed

text \<open>
  C28. Cores are conserved. In every state that the device reaches from its constructor, by
  receiving frames and completing pending events in any order, the cores of the pending events
  are distinct and are exactly the busy cores, so that the active count and the queue counter are
  the number of pending events and never exceed the capacity.
\<close>

theorem dpu_cores_conserved:
  assumes "DpuDevice_new c = Some d0" "dpu_step\<^sup>*\<^sup>* (d0, []) (d, P)"
  shows "distinct (cores P) \<and> set (cores P) = busy (core_pool d) \<and>
    unat (ActiveCount (core_pool d)) = length P \<and> unat (pkts_queued d) = length P \<and>
    length P \<le> unat (Capacity (core_pool d))"
proof -
  have inv: "dpu_inv (d, P)" by (rule dpu_reachable_inv[OF assms(2) dpu_inv_new[OF assms(1)]])
  with dpu_inv_length[OF inv] show ?thesis by (auto simp: ActiveCount_def pool_inv_def)
qed

definition demo_dpu_frame :: bytes where
  "demo_dpu_frame = [1, 2, 3, 4, 5, 6, 11, 12, 13, 14, 15, 16, 0x88, 0xB5] @
     encode_HcopHeader \<lparr> primitive_type = 2, exception_type = 0, operation_id = 7, source_tier = 2,
       num_tier_crossings = 1, tier_path = 2, payload_len = 20 \<rparr> @
     enc_AcquireMsg \<lparr> acq_hdr = lk_make_hdr kAcquire 1 5, acq_lease_duration_ns = 9 \<rparr>"

definition demo_dpu :: DpuDevice where
  "demo_dpu = the (DpuDevice_new DpuConfig_init)"

lemma demo_dpu_new: "DpuDevice_new DpuConfig_init = Some demo_dpu"
proof -
  have "DpuDevice_new DpuConfig_init \<noteq> None" by code_simp
  then show ?thesis by (auto simp: demo_dpu_def)
qed

definition demo_dpu1 :: "DpuDevice \<times> ProcessingEvent list" where
  "demo_dpu1 = (case EthRx 0 demo_dpu_frame 100 demo_dpu of Some (es, d) \<Rightarrow> (d, scheduled es) | None \<Rightarrow> (demo_dpu, []))"

lemma demo_dpu1_reached: "dpu_step\<^sup>*\<^sup>* (demo_dpu, []) demo_dpu1"
proof -
  obtain es d where "EthRx 0 demo_dpu_frame 100 demo_dpu = Some (es, d)"
    using EthRx_total[of 0 demo_dpu_frame 100 demo_dpu] by auto
  from dpu_step.rx[OF this, of "[]"] this show ?thesis by (auto simp: demo_dpu1_def)
qed

theorem dpu_cores_conserved_witness:
  "set (cores (snd demo_dpu1)) = busy (core_pool (fst demo_dpu1)) \<and> cores (snd demo_dpu1) = [0]"
proof
  show "set (cores (snd demo_dpu1)) = busy (core_pool (fst demo_dpu1))"
    using dpu_cores_conserved[OF demo_dpu_new, of "fst demo_dpu1" "snd demo_dpu1"] demo_dpu1_reached by simp
  show "cores (snd demo_dpu1) = [0]" by code_simp
qed

text \<open>
  C29. Every scheduled packet is processed. In every reachable state each pending event whose
  payload is well-formed for its handler can complete: the handler runs without leaving its
  buffers, the packet is counted as processed and not as dropped, and its core is free again.
\<close>

theorem dpu_event_completes:
  assumes "DpuDevice_new c = Some d0" "dpu_step\<^sup>*\<^sup>* (d0, []) (d, P)" "i < length P"
    and "\<And>h. map_of (handlers d) (ev_primitive_type (P ! i)) = Some h \<Longrightarrow>
           payload_ok h (drop kMinHcopFrameLen (ev_payload (P ! i)))"
  shows "\<exists>es d'. Timed (P ! i) d = Some (es, d') \<and> pkts_processed d' = pkts_processed d + 1 \<and>
    pkts_dropped d' = pkts_dropped d \<and> unat (ev_core_id (P ! i)) \<notin> busy (core_pool d')"
proof -
  let ?e = "P ! i"
  have inv: "dpu_inv (d, P)" by (rule dpu_reachable_inv[OF assms(2) dpu_inv_new[OF assms(1)]])
  have ev: "event_ok d ?e" and pi: "pool_inv (core_pool d)" using inv assms(3) by simp_all
  then obtain h where h: "map_of (handlers d) (ev_primitive_type ?e) = Some h" by (auto simp: event_ok_def)
  obtain acts h' where hp: "HandlePacket h (drop kMinHcopFrameLen (ev_payload ?e)) (ev_ctx ?e) = Some (acts, h')"
    using HandlePacket_handled[of h _ "ev_ctx ?e", OF _ assms(4)[OF h]] ev inv h
    by (auto simp: registry_ok_def event_ok_def)
  have "unat (ev_core_id ?e) \<in> set (cores P)" using assms(3) by (auto simp: cores_def)
  then obtain pool where pool: "Release_core (ev_core_id ?e) (core_pool d) = Some pool"
    using Release_core_defined[OF pi, of "ev_core_id ?e"] inv by auto
  let ?d0 = "d\<lparr> handlers := AList.update (ev_primitive_type ?e) h' (handlers d) \<rparr>"
  obtain es1 d1 where r: "run_actions acts ?d0 = (es1, d1)" by fastforce
  with run_actions_frame[OF r] h hp pool have "Timed ?e d \<noteq> None" by (auto simp: Timed_def Let_def)
  then obtain es d' where t: "Timed ?e d = Some (es, d')" by auto
  have "unat (ev_core_id ?e) \<notin> busy pool" using Release_core_cases[OF pi pool] by blast
  with t pool show ?thesis by (rule_tac Timed_cases[OF t h]) auto
qed

theorem dpu_event_completes_witness:
  "\<exists>es d'. Timed (snd demo_dpu1 ! 0) (fst demo_dpu1) = Some (es, d') \<and>
     pkts_processed d' = pkts_processed (fst demo_dpu1) + 1"
proof -
  have len: "0 < length (snd demo_dpu1)" by code_simp
  have hs: "(case map_of (handlers (fst demo_dpu1)) (ev_primitive_type (snd demo_dpu1 ! 0)) of
      Some h \<Rightarrow> payload_ok h (drop kMinHcopFrameLen (ev_payload (snd demo_dpu1 ! 0))) | None \<Rightarrow> True)" by code_simp
  show ?thesis
    using dpu_event_completes[OF demo_dpu_new, of "fst demo_dpu1" "snd demo_dpu1" 0] demo_dpu1_reached len hs
    by (auto split: option.splits)
qed

lemma append_path_fields [simp]:
  "primitive_type (HCOP_APPEND_PATH t h) = primitive_type h"
  "exception_type (HCOP_APPEND_PATH t h) = exception_type h"
  "operation_id (HCOP_APPEND_PATH t h) = operation_id h"
  "source_tier (HCOP_APPEND_PATH t h) = source_tier h"
  "payload_len (HCOP_APPEND_PATH t h) = payload_len h"
  "num_tier_crossings (HCOP_APPEND_PATH t h) = num_tier_crossings h + 1"
  by (simp_all add: HCOP_APPEND_PATH_def)

lemma build_frame_header:
  assumes "build_frame prim exc msg ctx = Some f" "decode_HcopHeader (full_frame ctx) 14 = Some h0"
  shows "decode_HcopHeader f 14 = Some (HCOP_APPEND_PATH kTierDpu
    \<lparr> primitive_type = prim, exception_type = exc, operation_id = ctx_operation_id ctx,
      source_tier = kTierDpu, num_tier_crossings = num_tier_crossings h0,
      tier_path = tier_path h0, payload_len = of_nat (length (out_data msg)) \<rparr>)"
proof -
  obtain src where s: "rd (full_frame ctx) 0 6 = Some src" using assms(1) by (auto simp: build_frame_def bind_eq_Some_conv)
  have len: "length (replicate 6 0xFF @ src @ [ucast (drop_bit 8 kHcopEtherType), ucast kHcopEtherType]) = 14"
    using s by (auto simp: rd_def split: if_splits)
  from assms s show ?thesis using decode_encode_HcopHeader[OF len]
    by (auto simp: build_frame_def Let_def simp del: kHcopEtherType_def)
qed

lemma ethertype_bytes: "ucast (drop_bit 8 kHcopEtherType) = (0x88 :: u8)" "ucast kHcopEtherType = (0xB5 :: u8)"
  by code_simp+


definition demo_ctx :: PacketContext where
  "demo_ctx = \<lparr> ctx_port = 0, ctx_operation_id = 7, ctx_source_tier = 2, full_frame = demo_dpu_frame,
     full_frame_len = 50 \<rparr>"


text \<open>
  C31. Overload. When every core is busy, a well-formed frame for a registered primitive is sent on
  to the host with its payload untouched, the exception type for exhausted cores, and the DPU
  appended to its path; it is counted as escalated and no core or event is used.
\<close>

theorem EthRx_escalates_when_full:
  assumes "pool_inv (core_pool d)" "busy (core_pool d) = {..<unat (Capacity (core_pool d))}"
    and "30 \<le> length frame" "frame ! 12 = 0x88" "frame ! 13 = 0xB5" "decode_HcopHeader frame 14 = Some hdr"
    and "map_of (handlers d) (primitive_type hdr) \<noteq> None"
  shows "\<exists>f. EthRx port frame now d = Some ([EthSend f], d\<lparr> pkts_escalated := pkts_escalated d + 1 \<rparr>) \<and>
    decode_HcopHeader f 14 = Some (HCOP_APPEND_PATH kTierDpu (hdr\<lparr> exception_type := kDpuCoreExhausted \<rparr>)) \<and>
    drop kMinHcopFrameLen f = drop kMinHcopFrameLen frame \<and> take 14 f = take 14 frame"
proof -
  have et: "push_bit 8 (ucast (0x88 :: u8)) OR ucast (0xB5 :: u8) = kHcopEtherType" by code_simp
  have "cp_active (core_pool d) \<ge> cp_capacity (core_pool d)"
    using assms(1,2) by (simp add: pool_inv_def word_le_nat_alt Capacity_def)
  then have tr: "TryAcquire (core_pool d) = (None, core_pool d)" by (simp add: TryAcquire_def)
  let ?f = "wr 14 (encode_HcopHeader (HCOP_APPEND_PATH kTierDpu (hdr\<lparr> exception_type := kDpuCoreExhausted \<rparr>))) frame"
  have w: "with_HcopHeader (\<lambda>h. HCOP_APPEND_PATH kTierDpu (h\<lparr> exception_type := kDpuCoreExhausted \<rparr>)) frame = Some ?f"
    using assms(6) by (simp add: with_HcopHeader_def)
  have "EthRx port frame now d = Some ([EthSend ?f], d\<lparr> pkts_escalated := pkts_escalated d + 1 \<rparr>)"
    using assms(3-7) et tr w by (auto simp: EthRx_def EscalateToHost_def Let_def simp del: kHcopEtherType_def kDpuCoreExhausted_def)
  moreover have "decode_HcopHeader ?f 14 = Some (HCOP_APPEND_PATH kTierDpu (hdr\<lparr> exception_type := kDpuCoreExhausted \<rparr>))"
    using assms(3) by (simp add: codec_simps)
  moreover have "drop kMinHcopFrameLen ?f = drop kMinHcopFrameLen frame" "take 14 ?f = take 14 frame"
    using assms(3) by (simp_all add: wr_def)
  ultimately show ?thesis by blast
qed

theorem EthRx_escalates_when_full_witness:
  "\<exists>f. EthRx 0 demo_dpu_frame 100 (demo_dpu\<lparr> core_pool := \<lparr> cp_capacity = 1, cp_active = 1, cp_in_use = 1 \<rparr> \<rparr>) =
     Some ([EthSend f], demo_dpu\<lparr> core_pool := \<lparr> cp_capacity = 1, cp_active = 1, cp_in_use = 1 \<rparr>,
                                  pkts_escalated := pkts_escalated demo_dpu + 1 \<rparr>)"
proof -
  let ?p = "\<lparr> cp_capacity = 1, cp_active = 1, cp_in_use = 1 \<rparr>"
  let ?d = "demo_dpu\<lparr> core_pool := ?p \<rparr>"
  have b: "busy ?p = {0}" by (auto simp: busy_def bits_of_def bit_1_iff)
  have 1: "pool_inv (core_pool ?d)" using b by (simp add: pool_inv_def)
  have 2: "busy (core_pool ?d) = {..<unat (Capacity (core_pool ?d))}" using b by (auto simp: Capacity_def)
  have 3: "30 \<le> length demo_dpu_frame" "demo_dpu_frame ! 12 = 0x88" "demo_dpu_frame ! 13 = 0xB5" by code_simp+
  have "decode_HcopHeader demo_dpu_frame 14 \<noteq> None" by code_simp
  then obtain hdr where 4: "decode_HcopHeader demo_dpu_frame 14 = Some hdr" by auto
  have "map_of (handlers demo_dpu) (primitive_type (the (decode_HcopHeader demo_dpu_frame 14))) \<noteq> None" by code_simp
  with 4 have 5: "map_of (handlers ?d) (primitive_type hdr) \<noteq> None" by simp
  from EthRx_escalates_when_full[OF 1 2 3 4 5, of 0 100] show ?thesis by auto
qed

section \<open>Departures\<close>

text \<open>
  The device appends itself to the path of a request when it receives it, and the handler appends
  it again to the response: one passage through the DPU counts as two crossings.
\<close>

theorem response_counts_dpu_twice:
  assumes "decode_HcopHeader frame 14 = Some h" "with_HcopHeader (HCOP_APPEND_PATH kTierDpu) frame = Some f"
    and "full_frame ctx = f" "build_frame prim exc msg ctx = Some r" "decode_HcopHeader r 14 = Some h'"
  shows "num_tier_crossings h' = num_tier_crossings h + 2"
proof -
  have len: "30 \<le> length frame" using decode_HcopHeader_Some_iff[of frame 14] assms(1) by auto
  have f: "decode_HcopHeader f 14 = Some (HCOP_APPEND_PATH kTierDpu h)"
    using assms(1,2) len by (auto simp: with_HcopHeader_def codec_simps)
  with build_frame_header[OF assms(4)] assms(3,5) show ?thesis by simp
qed

end
