(* ===== verification/Two_Tier.thy ===== *)
theory Two_Tier
  imports Engine_Safety Dpu_Safety
begin

text \<open>
  The switch and the DPU behind its fallback port, composed: a packet that the switch escalates is
  received by the DPU, whose response returns through the switch.
\<close>

text \<open>An equation for evaluation that compares the capacity as a binary number.\<close>

lemma GetOrCreateKey_eval [code]:
  "GetOrCreateKey k s =
     (case map_of (keys s) k of
        Some ks \<Rightarrow> (s, Some ks)
      | None \<Rightarrow>
          if uint (max_keys s) \<le> int (length (keys s))
          then (exception_call_lock kLockStateOverflow k s, None)
          else (s\<lparr> keys := AList.update k KeyState_init (keys s) \<rparr>, Some KeyState_init))"
proof -
  have "unat (max_keys s) \<le> length (keys s) \<longleftrightarrow> uint (max_keys s) \<le> int (length (keys s))"
    by (metis of_nat_le_iff uint_nat)
  then show ?thesis by (simp add: GetOrCreateKey_def split: option.split)
qed

definition sent_frames :: "dpu_effect list \<Rightarrow> bytes list" where
  "sent_frames es = concat (map (\<lambda>x. case x of EthSend f \<Rightarrow> [f] | _ \<Rightarrow> []) es)"

text \<open>The DPU receives one frame and runs the events this schedules, in order.\<close>

definition dpu_run :: "bytes \<Rightarrow> u64 \<Rightarrow> DpuDevice \<Rightarrow> (bytes list \<times> DpuDevice) option" where
  "dpu_run f now d = do {
     (es, d1) \<leftarrow> EthRx 0 f now d;
     fold (\<lambda>ev acc. do { (fs, d2) \<leftarrow> acc; (es2, d3) \<leftarrow> Timed ev d2; Some (fs @ sent_frames es2, d3) })
       (scheduled es) (Some (sent_frames es, d1)) }"

text \<open>
  The decision of the switch, the packet it sends, and the answer of the tier below when the
  packet is escalated.
\<close>

definition two_tier :: "bytes \<Rightarrow> int \<Rightarrow> u64 \<Rightarrow> PrimitiveEngine \<times> DpuDevice \<Rightarrow>
    (bytes list \<times> PrimitiveEngine \<times> DpuDevice) option" where
  "two_tier pkt ingress now sd = (case sd of (e, d) \<Rightarrow> do {
     (dec, p, e1) \<leftarrow> HandlePacket_engine pkt ingress now e;
     if action dec = kToFallback then do { (fs, d1) \<leftarrow> dpu_run p now d; Some (fs, e1, d1) }
     else Some ([p], e1, d) })"

definition grants :: "bytes list \<Rightarrow> (u8 \<times> u64) list" where
  "grants fs = concat (map (\<lambda>f. case dec_lk_hdr (drop 30 f) of
     Some h \<Rightarrow> (if lk_msg_type h = kGrant then [(lk_requester_id h, lk_lock_key h)] else []) | None \<Rightarrow> []) fs)"

definition demo_granted :: PrimitiveEngine where
  "demo_granted = demo_engine\<lparr> locks := (locks demo_engine)\<lparr> keys :=
     [(5, \<lparr> holder_id = 1, lease_expiry_ns = 1100, waiters = [] \<rparr>)] \<rparr> \<rparr>"

definition demo_escalated :: bytes where
  "demo_escalated = replicate 12 0 @ [0x88, 0xB5] @
     encode_HcopHeader \<lparr> primitive_type = kPrimitiveLock, exception_type = kLockContention, operation_id = 7,
       source_tier = 2, num_tier_crossings = 1, tier_path = 0, payload_len = 20 \<rparr> @ drop 30 (demo_acquire 2)"

lemma demo_first:
  "map_option (\<lambda>(d, p, e). (action d, grants [p], e)) (HandlePacket_engine (demo_acquire 1) 1 100 demo_engine) =
     Some (kUnicast, [(1, 5)], demo_granted)"
  by code_simp

lemma demo_second:
  "HandlePacket_engine (demo_acquire 2) 2 101 demo_granted = Some (decide kToFallback, demo_escalated, demo_granted)"
  by code_simp

lemma holder_demo: "map_option holder_id (map_of (keys (locks demo_granted)) 5) = Some 1"
  by code_simp

lemma demo_fallback: "map_option (grants \<circ> fst) (dpu_run demo_escalated 101 demo_dpu) = Some [(2, 5)]"
  by code_simp

text \<open>
  Two requesters of one key: the switch grants the first and escalates the second as contended,
  and the DPU, whose own table does not know the holder, grants the second while the first still
  holds the key at the switch.
\<close>

theorem escalated_acquire_granted_twice:
  "\<exists>fs1 fs2 d. two_tier (demo_acquire 1) 1 100 (demo_engine, demo_dpu) = Some (fs1, demo_granted, demo_dpu) \<and>
     two_tier (demo_acquire 2) 2 101 (demo_granted, demo_dpu) = Some (fs2, demo_granted, d) \<and>
     grants fs1 = [(1, 5)] \<and> grants fs2 = [(2, 5)] \<and>
     map_option holder_id (map_of (keys (locks demo_granted)) 5) = Some 1"
  using demo_first demo_second demo_fallback
  by (auto simp: two_tier_def holder_demo)

end
