(* ===== verification/Hcop_Switch.thy ===== *)
theory Hcop_Switch
  imports Primitive_Engine
begin

text \<open>
  The main loop of the HCOP switch (\<^verbatim>\<open>sims/net/hcop_switch/hcop_switch.h\<close>, \<^verbatim>\<open>device.cc\<close>): packets
  received on the ports wait in an event queue for the latency of the pipeline, are then processed
  by the primitive engine and sent to the ports of its decision. What draining a port returns is an
  argument of the poll. The engine and the event queue do not depend on what a transmission does,
  so the calls of \<open>TxPacket\<close> are the output of a pass, in their order; \<open>Switch_Ports\<close> performs them
  on the queues of the ports, where they succeed, drop the packet, or wait. The library's priority
  queue returns an element of least timestamp, which one of several is its choice: the choice is
  an argument.
\<close>

section \<open>State\<close>

record PacketEvent =
  ev_timestamp :: u64
  ingress_port :: nat
  ev_data :: bytes

record HcopSwitch =
  sw_config :: SwitchConfig
  n_ports :: nat
  event_queue :: "PacketEvent list"
  primitive_engine :: PrimitiveEngine
  cur_ts :: u64
  sw_exiting :: bool
  sw_pkts_processed :: u64
  sw_pkts_dropped :: u64
  sw_pkts_queued :: u64

text \<open>A call of \<open>TxPacket\<close>: the port, the contents and the time.\<close>

record tx_packet =
  tx_port :: nat
  tx_data :: bytes
  tx_time :: u64

definition HcopSwitch_new :: "SwitchConfig \<Rightarrow> u64 option \<Rightarrow> u64 option \<Rightarrow> u64 option \<Rightarrow> HcopSwitch option" where
  "HcopSwitch_new cfg pq lq bq = do {
     e \<leftarrow> Init cfg pq lq bq;
     Some \<lparr> sw_config = cfg, n_ports = 0, event_queue = [], primitive_engine = e, cur_ts = 0, sw_exiting = False,
            sw_pkts_processed = 0, sw_pkts_dropped = 0, sw_pkts_queued = 0 \<rparr> }"

definition AddPort :: "HcopSwitch \<Rightarrow> HcopSwitch" where
  "AddPort s = s\<lparr> n_ports := n_ports s + 1 \<rparr>"

definition Stop :: "HcopSwitch \<Rightarrow> HcopSwitch" where
  "Stop s = s\<lparr> sw_exiting := True \<rparr>"

section \<open>Events\<close>

definition pipeline_latency_ps :: "SwitchConfig \<Rightarrow> u64" where
  "pipeline_latency_ps c = ucast (pipeline_stages c) * stage_latency_ns c * 1000"

definition SchedulePacket :: "nat \<Rightarrow> bytes \<Rightarrow> HcopSwitch \<Rightarrow> HcopSwitch" where
  "SchedulePacket port data s = s\<lparr> event_queue := event_queue s @
     [\<lparr> ev_timestamp = cur_ts s + pipeline_latency_ps (sw_config s), ingress_port = port, ev_data = data \<rparr>] \<rparr>"

definition ForwardPacket :: "bytes \<Rightarrow> int \<Rightarrow> HcopSwitch \<Rightarrow> tx_packet list" where
  "ForwardPacket data dst s =
     (if dst \<ge> 0 \<and> nat dst < n_ports s then [\<lparr> tx_port = nat dst, tx_data = data, tx_time = cur_ts s \<rparr>] else [])"

definition remove_at :: "nat \<Rightarrow> 'a list \<Rightarrow> 'a list" where
  "remove_at i xs = take i xs @ drop (Suc i) xs"

lemma length_remove_at [simp]: "i < length xs \<Longrightarrow> length (remove_at i xs) = length xs - 1"
  by (simp add: remove_at_def)

definition dispatch :: "RoutingDecision \<Rightarrow> nat \<Rightarrow> bytes \<Rightarrow> HcopSwitch \<Rightarrow> tx_packet list" where
  "dispatch d ingress data s =
     (case action d of
        kDrop \<Rightarrow> []
      | kToFallback \<Rightarrow> if fallback_port_index (sw_config s) \<ge> 0
                       then ForwardPacket data (fallback_port_index (sw_config s)) s else []
      | kUnicast \<Rightarrow> (case dst_ports d of [] \<Rightarrow> [] | dst # _ \<Rightarrow> if dst \<ge> 0 then ForwardPacket data dst s else [])
      | kMulticast \<Rightarrow>
          if dst_ports d = []
          then concat (map (\<lambda>i. if i \<noteq> ingress then ForwardPacket data (int i) s else []) [0..<n_ports s])
          else concat (map (\<lambda>dst. if dst \<ge> 0 then ForwardPacket data dst s else []) (dst_ports d))
      | kBroadcastAll \<Rightarrow> concat (map (\<lambda>i. ForwardPacket data (int i) s) [0..<n_ports s]))"

text \<open>
  One iteration of the event loop; \<open>None\<close> inside the engine is undefined behaviour. The argument
  \<open>pick\<close> is the priority queue's choice, as an index.
\<close>

definition process_event :: "nat \<Rightarrow> HcopSwitch \<Rightarrow> (tx_packet list \<times> HcopSwitch) option" where
  "process_event i s =
     (let ev = event_queue s ! i;
          s1 = s\<lparr> event_queue := remove_at i (event_queue s),
                  sw_pkts_processed := sw_pkts_processed s + 1,
                  sw_pkts_queued := (if sw_pkts_queued s > 0 then sw_pkts_queued s - 1 else sw_pkts_queued s) \<rparr> in do {
        (d, data, e) \<leftarrow> HandlePacket_engine (ev_data ev) (int (ingress_port ev)) (cur_ts s1 div 1000) (primitive_engine s1);
        let s2 = s1\<lparr> primitive_engine := e,
                     sw_pkts_dropped := (if action d = kDrop then sw_pkts_dropped s1 + 1 else sw_pkts_dropped s1) \<rparr>;
        Some (dispatch d (ingress_port ev) data s2, s2) })"

lemma process_event_queue:
  "process_event i s = Some (tx, s') \<Longrightarrow> event_queue s' = remove_at i (event_queue s)"
  by (auto simp: process_event_def Let_def bind_eq_Some_conv)

function ProcessEvents :: "(PacketEvent list \<Rightarrow> nat) \<Rightarrow> HcopSwitch \<Rightarrow> (tx_packet list \<times> HcopSwitch) option" where
  "ProcessEvents pick s =
     (if event_queue s = [] then Some ([], s)
      else let i = pick (event_queue s) in
        if i \<ge> length (event_queue s) then None
        else if ev_timestamp (event_queue s ! i) > cur_ts s then Some ([], s)
        else (case process_event i s of None \<Rightarrow> None
              | Some (tx, s1) \<Rightarrow> map_option (\<lambda>(tx2, s2). (tx @ tx2, s2)) (ProcessEvents pick s1)))"
  by pat_completeness auto

termination
proof (relation "measure (\<lambda>(pick, s). length (event_queue s))")
  fix pick :: "PacketEvent list \<Rightarrow> nat" and s i x p tx s1
  assume "event_queue s \<noteq> []" "i = pick (event_queue s)" "\<not> length (event_queue s) \<le> i"
    "process_event i s = Some x" "(tx, s1) = x"
  then have "length (event_queue s1) = length (event_queue s) - 1" "length (event_queue s) > 0"
    by (auto dest: process_event_queue)
  then show "((pick, s1), (pick, s)) \<in> measure (\<lambda>(pick, s). length (event_queue s))" by simp
qed simp

declare ProcessEvents.simps [simp del]

section \<open>Polling and time\<close>

text \<open>The packets that draining each port returns, in the order of the ports.\<close>

definition PollPorts :: "bytes list list \<Rightarrow> HcopSwitch \<Rightarrow> HcopSwitch" where
  "PollPorts rx s = fold (\<lambda>i. fold (\<lambda>data s. SchedulePacket i data (s\<lparr> sw_pkts_queued := sw_pkts_queued s + 1 \<rparr>))
     (rx ! i)) [0..<min (n_ports s) (length rx)] s"

definition ULLONG_MAX :: u64 where [simp]: "ULLONG_MAX = 0xFFFFFFFFFFFFFFFF"

text \<open>
  The next time: the least timestamp shown by a synchronized port (each given with the timestamp
  after a possible further synchronization) or of a queued event.
\<close>

definition next_min_ts :: "(PacketEvent list \<Rightarrow> nat) \<Rightarrow> u64 list \<Rightarrow> HcopSwitch \<Rightarrow> u64" where
  "next_min_ts pick port_ts s =
     (let m = fold (\<lambda>ts m. if ts < m then ts else m) port_ts ULLONG_MAX in
      if event_queue s \<noteq> [] then (let e = ev_timestamp (event_queue s ! pick (event_queue s)) in if e < m then e else m)
      else m)"

text \<open>
  The loop of the switch: passes over ports and events until the least next time lies ahead or the
  switch was stopped, then the clock moves to that time, which is an earlier one when the switch
  was stopped with a time behind the clock. One element of the argument per pass: the packets
  received, the timestamps of the synchronized ports after it, and whether the switch has been
  stopped by its end.
\<close>

fun Run :: "(PacketEvent list \<Rightarrow> nat) \<Rightarrow> (bytes list list \<times> u64 list \<times> bool) list \<Rightarrow> HcopSwitch \<Rightarrow>
    (tx_packet list \<times> HcopSwitch) option" where
  "Run pick [] s = Some ([], s)"
| "Run pick ((rx, port_ts, stop) # inputs) s =
     (if sw_exiting s then Some ([], s)
      else do {
        (tx, s1) \<leftarrow> ProcessEvents pick (PollPorts rx s);
        let s2 = (if stop then Stop s1 else s1);
        let m = next_min_ts pick port_ts s2;
        let s3 = (if \<not> sw_exiting s2 \<and> m \<le> cur_ts s2 \<and> m < ULLONG_MAX then s2
                  else if m < ULLONG_MAX then s2\<lparr> cur_ts := m \<rparr> else s2);
        (tx2, s4) \<leftarrow> Run pick inputs s3;
        Some (tx @ tx2, s4) })"

end
