(* ===== verification/Switch_Safety.thy ===== *)
theory Switch_Safety
  imports Hcop_Switch Engine_Safety "HOL-Library.Multiset"
begin

text \<open>
  Correctness of the switch loop: each pass processes exactly the packets that are due, at the
  time they are due, and hands them to the ports of the engine's decision; the clock moves to the
  least next time, not backwards, and does not pass a queued packet; the counters add up.
\<close>

section \<open>Choice of the priority queue\<close>

definition pick_ok :: "(PacketEvent list \<Rightarrow> nat) \<Rightarrow> bool" where
  "pick_ok pick \<longleftrightarrow> (\<forall>q. q \<noteq> [] \<longrightarrow> pick q < length q \<and> (\<forall>e\<in>set q. ev_timestamp (q ! pick q) \<le> ev_timestamp e))"

lemma mset_remove_at: "i < length xs \<Longrightarrow> mset xs = add_mset (xs ! i) (mset (remove_at i xs))"
  by (metis add_mset_add_single id_take_nth_drop mset.simps(2) mset_append remove_at_def union_mset_add_mset_right)

lemma set_remove_at: "i < length xs \<Longrightarrow> insert (xs ! i) (set (remove_at i xs)) = set xs"
  using mset_remove_at[of i xs] by (metis set_mset_add_mset_insert set_mset_mset)

lemma filter_mset_all: "\<forall>e\<in>set q. P e \<Longrightarrow> filter_mset P (mset q) = mset q"
  by (metis filter_True mset_filter)

section \<open>Processing the due events\<close>

definition packet_safe :: "bytes \<Rightarrow> bool" where
  "packet_safe p \<longleftrightarrow> length p \<noteq> 30 \<and> payload_in_bounds (drop 30 p)"

definition due_events :: "u64 \<Rightarrow> PacketEvent list \<Rightarrow> PacketEvent list" where
  "due_events t q = filter (\<lambda>e. ev_timestamp e \<le> t) q"

definition switch_ok :: "HcopSwitch \<Rightarrow> bool" where
  "switch_ok s \<longleftrightarrow> engine_inv (primitive_engine s) \<and> (\<forall>e\<in>set (event_queue s). packet_safe (ev_data e))"

lemma dispatch_time: "t \<in> set (dispatch d i data s) \<Longrightarrow> tx_time t = cur_ts s \<and> tx_port t < n_ports s \<and> tx_data t = data"
  by (auto simp: dispatch_def ForwardPacket_def split: Action.splits list.splits if_splits)

lemma process_event_spec:
  assumes "switch_ok s" "i < length (event_queue s)"
  shows "\<exists>tx s'. process_event i s = Some (tx, s') \<and> switch_ok s' \<and> event_queue s' = remove_at i (event_queue s) \<and>
    cur_ts s' = cur_ts s \<and> n_ports s' = n_ports s \<and> sw_config s' = sw_config s \<and> sw_exiting s' = sw_exiting s \<and>
    sw_pkts_processed s' = sw_pkts_processed s + 1 \<and>
    sw_pkts_queued s' = (if sw_pkts_queued s > 0 then sw_pkts_queued s - 1 else sw_pkts_queued s) \<and>
    (\<forall>t\<in>set tx. tx_time t = cur_ts s \<and> tx_port t < n_ports s)"
proof -
  let ?ev = "event_queue s ! i"
  have safe: "packet_safe (ev_data ?ev)" "engine_inv (primitive_engine s)" using assms by (auto simp: switch_ok_def)
  obtain d p e' where r: "HandlePacket_engine (ev_data ?ev) (int (ingress_port ?ev)) (cur_ts s div 1000) (primitive_engine s) =
      Some (d, p, e')" "engine_inv e'"
    using engine_total[OF safe(2), of "ev_data ?ev" "int (ingress_port ?ev)" "cur_ts s div 1000"] safe(1)
    by (auto simp: packet_safe_def)
  have sub: "set (remove_at i (event_queue s)) \<subseteq> set (event_queue s)" using set_remove_at[OF assms(2)] by blast
  show ?thesis using r sub assms(1)
    by (auto simp: process_event_def Let_def switch_ok_def dest!: dispatch_time)
qed

lemma ProcessEvents_spec:
  assumes "pick_ok pick" "switch_ok s"
  shows "\<exists>tx s'. ProcessEvents pick s = Some (tx, s') \<and> switch_ok s' \<and> cur_ts s' = cur_ts s \<and> n_ports s' = n_ports s \<and>
    sw_config s' = sw_config s \<and> sw_exiting s' = sw_exiting s \<and>
    mset (event_queue s') = filter_mset (\<lambda>e. cur_ts s < ev_timestamp e) (mset (event_queue s)) \<and>
    sw_pkts_processed s' = sw_pkts_processed s + of_nat (length (due_events (cur_ts s) (event_queue s))) \<and>
    (unat (sw_pkts_queued s) = length (event_queue s) \<longrightarrow> unat (sw_pkts_queued s') = length (event_queue s')) \<and>
    (\<forall>t\<in>set tx. tx_time t = cur_ts s \<and> tx_port t < n_ports s)"
  using assms(2)
proof (induction "length (event_queue s)" arbitrary: s rule: less_induct)
  case less
  let ?q = "event_queue s"
  show ?case
  proof (cases "?q = []")
    case True
    with less.prems show ?thesis by (simp add: ProcessEvents.simps due_events_def)
  next
    case False
    let ?i = "pick ?q"
    have i: "?i < length ?q" "\<forall>e\<in>set ?q. ev_timestamp (?q ! ?i) \<le> ev_timestamp e"
      using assms(1) False by (auto simp: pick_ok_def)
    show ?thesis
    proof (cases "ev_timestamp (?q ! ?i) > cur_ts s")
      case True
      then have all: "\<forall>e\<in>set ?q. cur_ts s < ev_timestamp e" using i(2) by (meson less_le_trans)
      then have "due_events (cur_ts s) ?q = []" by (auto simp: due_events_def not_le)
      with True less.prems i(1) all False show ?thesis
        by (auto simp: ProcessEvents.simps[of pick s] Let_def filter_mset_all)
    next
      case due: False
      obtain tx s1 where s1: "process_event ?i s = Some (tx, s1)" "switch_ok s1" "event_queue s1 = remove_at ?i ?q"
        "cur_ts s1 = cur_ts s" "n_ports s1 = n_ports s" "sw_config s1 = sw_config s" "sw_exiting s1 = sw_exiting s"
        "sw_pkts_processed s1 = sw_pkts_processed s + 1"
        "sw_pkts_queued s1 = (if sw_pkts_queued s > 0 then sw_pkts_queued s - 1 else sw_pkts_queued s)"
        "\<forall>t\<in>set tx. tx_time t = cur_ts s \<and> tx_port t < n_ports s"
        using process_event_spec[OF less.prems i(1)] by blast
      have lt: "length (event_queue s1) < length ?q" using s1(3) i(1) by simp
      obtain tx2 s2 where s2: "ProcessEvents pick s1 = Some (tx2, s2)" "switch_ok s2" "cur_ts s2 = cur_ts s1"
        "n_ports s2 = n_ports s1" "sw_config s2 = sw_config s1" "sw_exiting s2 = sw_exiting s1"
        "mset (event_queue s2) = filter_mset (\<lambda>e. cur_ts s1 < ev_timestamp e) (mset (event_queue s1))"
        "sw_pkts_processed s2 = sw_pkts_processed s1 + of_nat (length (due_events (cur_ts s1) (event_queue s1)))"
        "unat (sw_pkts_queued s1) = length (event_queue s1) \<longrightarrow> unat (sw_pkts_queued s2) = length (event_queue s2)"
        "\<forall>t\<in>set tx2. tx_time t = cur_ts s1 \<and> tx_port t < n_ports s1"
        using less.hyps[OF lt s1(2)] by blast
      have run: "ProcessEvents pick s = Some (tx @ tx2, s2)"
        using False i(1) due s1(1) s2(1) by (simp add: ProcessEvents.simps[of pick s] Let_def)
      have m: "mset ?q = add_mset (?q ! ?i) (mset (event_queue s1))" using mset_remove_at[OF i(1)] s1(3) by simp
      have rest: "mset (event_queue s2) = filter_mset (\<lambda>e. cur_ts s < ev_timestamp e) (mset ?q)"
        using s2(7) s1(4) due unfolding m by (simp add: not_less)
      have "mset (due_events (cur_ts s) ?q) = add_mset (?q ! ?i) (mset (due_events (cur_ts s) (event_queue s1)))"
        using due by (simp add: due_events_def m not_less)
      then have cnt: "length (due_events (cur_ts s) ?q) = Suc (length (due_events (cur_ts s) (event_queue s1)))"
        by (metis size_add_mset size_mset)
      have qd: "unat (sw_pkts_queued s1) = length (event_queue s1)" if "unat (sw_pkts_queued s) = length ?q"
        using that False i(1) s1(3,9) by (auto simp: unat_sub word_le_nat_alt word_less_nat_alt unat_eq_0[symmetric])
      show ?thesis using run s1 s2 rest cnt qd by auto
    qed
  qed
qed

section \<open>Polling\<close>

definition rx_safe :: "bytes list list \<Rightarrow> bool" where
  "rx_safe rx \<longleftrightarrow> (\<forall>ps\<in>set rx. \<forall>p\<in>set ps. packet_safe p)"

text \<open>What polling appends to the queue: one event per packet, due after the pipeline.\<close>

definition polled :: "bytes list list \<Rightarrow> HcopSwitch \<Rightarrow> PacketEvent list" where
  "polled rx s = concat (map (\<lambda>i. map (\<lambda>d. \<lparr> ev_timestamp = cur_ts s + pipeline_latency_ps (sw_config s),
     ingress_port = i, ev_data = d \<rparr>) (rx ! i)) [0..<min (n_ports s) (length rx)])"

lemma fold_Schedule:
  "fold (\<lambda>data s. SchedulePacket i data (s\<lparr> sw_pkts_queued := sw_pkts_queued s + 1 \<rparr>)) ds s =
     s\<lparr> event_queue := event_queue s @ map (\<lambda>d. \<lparr> ev_timestamp = cur_ts s + pipeline_latency_ps (sw_config s),
          ingress_port = i, ev_data = d \<rparr>) ds,
        sw_pkts_queued := sw_pkts_queued s + of_nat (length ds) \<rparr>"
  by (induction ds arbitrary: s) (simp_all add: SchedulePacket_def algebra_simps)

lemma fold_ports:
  "fold (\<lambda>i. fold (\<lambda>data s. SchedulePacket i data (s\<lparr> sw_pkts_queued := sw_pkts_queued s + 1 \<rparr>)) (rx ! i)) is s =
     s\<lparr> event_queue := event_queue s @ concat (map (\<lambda>i. map (\<lambda>d. \<lparr> ev_timestamp = cur_ts s + pipeline_latency_ps (sw_config s),
          ingress_port = i, ev_data = d \<rparr>) (rx ! i)) is),
        sw_pkts_queued := sw_pkts_queued s + of_nat (sum_list (map (\<lambda>i. length (rx ! i)) is)) \<rparr>"
  by (induction "is" arbitrary: s) (simp_all add: fold_Schedule add.assoc)

lemma PollPorts_eq:
  "PollPorts rx s = s\<lparr> event_queue := event_queue s @ polled rx s,
     sw_pkts_queued := sw_pkts_queued s + of_nat (length (polled rx s)) \<rparr>"
  by (simp add: PollPorts_def fold_ports polled_def length_concat o_def)

lemma PollPorts_ok: "switch_ok s \<Longrightarrow> rx_safe rx \<Longrightarrow> switch_ok (PollPorts rx s)"
  by (auto simp: PollPorts_eq switch_ok_def polled_def rx_safe_def) (meson nth_mem)

section \<open>Time\<close>

definition on_time :: "HcopSwitch \<Rightarrow> bool" where
  "on_time s \<longleftrightarrow> (\<forall>e\<in>set (event_queue s). cur_ts s \<le> ev_timestamp e)"

lemma next_min_ts_le:
  assumes "pick_ok pick" "e \<in> set (event_queue s)"
  shows "next_min_ts pick pts s \<le> ev_timestamp e"
proof -
  have "event_queue s \<noteq> []" using assms(2) by auto
  then have "ev_timestamp (event_queue s ! pick (event_queue s)) \<le> ev_timestamp e"
    using assms by (auto simp: pick_ok_def)
  with \<open>event_queue s \<noteq> []\<close> show ?thesis by (auto simp: next_min_ts_def Let_def)
qed

text \<open>The time that a pass finds: the least of the port timestamps and of the event times.\<close>

definition times_ahead :: "u64 list \<Rightarrow> HcopSwitch \<Rightarrow> u64 set" where
  "times_ahead pts s = set pts \<union> ev_timestamp ` set (event_queue s)"

lemma fold_min_Min: "fold (\<lambda>ts m. if ts < m then ts else m) xs (m :: u64) = Min (set (m # xs))"
proof -
  have "(\<lambda>ts m :: u64. if ts < m then ts else m) = min" by (auto simp: fun_eq_iff min_def not_less)
  then show ?thesis by (simp only: Min.set_eq_fold)
qed

lemma least_event_Min:
  assumes "pick_ok pick" "q \<noteq> []"
  shows "ev_timestamp (q ! pick q) = Min (ev_timestamp ` set q)"
  using assms by (intro Min_eqI[symmetric]) (auto simp: pick_ok_def)

lemma next_min_ts_Min:
  assumes "pick_ok pick"
  shows "next_min_ts pick pts s = Min (insert ULLONG_MAX (times_ahead pts s))"
proof (cases "event_queue s = []")
  case True
  then show ?thesis by (simp add: next_min_ts_def times_ahead_def fold_min_Min)
next
  case False
  let ?P = "insert ULLONG_MAX (set pts)" and ?E = "ev_timestamp ` set (event_queue s)"
  have P: "insert ULLONG_MAX (times_ahead pts s) = ?P \<union> ?E" by (simp add: times_ahead_def)
  have u: "Min (?P \<union> ?E) = min (Min ?P) (Min ?E)" using False by (intro Min.union) auto
  have m: "min m e = (if e < m then e else m)" for e m :: u64 by (auto simp: min_def)
  show ?thesis unfolding next_min_ts_def P u m least_event_Min[OF assms False] Let_def
    using False by (simp add: fold_min_Min[simplified])
qed

text \<open>One pass of the loop, with the packets and timestamps that the ports show and a possible stop.\<close>

inductive sw_step :: "(PacketEvent list \<Rightarrow> nat) \<Rightarrow> HcopSwitch \<Rightarrow> tx_packet list \<Rightarrow> HcopSwitch \<Rightarrow> bool" for pick where
  pass: "\<lbrakk>\<not> sw_exiting s; rx_safe rx; Run pick [(rx, pts, stop)] s = Some (tx, s')\<rbrakk> \<Longrightarrow> sw_step pick s tx s'"

text \<open>The clock after a pass, and what the pass leaves.\<close>

definition clock_after :: "bool \<Rightarrow> u64 list \<Rightarrow> HcopSwitch \<Rightarrow> u64 \<Rightarrow> u64" where
  "clock_after stop pts s now =
     (let m = Min (insert ULLONG_MAX (times_ahead pts s)) in
      if m = ULLONG_MAX \<or> \<not> stop \<and> m \<le> now then now else m)"

lemma ULLONG_top: "(x :: u64) \<le> ULLONG_MAX"
  using unat_width(4)[of x] by (simp add: word_le_nat_alt)

lemma clock_after_eq:
  "clock_after stop pts s now = (let T = times_ahead pts s in
     if T = {} \<or> Min T = ULLONG_MAX \<or> \<not> stop \<and> Min T \<le> now then now else Min T)"
proof -
  have fin: "finite (times_ahead pts s)" by (simp add: times_ahead_def)
  have "min ULLONG_MAX x = x" for x :: u64 by (rule min_absorb2) (rule ULLONG_top)
  then have "Min (insert ULLONG_MAX (times_ahead pts s)) = (if times_ahead pts s = {} then ULLONG_MAX else Min (times_ahead pts s))"
    using fin by (simp del: ULLONG_MAX_def)
  then show ?thesis by (simp add: clock_after_def Let_def)
qed

lemma sw_pass:
  assumes "pick_ok pick" "switch_ok s" "\<not> sw_exiting s" "rx_safe rx" "Run pick [(rx, pts, stop)] s = Some (tx, s')"
  shows "switch_ok s' \<and> on_time s' \<and> sw_exiting s' = stop \<and> cur_ts s' = clock_after stop pts s' (cur_ts s) \<and>
    mset (event_queue s') = filter_mset (\<lambda>e. cur_ts s < ev_timestamp e) (mset (event_queue s @ polled rx s)) \<and>
    sw_pkts_processed s' = sw_pkts_processed s + of_nat (length (due_events (cur_ts s) (event_queue s @ polled rx s))) \<and>
    (\<forall>t\<in>set tx. tx_time t = cur_ts s \<and> tx_port t < n_ports s)"
proof -
  let ?p = "PollPorts rx s"
  obtain tx1 s1 where s1: "ProcessEvents pick ?p = Some (tx1, s1)" "switch_ok s1" "cur_ts s1 = cur_ts s" "n_ports s1 = n_ports s"
    "sw_exiting s1 = sw_exiting s"
    "mset (event_queue s1) = filter_mset (\<lambda>e. cur_ts s < ev_timestamp e) (mset (event_queue s @ polled rx s))"
    "sw_pkts_processed s1 = sw_pkts_processed s + of_nat (length (due_events (cur_ts s) (event_queue s @ polled rx s)))"
    "\<forall>t\<in>set tx1. tx_time t = cur_ts s \<and> tx_port t < n_ports s"
    using ProcessEvents_spec[OF assms(1) PollPorts_ok[OF assms(2,4)]] by (auto simp: PollPorts_eq)
  have after: "\<forall>e\<in>set (event_queue s1). cur_ts s < ev_timestamp e"
    using s1(6) by (metis (no_types, lifting) filter_mset_eq_conv mem_Collect_eq set_mset_filter set_mset_mset)
  let ?m = "next_min_ts pick pts s1"
  have stop: "next_min_ts pick pts (Stop s1) = ?m" by (simp add: next_min_ts_def Stop_def Let_def)
  have s': "tx = tx1" "s' = (if stop then Stop s1 else s1)\<lparr> cur_ts := if ?m = ULLONG_MAX \<or> \<not> stop \<and> ?m \<le> cur_ts s then cur_ts s else ?m \<rparr>"
    using assms(3,5) s1(1,3,5) ULLONG_top[of ?m] by (auto simp: Let_def Stop_def stop[unfolded Stop_def] order.strict_iff_order split: if_splits)
  have ge: "\<forall>e\<in>set (event_queue s1). ?m \<le> ev_timestamp e" using next_min_ts_le[OF assms(1)] by blast
  have q: "event_queue s' = event_queue s1" by (simp add: s'(2) Stop_def)
  have "cur_ts s' = clock_after stop pts s' (cur_ts s)"
    unfolding clock_after_def times_ahead_def q using next_min_ts_Min[OF assms(1), of pts s1]
    by (simp add: s'(2) Stop_def times_ahead_def Let_def)
  moreover have "on_time s'" using ge after by (auto simp: on_time_def q s'(2) Stop_def less_imp_le)
  ultimately show ?thesis using s1 s' assms(3) by (auto simp: switch_ok_def Stop_def)
qed

section \<open>Properties of the switch\<close>

lemma sw_reachable:
  assumes "pick_ok pick" "(\<lambda>s s'. \<exists>tx. sw_step pick s tx s')\<^sup>*\<^sup>* s0 s" "switch_ok s0" "event_queue s0 = []"
  shows "switch_ok s \<and> on_time s"
  using assms(2)
proof (induction rule: rtranclp_induct)
  case base
  with assms(3,4) show ?case by (simp add: on_time_def)
next
  case (step s s')
  then obtain tx where "sw_step pick s tx s'" by blast
  then show ?case using sw_pass[OF assms(1) conjunct1[OF step.IH]] by cases blast
qed

lemma switch_ok_new:
  "HcopSwitch_new cfg pq lq bq = Some s0 \<Longrightarrow> switch_ok s0 \<and> event_queue s0 = []"
  by (auto simp: HcopSwitch_new_def bind_eq_Some_conv switch_ok_def dest: engine_inv_Init)

text \<open>
  C19. Every pass of the main loop. In every run from a new switch whose ports deliver only
  packets that do not end behind the HCOP header and that hold the value bytes they announce, a pass processes exactly the packets that are due and keeps the others; a packet that
  waited is processed exactly when the clock stands at its time; what is handed to the ports is
  stamped with the current time and goes to existing ports. The clock then stands at the least of the timestamps of the synchronized
  ports and the times of the packets that still wait, when that time lies ahead, and stays where it
  is when it does not or when there is no such time. So it does not run backwards while the switch
  runs and never passes a packet that waits; a switch that was stopped takes over the least time
  even when it lies behind the clock.
\<close>

theorem switch_pass_correct:
  assumes "pick_ok pick" "HcopSwitch_new cfg pq lq bq = Some s0"
    "(\<lambda>s s'. \<exists>tx. sw_step pick s tx s')\<^sup>*\<^sup>* (s0\<lparr> n_ports := n \<rparr>) s"
    "\<not> sw_exiting s" "rx_safe rx" "Run pick [(rx, pts, stop)] s = Some (tx, s')"
    "T = set pts \<union> ev_timestamp ` set (event_queue s')"
  shows "mset (event_queue s') = filter_mset (\<lambda>e. cur_ts s < ev_timestamp e) (mset (event_queue s @ polled rx s)) \<and>
    sw_pkts_processed s' = sw_pkts_processed s + of_nat (length (due_events (cur_ts s) (event_queue s @ polled rx s))) \<and>
    (\<forall>e\<in>set (due_events (cur_ts s) (event_queue s)). ev_timestamp e = cur_ts s) \<and>
    (\<forall>t\<in>set tx. tx_time t = cur_ts s \<and> tx_port t < n_ports s) \<and>
    cur_ts s' = (if T = {} \<or> Min T = ULLONG_MAX \<or> \<not> stop \<and> Min T \<le> cur_ts s then cur_ts s else Min T) \<and>
    (\<not> stop \<longrightarrow> cur_ts s \<le> cur_ts s') \<and> (\<forall>e\<in>set (event_queue s'). cur_ts s' \<le> ev_timestamp e) \<and> sw_exiting s' = stop"
proof -
  have "switch_ok (s0\<lparr> n_ports := n \<rparr>)" "event_queue (s0\<lparr> n_ports := n \<rparr>) = []"
    using switch_ok_new[OF assms(2)] by (auto simp: switch_ok_def)
  from sw_reachable[OF assms(1,3) this] have ok: "switch_ok s" "on_time s" by auto
  note p = sw_pass[OF assms(1) ok(1) assms(4-6)]
  have due: "\<forall>e\<in>set (due_events (cur_ts s) (event_queue s)). ev_timestamp e = cur_ts s"
    using ok(2) by (auto simp: due_events_def on_time_def)
  have "times_ahead pts s' = T" by (simp add: times_ahead_def assms(7))
  then have c: "cur_ts s' = (if T = {} \<or> Min T = ULLONG_MAX \<or> \<not> stop \<and> Min T \<le> cur_ts s then cur_ts s else Min T)"
    using p by (simp add: clock_after_eq Let_def)
  then have "\<not> stop \<longrightarrow> cur_ts s \<le> cur_ts s'" by (metis linear order_refl)
  moreover have "\<forall>e\<in>set (event_queue s'). cur_ts s' \<le> ev_timestamp e" using p unfolding on_time_def by blast
  ultimately show ?thesis using p due c by (intro conjI) blast+
qed

definition least_event :: "PacketEvent list \<Rightarrow> nat" where
  "least_event q = length (takeWhile (\<lambda>e. \<exists>e'\<in>set q. ev_timestamp e' < ev_timestamp e) q)"

lemma least_event_ok: "pick_ok least_event"
proof -
  have "least_event q < length q \<and> (\<forall>e\<in>set q. ev_timestamp (q ! least_event q) \<le> ev_timestamp e)" if "q \<noteq> []" for q
  proof -
    let ?P = "\<lambda>e. \<exists>e'\<in>set q. ev_timestamp e' < ev_timestamp e"
    note ne = that
    have "Min (ev_timestamp ` set q) \<in> ev_timestamp ` set q" using ne by (intro Min_in) auto
    then obtain e where e: "e \<in> set q" "ev_timestamp e = Min (ev_timestamp ` set q)" by auto
    then have "\<forall>e'\<in>set q. ev_timestamp e \<le> ev_timestamp e'" by simp
    then have "\<not> ?P e" by (auto simp: not_less)
    with e(1) have "takeWhile ?P q \<noteq> q" unfolding takeWhile_eq_all_conv by blast
    then have lt: "length (takeWhile ?P q) < length q"
      using length_takeWhile_le[of ?P q] takeWhile_eq_take[of ?P q] by (cases "length (takeWhile ?P q) = length q") auto
    then have "\<not> ?P (q ! length (takeWhile ?P q))" by (rule nth_length_takeWhile)
    with lt show ?thesis by (auto simp: least_event_def not_less)
  qed
  then show ?thesis by (simp add: pick_ok_def)
qed

definition demo_switch :: HcopSwitch where
  "demo_switch = (the (HcopSwitch_new demo_switch_config (Some 4) (Some 4) (Some 4)))"

lemma demo_switch_new: "HcopSwitch_new demo_switch_config (Some 4) (Some 4) (Some 4) = Some demo_switch"
  using demo_engine_Init by (simp add: demo_switch_def HcopSwitch_new_def)

definition demo_rx :: "bytes list list" where
  "demo_rx = [[], [[1, 2, 3]], []]"

theorem switch_pass_correct_witness:
  "\<exists>s'. Run least_event [(demo_rx, [9, 7], False)] (demo_switch\<lparr> n_ports := 3 \<rparr>) = Some ([], s') \<and>
     length (event_queue s') = 1 \<and> cur_ts s' = 7"
proof -
  let ?s = "demo_switch\<lparr> n_ports := 3 \<rparr>"
  have "(case Run least_event [(demo_rx, [9, 7], False)] ?s of Some ([], s') \<Rightarrow>
      length (event_queue s') = 1 \<and> set [9, 7] \<union> ev_timestamp ` set (event_queue s') = {9, 7, 1000000} | _ \<Rightarrow> False)" by code_simp
  then obtain s' where s': "Run least_event [(demo_rx, [9, 7], False)] ?s = Some ([], s')"
    "{9, 7, 1000000} = set [9, 7] \<union> ev_timestamp ` set (event_queue s')" "length (event_queue s') = 1"
    by (auto split: option.splits prod.splits list.splits)
  have "rx_safe demo_rx" by code_simp
  moreover have "cur_ts ?s = 0" "\<not> sw_exiting ?s" by code_simp+
  ultimately have "cur_ts s' = 7"
    using switch_pass_correct[OF least_event_ok demo_switch_new rtranclp.rtrancl_refl _ _ s'(1,2)] by simp
  with s'(1,3) show ?thesis by blast
qed

lemma concat_singletons: "concat (map (\<lambda>x. if P x then [f x] else []) xs) = map f (filter P xs)"
  by (induction xs) auto

lemma dispatch_ports_eq:
  "map tx_port (dispatch d ingress data s) =
     (case action d of
        kDrop \<Rightarrow> []
      | kToFallback \<Rightarrow> map nat (filter (\<lambda>p. 0 \<le> p \<and> p < int (n_ports s)) [fallback_port_index (sw_config s)])
      | kUnicast \<Rightarrow> map nat (filter (\<lambda>p. 0 \<le> p \<and> p < int (n_ports s)) (take 1 (dst_ports d)))
      | kMulticast \<Rightarrow> (if dst_ports d = [] then filter (\<lambda>i. i \<noteq> ingress) [0..<n_ports s]
          else map nat (filter (\<lambda>p. 0 \<le> p \<and> p < int (n_ports s)) (dst_ports d)))
      | kBroadcastAll \<Rightarrow> [0..<n_ports s]) \<and>
   (\<forall>t\<in>set (dispatch d ingress data s). tx_data t = data)"
proof
  have f: "ForwardPacket data p s = (if 0 \<le> p \<and> p < int (n_ports s)
      then [\<lparr> tx_port = nat p, tx_data = data, tx_time = cur_ts s \<rparr>] else [])" for p
    by (auto simp: ForwardPacket_def)
  have i: "map (\<lambda>i. if i \<noteq> ingress then ForwardPacket data (int i) s else []) [0..<n_ports s] =
      map (\<lambda>i. if i \<noteq> ingress then [\<lparr> tx_port = i, tx_data = data, tx_time = cur_ts s \<rparr>] else []) [0..<n_ports s]"
    "map (\<lambda>i. ForwardPacket data (int i) s) [0..<n_ports s] =
      map (\<lambda>i. if True then [\<lparr> tx_port = i, tx_data = data, tx_time = cur_ts s \<rparr>] else []) [0..<n_ports s]"
    by (simp_all add: f)
  have g: "(\<lambda>dst. if 0 \<le> dst then ForwardPacket data dst s else []) = (\<lambda>p. if 0 \<le> p \<and> p < int (n_ports s)
      then [\<lparr> tx_port = nat p, tx_data = data, tx_time = cur_ts s \<rparr>] else [])" by (auto simp: f)
  show "map tx_port (dispatch d ingress data s) =
     (case action d of
        kDrop \<Rightarrow> []
      | kToFallback \<Rightarrow> map nat (filter (\<lambda>p. 0 \<le> p \<and> p < int (n_ports s)) [fallback_port_index (sw_config s)])
      | kUnicast \<Rightarrow> map nat (filter (\<lambda>p. 0 \<le> p \<and> p < int (n_ports s)) (take 1 (dst_ports d)))
      | kMulticast \<Rightarrow> (if dst_ports d = [] then filter (\<lambda>i. i \<noteq> ingress) [0..<n_ports s]
          else map nat (filter (\<lambda>p. 0 \<le> p \<and> p < int (n_ports s)) (dst_ports d)))
      | kBroadcastAll \<Rightarrow> [0..<n_ports s])"
    unfolding dispatch_def i g concat_singletons by (auto simp: f comp_def split: Action.split list.split)
  show "\<forall>t\<in>set (dispatch d ingress data s). tx_data t = data" using dispatch_time by blast
qed

text \<open>
  Where a decision sends a packet: a flood reaches every port but the ingress port once, a
  broadcast every port once, a unicast or the fallback its port when the switch has it, a drop
  none.
\<close>

theorem dispatch_ports:
  "map tx_port (dispatch d ingress data s) =
     (case action d of
        kDrop \<Rightarrow> []
      | kToFallback \<Rightarrow> map nat (filter (\<lambda>p. 0 \<le> p \<and> p < int (n_ports s)) [fallback_port_index (sw_config s)])
      | kUnicast \<Rightarrow> map nat (filter (\<lambda>p. 0 \<le> p \<and> p < int (n_ports s)) (take 1 (dst_ports d)))
      | kMulticast \<Rightarrow> (if dst_ports d = [] then filter (\<lambda>i. i \<noteq> ingress) [0..<n_ports s]
          else map nat (filter (\<lambda>p. 0 \<le> p \<and> p < int (n_ports s)) (dst_ports d)))
      | kBroadcastAll \<Rightarrow> [0..<n_ports s]) \<and>
   map tx_data (dispatch d ingress data s) = replicate (length (dispatch d ingress data s)) data"
  using dispatch_ports_eq[of d ingress data s] by (auto simp: map_replicate_const[symmetric])

text \<open>
  Responses: when the state machine of a due packet's primitive answers with messages, the packet
  of every message whose destination has a port of the switch is handed to that port, with exactly
  its bytes behind the HCOP header, and the state machine's new state is the engine's.
\<close>

lemma process_event_responds:
  assumes "i < length (event_queue s)" "ev = event_queue s ! i" "is_hcop (ev_data ev)" "length (ev_data ev) \<noteq> 30"
    "e = primitive_engine s" "placement_mode (config e) = kProcessAndForward"
    "int (ingress_port ev) \<noteq> fallback_port_index (config e)" "exception_type (header_of (ev_data ev)) = 0"
    "engine_machine (primitive_type (header_of (ev_data ev))) (cur_ts s div 1000) (drop 30 (ev_data ev)) e =
       Some (Respond, out, e1)"
    "m \<in> set out" "dest_id m \<noteq> 255" "GetPortForNode e1 (dest_id m) = int p" "p < n_ports s"
  shows "\<exists>tx s'. process_event i s = Some (tx, s') \<and> primitive_engine s' = e1 \<and>
    (\<exists>t\<in>set tx. tx_port t = p \<and> drop 30 (tx_data t) = out_data m \<and>
      (\<forall>u\<in>set tx. tx_data u = tx_data t \<and> tx_time u = cur_ts s \<and> tx_port u < n_ports s))"
proof -
  obtain pk where pk: "with_HcopHeader (HCOP_APPEND_PATH kTierSwitch) (ev_data ev) = Some pk"
    using assms(3) with_HcopHeader_Some_iff by (auto simp: is_hcop_def)
  obtain d q e' where r: "HandlePacket_engine (ev_data ev) (int (ingress_port ev)) (cur_ts s div 1000) e = Some (d, q, e')"
    "meets pk (Respond, out, e1) (d, q, e')"
    using engine_meets[OF assms(3,4,6-9) pk] by auto
  have dl: "e' = e1" "delivers e1 out d q" using r(2) assms(10) by (auto simp: meets_def split: if_splits)
  let ?s1 = "s\<lparr> event_queue := remove_at i (event_queue s), sw_pkts_processed := sw_pkts_processed s + 1,
      sw_pkts_queued := (if sw_pkts_queued s > 0 then sw_pkts_queued s - 1 else sw_pkts_queued s) \<rparr>"
  let ?s2 = "?s1\<lparr> primitive_engine := e1, sw_pkts_dropped := (if action d = kDrop then sw_pkts_dropped ?s1 + 1 else sw_pkts_dropped ?s1) \<rparr>"
  have run: "process_event i s = Some (dispatch d (ingress_port ev) q ?s2, ?s2)"
    using r(1) dl(1) assms(2,5) by (simp add: process_event_def Let_def)
  have m: "drop 30 q = out_data m" "action d = kBroadcastAll \<or> action d = kUnicast \<and> dst_ports d = [int p] \<or> action d = kMulticast \<and> int p \<in> set (dst_ports d)"
    using dl(2) assms(10-12) by (auto simp: delivers_def)
  have "p \<in> set (map tx_port (dispatch d (ingress_port ev) q ?s2))"
    using m(2) assms(13) unfolding conjunct1[OF dispatch_ports_eq] by (auto simp: image_iff intro!: exI[of _ "int p"])
  then obtain t where t: "t \<in> set (dispatch d (ingress_port ev) q ?s2)" "tx_port t = p" by auto
  have "\<forall>u\<in>set (dispatch d (ingress_port ev) q ?s2). tx_data u = q \<and> tx_time u = cur_ts s \<and> tx_port u < n_ports s"
    using dispatch_time by fastforce
  with t run m(1) show ?thesis by auto
qed

end
