(* ===== verification/Base_If.thy ===== *)
theory Base_If
  imports Prelude
begin

text \<open>
  The base interface of the simulators (\<^verbatim>\<open>lib/simbricks/base/proto.h\<close>, \<^verbatim>\<open>if.h\<close>, \<^verbatim>\<open>if.c\<close>): the
  shared-memory queues with their ownership flags and timestamps, the memory pool, the connection
  state machine and the handshake. A queue is the list of its slots; the upper layer's part of a
  slot is a parameter of the message type. What the operating system answers to a call is an
  argument of the operation that makes the call. \<open>None\<close> is undefined behaviour: an access outside a
  queue, a division by zero, a read of bytes that were never received, a null path.
\<close>

section \<open>Protocol constants and messages\<close>

definition SIMBRICKS_PROTO_VERSION :: u64 where [simp]: "SIMBRICKS_PROTO_VERSION = 1"
definition SIMBRICKS_PROTO_ID_BASE :: u64 where [simp]: "SIMBRICKS_PROTO_ID_BASE = 0"
definition SIMBRICKS_PROTO_ID_NET :: u64 where [simp]: "SIMBRICKS_PROTO_ID_NET = 1"
definition SIMBRICKS_PROTO_ID_PCIE :: u64 where [simp]: "SIMBRICKS_PROTO_ID_PCIE = 2"
definition SIMBRICKS_PROTO_ID_MEM :: u64 where [simp]: "SIMBRICKS_PROTO_ID_MEM = 3"
definition PROTO_FLAGS_SYNC :: u64 where [simp]: "PROTO_FLAGS_SYNC = 1"
definition PROTO_FLAGS_SYNC_FORCE :: u64 where [simp]: "PROTO_FLAGS_SYNC_FORCE = 2"
definition MSG_OWN_MASK :: u8 where [simp]: "MSG_OWN_MASK = 0x80"
definition MSG_OWN_PRO :: u8 where [simp]: "MSG_OWN_PRO = 0"
definition MSG_OWN_CON :: u8 where [simp]: "MSG_OWN_CON = 0x80"
definition MSG_TYPE_SYNC :: u8 where [simp]: "MSG_TYPE_SYNC = 0"
definition MSG_TYPE_TERMINATE :: u8 where [simp]: "MSG_TYPE_TERMINATE = 1"
definition UINT64_MAX :: u64 where [simp]: "UINT64_MAX = 0xFFFFFFFFFFFFFFFF"

record 'b BaseMsg =
  body :: 'b
  timestamp :: u64
  own_type :: u8

record ListenerIntro =
  li_version :: u64
  li_flags :: u64
  l2c_offset :: u64
  l2c_elen :: u64
  l2c_nentries :: u64
  c2l_offset :: u64
  c2l_elen :: u64
  c2l_nentries :: u64
  li_upper_layer_proto :: u64
  li_upper_layer_intro_off :: u64

record ConnecterIntro =
  co_version :: u64
  co_flags :: u64
  co_upper_layer_proto :: u64
  co_upper_layer_intro_off :: u64

definition enc_ListenerIntro :: "ListenerIntro \<Rightarrow> bytes" where
  "enc_ListenerIntro i = le_bytes 8 (li_version i) @ le_bytes 8 (li_flags i) @ le_bytes 8 (l2c_offset i) @
     le_bytes 8 (l2c_elen i) @ le_bytes 8 (l2c_nentries i) @ le_bytes 8 (c2l_offset i) @ le_bytes 8 (c2l_elen i) @
     le_bytes 8 (c2l_nentries i) @ le_bytes 8 (li_upper_layer_proto i) @ le_bytes 8 (li_upper_layer_intro_off i)"

definition dec_ListenerIntro :: "bytes \<Rightarrow> ListenerIntro option" where
  "dec_ListenerIntro bs = do {
     ver \<leftarrow> rd64 bs 0; fl \<leftarrow> rd64 bs 8; lo \<leftarrow> rd64 bs 16; le \<leftarrow> rd64 bs 24; ln \<leftarrow> rd64 bs 32;
     co \<leftarrow> rd64 bs 40; ce \<leftarrow> rd64 bs 48; cn \<leftarrow> rd64 bs 56; up \<leftarrow> rd64 bs 64; off \<leftarrow> rd64 bs 72;
     Some \<lparr> li_version = ver, li_flags = fl, l2c_offset = lo, l2c_elen = le, l2c_nentries = ln,
            c2l_offset = co, c2l_elen = ce, c2l_nentries = cn, li_upper_layer_proto = up,
            li_upper_layer_intro_off = off \<rparr> }"

definition enc_ConnecterIntro :: "ConnecterIntro \<Rightarrow> bytes" where
  "enc_ConnecterIntro i = le_bytes 8 (co_version i) @ le_bytes 8 (co_flags i) @
     le_bytes 8 (co_upper_layer_proto i) @ le_bytes 8 (co_upper_layer_intro_off i)"

definition dec_ConnecterIntro :: "bytes \<Rightarrow> ConnecterIntro option" where
  "dec_ConnecterIntro bs = do {
     ver \<leftarrow> rd64 bs 0; fl \<leftarrow> rd64 bs 8; up \<leftarrow> rd64 bs 16; off \<leftarrow> rd64 bs 24;
     Some \<lparr> co_version = ver, co_flags = fl, co_upper_layer_proto = up, co_upper_layer_intro_off = off \<rparr> }"

section \<open>State\<close>

record SimbricksBaseIfSHMPool =
  pool_path :: "string option"
  pool_fd :: int
  pool_base :: u64
  pool_size :: u64
  pool_pos :: u64

datatype SyncMode = SyncDisabled | SyncOptional | SyncRequired

record SimbricksBaseIfParams =
  link_latency :: u64
  sync_interval :: u64
  sock_path :: "string option"
  sync_mode :: SyncMode
  blocking_conn :: bool
  in_num_entries :: u64
  in_entries_size :: u64
  out_num_entries :: u64
  out_entries_size :: u64
  upper_layer_proto :: u64

datatype ConnState = kConnClosed | kConnListening | kConnConnecting | kConnAwaitHandshakeRxTx
  | kConnAwaitHandshakeRx | kConnAwaitHandshakeTx | kConnOpen

record SimbricksBaseIf =
  in_queue :: u64
  in_pos :: u64
  in_elen :: u64
  in_enum :: u64
  in_timestamp :: u64
  out_queue :: u64
  out_pos :: u64
  out_elen :: u64
  out_enum :: u64
  out_timestamp :: u64
  in_terminated :: bool
  conn_state :: ConnState
  sync :: bool
  params :: SimbricksBaseIfParams
  shm :: "SimbricksBaseIfSHMPool option"
  listen_fd :: int
  conn_fd :: int
  listener :: bool

section \<open>Queues\<close>

definition slot :: "'a list \<Rightarrow> nat \<Rightarrow> 'a option" where
  "slot q i = (if i < length q then Some (q ! i) else None)"

definition InType :: "'b BaseMsg \<Rightarrow> u8" where
  "InType m = own_type m AND NOT MSG_OWN_MASK"

definition InPeek :: "u64 \<Rightarrow> 'b BaseMsg list \<Rightarrow> SimbricksBaseIf \<Rightarrow> (nat option \<times> SimbricksBaseIf) option" where
  "InPeek ts q b = do {
     msg \<leftarrow> slot q (unat (in_pos b));
     if own_type msg AND MSG_OWN_MASK \<noteq> MSG_OWN_CON then Some (None, b)
     else (let b1 = b\<lparr> in_timestamp := timestamp msg \<rparr> in
           if sync b1 \<and> in_timestamp b1 > ts then Some (None, b1)
           else Some (Some (unat (in_pos b)), b1)) }"

definition InPoll :: "u64 \<Rightarrow> 'b BaseMsg list \<Rightarrow> SimbricksBaseIf \<Rightarrow> (nat option \<times> SimbricksBaseIf) option" where
  "InPoll ts q b = do {
     (r, b1) \<leftarrow> InPeek ts q b;
     case r of
       None \<Rightarrow> Some (None, b1)
     | Some i \<Rightarrow>
         if in_enum b1 = 0 then None
         else (let b2 = b1\<lparr> in_pos := (in_pos b1 + 1) mod in_enum b1 \<rparr> in
           Some (Some i, if InType (q ! i) = MSG_TYPE_TERMINATE
             then b2\<lparr> in_timestamp := UINT64_MAX, out_timestamp := UINT64_MAX, in_terminated := True, sync := False \<rparr>
             else b2)) }"

definition InDone :: "nat \<Rightarrow> 'b BaseMsg list \<Rightarrow> 'b BaseMsg list" where
  "InDone i q = q[i := (q ! i)\<lparr> own_type := (own_type (q ! i) AND NOT MSG_OWN_MASK) OR MSG_OWN_PRO \<rparr>]"

definition OutAlloc :: "u64 \<Rightarrow> 'b BaseMsg list \<Rightarrow> SimbricksBaseIf \<Rightarrow>
    (nat option \<times> 'b BaseMsg list \<times> SimbricksBaseIf) option" where
  "OutAlloc ts q b = do {
     msg \<leftarrow> slot q (unat (out_pos b));
     if own_type msg AND MSG_OWN_MASK \<noteq> MSG_OWN_PRO then Some (None, q, b)
     else if out_enum b = 0 then None
     else Some (Some (unat (out_pos b)),
                q[unat (out_pos b) := msg\<lparr> timestamp := ts + link_latency (params b) \<rparr>],
                b\<lparr> out_pos := (out_pos b + 1) mod out_enum b, out_timestamp := ts \<rparr>) }"

definition OutSend :: "nat \<Rightarrow> u8 \<Rightarrow> 'b BaseMsg list \<Rightarrow> 'b BaseMsg list" where
  "OutSend i msg_type q = q[i := (q ! i)\<lparr> own_type := msg_type OR MSG_OWN_CON \<rparr>]"

definition OutSync :: "u64 \<Rightarrow> 'b BaseMsg list \<Rightarrow> SimbricksBaseIf \<Rightarrow> (int \<times> 'b BaseMsg list \<times> SimbricksBaseIf) option" where
  "OutSync ts q b =
     (if \<not> sync b \<or> out_timestamp b > 0 \<and> ts - out_timestamp b < sync_interval (params b) then Some (0, q, b)
      else do {
        (r, q1, b1) \<leftarrow> OutAlloc ts q b;
        Some (case r of None \<Rightarrow> (-1, q1, b1) | Some i \<Rightarrow> (0, OutSend i MSG_TYPE_SYNC q1, b1)) })"

definition OutNextSync :: "SimbricksBaseIf \<Rightarrow> u64" where
  "OutNextSync b = (if out_timestamp b = UINT64_MAX then UINT64_MAX
     else out_timestamp b + sync_interval (params b))"

section \<open>Memory pool\<close>

definition SHMPoolCreate :: "string \<Rightarrow> u64 \<Rightarrow> int \<Rightarrow> bool \<Rightarrow> u64 option \<Rightarrow> SimbricksBaseIfSHMPool \<Rightarrow>
    int \<times> SimbricksBaseIfSHMPool" where
  "SHMPoolCreate path sz open_fd truncate_ok mapped pool =
     (let p1 = pool\<lparr> pool_path := Some path, pool_size := sz, pool_pos := 0, pool_fd := open_fd \<rparr> in
      if open_fd = -1 then (-1, p1)
      else if \<not> truncate_ok then (-1, p1)
      else (case mapped of None \<Rightarrow> (-1, p1\<lparr> pool_base := UINT64_MAX \<rparr>) | Some a \<Rightarrow> (0, p1\<lparr> pool_base := a \<rparr>)))"

definition SHMPoolMapFd :: "int \<Rightarrow> u64 option \<Rightarrow> u64 option \<Rightarrow> SimbricksBaseIfSHMPool \<Rightarrow> int \<times> SimbricksBaseIfSHMPool" where
  "SHMPoolMapFd fd stat_size mapped pool =
     (case stat_size of None \<Rightarrow> (-1, pool)
      | Some sz \<Rightarrow> (case mapped of None \<Rightarrow> (-1, pool\<lparr> pool_base := UINT64_MAX \<rparr>)
          | Some a \<Rightarrow> (0, pool\<lparr> pool_base := a, pool_fd := fd, pool_path := None, pool_pos := 0, pool_size := sz \<rparr>)))"

text \<open>The assignment binds weaker than the comparison: the descriptor is the result of the test.\<close>

definition SHMPoolMap :: "int \<Rightarrow> u64 option \<Rightarrow> u64 option \<Rightarrow> SimbricksBaseIfSHMPool \<Rightarrow> int \<times> SimbricksBaseIfSHMPool" where
  "SHMPoolMap open_res stat_size mapped pool =
     (let fd = (if open_res = -1 then 1 else 0) in
      if fd \<noteq> 0 then (-1, pool)
      else (case SHMPoolMapFd fd stat_size mapped pool of (r, p1) \<Rightarrow> if r \<noteq> 0 then (-1, p1) else (0, p1)))"

definition SHMPoolUnmap :: "bool \<Rightarrow> SimbricksBaseIfSHMPool \<Rightarrow> int \<times> SimbricksBaseIfSHMPool" where
  "SHMPoolUnmap unmap_ok pool =
     (if \<not> unmap_ok then (-1, pool) else (0, pool\<lparr> pool_fd := -1, pool_base := 0, pool_size := 0 \<rparr>))"

definition DefaultParams :: "SimbricksBaseIfParams" where
  "DefaultParams = \<lparr> link_latency = 500 * 1000, sync_interval = 500 * 1000, sock_path = None,
     sync_mode = SyncOptional, blocking_conn = False, in_num_entries = 8192, in_entries_size = 2048,
     out_num_entries = 8192, out_entries_size = 2048, upper_layer_proto = SIMBRICKS_PROTO_ID_BASE \<rparr>"

definition SHMSize :: "SimbricksBaseIfParams \<Rightarrow> u64" where
  "SHMSize p = in_num_entries p * in_entries_size p + out_num_entries p * out_entries_size p"

section \<open>Connecting\<close>

definition SimbricksBaseIfInit :: "SimbricksBaseIfParams \<Rightarrow> SimbricksBaseIf option" where
  "SimbricksBaseIfInit p =
     (if (sync_mode p = SyncOptional \<or> sync_mode p = SyncRequired) \<and> link_latency p < sync_interval p then None
      else Some \<lparr> in_queue = 0, in_pos = 0, in_elen = 0, in_enum = 0, in_timestamp = 0,
             out_queue = 0, out_pos = 0, out_elen = 0, out_enum = 0, out_timestamp = 0,
             in_terminated = False, conn_state = kConnClosed, sync = False, params = p, shm = None,
             listen_fd = 0, conn_fd = 0, listener = False \<rparr>)"

text \<open>The answer to a call that returns a descriptor: the value, and whether a failure is only temporary.\<close>

record fd_answer =
  ans_fd :: int
  ans_again :: bool

definition AcceptOnBaseIf :: "fd_answer \<Rightarrow> SimbricksBaseIf \<Rightarrow> int \<times> SimbricksBaseIf" where
  "AcceptOnBaseIf a b0 =
     (let b = b0\<lparr> conn_fd := ans_fd a \<rparr> in
      if ans_fd a \<ge> 0 then (0, b\<lparr> listen_fd := -1, conn_state := kConnAwaitHandshakeRxTx \<rparr>)
      else if ans_again a then (1, b)
      else (-1, b\<lparr> listen_fd := -1, conn_state := kConnClosed \<rparr>))"

record listen_env =
  le_socket :: int
  le_fcntl :: bool
  le_bind :: bool
  le_listen :: bool
  le_accept :: fd_answer

definition sun_path_size :: nat where "sun_path_size = 108"

definition Listen :: "listen_env \<Rightarrow> SimbricksBaseIfSHMPool \<Rightarrow> SimbricksBaseIf \<Rightarrow>
    (int \<times> SimbricksBaseIfSHMPool \<times> SimbricksBaseIf) option" where
  "Listen env pool b0 = do {
     path \<leftarrow> sock_path (params b0);
     let p = params b0;
     if length path \<ge> sun_path_size then Some (-1, pool, b0)
     else do {
       let b1 = b0\<lparr> shm := Some pool \<rparr>;
       let in_len = in_num_entries p * in_entries_size p;
       let out_len = out_num_entries p * out_entries_size p;
       if pool_pos pool + in_len + out_len > pool_size pool then Some (-1, pool, b1)
       else do {
         let b2 = b1\<lparr> listen_fd := le_socket env \<rparr>;
         if le_socket env = -1 then Some (-1, pool, b2)
         else if \<not> blocking_conn p \<and> \<not> le_fcntl env \<or> \<not> le_bind env \<or> \<not> le_listen env
         then Some (-1, pool, b2\<lparr> listen_fd := -1 \<rparr>)
         else do {
           let b3 = b2\<lparr> in_queue := pool_base pool + pool_pos pool, in_pos := 0, in_elen := in_entries_size p,
                        in_enum := in_num_entries p, in_timestamp := 0,
                        out_queue := pool_base pool + (pool_pos pool + in_len), out_pos := 0,
                        out_elen := out_entries_size p, out_enum := out_num_entries p, out_timestamp := 0,
                        conn_state := kConnListening, listener := True \<rparr>;
           let pool1 = pool\<lparr> pool_pos := pool_pos pool + in_len + out_len \<rparr>;
           Some (case AcceptOnBaseIf (le_accept env) b3 of (r, b4) \<Rightarrow> (if r < 0 then -1 else 0, pool1, b4)) } } } }"

record connect_env =
  ce_socket :: int
  ce_fcntl :: bool
  ce_connect :: fd_answer

text \<open>The error exit closes the listening descriptor and not the one just opened.\<close>

definition Connect :: "connect_env \<Rightarrow> SimbricksBaseIf \<Rightarrow> (int \<times> SimbricksBaseIf) option" where
  "Connect env b0 = do {
     path \<leftarrow> sock_path (params b0);
     if length path \<ge> sun_path_size then Some (-1, b0)
     else do {
       let b = b0\<lparr> listener := False, conn_fd := ce_socket env \<rparr>;
       Some (if ce_socket env = -1 then (-1, b)
         else if \<not> blocking_conn (params b) \<and> \<not> ce_fcntl env then (-1, b\<lparr> listen_fd := -1 \<rparr>)
         else if ans_fd (ce_connect env) = 0 then (0, b\<lparr> conn_state := kConnAwaitHandshakeRxTx \<rparr>)
         else if ans_again (ce_connect env) then (0, b\<lparr> conn_state := kConnConnecting \<rparr>)
         else (-1, b\<lparr> conn_state := kConnClosed \<rparr>)) } }"

text \<open>The answer of \<^verbatim>\<open>poll\<close> on one descriptor, the events it reports, and the socket error.\<close>

record poll_answer =
  pa_ret :: int
  pa_only_out :: bool
  pa_sockerr :: "int option"

record conn_env =
  env_accept :: fd_answer
  env_poll :: poll_answer

definition Connected :: "conn_env \<Rightarrow> SimbricksBaseIf \<Rightarrow> int \<times> SimbricksBaseIf" where
  "Connected env b =
     (let closed = b\<lparr> conn_fd := -1, conn_state := kConnClosed \<rparr>; pa = env_poll env in
      case conn_state b of
        kConnClosed \<Rightarrow> (-1, b)
      | kConnListening \<Rightarrow> AcceptOnBaseIf (env_accept env) b
      | kConnConnecting \<Rightarrow>
          if pa_ret pa < 0 \<or> pa_ret pa = 1 \<and> \<not> pa_only_out pa then (-1, closed)
          else if pa_ret pa = 0 then (1, b)
          else (case pa_sockerr pa of None \<Rightarrow> (-1, closed)
                | Some e \<Rightarrow> if e = 0 then (0, b\<lparr> conn_state := kConnAwaitHandshakeRxTx \<rparr>) else (-1, closed))
      | _ \<Rightarrow> (0, b))"

definition ConnFd :: "SimbricksBaseIf \<Rightarrow> int" where
  "ConnFd b = (if conn_state b = kConnListening then listen_fd b
     else if conn_state b = kConnConnecting then conn_fd b else -1)"

section \<open>Handshake\<close>

definition intro_flags :: "SyncMode \<Rightarrow> u64" where
  "intro_flags m = (if m = SyncDisabled then 0
     else PROTO_FLAGS_SYNC OR (if m = SyncRequired then PROTO_FLAGS_SYNC_FORCE else 0))"

definition intro_bytes :: "SimbricksBaseIf \<Rightarrow> bytes option" where
  "intro_bytes b =
     (if listener b then do {
        pool \<leftarrow> shm b;
        Some (enc_ListenerIntro \<lparr> li_version = SIMBRICKS_PROTO_VERSION, li_flags = intro_flags (sync_mode (params b)),
          l2c_offset = out_queue b - pool_base pool, l2c_elen = out_elen b, l2c_nentries = out_enum b,
          c2l_offset = in_queue b - pool_base pool, c2l_elen = in_elen b, c2l_nentries = in_enum b,
          li_upper_layer_proto = upper_layer_proto (params b), li_upper_layer_intro_off = 80 \<rparr>) }
      else Some (enc_ConnecterIntro \<lparr> co_version = SIMBRICKS_PROTO_VERSION,
          co_flags = intro_flags (sync_mode (params b)), co_upper_layer_proto = upper_layer_proto (params b),
          co_upper_layer_intro_off = 32 \<rparr>))"

text \<open>
  Sending the handshake: the bytes put on the socket (with the pool's descriptor attached by a
  listener), given what \<^verbatim>\<open>sendmsg\<close> returns for them.
\<close>

definition IntroSend :: "bytes \<Rightarrow> (nat \<Rightarrow> int) \<Rightarrow> SimbricksBaseIf \<Rightarrow> (int \<times> bytes \<times> SimbricksBaseIf) option" where
  "IntroSend payload sendmsg b =
     (if conn_state b \<noteq> kConnAwaitHandshakeRxTx \<and> conn_state b \<noteq> kConnAwaitHandshakeTx then Some (-1, [], b)
      else do {
        hd \<leftarrow> intro_bytes b;
        let data = hd @ payload;
        let ret = sendmsg (length data);
        Some (if ret < 0 \<or> ret \<noteq> int (length data) then (-1, [], b)
          else (0, data, b\<lparr> conn_state := if conn_state b = kConnAwaitHandshakeTx then kConnOpen
                                         else kConnAwaitHandshakeRx \<rparr>)) })"

datatype recv_answer = RecvAgain | RecvFail | RecvData bytes

text \<open>The descriptor attached to a received handshake, and what mapping it gives.\<close>

record shm_answer =
  sa_fd :: "int option"
  sa_alloc :: bool
  sa_stat :: "u64 option"
  sa_map :: "u64 option"

definition SHMPool_zero :: SimbricksBaseIfSHMPool where
  "SHMPool_zero = \<lparr> pool_path = None, pool_fd = 0, pool_base = 0, pool_size = 0, pool_pos = 0 \<rparr>"

definition intro_sync :: "u64 \<Rightarrow> u64 \<Rightarrow> u64 \<Rightarrow> SimbricksBaseIf \<Rightarrow> SimbricksBaseIf option" where
  "intro_sync version flags upper_proto b =
     (let psync = (flags AND PROTO_FLAGS_SYNC \<noteq> 0); force = (flags AND PROTO_FLAGS_SYNC_FORCE \<noteq> 0);
          mode = sync_mode (params b) in
      if version \<noteq> SIMBRICKS_PROTO_VERSION then None
      else if upper_proto \<noteq> upper_layer_proto (params b) then None
      else if force \<and> mode = SyncDisabled then None
      else if \<not> psync \<and> \<not> force \<and> mode = SyncRequired then None
      else if mode = SyncDisabled then Some (b\<lparr> sync := False \<rparr>)
      else Some (b\<lparr> sync := psync \<or> force \<rparr>))"

definition recv_done :: "SimbricksBaseIf \<Rightarrow> SimbricksBaseIf" where
  "recv_done b = b\<lparr> conn_state := if conn_state b = kConnAwaitHandshakeRx then kConnOpen else kConnAwaitHandshakeTx \<rparr>"

definition IntroRecv :: "nat \<Rightarrow> recv_answer \<Rightarrow> shm_answer \<Rightarrow> SimbricksBaseIf \<Rightarrow>
    (int \<times> bytes \<times> SimbricksBaseIf) option" where
  "IntroRecv payload_len ra sa b =
     (if conn_state b \<noteq> kConnAwaitHandshakeRxTx \<and> conn_state b \<noteq> kConnAwaitHandshakeRx then Some (-1, [], b)
      else case ra of RecvAgain \<Rightarrow> Some (1, [], b) | RecvFail \<Rightarrow> Some (-1, [], b)
      | RecvData data0 \<Rightarrow>
        (let data = take 2048 data0 in
         if listener b then do {
           ci \<leftarrow> dec_ConnecterIntro data;
           case intro_sync (co_version ci) (co_flags ci) (co_upper_layer_proto ci) b of
             None \<Rightarrow> Some (-1, [], b)
           | Some b1 \<Rightarrow>
               let ulen = unat (of_nat (length data) - co_upper_layer_intro_off ci) in
               if payload_len < ulen then Some (-1, [], b1)
               else do {
                 pl \<leftarrow> rd data (unat (co_upper_layer_intro_off ci)) ulen;
                 Some (0, pl, recv_done b1) } }
         else do {
           li \<leftarrow> dec_ListenerIntro data;
           case intro_sync (li_version li) (li_flags li) (li_upper_layer_proto li) b of
             None \<Rightarrow> Some (-1, [], b)
           | Some b1 \<Rightarrow>
               let ulen = unat (of_nat (length data) - li_upper_layer_intro_off li) in
               if payload_len < ulen then Some (-1, [], b1)
               else do {
                 pl \<leftarrow> rd data (unat (li_upper_layer_intro_off li)) ulen;
                 case sa_fd sa of
                   None \<Rightarrow> Some (-1, pl, b1)
                 | Some fd \<Rightarrow>
                     if \<not> sa_alloc sa then Some (-1, pl, b1\<lparr> shm := None \<rparr>)
                     else (case SHMPoolMapFd fd (sa_stat sa) (sa_map sa) SHMPool_zero of (r, pool) \<Rightarrow>
                       if r \<noteq> 0 then Some (-1, pl, b1\<lparr> shm := Some pool \<rparr>)
                       else Some (0, pl, recv_done (b1\<lparr> shm := Some pool,
                         out_queue := pool_base pool + c2l_offset li, out_elen := c2l_elen li, out_enum := c2l_nentries li,
                         in_queue := pool_base pool + l2c_offset li, in_elen := l2c_elen li,
                         in_enum := l2c_nentries li \<rparr>))) } }))"

definition IntroFd :: "SimbricksBaseIf \<Rightarrow> int" where
  "IntroFd b = (if conn_state b \<in> {kConnAwaitHandshakeRxTx, kConnAwaitHandshakeRx, kConnAwaitHandshakeTx}
     then conn_fd b else -1)"

section \<open>Closing\<close>

text \<open>
  An open connection first sends a termination message, waiting for a free slot: the argument is
  what the queue contains at each attempt. The loop does not end when no attempt succeeds.
\<close>

fun Close :: "'b BaseMsg list list \<Rightarrow> SimbricksBaseIf \<Rightarrow> ('b BaseMsg list option \<times> SimbricksBaseIf) option" where
  "Close qs b =
     (case conn_state b of
        kConnListening \<Rightarrow> Some (None, b\<lparr> listen_fd := -1, conn_state := kConnClosed \<rparr>)
      | kConnClosed \<Rightarrow> Some (None, b)
      | kConnOpen \<Rightarrow>
          (case qs of [] \<Rightarrow> None
           | q # qs' \<Rightarrow> (case OutAlloc UINT64_MAX q b of
               None \<Rightarrow> None
             | Some (None, _, b1) \<Rightarrow> Close qs' b1
             | Some (Some i, q1, b1) \<Rightarrow>
                 Some (Some (OutSend i MSG_TYPE_TERMINATE q1), b1\<lparr> conn_fd := -1, conn_state := kConnClosed \<rparr>)))
      | _ \<Rightarrow> Some (None, b\<lparr> conn_fd := -1, conn_state := kConnClosed \<rparr>))"

declare Close.simps [simp del]

section \<open>Waiting for connections\<close>

definition conn_waiting :: "SimbricksBaseIf \<Rightarrow> bool" where
  "conn_waiting b \<longleftrightarrow> conn_state b = kConnListening \<or> conn_state b = kConnConnecting"

text \<open>
  One pass over the polled descriptors: for each index below the number of interfaces, whether its
  entry reports only the expected events, and the answers for that interface. Entries beyond the
  number of waiting interfaces were never written.
\<close>

fun conns_check :: "(bool \<times> conn_env) list \<Rightarrow> nat list \<Rightarrow> nat \<Rightarrow> nat \<Rightarrow> SimbricksBaseIf list \<Rightarrow>
    (int \<times> nat \<times> SimbricksBaseIf list) option" where
  "conns_check [] ids i n_wait bs = Some (0, n_wait, bs)"
| "conns_check ((ev_ok, env) # es) ids i n_wait bs = do {
     j \<leftarrow> slot ids i;
     b \<leftarrow> slot bs j;
     if \<not> ev_ok then Some (-1, n_wait, bs)
     else (case Connected env b of (r, b1) \<Rightarrow>
       if r < 0 then Some (-1, n_wait, bs[j := b1])
       else conns_check es ids (i + 1) (if r = 0 then n_wait - 1 else n_wait) (bs[j := b1])) }"

text \<open>
  The outer loop, one element of the first argument per iteration: what \<^verbatim>\<open>poll\<close> answers and the
  entries of the pass (one for each interface). The wait is unfinished when the list ends.
\<close>

datatype wait_result = WaitReturn int | WaitMore

fun ConnsWait :: "(bool \<times> (bool \<times> conn_env) list) list \<Rightarrow> SimbricksBaseIf list \<Rightarrow>
    (wait_result \<times> SimbricksBaseIf list) option" where
  "ConnsWait rounds bs =
     (if \<exists>b\<in>set bs. conn_state b = kConnClosed then Some (WaitReturn (-1), bs)
      else let ids = filter (\<lambda>i. conn_waiting (bs ! i)) [0..<length bs] in
        if ids = [] then Some (WaitReturn 0, bs)
        else (case rounds of [] \<Rightarrow> Some (WaitMore, bs)
          | (poll_ok, es) # rs \<Rightarrow>
              if \<not> poll_ok then Some (WaitReturn (-1), bs)
              else do {
                (r, n_wait, bs1) \<leftarrow> conns_check (take (length bs) es) ids 0 (length ids) bs;
                if r < 0 then Some (WaitReturn (-1), bs1)
                else if n_wait > 0 then ConnsWait rs bs1
                else Some (WaitReturn 0, bs1) }))"

declare ConnsWait.simps [simp del]

section \<open>Establishing several connections\<close>

record EstablishData =
  base_if :: SimbricksBaseIf
  tx_intro :: bytes
  rx_intro :: bytes
  rx_intro_len :: nat

record est_env =
  ee_conn :: conn_env
  ee_sendmsg :: "nat \<Rightarrow> int"
  ee_recv :: recv_answer
  ee_shm :: shm_answer

text \<open>
  One interface in one round: an error, or the descriptors to wait for and the new state. The
  steps are in the order of the code: connection, sending, receiving.
\<close>

datatype est_result = EstError EstablishData | EstNext "int list" EstablishData

definition est_connect :: "est_env \<Rightarrow> EstablishData \<Rightarrow> est_result" where
  "est_connect env d =
     (if conn_state (base_if d) = kConnClosed then EstError d
      else case Connected (ee_conn env) (base_if d) of (r, b1) \<Rightarrow>
        let d1 = d\<lparr> base_if := b1 \<rparr> in
        if r < 0 then EstError d1
        else if r > 0 then EstNext [ConnFd b1] d1 else EstNext [] d1)"

definition est_send :: "est_env \<Rightarrow> EstablishData \<Rightarrow> est_result option" where
  "est_send env d =
     (if conn_state (base_if d) = kConnAwaitHandshakeTx \<or> conn_state (base_if d) = kConnAwaitHandshakeRxTx then do {
        (r, _, b1) \<leftarrow> IntroSend (tx_intro d) (ee_sendmsg env) (base_if d);
        Some (if r \<noteq> 0 then EstError (d\<lparr> base_if := b1 \<rparr>) else EstNext [] (d\<lparr> base_if := b1 \<rparr>)) }
      else Some (EstNext [] d))"

definition est_recv :: "est_env \<Rightarrow> EstablishData \<Rightarrow> est_result option" where
  "est_recv env d =
     (if conn_state (base_if d) = kConnAwaitHandshakeRx then do {
        (r, pl, b1) \<leftarrow> IntroRecv (rx_intro_len d) (ee_recv env) (ee_shm env) (base_if d);
        Some (if r < 0 then EstError (d\<lparr> base_if := b1 \<rparr>)
          else if r > 0 then EstNext [IntroFd b1] (d\<lparr> base_if := b1 \<rparr>)
          else EstNext [] (d\<lparr> base_if := b1, rx_intro := pl, rx_intro_len := length pl \<rparr>)) }
      else Some (EstNext [] d))"

definition est_one :: "est_env \<Rightarrow> EstablishData \<Rightarrow> est_result option" where
  "est_one env d =
     (case est_connect env d of EstError d1 \<Rightarrow> Some (EstError d1) | EstNext fds1 d1 \<Rightarrow> do {
        r2 \<leftarrow> est_send env d1;
        case r2 of EstError d2 \<Rightarrow> Some (EstError d2) | EstNext fds2 d2 \<Rightarrow> do {
          r3 \<leftarrow> est_recv env d2;
          Some (case r3 of EstError d3 \<Rightarrow> EstError d3 | EstNext fds3 d3 \<Rightarrow> EstNext (fds1 @ fds2 @ fds3) d3) } })"

datatype est_outcome = EstReturn int | EstAbort | EstWaiting

text \<open>A round over all interfaces; \<open>n\<close> is their number, against which the code asserts its poll count.\<close>

fun est_round :: "nat \<Rightarrow> est_env list \<Rightarrow> int list \<Rightarrow> EstablishData list \<Rightarrow>
    (est_outcome option \<times> int list \<times> EstablishData list) option" where
  "est_round n (env # envs) fds (d # ds) = do {
     r \<leftarrow> est_one env d;
     case r of
       EstError d1 \<Rightarrow> Some (Some (EstReturn (-1)), fds, d1 # ds)
     | EstNext fds1 d1 \<Rightarrow>
         if length (fds @ fds1) > n then Some (Some EstAbort, fds @ fds1, d1 # ds)
         else do {
           (o2, fds2, ds2) \<leftarrow> est_round n envs (fds @ fds1) ds;
           Some (o2, fds2, d1 # ds2) } }"
| "est_round n _ fds ds = Some (None, fds, ds)"

definition n_established :: "EstablishData list \<Rightarrow> nat" where
  "n_established ds = length (filter (\<lambda>d. conn_state (base_if d) = kConnOpen) ds)"

text \<open>
  The loop, one element of the first argument per round: the answers for the interfaces and
  whether waiting with \<^verbatim>\<open>poll\<close> succeeds.
\<close>

fun Establish :: "(est_env list \<times> bool) list \<Rightarrow> nat \<Rightarrow> EstablishData list \<Rightarrow>
    (est_outcome \<times> EstablishData list) option" where
  "Establish rounds established ds =
     (if length ds \<le> established then Some (EstReturn 0, ds)
      else case rounds of [] \<Rightarrow> Some (EstWaiting, ds)
      | (envs, poll_ok) # rs \<Rightarrow> do {
          (oc, fds, ds1) \<leftarrow> est_round (length ds) envs [] ds;
          case oc of Some r \<Rightarrow> Some (r, ds1)
          | None \<Rightarrow>
              if fds = [] \<and> n_established ds1 \<noteq> length ds then Some (EstAbort, ds1)
              else if fds \<noteq> [] \<and> \<not> poll_ok then Some (EstReturn (-1), ds1)
              else Establish rs (n_established ds1) ds1 })"

declare Establish.simps [simp del]

end
