(* ===== verification/Net_Port.thy ===== *)
theory Net_Port
  imports Base_If
begin

text \<open>
  The network protocol on top of the base interface (\<^verbatim>\<open>lib/simbricks/network\<close>), the NIC's pair of
  interfaces (\<^verbatim>\<open>lib/simbricks/nicif\<close>), the default parameters of the PCIe and memory protocols, and
  the ports of the HCOP switch (\<^verbatim>\<open>sims/net/hcop_switch/net_port.cc\<close>). The data area of a slot is a
  byte list of the slot's length less the header; bytes of an earlier message stay behind a
  shorter one. Waiting loops take the contents that the queue shows at each attempt and are \<open>None\<close>
  when no attempt succeeds.
\<close>

section \<open>Packets\<close>

record NetPacket =
  np_len :: u16
  np_port :: u8
  np_data :: bytes

type_synonym net_queue = "NetPacket BaseMsg list"

definition NET_MSG_PACKET :: u8 where [simp]: "NET_MSG_PACKET = 0x40"
definition msg_header_size :: nat where [simp]: "msg_header_size = 64"

definition NetIfDefaultParams :: SimbricksBaseIfParams where
  "NetIfDefaultParams = DefaultParams\<lparr> in_entries_size := 1536 + 64, out_entries_size := 1536 + 64,
     upper_layer_proto := SIMBRICKS_PROTO_ID_NET \<rparr>"

definition PcieIfDefaultParams :: SimbricksBaseIfParams where
  "PcieIfDefaultParams = DefaultParams\<lparr> in_entries_size := 9024 + 64, out_entries_size := 9024 + 64,
     upper_layer_proto := SIMBRICKS_PROTO_ID_PCIE \<rparr>"

definition MemIfDefaultParams :: SimbricksBaseIfParams where
  "MemIfDefaultParams = DefaultParams\<lparr> in_entries_size := 8192 + 64, out_entries_size := 8192 + 64,
     upper_layer_proto := SIMBRICKS_PROTO_ID_MEM \<rparr>"

text \<open>
  Connecting a network interface: the answers of the operating system to the connection, to the
  wait (one element per iteration), to the handshake's two messages, and to the poll before the
  second. The last component is the synchronization flag of the caller.
\<close>

record netif_env =
  ne_connect :: connect_env
  ne_wait :: "(bool \<times> (bool \<times> conn_env) list) list"
  ne_sendmsg :: "nat \<Rightarrow> int"
  ne_poll :: int
  ne_recv :: recv_answer
  ne_shm :: shm_answer

definition NetIfInit :: "netif_env \<Rightarrow> SimbricksBaseIfParams \<Rightarrow> string \<Rightarrow> int option \<Rightarrow> SimbricksBaseIf \<Rightarrow>
    (int \<times> int option \<times> SimbricksBaseIf) option" where
  "NetIfInit env p path sync_eth b0 =
     (let p1 = p\<lparr> sync_mode := (case sync_eth of Some s \<Rightarrow> if s \<noteq> 0 then SyncOptional else SyncDisabled
                                | None \<Rightarrow> SyncDisabled), sock_path := Some path \<rparr> in
      case SimbricksBaseIfInit p1 of
        None \<Rightarrow> Some (-1, sync_eth, b0)
      | Some b1 \<Rightarrow> do {
          (r2, b2) \<leftarrow> Connect (ne_connect env) b1;
          if r2 \<noteq> 0 then Some (-1, sync_eth, b2)
          else do {
            (r3, bs3) \<leftarrow> ConnsWait (ne_wait env) [b2];
            b3 \<leftarrow> slot bs3 0;
            if r3 \<noteq> WaitReturn 0 then Some (-1, sync_eth, b3)
            else do {
              (r4, _, b4) \<leftarrow> IntroSend (replicate 4 0) (ne_sendmsg env) b3;
              if r4 \<noteq> 0 then Some (-1, sync_eth, b4)
              else if ne_poll env \<noteq> 1 then Some (-1, sync_eth, b4)
              else do {
                (r5, _, b5) \<leftarrow> IntroRecv 4 (ne_recv env) (ne_shm env) b4;
                if r5 \<noteq> 0 then Some (-1, sync_eth, b5)
                else Some (0, map_option (\<lambda>_. if sync b5 then 1 else 0) sync_eth, b5) } } } })"

section \<open>Interfaces of a NIC\<close>

record SimbricksNicIf =
  nic_pool :: SimbricksBaseIfSHMPool
  nic_net :: SimbricksBaseIf
  nic_pcie :: SimbricksBaseIf

definition NicIfSync :: "u64 \<Rightarrow> net_queue \<Rightarrow> 'b BaseMsg list \<Rightarrow> SimbricksNicIf \<Rightarrow>
    (int \<times> net_queue \<times> 'b BaseMsg list \<times> SimbricksNicIf) option" where
  "NicIfSync ts nq pq nif = do {
     (rn, nq1, n1) \<leftarrow> OutSync ts nq (nic_net nif);
     if rn \<noteq> 0 then Some (-1, nq1, pq, nif\<lparr> nic_net := n1 \<rparr>)
     else do {
       (rp, pq1, p1) \<leftarrow> OutSync ts pq (nic_pcie nif);
       Some (if rp = 0 then 0 else -1, nq1, pq1, nif\<lparr> nic_net := n1, nic_pcie := p1 \<rparr>) } }"

definition NicIfNextTimestamp :: "SimbricksNicIf \<Rightarrow> u64" where
  "NicIfNextTimestamp nif =
     (let net_in = in_timestamp (nic_net nif); net_out = OutNextSync (nic_net nif);
          net = (if net_in \<le> net_out then net_in else net_out);
          pcie_in = in_timestamp (nic_pcie nif); pcie_out = OutNextSync (nic_pcie nif);
          pcie = (if pcie_in \<le> pcie_out then pcie_in else pcie_out) in
      if net < pcie then net else pcie)"

text \<open>
  Setting up the interfaces of a NIC: the pool is sized for the requested interfaces, each of them
  is initialised and listens on the pool, and all of them are established together.
\<close>

record nicif_env =
  nx_open :: int
  nx_truncate :: bool
  nx_map :: "u64 option"
  nx_net_listen :: listen_env
  nx_pcie_listen :: listen_env
  nx_rounds :: "(est_env list \<times> bool) list"

definition NicIf_shm_size :: "SimbricksBaseIfParams option \<Rightarrow> SimbricksBaseIfParams option \<Rightarrow> u64" where
  "NicIf_shm_size np pp = (case np of None \<Rightarrow> 0 | Some p \<Rightarrow> SHMSize p) + (case pp of None \<Rightarrow> 0 | Some p \<Rightarrow> SHMSize p)"

definition listen_if :: "listen_env \<Rightarrow> SimbricksBaseIfParams \<Rightarrow> SimbricksBaseIfSHMPool \<Rightarrow>
    (int \<times> SimbricksBaseIfSHMPool \<times> SimbricksBaseIf option) option" where
  "listen_if env p pool = (case SimbricksBaseIfInit p of
       None \<Rightarrow> Some (-1, pool, None)
     | Some b \<Rightarrow> do { (r, pool1, b1) \<leftarrow> Listen env pool b; Some (if r = 0 then 0 else -1, pool1, Some b1) })"

definition establish_if :: "SimbricksBaseIf \<Rightarrow> bytes \<Rightarrow> nat \<Rightarrow> EstablishData" where
  "establish_if b tx rx_len = \<lparr> base_if = b, tx_intro = tx, rx_intro = [], rx_intro_len = rx_len \<rparr>"

definition NicIfInit :: "nicif_env \<Rightarrow> string \<Rightarrow> SimbricksBaseIfParams option \<Rightarrow> SimbricksBaseIfParams option \<Rightarrow> bytes \<Rightarrow>
    SimbricksBaseIfSHMPool \<Rightarrow> (est_outcome \<times> SimbricksBaseIfSHMPool \<times> EstablishData list) option" where
  "NicIfInit env path np pp di pool0 =
     (case SHMPoolCreate path (NicIf_shm_size np pp) (nx_open env) (nx_truncate env) (nx_map env) pool0 of (r, pool) \<Rightarrow>
      if r \<noteq> 0 then Some (EstReturn (-1), pool, [])
      else do {
        (r1, pool1, net) \<leftarrow> (case np of None \<Rightarrow> Some (0, pool, None) | Some p \<Rightarrow> listen_if (nx_net_listen env) p pool);
        if r1 \<noteq> 0 then Some (EstReturn (-1), pool1, [])
        else do {
          (r2, pool2, pcie) \<leftarrow> (case pp of None \<Rightarrow> Some (0, pool1, None) | Some p \<Rightarrow> listen_if (nx_pcie_listen env) p pool1);
          if r2 \<noteq> 0 then Some (EstReturn (-1), pool2, [])
          else do {
            let ests = (case net of None \<Rightarrow> [] | Some b \<Rightarrow> [establish_if b (replicate 4 0) 4]) @
                       (case pcie of None \<Rightarrow> [] | Some b \<Rightarrow> [establish_if b di 4]);
            (oc, ests1) \<leftarrow> Establish (nx_rounds env) 0 ests;
            Some (oc, pool2, ests1) } } })"

text \<open>Closing both interfaces, the PCIe one first; the result is always a failure code.\<close>

definition NicIfCleanup :: "'b BaseMsg list list \<Rightarrow> net_queue list \<Rightarrow> SimbricksNicIf \<Rightarrow> (int \<times> SimbricksNicIf) option" where
  "NicIfCleanup pqs nqs nif = do {
     (_, p1) \<leftarrow> Close pqs (nic_pcie nif);
     (_, n1) \<leftarrow> Close nqs (nic_net nif);
     Some (-1, nif\<lparr> nic_net := n1, nic_pcie := p1 \<rparr>) }"

section \<open>Ports\<close>

datatype RxPollState = kRxPollSuccess | kRxPollFail | kRxPollSync | kRxPollError

record NetPort =
  netif :: SimbricksBaseIf
  rx :: "nat option"
  port_sync :: bool
  port_path :: string

definition NetPort_init :: "SimbricksBaseIfParams \<Rightarrow> NetPort \<Rightarrow> bool \<times> NetPort" where
  "NetPort_init netParams p =
     (case SimbricksBaseIfInit (netParams\<lparr> sync_mode := if port_sync p then SyncOptional else SyncDisabled,
               sock_path := Some (port_path p), blocking_conn := False \<rparr>) of
        None \<Rightarrow> (False, p) | Some b \<Rightarrow> (True, p\<lparr> netif := b \<rparr>))"

definition Prepare :: "SimbricksBaseIfParams \<Rightarrow> connect_env \<Rightarrow> NetPort \<Rightarrow> (bool \<times> NetPort) option" where
  "Prepare netParams env p =
     (case NetPort_init netParams p of
        (False, p1) \<Rightarrow> Some (False, p1)
      | (True, p1) \<Rightarrow> do {
          (r, b) \<leftarrow> Connect env (netif p1);
          Some (r = 0, p1\<lparr> netif := b \<rparr>) })"

definition Prepare_listen :: "SimbricksBaseIfParams \<Rightarrow> int \<Rightarrow> bool \<Rightarrow> u64 option \<Rightarrow> listen_env \<Rightarrow>
    SimbricksBaseIfSHMPool \<Rightarrow> NetPort \<Rightarrow> (bool \<times> SimbricksBaseIfSHMPool \<times> NetPort) option" where
  "Prepare_listen netParams open_fd trunc_ok mapped env pool p =
     (case NetPort_init netParams p of
        (False, p1) \<Rightarrow> Some (False, pool, p1)
      | (True, p1) \<Rightarrow>
          (case SHMPoolCreate (port_path p1 @ ''-shm'') (SHMSize (params (netif p1))) open_fd trunc_ok mapped pool of
            (r, pool1) \<Rightarrow>
             if r \<noteq> 0 then Some (False, pool1, p1)
             else do {
               (r2, pool2, b) \<leftarrow> Listen env pool1 (netif p1);
               Some (r2 = 0, pool2, p1\<lparr> netif := b \<rparr>) }))"

definition Prepared :: "NetPort \<Rightarrow> NetPort" where
  "Prepared p = p\<lparr> port_sync := sync (netif p) \<rparr>"

fun Sync :: "u64 \<Rightarrow> net_queue list \<Rightarrow> NetPort \<Rightarrow> (net_queue \<times> NetPort) option" where
  "Sync ts [] p = None"
| "Sync ts (q # qs) p = do {
     (r, q1, b1) \<leftarrow> OutSync ts q (netif p);
     if r \<noteq> 0 then Sync ts qs (p\<lparr> netif := b1 \<rparr>) else Some (q1, p\<lparr> netif := b1 \<rparr>) }"

definition NextTimestamp :: "NetPort \<Rightarrow> u64" where
  "NextTimestamp p = in_timestamp (netif p)"

text \<open>Receiving: the state of the poll, the packet bytes when there is one, the queue and the port.\<close>

definition RxPacket :: "u64 \<Rightarrow> net_queue \<Rightarrow> NetPort \<Rightarrow> (RxPollState \<times> bytes \<times> net_queue \<times> NetPort) option" where
  "RxPacket ts q p =
     (if rx p \<noteq> None then Some (kRxPollError, [], q, p)
      else do {
        (r, b1) \<leftarrow> InPoll ts q (netif p);
        let p1 = p\<lparr> netif := b1, rx := r \<rparr>;
        case r of
          None \<Rightarrow> Some (kRxPollFail, [], q, p1)
        | Some i \<Rightarrow>
            (let t = InType (q ! i) in
             if t = NET_MSG_PACKET then do {
               d \<leftarrow> rd (np_data (body (q ! i))) 0 (unat (np_len (body (q ! i))));
               Some (kRxPollSuccess, d, q, p1) }
             else if t = MSG_TYPE_SYNC then Some (kRxPollSync, [], InDone i q, p1\<lparr> rx := None \<rparr>)
             else Some (kRxPollError, [], InDone i q, p1\<lparr> rx := None \<rparr>)) })"

definition RxDone :: "net_queue \<Rightarrow> NetPort \<Rightarrow> net_queue \<times> NetPort" where
  "RxDone q p = (case rx p of None \<Rightarrow> (q, p) | Some i \<Rightarrow> (InDone i q, p\<lparr> rx := None \<rparr>))"

fun alloc_wait :: "u64 \<Rightarrow> 'b BaseMsg list list \<Rightarrow> SimbricksBaseIf \<Rightarrow> (nat \<times> 'b BaseMsg list \<times> SimbricksBaseIf) option" where
  "alloc_wait ts [] b = None"
| "alloc_wait ts (q # qs) b = do {
     (r, q1, b1) \<leftarrow> OutAlloc ts q b;
     case r of Some i \<Rightarrow> Some (i, q1, b1) | None \<Rightarrow> alloc_wait ts qs b1 }"

definition fill_packet :: "bytes \<Rightarrow> nat \<Rightarrow> net_queue \<Rightarrow> net_queue option" where
  "fill_packet data i q =
     (if length data \<le> length (np_data (body (q ! i)))
      then Some (q[i := (q ! i)\<lparr> body := \<lparr> np_len = of_nat (length data), np_port = 0,
                                      np_data = wr 0 data (np_data (body (q ! i))) \<rparr> \<rparr>])
      else None)"

text \<open>
  Transmitting: without synchronization a packet is dropped when the queue is full; with it, the
  port waits for a slot. The packet is copied without a test of its length.
\<close>

definition TxPacket :: "bytes \<Rightarrow> u64 \<Rightarrow> net_queue \<Rightarrow> net_queue list \<Rightarrow> NetPort \<Rightarrow> (bool \<times> net_queue \<times> NetPort) option" where
  "TxPacket data ts q qs p = do {
     (r, q1, b1) \<leftarrow> OutAlloc ts q (netif p);
     if r = None \<and> \<not> port_sync p then Some (False, q1, p\<lparr> netif := b1 \<rparr>)
     else do {
       (i, q2, b2) \<leftarrow> (case r of Some i \<Rightarrow> Some (i, q1, b1) | None \<Rightarrow> alloc_wait ts qs b1);
       q3 \<leftarrow> fill_packet data i q2;
       Some (True, OutSend i NET_MSG_PACKET q3, p\<lparr> netif := b2 \<rparr>) } }"

end
