(* ===== verification/Base_Safety.thy ===== *)
theory Base_Safety
  imports Base_If
begin

text \<open>
  Correctness of the base interface. A queue shared by a producer and a consumer is a FIFO channel
  of its capacity, whatever the interleaving of their operations; timestamps arrive in order, so
  that a simulator that waits for the timestamp it has seen never receives a message from its past.
  The handshake connects the two queues crosswise and both ends agree on synchronization, and
  establishing several connections never aborts.
\<close>

section \<open>Ownership\<close>

definition con :: "'b BaseMsg \<Rightarrow> bool" where
  "con m \<longleftrightarrow> own_type m AND MSG_OWN_MASK = MSG_OWN_CON"

definition pro :: "'b BaseMsg \<Rightarrow> bool" where
  "pro m \<longleftrightarrow> own_type m AND MSG_OWN_MASK = MSG_OWN_PRO"

lemma own_excl [simp]: "con m \<Longrightarrow> \<not> pro m"
  by (simp add: con_def pro_def)

lemma own_send [simp]: "con (m\<lparr> own_type := t OR 128 \<rparr>)"
  unfolding con_def by (simp add: bit_eq_iff bit_and_iff bit_or_iff)

lemma and_not_and: "(t AND NOT m) AND m = (0 :: u8)"
  by (simp add: bit_eq_iff bit_and_iff bit_not_iff)

lemma own_done [simp]: "pro (m\<lparr> own_type := t AND - 129 \<rparr>)"
  using and_not_and[of t MSG_OWN_MASK] by (simp add: pro_def)

lemma own_frame [simp]: "pro (m\<lparr> timestamp := t \<rparr>) = pro m" "con (m\<lparr> timestamp := t \<rparr>) = con m"
  "pro (m\<lparr> body := x \<rparr>) = pro m" "con (m\<lparr> body := x \<rparr>) = con m"
  by (simp_all add: pro_def con_def)

lemma window_inj:
  assumes "d \<le> k" "k < d + N" "d \<le> l" "l < d + N" "k mod N = l mod (N :: nat)"
  shows "k = l"
proof -
  have aux: "x = y" if "x \<le> y" "y - x < N" "y mod N = x mod N" for x y :: nat
  proof -
    have "N dvd y - x" using mod_eq_dvd_iff_nat[OF that(1)] that(3) by blast
    then show ?thesis using that(1,2) nat_dvd_not_less[of "y - x" N] by auto
  qed
  show ?thesis
  proof (cases "k \<le> l")
    case True
    moreover have "l - k < N" using assms(1,4) True by linarith
    ultimately show ?thesis using aux[of k l] assms(5) by simp
  next
    case False
    moreover have "k - l < N" using assms(2,3) False by linarith
    ultimately show ?thesis using aux[of l k] assms(5) by simp
  qed
qed

lemma unat_next:
  assumes "unat (p :: u64) < unat e"
  shows "unat ((p + 1) mod e) = (unat p + 1) mod unat e"
proof -
  have "unat p + 1 < 2 ^ 64" using assms unat_width(4)[of e] by simp
  then have "unat (p + 1) = unat p + 1" by (simp add: unat_word_ariths)
  then show ?thesis by (simp add: unat_mod_distrib)
qed

section \<open>A channel\<close>

text \<open>
  A queue with the interface of its producer and of its consumer. The slot that the producer has
  allocated and not yet sent, and the slot that the consumer has polled and not yet released, are
  the state of their programs; the messages sent and received so far are history.
\<close>

record 'b chan =
  cq :: "'b BaseMsg list"
  producer :: SimbricksBaseIf
  consumer :: SimbricksBaseIf
  pend :: "nat option"
  held :: "nat option"
  sent :: "'b BaseMsg list"
  rcvd :: "'b BaseMsg list"

inductive chan_step :: "'b chan \<Rightarrow> 'b chan \<Rightarrow> bool" where
  alloc: "pend c = None \<Longrightarrow> OutAlloc ts (cq c) (producer c) = Some (r, q', b') \<Longrightarrow>
    chan_step c (c\<lparr> cq := q', producer := b', pend := r \<rparr>)"
| send: "pend c = Some i \<Longrightarrow> q' = OutSend i ty ((cq c)[i := (cq c ! i)\<lparr> body := x \<rparr>]) \<Longrightarrow>
    chan_step c (c\<lparr> cq := q', pend := None, sent := sent c @ [q' ! i] \<rparr>)"
| poll: "held c = None \<Longrightarrow> InPoll ts (cq c) (consumer c) = Some (r, b') \<Longrightarrow>
    chan_step c (c\<lparr> consumer := b', held := r,
      rcvd := rcvd c @ (case r of None \<Rightarrow> [] | Some i \<Rightarrow> [cq c ! i]) \<rparr>)"
| release: "held c = Some i \<Longrightarrow> chan_step c (c\<lparr> cq := InDone i (cq c), held := None \<rparr>)"

inductive_cases chan_stepE: "chan_step c c'"

definition n_sent :: "'b chan \<Rightarrow> nat" where
  "n_sent c = length (sent c)"

definition n_done :: "'b chan \<Rightarrow> nat" where
  "n_done c = length (rcvd c) - (if held c = None then 0 else 1)"

definition chan_inv :: "nat \<Rightarrow> 'b chan \<Rightarrow> bool" where
  "chan_inv N c \<longleftrightarrow> 0 < N \<and> length (cq c) = N \<and> unat (out_enum (producer c)) = N \<and> unat (in_enum (consumer c)) = N \<and>
     unat (out_pos (producer c)) = (n_sent c + (if pend c = None then 0 else 1)) mod N \<and>
     unat (in_pos (consumer c)) = length (rcvd c) mod N \<and>
     length (rcvd c) \<le> n_sent c \<and> n_sent c + (if pend c = None then 0 else 1) \<le> n_done c + N \<and>
     (held c \<noteq> None \<longrightarrow> rcvd c \<noteq> []) \<and>
     (\<forall>i. pend c = Some i \<longrightarrow> i = n_sent c mod N) \<and> (\<forall>i. held c = Some i \<longrightarrow> i = n_done c mod N) \<and>
     rcvd c = take (length (rcvd c)) (sent c) \<and>
     (\<forall>k. n_done c \<le> k \<and> k < n_sent c \<longrightarrow> cq c ! (k mod N) = sent c ! k \<and> con (sent c ! k)) \<and>
     (\<forall>k. n_sent c \<le> k \<and> k < n_done c + N \<longrightarrow> pro (cq c ! (k mod N)))"

definition chan_init :: "nat \<Rightarrow> 'b chan \<Rightarrow> bool" where
  "chan_init N c \<longleftrightarrow> 0 < N \<and> length (cq c) = N \<and> (\<forall>m\<in>set (cq c). pro m) \<and>
     unat (out_enum (producer c)) = N \<and> unat (in_enum (consumer c)) = N \<and> out_pos (producer c) = 0 \<and> in_pos (consumer c) = 0 \<and>
     pend c = None \<and> held c = None \<and> sent c = [] \<and> rcvd c = []"

lemma chan_inv_init: "chan_init N c \<Longrightarrow> chan_inv N c"
  by (auto simp: chan_init_def chan_inv_def n_sent_def n_done_def)

lemma chan_invD:
  assumes "chan_inv N c"
  shows "0 < N" "length (cq c) = N" "unat (out_enum (producer c)) = N" "unat (in_enum (consumer c)) = N"
    "unat (out_pos (producer c)) = (n_sent c + (if pend c = None then 0 else 1)) mod N"
    "unat (in_pos (consumer c)) = length (rcvd c) mod N"
    "length (rcvd c) \<le> n_sent c" "n_sent c + (if pend c = None then 0 else 1) \<le> n_done c + N"
    "held c \<noteq> None \<Longrightarrow> rcvd c \<noteq> []"
    "pend c = Some i \<Longrightarrow> i = n_sent c mod N" "held c = Some i \<Longrightarrow> i = n_done c mod N"
    "rcvd c = take (length (rcvd c)) (sent c)"
    "n_done c \<le> k \<Longrightarrow> k < n_sent c \<Longrightarrow> cq c ! (k mod N) = sent c ! k \<and> con (sent c ! k)"
    "n_sent c \<le> k \<Longrightarrow> k < n_done c + N \<Longrightarrow> pro (cq c ! (k mod N))"
  using assms unfolding chan_inv_def by blast+

lemma n_done_le: "n_done c \<le> length (rcvd c)"
  by (simp add: n_done_def)

text \<open>Allocation succeeds exactly when fewer messages than slots are unreleased.\<close>

lemma OutAlloc_spec:
  assumes "chan_inv N c" "pend c = None"
  shows "OutAlloc ts (cq c) (producer c) =
    Some (if n_sent c < n_done c + N
      then (Some (n_sent c mod N), (cq c)[n_sent c mod N := (cq c ! (n_sent c mod N))\<lparr> timestamp := ts + link_latency (params (producer c)) \<rparr>],
        (producer c)\<lparr> out_pos := (out_pos (producer c) + 1) mod out_enum (producer c), out_timestamp := ts \<rparr>)
      else (None, cq c, producer c))"
proof -
  note d = chan_invD[OF assms(1)]
  have pos: "unat (out_pos (producer c)) = n_sent c mod N" using d(5) assms(2) by simp
  have s: "slot (cq c) (n_sent c mod N) = Some (cq c ! (n_sent c mod N))" using d(1,2) by (simp add: slot_def)
  have e: "out_enum (producer c) \<noteq> 0" using d(1,3) by auto
  show ?thesis
  proof (cases "n_sent c < n_done c + N")
    case True
    then have "pro (cq c ! (n_sent c mod N))" using d(14) by simp
    with True s e show ?thesis by (simp add: OutAlloc_def pos pro_def)
  next
    case False
    then have eq: "n_sent c = n_done c + N" using d(8) assms(2) by simp
    then have "con (cq c ! (n_sent c mod N))" using d(13)[of "n_done c"] d(1) by simp
    then have "\<not> pro (cq c ! (n_sent c mod N))" by simp
    with False s show ?thesis by (simp add: OutAlloc_def pos pro_def)
  qed
qed

text \<open>Polling finds the next message exactly when there is one and it is due.\<close>

lemma InPoll_spec:
  assumes "chan_inv N c" "held c = None" "InPoll ts (cq c) (consumer c) = Some (r, b')"
  shows "(case r of
      None \<Rightarrow> in_pos b' = in_pos (consumer c) \<and> in_enum b' = in_enum (consumer c) \<and>
        (length (rcvd c) < n_sent c \<longrightarrow> sync (consumer c) \<and> ts < timestamp (sent c ! length (rcvd c)) \<and>
           in_timestamp b' = timestamp (sent c ! length (rcvd c)))
    | Some i \<Rightarrow> i = length (rcvd c) mod N \<and> length (rcvd c) < n_sent c \<and> cq c ! i = sent c ! length (rcvd c) \<and>
        in_pos b' = (in_pos (consumer c) + 1) mod in_enum (consumer c) \<and> in_enum b' = in_enum (consumer c) \<and>
        (sync (consumer c) \<longrightarrow> timestamp (sent c ! length (rcvd c)) \<le> ts))"
proof -
  note d = chan_invD[OF assms(1)]
  let ?r = "length (rcvd c)"
  have nd: "n_done c = ?r" using assms(2) by (simp add: n_done_def)
  have s: "slot (cq c) (?r mod N) = Some (cq c ! (?r mod N))" using d(1,2) by (simp add: slot_def)
  have e: "in_enum (consumer c) \<noteq> 0" using d(1,4) by auto
  show ?thesis
  proof (cases "?r < n_sent c")
    case True
    then have c: "cq c ! (?r mod N) = sent c ! ?r" "con (sent c ! ?r)" using d(13)[of ?r] nd by auto
    with assms(3) s e True show ?thesis
      by (auto simp: InPoll_def InPeek_def d(6) con_def Let_def split: if_splits option.splits)
  next
    case False
    then have "pro (cq c ! (?r mod N))" using d(14)[of ?r] d(1,7) nd by simp
    then have "\<not> con (cq c ! (?r mod N))" using own_excl by blast
    with assms(3) s False show ?thesis
      by (auto simp: InPoll_def InPeek_def d(6) con_def Let_def split: if_splits option.splits)
  qed
qed

lemma chan_alloc_inv:
  assumes "chan_inv N c" "pend c = None" "OutAlloc ts (cq c) (producer c) = Some (r, q', b')"
    "c' = c\<lparr> cq := q', producer := b', pend := r \<rparr>"
  shows "chan_inv N c'"
proof -
  note d = chan_invD[OF assms(1)]
  have lt: "unat (out_pos (producer c)) < unat (out_enum (producer c))" using d(1,3,5) by simp
  show ?thesis
  proof (cases "n_sent c < n_done c + N")
    case True
    let ?s = "n_sent c mod N"
    have c': "c' = c\<lparr> cq := (cq c)[?s := (cq c ! ?s)\<lparr> timestamp := ts + link_latency (params (producer c)) \<rparr>],
      producer := (producer c)\<lparr> out_pos := (out_pos (producer c) + 1) mod out_enum (producer c), out_timestamp := ts \<rparr>, pend := Some ?s \<rparr>"
      using assms(3,4) OutAlloc_spec[OF assms(1) assms(2), of ts] True by simp
    have n: "n_sent c' = n_sent c" "n_done c' = n_done c" by (simp_all add: c' n_sent_def n_done_def)
    have other: "k mod N \<noteq> ?s" if "n_done c \<le> k" "k < n_sent c" for k
      using window_inj[of "n_done c" k N "n_sent c"] that True by auto
    have con: "cq c' ! (k mod N) = sent c' ! k \<and> con (sent c' ! k)" if "n_done c \<le> k" "k < n_sent c" for k
      using other[OF that] d(13)[OF that] by (simp add: c')
    show ?thesis unfolding chan_inv_def n using d True assms(2) unat_next[OF lt] con
      by (auto simp: c' mod_Suc_eq nth_list_update)
  next
    case False
    then have "c' = c" using assms(2-4) OutAlloc_spec[OF assms(1) assms(2), of ts] by (cases c) auto
    with assms(1) show ?thesis by simp
  qed
qed

lemma chan_send_inv:
  assumes "chan_inv N c" "pend c = Some i" "q' = OutSend i ty ((cq c)[i := (cq c ! i)\<lparr> body := x \<rparr>])"
    "c' = c\<lparr> cq := q', pend := None, sent := sent c @ [q' ! i] \<rparr>"
  shows "chan_inv N c'"
proof -
  note d = chan_invD[OF assms(1)]
  have i: "i = n_sent c mod N" "i < N" using d(10)[OF assms(2)] d(1) by simp_all
  have lt: "n_sent c < n_done c + N" using d(8) assms(2) by simp
  let ?m = "q' ! i"
  have q': "q' = (cq c)[i := ?m]" and m: "con ?m" using assms(3) i(2) d(2) by (simp_all add: OutSend_def)
  have n: "n_sent c' = Suc (n_sent c)" "n_done c' = n_done c" by (simp_all add: assms(4) n_sent_def n_done_def)
  have other: "k mod N \<noteq> i" if "n_done c \<le> k" "k < n_done c + N" "k \<noteq> n_sent c" for k
    using window_inj[of "n_done c" k N "n_sent c"] that lt d(7) n_done_le[of c] by (auto simp: i(1))
  have f: "cq c' = (cq c)[i := ?m]" "pend c' = None" "held c' = held c" "producer c' = producer c" "consumer c' = consumer c"
    "sent c' = sent c @ [?m]" "rcvd c' = rcvd c" using q' by (simp_all add: assms(4))
  have old: "cq c' ! (k mod N) = cq c ! (k mod N)" if "n_done c \<le> k" "k < n_done c + N" "k \<noteq> n_sent c" for k
    using other[OF that] by (simp add: f)
  have con: "cq c' ! (k mod N) = sent c' ! k \<and> con (sent c' ! k)" if k: "n_done c' \<le> k" "k < n_sent c'" for k
  proof (cases "k = n_sent c")
    case True
    then show ?thesis using m i d(2) by (simp add: f n_sent_def)
  next
    case False
    then have "k < n_sent c" "n_done c \<le> k" using k n by auto
    then show ?thesis using d(13)[of k] old[of k] lt by (simp add: f(6) n_sent_def nth_append)
  qed
  have pr: "pro (cq c' ! (k mod N))" if "n_sent c' \<le> k" "k < n_done c' + N" for k
    using d(14)[of k] old[of k] that n d(7) n_done_le[of c] by simp
  have rc: "rcvd c = take (length (rcvd c)) (sent c @ [?m])" using d(7,12) by (simp add: n_sent_def)
  have len: "length (cq c') = N" using d(2) by (simp add: f)
  show ?thesis unfolding chan_inv_def f(2-7) n
    using con[unfolded f(6)] pr d(1,3-9,11) lt rc assms(2) len by (simp add: n)
qed

lemma chan_poll_inv:
  assumes "chan_inv N c" "held c = None" "InPoll ts (cq c) (consumer c) = Some (r, b')"
    "c' = c\<lparr> consumer := b', held := r, rcvd := rcvd c @ (case r of None \<Rightarrow> [] | Some i \<Rightarrow> [cq c ! i]) \<rparr>"
  shows "chan_inv N c'"
proof -
  note d = chan_invD[OF assms(1)]
  note p = InPoll_spec[OF assms(1) assms(2,3)]
  have nd: "n_done c = length (rcvd c)" using assms(2) by (simp add: n_done_def)
  have lt: "unat (in_pos (consumer c)) < unat (in_enum (consumer c))" using d(1,4,6) by simp
  show ?thesis
  proof (cases r)
    case None
    have n: "n_sent c' = n_sent c" "n_done c' = n_done c" by (simp_all add: assms(4) n_sent_def n_done_def None assms(2))
    show ?thesis unfolding chan_inv_def n using d p None assms(2) by (auto simp: assms(4))
  next
    case (Some i)
    then have i: "i = n_done c mod N" "length (rcvd c) < n_sent c" "cq c ! i = sent c ! length (rcvd c)"
      "in_pos b' = (in_pos (consumer c) + 1) mod in_enum (consumer c)" "in_enum b' = in_enum (consumer c)"
      using p nd by auto
    have n: "n_sent c' = n_sent c" "n_done c' = n_done c" by (simp_all add: assms(4) n_sent_def n_done_def Some assms(2))
    have pos: "unat (in_pos b') = Suc (length (rcvd c)) mod N"
      using unat_next[OF lt] d(4,6) i(4) by (simp add: mod_Suc_eq)
    have rc: "take (Suc (length (rcvd c))) (sent c) = rcvd c @ [sent c ! length (rcvd c)]"
      using d(12) i(2) by (simp add: take_Suc_conv_app_nth n_sent_def)
    show ?thesis unfolding chan_inv_def n using d i pos Some assms(2) rc by (auto simp: assms(4))
  qed
qed

lemma chan_release_inv:
  assumes "chan_inv N c" "held c = Some i" "c' = c\<lparr> cq := InDone i (cq c), held := None \<rparr>"
  shows "chan_inv N c'"
proof -
  note d = chan_invD[OF assms(1)]
  have i: "i = n_done c mod N" "i < N" using d(11)[OF assms(2)] d(1) by simp_all
  have r: "length (rcvd c) = Suc (n_done c)" using d(9) assms(2) by (cases "rcvd c") (auto simp: n_done_def)
  have n: "n_sent c' = n_sent c" "n_done c' = Suc (n_done c)" using r by (simp_all add: assms(3) n_sent_def n_done_def)
  have q: "cq c' = InDone i (cq c)" by (simp add: assms(3))
  have len: "length (cq c') = N" using d(2) by (simp add: q InDone_def)
  have at: "pro (cq c' ! i)" using i(2) d(2) by (simp add: q InDone_def)
  have old: "cq c' ! (k mod N) = cq c ! (k mod N)" if "n_done c < k" "k < n_done c + N" for k
  proof -
    have "k mod N \<noteq> i" using window_inj[of "n_done c" k N "n_done c"] that d(1) by (auto simp: i(1))
    then show ?thesis by (simp add: q InDone_def)
  qed
  have con: "cq c' ! (k mod N) = sent c' ! k \<and> con (sent c' ! k)" if "n_done c' \<le> k" "k < n_sent c'" for k
    using d(13)[of k] old[of k] that n d(8) by (simp add: assms(3) split: if_splits)
  have pr: "pro (cq c' ! (k mod N))" if "n_sent c' \<le> k" "k < n_done c' + N" for k
  proof (cases "k = n_done c + N")
    case True
    then show ?thesis using at i(1) by simp
  next
    case False
    then show ?thesis using d(14)[of k] old[of k] that n r d(7) by simp
  qed
  show ?thesis unfolding chan_inv_def using d con pr n len r by (auto simp: assms(2,3))
qed

lemma chan_step_inv [inv_intros]:
  assumes "chan_inv N c" "chan_step c c'"
  shows "chan_inv N c'"
  using assms(2)
proof cases
  case (alloc ts r q' b')
  with chan_alloc_inv[OF assms(1)] show ?thesis by blast
next
  case (send i q' ty x)
  with chan_send_inv[OF assms(1)] show ?thesis by blast
next
  case (poll ts r b')
  with chan_poll_inv[OF assms(1)] show ?thesis by blast
next
  case (release i)
  with chan_release_inv[OF assms(1)] show ?thesis by blast
qed

lemma chan_reachable_inv: "chan_step\<^sup>*\<^sup>* c0 c \<Longrightarrow> chan_init N c0 \<Longrightarrow> chan_inv N c"
  by (induction rule: rtranclp_induct) (auto intro: chan_inv_init chan_step_inv)

section \<open>Timestamps\<close>

text \<open>
  The producer's clock does not run backwards, and its timestamps do not wrap around.
\<close>

inductive timed_step :: "'b chan \<Rightarrow> 'b chan \<Rightarrow> bool" where
  timed: "chan_step c c' \<Longrightarrow> out_timestamp (producer c) \<le> out_timestamp (producer c') \<Longrightarrow>
    unat (out_timestamp (producer c')) + unat (link_latency (params (producer c'))) < 2 ^ 64 \<Longrightarrow> timed_step c c'"

lemma timed_reachable: "timed_step\<^sup>*\<^sup>* c c' \<Longrightarrow> chan_step\<^sup>*\<^sup>* c c'"
  by (induction rule: rtranclp_induct) (auto elim!: timed_step.cases intro: rtranclp.rtrancl_into_rtrancl)

definition due :: "SimbricksBaseIf \<Rightarrow> u64" where
  "due b = out_timestamp b + link_latency (params b)"

definition time_inv :: "'b chan \<Rightarrow> bool" where
  "time_inv c \<longleftrightarrow> sorted (map timestamp (sent c)) \<and> (\<forall>m\<in>set (sent c). timestamp m \<le> due (producer c)) \<and>
     (\<forall>i. pend c = Some i \<longrightarrow> timestamp (cq c ! i) = due (producer c))"

lemma due_mono:
  assumes "out_timestamp b \<le> out_timestamp b'" "params b' = params b"
    "unat (out_timestamp b') + unat (link_latency (params b')) < 2 ^ 64"
  shows "due b \<le> due b'"
proof -
  have "unat (out_timestamp b) + unat (link_latency (params b)) < 2 ^ 64"
    using assms by (simp add: word_le_nat_alt)
  then have "unat (due b) = unat (out_timestamp b) + unat (link_latency (params b))"
    "unat (due b') = unat (out_timestamp b') + unat (link_latency (params b'))"
    using assms(3) by (simp_all add: due_def unat_word_ariths)
  with assms(1,2) show ?thesis by (simp add: word_le_nat_alt)
qed

lemma timed_step_inv:
  assumes "chan_inv N c" "time_inv c" "timed_step c c'"
  shows "time_inv c'"
  using assms(3)
proof cases
  case timed
  from timed(1) show ?thesis
  proof cases
    case (alloc ts r q' b')
    note d = chan_invD[OF assms(1)]
    show ?thesis
    proof (cases "n_sent c < n_done c + N")
      case True
      let ?s = "n_sent c mod N"
      have r: "r = Some ?s" "q' = (cq c)[?s := (cq c ! ?s)\<lparr> timestamp := ts + link_latency (params (producer c)) \<rparr>]"
        "out_timestamp b' = ts" "params b' = params (producer c)" and l: "?s < length (cq c)"
        using alloc OutAlloc_spec[OF assms(1) alloc(2), of ts] True d(1,2) by auto
      have "due (producer c) \<le> due b'" using due_mono[of "producer c" b'] timed(2,3) r alloc(1) by simp
      then show ?thesis using assms(2) r l by (auto simp: time_inv_def alloc(1) due_def intro: order_trans)
    next
      case False
      then have "c' = c" using alloc OutAlloc_spec[OF assms(1) alloc(2), of ts] by (cases c) auto
      with assms(2) show ?thesis by simp
    qed
  next
    case (send i q' ty x)
    have i: "i < length (cq c)" using chan_invD(1,2,10)[OF assms(1)] send(2) by simp
    then have "timestamp (q' ! i) = due (producer c)"
      using assms(2) send(2,3) by (simp add: time_inv_def OutSend_def)
    then show ?thesis using assms(2) by (auto simp: time_inv_def send(1) sorted_append)
  next
    case (poll ts r b')
    then show ?thesis using assms(2) by (auto simp: time_inv_def)
  next
    case (release i)
    have "timestamp (InDone i (cq c) ! k) = timestamp (cq c ! k)" for k
      by (cases "k = i"; cases "i < length (cq c)") (auto simp: InDone_def list_update_beyond)
    then show ?thesis using assms(2) by (auto simp: time_inv_def release(1))
  qed
qed

lemma timed_reachable_inv:
  assumes "timed_step\<^sup>*\<^sup>* c0 c" "chan_inv N c0" "time_inv c0"
  shows "chan_inv N c \<and> time_inv c"
  using assms(1)
proof (induction rule: rtranclp_induct)
  case base
  with assms(2,3) show ?case by simp
next
  case (step c c')
  then have "chan_step c c'" by (simp add: timed_step.simps)
  with step chan_step_inv timed_step_inv show ?case by blast
qed

lemma chan_step_history: "chan_step c c' \<Longrightarrow> \<exists>xs ys. sent c' = sent c @ xs \<and> rcvd c' = rcvd c @ ys"
  by (erule chan_stepE) auto

lemma reachable_history: "chan_step\<^sup>*\<^sup>* c c' \<Longrightarrow> \<exists>xs ys. sent c' = sent c @ xs \<and> rcvd c' = rcvd c @ ys"
proof (induction rule: rtranclp_induct)
  case (step c' c'')
  from step.IH chan_step_history[OF step.hyps(2)] show ?case by (metis append.assoc)
qed simp

section \<open>Properties of a channel\<close>

text \<open>
  C3. A queue is a FIFO channel of its capacity. In every interleaving of allocations, sends,
  polls and releases the messages received are a prefix of the messages sent, complete with type,
  timestamp and contents, and at most as many messages as there are slots are in flight.
\<close>

theorem ring_fifo:
  assumes "chan_init N c0" "chan_step\<^sup>*\<^sup>* c0 c"
  shows "rcvd c = take (length (rcvd c)) (sent c) \<and> length (sent c) \<le> length (rcvd c) + N"
proof -
  note d = chan_invD[OF chan_reachable_inv[OF assms(2,1)]]
  from d(8) n_done_le[of c] have "length (sent c) \<le> length (rcvd c) + N" by (simp add: n_sent_def split: if_splits)
  with d(12) show ?thesis by blast
qed

definition demo_params :: SimbricksBaseIfParams where
  "demo_params = DefaultParams\<lparr> sock_path := Some ''s'', in_num_entries := 2, out_num_entries := 2 \<rparr>"

definition demo_if :: SimbricksBaseIf where
  "demo_if = (the (SimbricksBaseIfInit demo_params))\<lparr> in_enum := 2, out_enum := 2, sync := True \<rparr>"

definition demo_chan :: "nat chan" where
  "demo_chan = \<lparr> cq = replicate 2 \<lparr> body = 0, timestamp = 0, own_type = 0 \<rparr>, producer = demo_if, consumer = demo_if,
     pend = None, held = None, sent = [], rcvd = [] \<rparr>"

lemma demo_chan_init: "chan_init 2 demo_chan"
  by (simp add: chan_init_def demo_chan_def demo_if_def pro_def SimbricksBaseIfInit_def demo_params_def DefaultParams_def)

definition demo_chan1 :: "nat chan" where
  "demo_chan1 = (case OutAlloc 10 (cq demo_chan) (producer demo_chan) of Some (r, q, b) \<Rightarrow>
     demo_chan\<lparr> cq := q, producer := b, pend := r \<rparr> | None \<Rightarrow> demo_chan)"

definition demo_chan2 :: "nat chan" where
  "demo_chan2 = (let q = OutSend 0 0x40 ((cq demo_chan1)[0 := (cq demo_chan1 ! 0)\<lparr> body := 7 \<rparr>]) in
     demo_chan1\<lparr> cq := q, pend := None, sent := sent demo_chan1 @ [q ! 0] \<rparr>)"

definition demo_chan3 :: "nat chan" where
  "demo_chan3 = (case InPoll 600000 (cq demo_chan2) (consumer demo_chan2) of Some (r, b) \<Rightarrow>
     demo_chan2\<lparr> consumer := b, held := r, rcvd := rcvd demo_chan2 @ (case r of None \<Rightarrow> [] | Some i \<Rightarrow> [cq demo_chan2 ! i]) \<rparr>
     | None \<Rightarrow> demo_chan2)"

lemma demo_timed: "timed_step\<^sup>*\<^sup>* demo_chan demo_chan2" "timed_step\<^sup>*\<^sup>* demo_chan2 demo_chan3"
proof -
  have n: "OutAlloc 10 (cq demo_chan) (producer demo_chan) \<noteq> None" by code_simp
  have 1: "chan_step demo_chan demo_chan1"
    using n chan_step.alloc[of demo_chan 10] by (auto simp: demo_chan1_def) (simp add: demo_chan_def)
  have "pend demo_chan1 = Some 0" by code_simp
  then have 2: "chan_step demo_chan1 demo_chan2"
    using chan_step.send[of demo_chan1 0] by (simp add: demo_chan2_def Let_def)
  have n3: "InPoll 600000 (cq demo_chan2) (consumer demo_chan2) \<noteq> None" "held demo_chan2 = None" by code_simp+
  have 3: "chan_step demo_chan2 demo_chan3"
    using n3 chan_step.poll[of demo_chan2 600000] by (auto simp: demo_chan3_def)
  have t: "out_timestamp (producer demo_chan) \<le> out_timestamp (producer demo_chan1)"
    "out_timestamp (producer demo_chan1) \<le> out_timestamp (producer demo_chan2)"
    "out_timestamp (producer demo_chan2) \<le> out_timestamp (producer demo_chan3)" by code_simp+
  have u: "out_timestamp (producer demo_chan1) = 10" "link_latency (params (producer demo_chan1)) = 500000"
    "out_timestamp (producer demo_chan2) = 10" "link_latency (params (producer demo_chan2)) = 500000"
    "out_timestamp (producer demo_chan3) = 10" "link_latency (params (producer demo_chan3)) = 500000" by code_simp+
  have "timed_step demo_chan demo_chan1" "timed_step demo_chan1 demo_chan2" "timed_step demo_chan2 demo_chan3"
    using 1 2 3 t u by (simp_all add: timed_step.simps)
  then show "timed_step\<^sup>*\<^sup>* demo_chan demo_chan2" "timed_step\<^sup>*\<^sup>* demo_chan2 demo_chan3" by (meson rtranclp.simps)+
qed

lemmas demo_chan2_reached = timed_reachable[OF demo_timed(1)]

theorem ring_fifo_witness:
  "rcvd demo_chan2 = take (length (rcvd demo_chan2)) (sent demo_chan2) \<and> map body (sent demo_chan2) = [7]"
proof
  show "rcvd demo_chan2 = take (length (rcvd demo_chan2)) (sent demo_chan2)"
    using ring_fifo[OF demo_chan_init demo_chan2_reached] by blast
  show "map body (sent demo_chan2) = [7]" by code_simp
qed

text \<open>
  C33. Neither side blocks without reason. In every reachable state a producer with nothing
  allocated gets a slot exactly when fewer messages than slots are unreleased, and a consumer that
  holds no message gets the oldest unreceived one exactly when there is one and, in a synchronized
  connection, its timestamp has been reached.
\<close>

theorem ring_progress:
  assumes "chan_init N c0" "chan_step\<^sup>*\<^sup>* c0 c"
  shows "(pend c = None \<longrightarrow> ((\<exists>i q b. OutAlloc ts (cq c) (producer c) = Some (Some i, q, b)) \<longleftrightarrow>
      length (sent c) < n_done c + N)) \<and>
    (held c = None \<longrightarrow> ((\<exists>i b. InPoll ts (cq c) (consumer c) = Some (Some i, b) \<and>
        cq c ! i = sent c ! length (rcvd c)) \<longleftrightarrow>
      length (rcvd c) < length (sent c) \<and> (sync (consumer c) \<longrightarrow> timestamp (sent c ! length (rcvd c)) \<le> ts)))"
proof (intro conjI impI)
  note inv = chan_reachable_inv[OF assms(2,1)]
  note d = chan_invD[OF inv]
  show "(\<exists>i q b. OutAlloc ts (cq c) (producer c) = Some (Some i, q, b)) \<longleftrightarrow>
      length (sent c) < n_done c + N"
    if "pend c = None" using OutAlloc_spec[OF inv that, of ts] by (simp add: n_sent_def)
  assume h: "held c = None"
  have "in_enum (consumer c) \<noteq> 0" using d(1,4) by auto
  moreover have "unat (in_pos (consumer c)) < length (cq c)" using d(1,2,6) by simp
  ultimately have "InPoll ts (cq c) (consumer c) \<noteq> None"
    by (simp add: InPoll_def InPeek_def slot_def Let_def)
  then obtain r b where r: "InPoll ts (cq c) (consumer c) = Some (r, b)" by auto
  show "(\<exists>i b. InPoll ts (cq c) (consumer c) = Some (Some i, b) \<and> cq c ! i = sent c ! length (rcvd c)) \<longleftrightarrow>
      length (rcvd c) < length (sent c) \<and> (sync (consumer c) \<longrightarrow> timestamp (sent c ! length (rcvd c)) \<le> ts)"
    using InPoll_spec[OF inv h r] by (cases r) (auto simp: r n_sent_def)
qed

theorem ring_progress_witness:
  "\<exists>i b. InPoll 500010 (cq demo_chan2) (consumer demo_chan2) = Some (Some i, b) \<and>
     cq demo_chan2 ! i = sent demo_chan2 ! length (rcvd demo_chan2)"
proof -
  have "held demo_chan2 = None" "length (rcvd demo_chan2) < length (sent demo_chan2)"
    "timestamp (sent demo_chan2 ! length (rcvd demo_chan2)) \<le> 500010" by code_simp+
  with ring_progress[OF demo_chan_init demo_chan2_reached, of 500010] show ?thesis by blast
qed

text \<open>
  C10. No message from the past. As long as the producer's clock does not run backwards and its
  time plus the link latency stays below \<open>2 ^ 64\<close>, a simulator whose poll was refused because the
  next message is in the future may advance to the timestamp it was shown: every message received
  from then on is due at that time or later. The termination message, which is sent at the largest
  time, is not covered: its timestamp wraps around (\<open>termination_timestamp_wraps\<close>).
\<close>

theorem no_message_in_the_past:
  assumes "chan_init N c0" "timed_step\<^sup>*\<^sup>* c0 c" "held c = None" "length (rcvd c) < length (sent c)"
    "InPoll ts (cq c) (consumer c) = Some (None, b)" "timed_step\<^sup>*\<^sup>* c c'"
    "m \<in> set (drop (length (rcvd c)) (rcvd c'))"
  shows "ts < in_timestamp b \<and> in_timestamp b \<le> timestamp m"
proof -
  let ?r = "length (rcvd c)"
  have t0: "chan_inv N c0" "time_inv c0" using assms(1) chan_inv_init by (auto simp: time_inv_def chan_init_def)
  note i1 = timed_reachable_inv[OF assms(2) t0]
  note i2 = timed_reachable_inv[OF assms(6) i1[THEN conjunct1] i1[THEN conjunct2]]
  obtain xs where xs: "sent c' = sent c @ xs" using reachable_history[OF timed_reachable[OF assms(6)]] by blast
  have ts: "ts < in_timestamp b" "in_timestamp b = timestamp (sent c' ! ?r)"
    using InPoll_spec[OF i1[THEN conjunct1] assms(3,5)] assms(4) by (auto simp: n_sent_def xs nth_append)
  obtain j where j: "m = rcvd c' ! j" "?r \<le> j" "j < length (rcvd c')"
    using assms(7) by (auto simp: in_set_conv_nth)
  have "m = sent c' ! j" "j < length (sent c')"
    using j chan_invD(7,12)[OF i2[THEN conjunct1]] by (auto simp: n_sent_def) (metis nth_take)
  moreover have "sorted (map timestamp (sent c'))" using i2 by (simp add: time_inv_def)
  ultimately have "timestamp (sent c' ! ?r) \<le> timestamp m" using j(2) sorted_nth_mono[of "map timestamp (sent c')" ?r j] by simp
  with ts show ?thesis by simp
qed

theorem no_message_in_the_past_witness:
  "\<exists>b. InPoll 5 (cq demo_chan2) (consumer demo_chan2) = Some (None, b) \<and> 5 < in_timestamp b \<and>
     in_timestamp b \<le> timestamp (hd (rcvd demo_chan3))"
proof -
  have n: "map_option fst (InPoll 5 (cq demo_chan2) (consumer demo_chan2)) = Some None" by code_simp
  then obtain b where b: "InPoll 5 (cq demo_chan2) (consumer demo_chan2) = Some (None, b)" by auto
  have h: "held demo_chan2 = None" "length (rcvd demo_chan2) < length (sent demo_chan2)"
    "length (rcvd demo_chan2) = 0" "length (rcvd demo_chan3) = 1" by code_simp+
  then have "hd (rcvd demo_chan3) \<in> set (drop (length (rcvd demo_chan2)) (rcvd demo_chan3))"
    by (cases "rcvd demo_chan3") auto
  from no_message_in_the_past[OF demo_chan_init demo_timed(1) h(1,2) b demo_timed(2) this] b show ?thesis by blast
qed

section \<open>Handshake\<close>

lemma length_enc_intro [simp]: "length (enc_ListenerIntro i) = 80" "length (enc_ConnecterIntro j) = 32"
  by (simp_all add: enc_ListenerIntro_def enc_ConnecterIntro_def)

lemma dec_enc_ListenerIntro [codec_simps]: "dec_ListenerIntro (enc_ListenerIntro i @ bs) = Some i"
  by (simp add: dec_ListenerIntro_def enc_ListenerIntro_def codec_simps)

lemma dec_enc_ConnecterIntro [codec_simps]: "dec_ConnecterIntro (enc_ConnecterIntro i @ bs) = Some i"
  by (simp add: dec_ConnecterIntro_def enc_ConnecterIntro_def codec_simps)

lemma intro_flags_bits [simp]:
  "intro_flags m AND 1 \<noteq> 0 \<longleftrightarrow> m \<noteq> SyncDisabled" "intro_flags m AND 2 \<noteq> 0 \<longleftrightarrow> m = SyncRequired"
  "intro_flags m AND 1 = 0 \<longleftrightarrow> m = SyncDisabled" "intro_flags m AND 2 = 0 \<longleftrightarrow> m \<noteq> SyncRequired"
  by (cases m; simp add: intro_flags_def)+

definition modes_agree :: "SyncMode \<Rightarrow> SyncMode \<Rightarrow> bool" where
  "modes_agree m m' \<longleftrightarrow> \<not> (m = SyncRequired \<and> m' = SyncDisabled) \<and> \<not> (m = SyncDisabled \<and> m' = SyncRequired)"

lemma intro_sync_peer:
  "intro_sync 1 (intro_flags m) up b =
     (if up = upper_layer_proto (params b) \<and> modes_agree m (sync_mode (params b))
      then Some (b\<lparr> sync := m \<noteq> SyncDisabled \<and> sync_mode (params b) \<noteq> SyncDisabled \<rparr>) else None)"
  by (cases m; cases "sync_mode (params b)") (auto simp: intro_sync_def modes_agree_def Let_def)

lemma upper_len:
  assumes "n + length pl \<le> 2048" "unat off = n"
  shows "unat (of_nat (n + length pl) - off :: u64) = length pl"
proof -
  have o: "unat (of_nat (n + length pl) :: u64) = n + length pl"
    using assms(1) by (simp add: unsigned_of_nat take_bit_nat_eq_self del: of_nat_add)
  then show ?thesis using assms(2) by (subst unat_sub) (simp_all add: word_le_nat_alt)
qed

lemma IntroRecv_listener:
  assumes "listener b" "conn_state b = kConnAwaitHandshakeRx" "length d \<le> 2048" "length pl \<le> n"
    "d = enc_ConnecterIntro ci @ pl" "co_version ci = 1" "co_flags ci = intro_flags m"
    "co_upper_layer_proto ci = upper_layer_proto (params b)" "co_upper_layer_intro_off ci = 32"
  shows "IntroRecv n (RecvData d) sa b = (if modes_agree m (sync_mode (params b))
    then Some (0, pl, b\<lparr> sync := m \<noteq> SyncDisabled \<and> sync_mode (params b) \<noteq> SyncDisabled, conn_state := kConnOpen \<rparr>)
    else Some (-1, [], b))"
proof -
  have "rd d 32 (length pl) = Some pl" "unat (of_nat (length d) - 32 :: u64) = length pl" "take 2048 d = d"
    "dec_ConnecterIntro d = Some ci"
    using assms(3,5) upper_len[of 32 pl 32] by (simp_all add: rd_def dec_enc_ConnecterIntro)
  with assms show ?thesis
    by (cases b) (auto simp: IntroRecv_def Let_def intro_sync_peer recv_done_def simp del: append_assoc)
qed

lemma IntroRecv_connecter:
  assumes "\<not> listener b" "conn_state b = kConnAwaitHandshakeRx" "length d \<le> 2048" "length pl \<le> n"
    "d = enc_ListenerIntro li @ pl" "li_version li = 1" "li_flags li = intro_flags m"
    "li_upper_layer_proto li = upper_layer_proto (params b)" "li_upper_layer_intro_off li = 80"
    "sa_fd sa = Some fd" "sa_alloc sa" "sa_stat sa = Some sz" "sa_map sa = Some base"
  shows "IntroRecv n (RecvData d) sa b = (if modes_agree m (sync_mode (params b))
    then Some (0, pl, b\<lparr> out_queue := base + c2l_offset li, out_elen := c2l_elen li, out_enum := c2l_nentries li,
           in_queue := base + l2c_offset li, in_elen := l2c_elen li, in_enum := l2c_nentries li, conn_state := kConnOpen,
           sync := m \<noteq> SyncDisabled \<and> sync_mode (params b) \<noteq> SyncDisabled,
           shm := Some \<lparr> pool_path = None, pool_fd = fd, pool_base = base, pool_size = sz, pool_pos = 0 \<rparr> \<rparr>)
    else Some (-1, [], b))"
proof -
  have "rd d 80 (length pl) = Some pl" "unat (of_nat (length d) - 80 :: u64) = length pl" "take 2048 d = d"
    "dec_ListenerIntro d = Some li"
    using assms(3,5) upper_len[of 80 pl 80] by (simp_all add: rd_def dec_enc_ListenerIntro)
  with assms show ?thesis
    by (cases b) (auto simp: IntroRecv_def Let_def intro_sync_peer recv_done_def SHMPoolMapFd_def SHMPool_zero_def)
qed

text \<open>
  C34. The handshake of a listener and a connecter of the same upper-layer protocol. The two
  introductions have at most 2048 bytes, their payloads fit the buffers of the receivers, and the
  connecter receives the descriptor of the shared memory and can map it. When each end receives
  what the other end sent, both succeed or both fail: they succeed exactly when no end requires the
  synchronization that the other one has disabled.
  Both are open then and agree on synchronization, each has the other's payload, and the
  connecter's outgoing queue is the listener's incoming queue and the other way round.
\<close>

theorem handshake_agrees:
  assumes "listener bl" "\<not> listener bc" "shm bl = Some pool"
    "conn_state bl = kConnAwaitHandshakeRxTx" "conn_state bc = kConnAwaitHandshakeRxTx"
    "upper_layer_proto (params bl) = upper_layer_proto (params bc)"
    "IntroSend pl int bl = Some (0, dl, bl1)" "IntroSend pc int bc = Some (0, dc, bc1)"
    "length dl \<le> 2048" "length dc \<le> 2048" "length pc \<le> nl" "length pl \<le> nc"
    "sa_fd sa = Some fd" "sa_alloc sa" "sa_stat sa = Some sz" "sa_map sa = Some base"
  shows "if modes_agree (sync_mode (params bl)) (sync_mode (params bc)) then
      \<exists>bl2 bc2. IntroRecv nl (RecvData dc) sa' bl1 = Some (0, pc, bl2) \<and>
        IntroRecv nc (RecvData dl) sa bc1 = Some (0, pl, bc2) \<and>
        conn_state bl2 = kConnOpen \<and> conn_state bc2 = kConnOpen \<and> sync bl2 = sync bc2 \<and>
        (sync bl2 \<longleftrightarrow> sync_mode (params bl) \<noteq> SyncDisabled \<and> sync_mode (params bc) \<noteq> SyncDisabled) \<and>
        out_queue bc2 - base = in_queue bl2 - pool_base pool \<and> out_elen bc2 = in_elen bl2 \<and> out_enum bc2 = in_enum bl2 \<and>
        in_queue bc2 - base = out_queue bl2 - pool_base pool \<and> in_elen bc2 = out_elen bl2 \<and> in_enum bc2 = out_enum bl2
    else (\<exists>x. IntroRecv nl (RecvData dc) sa' bl1 = Some (-1, [], x)) \<and>
         (\<exists>x. IntroRecv nc (RecvData dl) sa bc1 = Some (-1, [], x))"
proof -
  let ?li = "\<lparr> li_version = SIMBRICKS_PROTO_VERSION, li_flags = intro_flags (sync_mode (params bl)),
          l2c_offset = out_queue bl - pool_base pool, l2c_elen = out_elen bl, l2c_nentries = out_enum bl,
          c2l_offset = in_queue bl - pool_base pool, c2l_elen = in_elen bl, c2l_nentries = in_enum bl,
          li_upper_layer_proto = upper_layer_proto (params bl), li_upper_layer_intro_off = 80 \<rparr>"
  let ?ci = "\<lparr> co_version = SIMBRICKS_PROTO_VERSION, co_flags = intro_flags (sync_mode (params bc)),
          co_upper_layer_proto = upper_layer_proto (params bc), co_upper_layer_intro_off = 32 \<rparr>"
  have l: "dl = enc_ListenerIntro ?li @ pl" "bl1 = bl\<lparr> conn_state := kConnAwaitHandshakeRx \<rparr>"
    using assms(1,3,4,7) by (auto simp: IntroSend_def intro_bytes_def Let_def split: if_splits)
  have c: "dc = enc_ConnecterIntro ?ci @ pc" "bc1 = bc\<lparr> conn_state := kConnAwaitHandshakeRx \<rparr>"
    using assms(2,5,8) by (auto simp: IntroSend_def intro_bytes_def Let_def split: if_splits)
  have rl: "IntroRecv nl (RecvData dc) sa' bl1 = (if modes_agree (sync_mode (params bc)) (sync_mode (params bl))
      then Some (0, pc, bl1\<lparr> sync := sync_mode (params bc) \<noteq> SyncDisabled \<and> sync_mode (params bl) \<noteq> SyncDisabled,
        conn_state := kConnOpen \<rparr>) else Some (-1, [], bl1))"
    using IntroRecv_listener[of bl1 dc pc nl ?ci "sync_mode (params bc)" sa'] assms(1,6,10,11) c(1) l(2) by simp
  have rc: "IntroRecv nc (RecvData dl) sa bc1 = (if modes_agree (sync_mode (params bl)) (sync_mode (params bc))
      then Some (0, pl, bc1\<lparr> out_queue := base + c2l_offset ?li, out_elen := in_elen bl, out_enum := in_enum bl,
           in_queue := base + l2c_offset ?li, in_elen := out_elen bl, in_enum := out_enum bl, conn_state := kConnOpen,
           sync := sync_mode (params bl) \<noteq> SyncDisabled \<and> sync_mode (params bc) \<noteq> SyncDisabled,
           shm := Some \<lparr> pool_path = None, pool_fd = fd, pool_base = base, pool_size = sz, pool_pos = 0 \<rparr> \<rparr>)
      else Some (-1, [], bc1))"
    using IntroRecv_connecter[of bc1 dl pl nc ?li "sync_mode (params bl)" sa fd sz base] assms(2,6,9,12-16) l(1) c(2) by simp
  show ?thesis unfolding rl rc using l(2) by (auto simp: modes_agree_def)
qed

definition demo_pool :: SimbricksBaseIfSHMPool where
  "demo_pool = \<lparr> pool_path = Some ''p'', pool_fd = 3, pool_base = 4096, pool_size = 65536, pool_pos = 0 \<rparr>"

definition demo_listener :: SimbricksBaseIf where
  "demo_listener = demo_if\<lparr> in_queue := 4096, out_queue := 8192, in_elen := 2048, out_elen := 2048,
     conn_state := kConnAwaitHandshakeRxTx, shm := Some demo_pool, listener := True \<rparr>"

definition demo_connecter :: SimbricksBaseIf where
  "demo_connecter = demo_if\<lparr> conn_state := kConnAwaitHandshakeRxTx, in_enum := 0, out_enum := 0 \<rparr>"

theorem handshake_agrees_witness:
  "\<exists>dl bl1 dc bc1 bl2 bc2. IntroSend [1, 2] int demo_listener = Some (0, dl, bl1) \<and>
     IntroSend [3] int demo_connecter = Some (0, dc, bc1) \<and>
     IntroRecv 8 (RecvData dc) \<lparr> sa_fd = None, sa_alloc = False, sa_stat = None, sa_map = None \<rparr> bl1 = Some (0, [3], bl2) \<and>
     IntroRecv 8 (RecvData dl) \<lparr> sa_fd = Some 5, sa_alloc = True, sa_stat = Some 65536, sa_map = Some 70000 \<rparr> bc1 =
       Some (0, [1, 2], bc2) \<and> sync bl2 \<and> sync bc2"
proof -
  have s: "listener demo_listener" "\<not> listener demo_connecter" "shm demo_listener = Some demo_pool"
    "conn_state demo_listener = kConnAwaitHandshakeRxTx" "conn_state demo_connecter = kConnAwaitHandshakeRxTx"
    "upper_layer_proto (params demo_listener) = upper_layer_proto (params demo_connecter)"
    "sync_mode (params demo_listener) = SyncOptional" "sync_mode (params demo_connecter) = SyncOptional"
    by code_simp+
  obtain dl bl1 where l: "IntroSend [1, 2] int demo_listener = Some (0, dl, bl1)" "length dl = 82"
    using s by (auto simp: IntroSend_def intro_bytes_def Let_def)
  obtain dc bc1 where c: "IntroSend [3] int demo_connecter = Some (0, dc, bc1)" "length dc = 33"
    using s by (auto simp: IntroSend_def intro_bytes_def Let_def)
  show ?thesis
    using handshake_agrees[OF s(1-6) l(1) c(1), of 8 8 "\<lparr> sa_fd = Some 5, sa_alloc = True, sa_stat = Some 65536, sa_map = Some 70000 \<rparr>"
        5 65536 70000 "\<lparr> sa_fd = None, sa_alloc = False, sa_stat = None, sa_map = None \<rparr>"] l c s(7,8)
    by (simp add: modes_agree_def) blast
qed

section \<open>Establishing connections\<close>

lemma Connected_ret:
  assumes "Connected env b = (r, b1)"
  shows "r > 0 \<Longrightarrow> conn_waiting b1"
    "r = 0 \<Longrightarrow> conn_state b1 \<in> {kConnAwaitHandshakeRxTx, kConnAwaitHandshakeRx, kConnAwaitHandshakeTx, kConnOpen}"
  using assms by (auto simp: Connected_def AcceptOnBaseIf_def conn_waiting_def Let_def
      split: ConnState.splits if_splits option.splits)

lemma IntroSend_ret:
  "IntroSend pl sm b = Some (0, d, b1) \<Longrightarrow> conn_state b1 =
     (if conn_state b = kConnAwaitHandshakeTx then kConnOpen else kConnAwaitHandshakeRx)"
  by (auto simp: IntroSend_def Let_def bind_eq_Some_conv split: if_splits)

lemma IntroRecv_ret:
  assumes "IntroRecv n ra sa b = Some (r, pl, b1)" "conn_state b = kConnAwaitHandshakeRx"
  shows "r > 0 \<Longrightarrow> conn_state b1 = kConnAwaitHandshakeRx" "r = 0 \<Longrightarrow> conn_state b1 = kConnOpen"
  using assms by (auto simp: IntroRecv_def Let_def recv_done_def intro_sync_def
      split: recv_answer.split_asm if_split_asm option.split_asm prod.split_asm Option.bind_split_asm)

text \<open>An interface is open after its turn, or exactly one descriptor is waited for on its behalf.\<close>

lemma est_one_next:
  assumes "est_one env d = Some (EstNext fds d1)"
  shows "length fds = (if conn_state (base_if d1) = kConnOpen then 0 else 1)"
proof -
  obtain f1 e1 f2 e2 f3 where c: "est_connect env d = EstNext f1 e1" and s: "est_send env e1 = Some (EstNext f2 e2)"
    and r: "est_recv env e2 = Some (EstNext f3 d1)" and fds: "fds = f1 @ f2 @ f3"
    using assms by (auto simp: est_one_def split: est_result.split_asm Option.bind_split_asm)
  show ?thesis
  proof (cases "f1 = []")
    case True
    then have "conn_state (base_if e1) \<in> {kConnAwaitHandshakeRxTx, kConnAwaitHandshakeRx, kConnAwaitHandshakeTx, kConnOpen}"
      using c Connected_ret(2) by (fastforce simp: est_connect_def Let_def split: if_splits prod.splits)
    then have "f2 = []" "conn_state (base_if e2) \<in> {kConnAwaitHandshakeRx, kConnOpen}"
      using s IntroSend_ret by (auto simp: est_send_def bind_eq_Some_conv split: if_splits)
    with r True fds show ?thesis using IntroRecv_ret
      by (fastforce simp: est_recv_def bind_eq_Some_conv split: if_splits)
  next
    case False
    then have "conn_waiting (base_if e1)" "length f1 = 1"
      using c Connected_ret(1) by (fastforce simp: est_connect_def Let_def split: if_splits prod.splits)+
    with s r fds show ?thesis by (auto simp: est_send_def est_recv_def conn_waiting_def)
  qed
qed

lemma est_round_spec:
  assumes "est_round n envs fds ds = Some (oc, fds', ds')" "length envs = length ds" "length fds + length ds \<le> n"
  shows "oc \<noteq> Some EstAbort \<and> length ds' = length ds \<and>
    (oc = None \<longrightarrow> length fds' = length fds + length (filter (\<lambda>d. conn_state (base_if d) \<noteq> kConnOpen) ds'))"
  using assms
proof (induction n envs fds ds arbitrary: oc fds' ds' rule: est_round.induct)
  case (1 n env envs fds d ds)
  from 1(2) obtain r where r: "est_one env d = Some r" by (auto simp: bind_eq_Some_conv)
  show ?case
  proof (cases r)
    case (EstError d1)
    with 1(2,3) r show ?thesis by auto
  next
    case (EstNext f1 d1)
    note len = est_one_next[OF r[unfolded EstNext]]
    then have le: "length f1 \<le> 1" by (simp split: if_splits)
    then obtain f2 ds2 where rest: "est_round n envs (fds @ f1) ds = Some (oc, f2, ds2)"
      "fds' = f2" "ds' = d1 # ds2"
      using 1(2,4) r EstNext by (auto simp: bind_eq_Some_conv split: if_splits)
    from 1(1)[OF r EstNext _ rest(1)] 1(3,4) le len rest(2,3) show ?thesis by auto
  qed
qed auto

lemma est_round_error: "est_round n envs fds ds = Some (Some x, fds', ds') \<Longrightarrow> x \<in> {EstReturn (-1), EstAbort}"
  by (induction n envs fds ds arbitrary: fds' ds' rule: est_round.induct)
    (auto split: est_result.split_asm if_split_asm Option.bind_split_asm)

lemma n_established_all:
  "n_established ds + length (filter (\<lambda>d. conn_state (base_if d) \<noteq> kConnOpen) ds) = length ds"
  by (simp add: n_established_def sum_length_filter_compl)

lemma Establish_sound:
  assumes "\<forall>(envs, ok)\<in>set rounds. length envs = length ds" "k \<le> n_established ds"
    "Establish rounds k ds = Some (oc, ds')"
  shows "oc \<noteq> EstAbort \<and> (oc = EstReturn 0 \<longrightarrow> n_established ds' = length ds)"
  using assms
proof (induction rounds arbitrary: k ds)
  case Nil
  with n_established_all[of ds] show ?case by (auto simp: Establish.simps split: if_splits)
next
  case (Cons e rs)
  obtain envs ok where e: "e = (envs, ok)" by (cases e)
  note E = Establish.simps[of "(envs, ok) # rs" k ds]
  show ?case
  proof (cases "length ds \<le> k")
    case True
    with Cons.prems n_established_all[of ds] show ?thesis by (auto simp: e E)
  next
    case False
    obtain o1 f1 ds1 where r: "est_round (length ds) envs [] ds = Some (o1, f1, ds1)"
      using Cons.prems(3) False by (auto simp: e E bind_eq_Some_conv)
    have sp: "o1 \<noteq> Some EstAbort" "length ds1 = length ds"
        "o1 = None \<longrightarrow> length f1 = length (filter (\<lambda>d. conn_state (base_if d) \<noteq> kConnOpen) ds1)"
      using est_round_spec[OF r] Cons.prems(1) by (auto simp: e)
    show ?thesis
    proof (cases o1)
      case None
      have n: "n_established ds1 + length f1 = length ds" using sp None n_established_all[of ds1] by simp
      show ?thesis using Cons.IH[of ds1 "n_established ds1"] Cons.prems n sp(2) r False None
        by (auto simp: e E split: if_splits)
    next
      case (Some x)
      then show ?thesis using Cons.prems(3) r sp(1) False est_round_error[of "length ds" envs "[]" ds x]
        by (auto simp: e E)
    qed
  qed
qed

text \<open>
  C35. Establishing connections never reaches its two internal-error exits, whatever the
  operating system answers: in every round some descriptor is waited for unless all connections
  are open, and never more descriptors than connections. It reports success only when every
  connection is open.
\<close>

theorem Establish_never_aborts:
  assumes "\<forall>(envs, ok)\<in>set rounds. length envs = length ds" "Establish rounds 0 ds = Some (oc, ds')"
  shows "oc \<noteq> EstAbort \<and> (oc = EstReturn 0 \<longrightarrow> n_established ds' = length ds)"
  by (rule Establish_sound[OF assms(1) _ assms(2)]) simp

definition demo_env :: est_env where
  "demo_env = \<lparr> ee_conn = \<lparr> env_accept = \<lparr> ans_fd = 4, ans_again = False \<rparr>,
       env_poll = \<lparr> pa_ret = 0, pa_only_out = True, pa_sockerr = None \<rparr> \<rparr>, ee_sendmsg = int, ee_recv = RecvAgain,
     ee_shm = \<lparr> sa_fd = None, sa_alloc = False, sa_stat = None, sa_map = None \<rparr> \<rparr>"

definition demo_connecter_intro :: bytes where
  "demo_connecter_intro = enc_ConnecterIntro \<lparr> co_version = 1, co_flags = 1, co_upper_layer_proto = 0, co_upper_layer_intro_off = 32 \<rparr>"

definition demo_est :: EstablishData where
  "demo_est = \<lparr> base_if = demo_listener\<lparr> conn_state := kConnListening \<rparr>, tx_intro = [], rx_intro = [], rx_intro_len = 8 \<rparr>"

theorem Establish_never_aborts_witness:
  "\<exists>ds'. Establish [([demo_env], True), ([demo_env\<lparr> ee_recv := RecvData demo_connecter_intro \<rparr>], True)] 0 [demo_est] =
     Some (EstReturn 0, ds') \<and> n_established ds' = 1"
proof -
  let ?rounds = "[([demo_env], True), ([demo_env\<lparr> ee_recv := RecvData demo_connecter_intro \<rparr>], True)]"
  have "map_option (\<lambda>(oc, ds). oc = EstReturn 0) (Establish ?rounds 0 [demo_est]) = Some True" by code_simp
  then obtain ds' where e: "Establish ?rounds 0 [demo_est] = Some (EstReturn 0, ds')" by auto
  with Establish_never_aborts[OF _ e] show ?thesis by simp
qed

text \<open>
  C36. A listener takes its two queues from the free part of the pool: they follow each other,
  end inside the pool, and the pool's free part begins behind them, as long as the addresses up to
  the end of the requested queues do not exceed 64 bits (\<open>oversized_queues_admitted\<close> shows what the
  test of the sizes lets through otherwise).
\<close>

theorem Listen_regions:
  assumes "Listen env pool b = Some (0, pool', b')"
    "unat (in_num_entries (params b)) * unat (in_entries_size (params b)) = il"
    "unat (out_num_entries (params b)) * unat (out_entries_size (params b)) = ol"
    "unat (pool_base pool) + unat (pool_pos pool) + il + ol < 2 ^ 64"
  shows "unat (in_queue b') = unat (pool_base pool) + unat (pool_pos pool) \<and>
    unat (out_queue b') = unat (in_queue b') + il \<and>
    unat (pool_pos pool') = unat (pool_pos pool) + il + ol \<and> unat (pool_pos pool') \<le> unat (pool_size pool)"
proof -
  let ?i = "in_num_entries (params b) * in_entries_size (params b)"
  let ?o = "out_num_entries (params b) * out_entries_size (params b)"
  have io: "unat ?i = il" "unat ?o = ol" using assms(2-4) by (simp_all add: unat_word_ariths)
  have s: "unat (pool_pos pool + ?i + ?o) = unat (pool_pos pool) + il + ol"
    using assms(4) io by (simp add: unat_word_ariths)
  have q: "unat (pool_base pool + pool_pos pool) = unat (pool_base pool) + unat (pool_pos pool)"
    "unat (pool_base pool + (pool_pos pool + ?i)) = unat (pool_base pool) + unat (pool_pos pool) + il"
    using assms(4) io by (simp_all add: unat_word_ariths)
  have r: "in_queue b' = pool_base pool + pool_pos pool" "out_queue b' = pool_base pool + (pool_pos pool + ?i)"
    "pool_pos pool' = pool_pos pool + ?i + ?o" "pool_pos pool + ?i + ?o \<le> pool_size pool"
    using assms(1) by (auto simp: Listen_def Let_def AcceptOnBaseIf_def not_less split: if_split_asm Option.bind_split_asm prod.split_asm)
  show ?thesis using r(4) unfolding r(1-3) q s by (simp add: word_le_nat_alt s)
qed

theorem Listen_regions_witness:
  "\<exists>pool' b'. Listen \<lparr> le_socket = 3, le_fcntl = True, le_bind = True, le_listen = True,
       le_accept = \<lparr> ans_fd = -1, ans_again = True \<rparr> \<rparr> demo_pool demo_if = Some (0, pool', b') \<and>
     unat (out_queue b') = 8192"
proof -
  let ?env = "\<lparr> le_socket = 3, le_fcntl = True, le_bind = True, le_listen = True,
       le_accept = \<lparr> ans_fd = -1, ans_again = True \<rparr> \<rparr>"
  have "map_option fst (Listen ?env demo_pool demo_if) = Some 0" by code_simp
  then obtain pool' b' where l: "Listen ?env demo_pool demo_if = Some (0, pool', b')" by auto
  have p: "in_num_entries (params demo_if) = 2" "in_entries_size (params demo_if) = 2048"
    "out_num_entries (params demo_if) = 2" "out_entries_size (params demo_if) = 2048" by code_simp+
  show ?thesis using Listen_regions[OF l, of 4096 4096] l by (simp add: p demo_pool_def)
qed

section \<open>Defects\<close>

theorem SHMPoolMap_maps_descriptor_zero:
  "SHMPoolMap 7 (Some 4096) (Some 8192) SHMPool_zero =
     (0, \<lparr> pool_path = None, pool_fd = 0, pool_base = 8192, pool_size = 4096, pool_pos = 0 \<rparr>)"
  by code_simp

text \<open>
  The test of the requested sizes against the pool adds them with wrap-around: two queues of
  \<open>2 ^ 63\<close> bytes each are admitted into a pool of 65536 bytes.
\<close>

theorem oversized_queues_admitted:
  "map_option (\<lambda>(r, pool, b). r = 0 \<and> pool_pos pool = 0 \<and> out_queue b = pool_base demo_pool + 0x8000000000000000)
     (Listen \<lparr> le_socket = 3, le_fcntl = True, le_bind = True, le_listen = True,
        le_accept = \<lparr> ans_fd = -1, ans_again = True \<rparr> \<rparr> demo_pool
      (demo_if\<lparr> params := (params demo_if)\<lparr> in_num_entries := 0x80000000, in_entries_size := 0x100000000,
         out_num_entries := 0x80000000, out_entries_size := 0x100000000 \<rparr> \<rparr>)) = Some True"
  by code_simp

theorem ConnsWait_reads_unset_entry:
  "ConnsWait [(True, replicate 2 (True, ee_conn demo_env))]
     [demo_listener\<lparr> conn_state := kConnListening \<rparr>, demo_listener\<lparr> conn_state := kConnOpen \<rparr>] = None"
  by code_simp

theorem termination_timestamp_wraps:
  "map_option (\<lambda>(q, b). map timestamp (the q)) (Close [cq demo_chan] (demo_if\<lparr> conn_state := kConnOpen \<rparr>)) = Some [499999, 0]"
  by code_simp

end
