(* ===== verification/Port_Safety.thy ===== *)
theory Port_Safety
  imports Net_Port Base_Safety
begin

text \<open>
  Packets over a connection of two ports: what one port transmits is what the other one receives,
  and what becomes of a packet when the queue is full or the packet is too long.
\<close>

lemma wr_take: "length d \<le> length bs \<Longrightarrow> take (length d) (wr 0 d bs) = d"
  by (simp add: wr_def)

text \<open>A transmission into a queue with a free slot appends the packet to the messages sent.\<close>

lemma TxPacket_free:
  assumes "chan_inv N c" "pend c = None" "netif p = producer c" "n_sent c < n_done c + N"
    "length data \<le> length (np_data (body (cq c ! (n_sent c mod N))))"
  obtains q' p' m where "TxPacket data ts (cq c) qs p = Some (True, q', p')" "rx p' = rx p" "port_sync p' = port_sync p"
    "m = q' ! (n_sent c mod N)" "chan_inv N (c\<lparr> cq := q', producer := netif p', sent := sent c @ [m] \<rparr>)"
    "InType m = NET_MSG_PACKET" "np_len (body m) = of_nat (length data)"
    "take (length data) (np_data (body m)) = data" "length (np_data (body m)) = length (np_data (body (cq c ! (n_sent c mod N))))"
    "timestamp m = ts + link_latency (params (producer c))"
proof -
  let ?i = "n_sent c mod N"
  let ?m1 = "(cq c ! ?i)\<lparr> timestamp := ts + link_latency (params (producer c)) \<rparr>"
  let ?q1 = "(cq c)[?i := ?m1]"
  let ?b1 = "(producer c)\<lparr> out_pos := (out_pos (producer c) + 1) mod out_enum (producer c), out_timestamp := ts \<rparr>"
  have alloc: "OutAlloc ts (cq c) (producer c) = Some (Some ?i, ?q1, ?b1)"
    using OutAlloc_spec[OF assms(1,2), of ts] assms(4) by simp
  let ?c1 = "c\<lparr> cq := ?q1, producer := ?b1, pend := Some ?i \<rparr>"
  have c1: "chan_inv N ?c1" by (rule chan_alloc_inv[OF assms(1,2) alloc]) simp
  have i: "?i < length (cq c)" using chan_invD(1,2)[OF assms(1)] by simp
  let ?x = "\<lparr> np_len = of_nat (length data), np_port = 0, np_data = wr 0 data (np_data (body (?q1 ! ?i))) \<rparr>"
  let ?q2 = "OutSend ?i NET_MSG_PACKET (?q1[?i := (?q1 ! ?i)\<lparr> body := ?x \<rparr>])"
  have c2: "chan_inv N (?c1\<lparr> cq := ?q2, pend := None, sent := sent ?c1 @ [?q2 ! ?i] \<rparr>)"
    by (rule chan_send_inv[OF c1, of ?i ?q2 NET_MSG_PACKET ?x]) simp_all
  have eq: "?c1\<lparr> cq := ?q2, pend := None, sent := sent ?c1 @ [?q2 ! ?i] \<rparr> =
      c\<lparr> cq := ?q2, producer := ?b1, sent := sent c @ [?q2 ! ?i] \<rparr>"
    using assms(2) by (cases c) simp
  have tx: "TxPacket data ts (cq c) qs p = Some (True, ?q2, p\<lparr> netif := ?b1 \<rparr>)"
    using alloc assms(5) i by (simp add: TxPacket_def assms(3) fill_packet_def)
  have m: "?q2 ! ?i = (?m1\<lparr> body := ?x \<rparr>)\<lparr> own_type := NET_MSG_PACKET OR MSG_OWN_CON \<rparr>"
    using i by (simp add: OutSend_def)
  have nb: "netif (p\<lparr> netif := ?b1 \<rparr>) = ?b1" by simp
  show thesis
  proof (rule that[OF tx _ _ refl])
    show "chan_inv N (c\<lparr> cq := ?q2, producer := netif (p\<lparr> netif := ?b1 \<rparr>), sent := sent c @ [?q2 ! ?i] \<rparr>)"
      using c2 unfolding eq nb .
  qed (use i assms(5) in \<open>simp_all only: m, simp_all add: InType_def wr_take wr_def\<close>)
qed

text \<open>
  C39. Packets cross a connection unchanged. On a connection with nothing in flight and a packet
  that fits a slot and the length field, the transmitting port succeeds, and a poll of the
  receiving port at the packet's time or later returns exactly its bytes.
\<close>

theorem port_roundtrip:
  assumes "chan_inv N c" "pend c = None" "held c = None" "length (rcvd c) = length (sent c)"
    "netif p = producer c" "netif r = consumer c" "rx r = None"
    "length data \<le> length (np_data (body (cq c ! (length (sent c) mod N))))" "length data < 2 ^ 16"
    "sync (consumer c) \<longrightarrow> ts + link_latency (params (producer c)) \<le> ts'"
  shows "\<exists>q' p' r'. TxPacket data ts (cq c) qs p = Some (True, q', p') \<and>
    RxPacket ts' q' r = Some (kRxPollSuccess, data, q', r')"
proof -
  note d = chan_invD[OF assms(1)]
  have nd: "n_done c = n_sent c" using assms(3,4) by (simp add: n_done_def n_sent_def)
  have free: "n_sent c < n_done c + N" using d(1) nd by simp
  have fit: "length data \<le> length (np_data (body (cq c ! (n_sent c mod N))))" using assms(8) by (simp add: n_sent_def)
  let ?i = "n_sent c mod N"
  show ?thesis
  proof (rule TxPacket_free[OF assms(1,2,5) free fit, of ts qs])
    fix q' and p' :: NetPort and m
    let ?c' = "c\<lparr> cq := q', producer := netif p', sent := sent c @ [m] \<rparr>"
    assume tx: "TxPacket data ts (cq c) qs p = Some (True, q', p')" and m: "m = q' ! ?i" "InType m = NET_MSG_PACKET"
      "np_len (body m) = of_nat (length data)" "take (length data) (np_data (body m)) = data"
      "length (np_data (body m)) = length (np_data (body (cq c ! ?i)))" "timestamp m = ts + link_latency (params (producer c))"
      and inv: "chan_inv N ?c'"
    have e: "in_enum (consumer c) \<noteq> 0" using d(1,4) by auto
    have pos: "unat (in_pos (consumer c)) = ?i" using d(6) assms(4) by (simp add: n_sent_def)
    have con: "con (q' ! ?i)" "?i < length q'"
      using chan_invD(1,2)[OF inv] chan_invD(13)[OF inv, of "n_sent c"] nd assms(3) by (auto simp: n_sent_def n_done_def)
    have due: "\<not> (sync (consumer c) \<and> ts' < ts + link_latency (params (producer c)))"
      using assms(10) by (simp add: not_less)
    obtain b where poll: "InPoll ts' q' (consumer c) = Some (Some ?i, b)"
      using con e due m(1,6) pos by (simp add: InPoll_def InPeek_def slot_def con_def Let_def)
    have u: "unat (of_nat (length data) :: u16) = length data"
      using assms(9) by (simp add: unsigned_of_nat take_bit_nat_eq_self)
    have rd: "rd (np_data (body m)) 0 (length data) = Some data" using m(4,5) fit by (simp add: rd_def)
    have "RxPacket ts' q' r = Some (kRxPollSuccess, data, q', r\<lparr> netif := b, rx := Some ?i \<rparr>)"
      using poll m(1,2,3) u rd by (simp add: RxPacket_def assms(6,7))
    with tx show ?thesis by blast
  qed
qed

definition demo_net_chan :: "NetPacket chan" where
  "demo_net_chan = \<lparr> cq = replicate 2 \<lparr> body = \<lparr> np_len = 0, np_port = 0, np_data = replicate 4 0 \<rparr>, timestamp = 0, own_type = 0 \<rparr>,
     producer = demo_if, consumer = demo_if, pend = None, held = None, sent = [], rcvd = [] \<rparr>"

definition demo_port :: NetPort where
  "demo_port = \<lparr> netif = demo_if, rx = None, port_sync = True, port_path = ''p'' \<rparr>"

theorem port_roundtrip_witness:
  "\<exists>q' p' r'. TxPacket [7, 8, 9] 10 (cq demo_net_chan) [] demo_port = Some (True, q', p') \<and>
     RxPacket 500010 q' demo_port = Some (kRxPollSuccess, [7, 8, 9], q', r')"
proof (rule port_roundtrip[where N = 2 and c = demo_net_chan])
  have "chan_init 2 demo_net_chan"
    by (simp add: chan_init_def demo_net_chan_def demo_if_def pro_def SimbricksBaseIfInit_def demo_params_def DefaultParams_def)
  then show "chan_inv 2 demo_net_chan" by (rule chan_inv_init)
  show "sync (consumer demo_net_chan) \<longrightarrow> 10 + link_latency (params (producer demo_net_chan)) \<le> 500010" by code_simp
qed (simp_all add: demo_net_chan_def demo_port_def)

text \<open>
  A packet that is longer than the data area of a slot is copied over its end, and a packet whose
  length does not fit sixteen bits would arrive with a shorter length.
\<close>

theorem oversized_packet_overruns_slot:
  "TxPacket [7, 8, 9, 10, 11] 10 (cq demo_net_chan) [] demo_port = None"
  by code_simp

text \<open>
  A full queue. A port without synchronization drops the packet and reports it, with the
  queue untouched; a synchronized port waits and transmits in the first view of the queue that has
  the slot free.
\<close>

theorem TxPacket_full:
  assumes "chan_inv N c" "pend c = None" "netif p = producer c" "length (sent c) = n_done c + N"
  shows "TxPacket data ts (cq c) qs p = (if \<not> port_sync p then Some (False, cq c, p)
    else (case alloc_wait ts qs (netif p) of None \<Rightarrow> None
      | Some (i, q2, b2) \<Rightarrow> map_option (\<lambda>q3. (True, OutSend i NET_MSG_PACKET q3, p\<lparr> netif := b2 \<rparr>)) (fill_packet data i q2)))"
proof -
  have "OutAlloc ts (cq c) (producer c) = Some (None, cq c, producer c)"
    using OutAlloc_spec[OF assms(1,2), of ts] assms(4) by (simp add: n_sent_def)
  moreover have "p\<lparr> netif := producer c \<rparr> = p" using assms(3) by (cases p) simp
  ultimately show ?thesis
    by (cases "alloc_wait ts qs (producer c)") (auto simp: TxPacket_def assms(3) map_option_case split: option.split)
qed

definition demo_full_chan :: "NetPacket chan" where
  "demo_full_chan = (let m = \<lparr> body = \<lparr> np_len = 0, np_port = 0, np_data = replicate 4 0 \<rparr>, timestamp = 0, own_type = 0x80 \<rparr> in
     demo_net_chan\<lparr> cq := replicate 2 m, sent := replicate 2 m \<rparr>)"

theorem TxPacket_full_witness:
  "TxPacket [1] 10 (cq demo_full_chan) [] (demo_port\<lparr> port_sync := False \<rparr>) =
     Some (False, cq demo_full_chan, demo_port\<lparr> port_sync := False \<rparr>)"
proof -
  have "in_pos demo_if = 0" "out_pos demo_if = 0" "unat (in_enum demo_if) = 2" "unat (out_enum demo_if) = 2"
    by (simp_all add: demo_if_def SimbricksBaseIfInit_def demo_params_def DefaultParams_def)
  then have "chan_inv 2 demo_full_chan"
    by (auto simp: chan_inv_def demo_full_chan_def demo_net_chan_def n_sent_def n_done_def con_def Let_def)
  from TxPacket_full[OF this, of "demo_port\<lparr> port_sync := False \<rparr>" "[1]" 10 "[]"]
  show ?thesis by (simp add: demo_full_chan_def demo_net_chan_def demo_port_def n_done_def Let_def)
qed

end
