(* ===== verification/Switch_Ports.thy ===== *)
theory Switch_Ports
  imports Switch_Safety Port_Safety
begin

text \<open>
  The transmissions of the switch: the calls of \<open>TxPacket\<close> that a pass makes, performed on the
  queues of its ports. A port without synchronization drops what finds no slot, a synchronized port
  waits for one; here the peers take nothing while the pass runs, so a wait does not end.
\<close>

section \<open>Performing the calls\<close>

fun TxCalls :: "tx_packet list \<Rightarrow> (net_queue \<times> NetPort) list \<Rightarrow> (bool list \<times> (net_queue \<times> NetPort) list) option" where
  "TxCalls [] ps = Some ([], ps)"
| "TxCalls (t # ts) ps = (case ps ! tx_port t of (q, p) \<Rightarrow> do {
     (ok, q', p') \<leftarrow> TxPacket (tx_data t) (tx_time t) q [] p;
     (oks, ps') \<leftarrow> TxCalls ts (ps[tx_port t := (q', p')]);
     Some (ok # oks, ps') })"

text \<open>
  The ports with their channels: queues of \<open>N\<close> slots whose data areas have \<open>L\<close> bytes, none of them
  handed out to a sender.
\<close>

definition port_chan :: "nat \<Rightarrow> nat \<Rightarrow> NetPacket chan \<Rightarrow> net_queue \<times> NetPort \<Rightarrow> bool" where
  "port_chan N L c x \<longleftrightarrow> chan_inv N c \<and> pend c = None \<and> fst x = cq c \<and> netif (snd x) = producer c \<and>
     (\<forall>i<N. length (np_data (body (cq c ! i))) = L)"

definition room :: "nat \<Rightarrow> 'b chan \<Rightarrow> nat" where
  "room N c = n_done c + N - n_sent c"

definition calls_to :: "nat \<Rightarrow> tx_packet list \<Rightarrow> tx_packet list" where
  "calls_to i tx = filter (\<lambda>t. tx_port t = i) tx"

definition no_wait :: "nat \<Rightarrow> tx_packet list \<Rightarrow> NetPacket chan list \<Rightarrow> (net_queue \<times> NetPort) list \<Rightarrow> bool" where
  "no_wait N tx cs ps \<longleftrightarrow> (\<forall>i<length cs. port_sync (snd (ps ! i)) \<longrightarrow> length (calls_to i tx) \<le> room N (cs ! i))"

text \<open>What a queued message carries: the packet and the time at which it is due.\<close>

definition packet_in :: "NetPacket BaseMsg \<Rightarrow> bytes \<times> u64" where
  "packet_in m = (take (unat (np_len (body m))) (np_data (body m)), timestamp m)"

definition packet_of :: "NetPacket chan \<Rightarrow> tx_packet \<Rightarrow> bytes \<times> u64" where
  "packet_of c t = (tx_data t, tx_time t + link_latency (params (producer c)))"

lemma call_free:
  assumes "port_chan N L c (q, p)" "0 < room N c" "length (tx_data t) \<le> L" "L < 2 ^ 16"
  obtains q' p' c' m where "TxPacket (tx_data t) (tx_time t) q [] p = Some (True, q', p')" "port_chan N L c' (q', p')"
    "port_sync p' = port_sync p" "sent c' = sent c @ [m]" "packet_in m = packet_of c t"
    "room N c = Suc (room N c')" "params (producer c') = params (producer c)" "rcvd c' = rcvd c" "held c' = held c"
proof -
  note c = assms(1)[unfolded port_chan_def fst_conv snd_conv]
  let ?i = "n_sent c mod N"
  have inv: "chan_inv N c" "pend c = None" "netif p = producer c" and q: "q = cq c" using c by auto
  have i: "?i < N" using chan_invD(1)[OF inv(1)] by simp
  have free: "n_sent c < n_done c + N" using assms(2) by (simp add: room_def)
  have fit: "length (tx_data t) \<le> length (np_data (body (cq c ! ?i)))" using c i assms(3) by auto
  have al: "OutAlloc (tx_time t) (cq c) (producer c) = Some (Some ?i, (cq c)[?i := (cq c ! ?i)\<lparr> timestamp := tx_time t + link_latency (params (producer c)) \<rparr>],
        (producer c)\<lparr> out_pos := (out_pos (producer c) + 1) mod out_enum (producer c), out_timestamp := tx_time t \<rparr>)"
    using OutAlloc_spec[OF inv(1,2), of "tx_time t"] free by simp
  obtain q' p' m where tx: "TxPacket (tx_data t) (tx_time t) (cq c) [] p = Some (True, q', p')" "port_sync p' = port_sync p"
    "m = q' ! ?i" "chan_inv N (c\<lparr> cq := q', producer := netif p', sent := sent c @ [m] \<rparr>)"
    "np_len (body m) = of_nat (length (tx_data t))" "take (length (tx_data t)) (np_data (body m)) = tx_data t"
    "length (np_data (body m)) = length (np_data (body (cq c ! ?i)))"
    "timestamp m = tx_time t + link_latency (params (producer c))"
    using TxPacket_free[OF inv free fit, of "tx_time t" "[]"] by metis
  let ?c = "c\<lparr> cq := q', producer := netif p', sent := sent c @ [m] \<rparr>"
  have pr: "params (netif p') = params (producer c)" and
    nth: "\<And>j. j < N \<Longrightarrow> j \<noteq> ?i \<Longrightarrow> q' ! j = cq c ! j"
    using tx(1) al chan_invD(2)[OF inv(1)] i
    by (auto simp: TxPacket_def inv(3) fill_packet_def OutSend_def split: if_split_asm)
  have "\<forall>j<N. length (np_data (body (q' ! j))) = L"
    using nth c tx(3,7) i by (metis (no_types, lifting))
  then have pc: "port_chan N L ?c (q', p')" using tx(4) inv(2) by (simp add: port_chan_def)
  have u: "unat (of_nat (length (tx_data t)) :: u16) = length (tx_data t)"
    using assms(3,4) by (simp add: unsigned_of_nat take_bit_nat_eq_self)
  have "packet_in m = packet_of c t" using tx(5,6,8) u by (simp add: packet_in_def packet_of_def)
  moreover have "room N c = Suc (room N ?c)" using free by (simp add: room_def n_sent_def n_done_def)
  ultimately show thesis using that[OF tx(1)[folded q] pc tx(2), of m] pr by simp
qed

lemma call_full:
  assumes "port_chan N L c (q, p)" "room N c = 0"
  shows "TxPacket data ts q [] p = (if port_sync p then None else Some (False, q, p))"
proof -
  note c = assms(1)[unfolded port_chan_def fst_conv snd_conv]
  have "length (sent c) = n_done c + N" using c assms(2) chan_invD(8)[of N c] by (simp add: room_def n_sent_def)
  with TxPacket_full[of N c p data ts "[]"] c show ?thesis by simp
qed

text \<open>
  The calls in a row: a port takes its calls in order as far as it has room and drops the others,
  and every call returns when no synchronized port is asked for more than its room.
\<close>

lemma TxCalls_spec:
  assumes "list_all2 (port_chan N L) cs ps" "\<forall>t\<in>set tx. tx_port t < length cs \<and> length (tx_data t) \<le> L" "L < 2 ^ 16"
    "no_wait N tx cs ps"
  shows "\<exists>oks ps' cs'. TxCalls tx ps = Some (oks, ps') \<and> list_all2 (port_chan N L) cs' ps' \<and> length cs' = length cs \<and>
    (\<forall>i<length cs. rcvd (cs' ! i) = rcvd (cs ! i) \<and> (\<exists>ms. sent (cs' ! i) = sent (cs ! i) @ ms \<and>
      map packet_in ms = map (packet_of (cs ! i)) (take (room N (cs ! i)) (calls_to i tx))))"
  using assms(1,2,4)
proof (induction tx arbitrary: cs ps)
  case Nil
  then show ?case by (auto simp: calls_to_def)
next
  case (Cons t tx)
  let ?j = "tx_port t"
  have j: "?j < length cs" "?j < length ps" using Cons.prems(1,2) by (auto dest: list_all2_lengthD)
  obtain q p where qp: "ps ! ?j = (q, p)" by fastforce
  have pc: "port_chan N L (cs ! ?j) (q, p)" using list_all2_nthD[OF Cons.prems(1) j(1)] qp by simp
  show ?case
  proof (cases "room N (cs ! ?j) = 0")
    case True
    have ns: "\<not> port_sync p"
      using Cons.prems(3) j(1) True qp by (auto simp: no_wait_def calls_to_def)
    then have call: "TxPacket (tx_data t) (tx_time t) q [] p = Some (False, q, p)" using call_full[OF pc True] by simp
    have ps: "ps[?j := (q, p)] = ps" using qp by (metis list_update_id)
    have nw: "no_wait N tx cs ps" using Cons.prems(3) by (fastforce simp: no_wait_def calls_to_def split: if_splits)
    obtain oks ps' cs' where r: "TxCalls tx ps = Some (oks, ps')" "list_all2 (port_chan N L) cs' ps'" "length cs' = length cs"
      "\<forall>i<length cs. rcvd (cs' ! i) = rcvd (cs ! i) \<and> (\<exists>ms. sent (cs' ! i) = sent (cs ! i) @ ms \<and>
        map packet_in ms = map (packet_of (cs ! i)) (take (room N (cs ! i)) (calls_to i tx)))"
      using Cons.IH[OF Cons.prems(1) _ nw] Cons.prems(2) by auto
    have "take (room N (cs ! i)) (calls_to i (t # tx)) = take (room N (cs ! i)) (calls_to i tx)" if "i < length cs" for i
      using True by (auto simp: calls_to_def)
    then show ?thesis using r call by (auto simp: qp ps)
  next
    case False
    then have "0 < room N (cs ! ?j)" by simp
    moreover have "length (tx_data t) \<le> L" using Cons.prems(2) by simp
    ultimately obtain q' p' c' m where call: "TxPacket (tx_data t) (tx_time t) q [] p = Some (True, q', p')" "port_chan N L c' (q', p')"
      "port_sync p' = port_sync p" "sent c' = sent (cs ! ?j) @ [m]" "packet_in m = packet_of (cs ! ?j) t"
      "room N (cs ! ?j) = Suc (room N c')" "params (producer c') = params (producer (cs ! ?j))" "rcvd c' = rcvd (cs ! ?j)"
      by (rule call_free[OF pc _ _ assms(3)]) blast
    let ?cs = "cs[?j := c']" and ?ps = "ps[?j := (q', p')]"
    have ok: "list_all2 (port_chan N L) ?cs ?ps" using Cons.prems(1) call(2) by (rule list_all2_update_cong)
    have "length (calls_to i tx) \<le> room N (?cs ! i)" if i: "i < length cs" "port_sync (snd (?ps ! i))" for i
    proof (cases "i = ?j")
      case True
      with i(2) j call(3) qp have "port_sync (snd (ps ! i))" by simp
      then have "length (calls_to ?j (t # tx)) \<le> room N (cs ! ?j)" using Cons.prems(3) i(1) True by (simp only: no_wait_def)
      then show ?thesis using True call(6) j by (simp add: calls_to_def)
    next
      case False
      then have e: "calls_to i (t # tx) = calls_to i tx" "?cs ! i = cs ! i" "?ps ! i = ps ! i" by (auto simp: calls_to_def)
      show ?thesis using i Cons.prems(3) unfolding no_wait_def e(2,3) e(1)[symmetric] by blast
    qed
    then have nw: "no_wait N tx ?cs ?ps" by (simp add: no_wait_def)
    obtain oks ps' cs' where r: "TxCalls tx ?ps = Some (oks, ps')" "list_all2 (port_chan N L) cs' ps'" "length cs' = length ?cs"
      "\<forall>i<length ?cs. rcvd (cs' ! i) = rcvd (?cs ! i) \<and> (\<exists>ms. sent (cs' ! i) = sent (?cs ! i) @ ms \<and>
        map packet_in ms = map (packet_of (?cs ! i)) (take (room N (?cs ! i)) (calls_to i tx)))"
      using Cons.IH[OF ok _ nw] Cons.prems(2) by auto
    have "rcvd (cs' ! i) = rcvd (cs ! i) \<and> (\<exists>ms. sent (cs' ! i) = sent (cs ! i) @ ms \<and>
        map packet_in ms = map (packet_of (cs ! i)) (take (room N (cs ! i)) (calls_to i (t # tx))))" if "i < length cs" for i
    proof (cases "i = ?j")
      case True
      obtain ms where ms: "sent (cs' ! ?j) = sent c' @ ms" "rcvd (cs' ! ?j) = rcvd c'"
        "map packet_in ms = map (packet_of c') (take (room N c') (calls_to ?j tx))" using r(4) j(1) by fastforce
      have "packet_of c' = packet_of (cs ! ?j)" using call(7) by (simp add: packet_of_def fun_eq_iff)
      with ms call(4,5,6,8) True show ?thesis by (intro conjI exI[of _ "m # ms"]) (simp_all add: calls_to_def)
    next
      case False
      with r(4) that show ?thesis by (auto simp: calls_to_def)
    qed
    with r(1-3) call(1) show ?thesis by (auto simp: qp)
  qed
qed

section \<open>A concrete switch\<close>

definition demo_switch1 :: HcopSwitch where
  "demo_switch1 = demo_switch\<lparr> n_ports := 3,
     event_queue := [\<lparr> ev_timestamp = 0, ingress_port = 1, ev_data = demo_acquire 1 \<rparr>] \<rparr>"

definition demo_eth_chan :: "NetPacket chan" where
  "demo_eth_chan = demo_net_chan\<lparr> cq := replicate 2 \<lparr> body = \<lparr> np_len = 0, np_port = 0, np_data = replicate 1536 0 \<rparr>,
     timestamp = 0, own_type = 0 \<rparr> \<rparr>"

section \<open>Properties\<close>

text \<open>
  C37. A pass ends. For every well-formed switch and every choice of the priority queue the event
  loop ends with all due packets processed. The transmissions it makes return as well when the
  packets fit the slots of the ports and no synchronized port is asked for more packets than its
  queue has room for: then each port has queued its packets in order and unchanged, as far as it
  has room, each due at the current time plus the latency of the link; a port without
  synchronization drops the others.
\<close>

theorem pass_completes:
  assumes "pick_ok pick" "switch_ok s" "list_all2 (port_chan N L) cs ps" "length cs = n_ports s" "L < 2 ^ 16"
  shows "\<exists>tx s'. ProcessEvents pick s = Some (tx, s') \<and> switch_ok s' \<and>
    mset (event_queue s') = filter_mset (\<lambda>e. cur_ts s < ev_timestamp e) (mset (event_queue s)) \<and>
    ((\<forall>t\<in>set tx. length (tx_data t) \<le> L) \<and> no_wait N tx cs ps \<longrightarrow>
     (\<exists>oks ps' cs'. TxCalls tx ps = Some (oks, ps') \<and> list_all2 (port_chan N L) cs' ps' \<and> length cs' = n_ports s \<and>
       (\<forall>i<n_ports s. rcvd (cs' ! i) = rcvd (cs ! i) \<and> (\<exists>ms. sent (cs' ! i) = sent (cs ! i) @ ms \<and>
         map packet_in ms = map (\<lambda>t. (tx_data t, cur_ts s + link_latency (params (producer (cs ! i)))))
           (take (room N (cs ! i)) (filter (\<lambda>t. tx_port t = i) tx))))))"
proof -
  obtain tx s' where p: "ProcessEvents pick s = Some (tx, s')" "switch_ok s'"
    "mset (event_queue s') = filter_mset (\<lambda>e. cur_ts s < ev_timestamp e) (mset (event_queue s))"
    "\<forall>t\<in>set tx. tx_time t = cur_ts s \<and> tx_port t < n_ports s"
    using ProcessEvents_spec[OF assms(1,2)] by blast
  have "map (packet_of (cs ! i)) (take k (calls_to i tx)) =
      map (\<lambda>t. (tx_data t, cur_ts s + link_latency (params (producer (cs ! i))))) (take k (filter (\<lambda>t. tx_port t = i) tx))" for i k
    unfolding calls_to_def using p(4) by (intro map_cong) (auto simp: packet_of_def dest!: in_set_takeD)
  with p TxCalls_spec[OF assms(3) _ assms(5), of tx] show ?thesis unfolding assms(4)
    by (intro exI[of _ tx] exI[of _ s'] conjI) simp_all
qed

definition demo_ports :: "(net_queue \<times> NetPort) list" where
  "demo_ports = replicate 3 (cq demo_eth_chan, demo_port)"

lemma demo_ports_ok: "list_all2 (port_chan 2 1536) (replicate 3 demo_eth_chan) demo_ports"
proof -
  have "chan_init 2 demo_eth_chan"
    by (simp add: chan_init_def demo_eth_chan_def demo_net_chan_def demo_if_def pro_def SimbricksBaseIfInit_def demo_params_def DefaultParams_def)
  then have "port_chan 2 1536 demo_eth_chan (cq demo_eth_chan, demo_port)"
    by (auto simp: port_chan_def demo_eth_chan_def demo_net_chan_def demo_port_def dest: chan_inv_init)
  then show ?thesis by (simp add: demo_ports_def numeral_eq_Suc)
qed

lemma demo_no_wait:
  assumes "length tx \<le> 2"
  shows "no_wait 2 tx (replicate 3 demo_eth_chan) demo_ports"
proof -
  have "length (calls_to i tx) \<le> 2" for i
    using assms length_filter_le[of "\<lambda>t. tx_port t = i" tx] unfolding calls_to_def by (rule order_trans[rotated])
  then show ?thesis by (simp add: no_wait_def room_def demo_eth_chan_def demo_net_chan_def n_sent_def n_done_def flip: numeral_2_eq_2)
qed

theorem pass_completes_witness:
  "\<exists>tx s' oks ps'. ProcessEvents least_event demo_switch1 = Some (tx, s') \<and> tx \<noteq> [] \<and>
     TxCalls tx demo_ports = Some (oks, ps')"
proof -
  let ?ok = "\<lambda>tx. list_all (\<lambda>t. length (tx_data t) \<le> 1536 \<and> tx_port t < 3) tx \<and> length tx = 1"
  have "(case ProcessEvents least_event demo_switch1 of Some (tx, s') \<Rightarrow> ?ok tx | None \<Rightarrow> False)" by code_simp
  then obtain tx s' where e: "ProcessEvents least_event demo_switch1 = Some (tx, s')" "?ok tx"
    by (auto split: option.splits)
  have "switch_ok demo_switch" using switch_ok_new[OF demo_switch_new] by simp
  moreover have "packet_safe (demo_acquire 1)" by code_simp
  ultimately have ok: "switch_ok demo_switch1" by (simp add: switch_ok_def demo_switch1_def)
  have nw: "no_wait 2 tx (replicate 3 demo_eth_chan) demo_ports" using e(2) by (intro demo_no_wait) simp
  have n: "length (replicate 3 demo_eth_chan) = n_ports demo_switch1" "(1536 :: nat) < 2 ^ 16" by (simp_all add: demo_switch1_def)
  have "\<forall>t\<in>set tx. length (tx_data t) \<le> 1536" "tx \<noteq> []" using e(2) by (auto simp: list_all_iff)
  moreover from this(1) obtain oks ps' where "TxCalls tx demo_ports = Some (oks, ps')"
    using pass_completes[OF least_event_ok ok demo_ports_ok n] e(1) nw by (elim exE conjE) (simp del: TxCalls.simps, blast)
  ultimately show ?thesis using e(1) by blast
qed

text \<open>
  A synchronized port whose queue is full keeps the switch waiting: as long as its peer takes
  nothing, the pass does not end.
\<close>

lemma full_port_blocks:
  assumes "list_all2 (port_chan N L) cs ps" "tx_port t < length cs" "room N (cs ! tx_port t) = 0" "port_sync (snd (ps ! tx_port t))"
  shows "TxCalls (t # tx) ps = None"
proof -
  obtain q p where qp: "ps ! tx_port t = (q, p)" by fastforce
  have "port_chan N L (cs ! tx_port t) (q, p)" using list_all2_nthD[OF assms(1,2)] qp by simp
  from call_full[OF this assms(3)] show ?thesis using assms(4) by (simp add: qp)
qed

text \<open>
  C38. A response reaches the queue of its destination's port. The switch processes and forwards,
  the packet did not come from the fallback port and carries no exception and a payload, and the
  state machine of its primitive accepts it with messages in answer. Then every message to a single
  node that has a port of the switch is transmitted on that port with exactly its bytes behind the
  HCOP header, provided that the port has a free slot of that size and no transmission to
  a synchronized port has to wait; and the new state of the state machine is the engine's.
\<close>

theorem switch_delivers_responses:
  assumes "i < length (event_queue s)" "ev = event_queue s ! i" "is_hcop (ev_data ev)" "length (ev_data ev) \<noteq> 30"
    "e = primitive_engine s" "placement_mode (config e) = kProcessAndForward"
    "int (ingress_port ev) \<noteq> fallback_port_index (config e)" "exception_type (header_of (ev_data ev)) = 0"
    "engine_machine (primitive_type (header_of (ev_data ev))) (cur_ts s div 1000) (drop 30 (ev_data ev)) e =
       Some (Respond, out, e1)"
    "m \<in> set out" "dest_id m \<noteq> 255" "GetPortForNode e1 (dest_id m) = int p" "p < n_ports s"
    "list_all2 (port_chan N L) cs ps" "length cs = n_ports s" "30 + length (out_data m) \<le> L" "L < 2 ^ 16"
    "0 < room N (cs ! p)" "\<forall>tx s'. process_event i s = Some (tx, s') \<longrightarrow> no_wait N tx cs ps"
  shows "\<exists>tx s' oks ps' cs'. process_event i s = Some (tx, s') \<and> primitive_engine s' = e1 \<and>
    TxCalls tx ps = Some (oks, ps') \<and> list_all2 (port_chan N L) cs' ps' \<and>
    (\<exists>x xs frame. sent (cs' ! p) = sent (cs ! p) @ x # xs \<and> drop 30 frame = out_data m \<and>
      packet_in x = (frame, cur_ts s + link_latency (params (producer (cs ! p)))))"
proof -
  obtain tx s' t where r: "process_event i s = Some (tx, s')" "primitive_engine s' = e1" "t \<in> set tx" "tx_port t = p"
    "drop 30 (tx_data t) = out_data m" "\<forall>u\<in>set tx. tx_data u = tx_data t \<and> tx_time u = cur_ts s \<and> tx_port u < n_ports s"
    using process_event_responds[OF assms(1-13)] by blast
  have "length (tx_data t) \<le> 30 + length (drop 30 (tx_data t))" by simp
  then have "length (tx_data t) \<le> L" using assms(16) r(5) by simp
  then have fit: "\<forall>u\<in>set tx. tx_port u < length cs \<and> length (tx_data u) \<le> L" using r(6) assms(15) by simp
  obtain oks ps' cs' ms where c: "TxCalls tx ps = Some (oks, ps')" "list_all2 (port_chan N L) cs' ps'"
    "sent (cs' ! p) = sent (cs ! p) @ ms"
    "map packet_in ms = map (packet_of (cs ! p)) (take (room N (cs ! p)) (calls_to p tx))"
    using TxCalls_spec[OF assms(14) fit assms(17)] assms(19) r(1) assms(13,15) by auto
  have "t \<in> set (calls_to p tx)" using r(3,4) by (simp add: calls_to_def)
  then obtain u us where u: "calls_to p tx = u # us" by (cases "calls_to p tx") auto
  then have u': "u \<in> set tx" using filter_is_subset[of "\<lambda>t. tx_port t = p" tx] unfolding calls_to_def by auto
  from u obtain x xs where x: "ms = x # xs" "packet_in x = packet_of (cs ! p) u"
    using c(4) assms(18) by (cases "room N (cs ! p)") (auto simp: map_eq_Cons_conv)
  have "packet_in x = (tx_data t, cur_ts s + link_latency (params (producer (cs ! p))))"
    using x(2) r(6) u' by (simp add: packet_of_def)
  with r(1,2,5) c(1-3) x(1) show ?thesis by blast
qed

theorem switch_delivers_responses_witness:
  "\<exists>tx s' oks ps' cs' x xs. process_event 0 demo_switch1 = Some (tx, s') \<and> TxCalls tx demo_ports = Some (oks, ps') \<and>
     list_all2 (port_chan 2 1536) cs' ps' \<and> sent (cs' ! 1) = x # xs"
proof -
  let ?ev = "event_queue demo_switch1 ! 0"
  let ?e = "primitive_engine demo_switch1"
  let ?m = "engine_machine (primitive_type (header_of (ev_data ?ev))) (cur_ts demo_switch1 div 1000) (drop 30 (ev_data ?ev)) ?e"
  have "(case ?m of Some (Respond, [m], e1) \<Rightarrow> dest_id m = 1 \<and> GetPortForNode e1 1 = 1 \<and> length (out_data m) \<le> 64 | _ \<Rightarrow> False)"
    by code_simp
  then obtain m e1 where m: "?m = Some (Respond, [m], e1)" "dest_id m = 1" "GetPortForNode e1 1 = 1" "length (out_data m) \<le> 64"
    by (auto split: option.splits prod.splits outcome.splits list.splits)
  have h: "0 < length (event_queue demo_switch1)" "is_hcop (ev_data ?ev)" "length (ev_data ?ev) \<noteq> 30"
    "placement_mode (config ?e) = kProcessAndForward" "int (ingress_port ?ev) \<noteq> fallback_port_index (config ?e)"
    "exception_type (header_of (ev_data ?ev)) = 0" "1 < n_ports demo_switch1" "n_ports demo_switch1 = 3" by code_simp+
  have "map_option (\<lambda>(tx, s'). length tx) (process_event 0 demo_switch1) = Some 1" by code_simp
  then have nw: "\<forall>tx s'. process_event 0 demo_switch1 = Some (tx, s') \<longrightarrow> no_wait 2 tx (replicate 3 demo_eth_chan) demo_ports"
    by (auto intro!: demo_no_wait)
  have m': "m \<in> set [m]" "dest_id m \<noteq> 255" "GetPortForNode e1 (dest_id m) = int 1"
    "length (replicate 3 demo_eth_chan) = n_ports demo_switch1" "30 + length (out_data m) \<le> 1536" "(1536 :: nat) < 2 ^ 16"
    "0 < room 2 (replicate 3 demo_eth_chan ! 1)" "sent (replicate 3 demo_eth_chan ! 1) = []"
    using m h(8) by (simp_all add: room_def demo_eth_chan_def demo_net_chan_def n_sent_def n_done_def)
  from switch_delivers_responses[OF h(1) refl h(2,3) refl h(4-6) m(1) m'(1-3) h(7) demo_ports_ok m'(4-7) nw]
  show ?thesis unfolding m'(8) append_Nil by (elim exE conjE) (intro exI conjI, assumption+)
qed

end
