(* ===== verification/Parser.thy ===== *)
theory Parser
  imports Net_Port
begin

text \<open>
  Adapter URLs (\<^verbatim>\<open>lib/simbricks/parser/parser.c\<close>): their parser, and the set-up of a list of
  interfaces from a list of URLs. A pointer range of the text is the list of its characters;
  \<open>NextDelimiter\<close> yields the characters before the delimiter and those behind it, both empty when
  the text ends there. Allocations of the parser succeed, and their memory is not cleared: the
  latency and the interval of the result that no argument sets are what the allocated memory held,
  an argument of the parser. They are read only together with their flag.
\<close>

section \<open>URL parser\<close>

record SimbricksAdapterParams =
  ap_listen :: bool
  socket_path :: string
  shm_path :: "string option"
  ap_sync :: bool
  link_latency_set :: bool
  ap_link_latency :: u64
  sync_interval_set :: bool
  ap_sync_interval :: u64

definition NextDelimiter :: "string \<Rightarrow> char \<Rightarrow> string \<times> string" where
  "NextDelimiter s c = (takeWhile (\<lambda>x. x \<noteq> c) s, drop 1 (dropWhile (\<lambda>x. x \<noteq> c) s))"

lemma NextDelimiter_shorter:
  assumes "(field, rest) = NextDelimiter s c" "s \<noteq> []"
  shows "length rest < length s"
proof -
  have "length (dropWhile (\<lambda>x. x \<noteq> c) s) \<le> length s" by (rule length_dropWhile_le)
  then show ?thesis using assms by (cases s) (auto simp: NextDelimiter_def)
qed

text \<open>
  The decimal conversion of the C library: white space and a sign are skipped, a negative number
  wraps around, and the conversion fails on a text without digits, on trailing characters and on
  a magnitude beyond 64 bits.
\<close>

definition is_digit :: "char \<Rightarrow> bool" where
  "is_digit c = (48 \<le> (of_char c :: nat) \<and> (of_char c :: nat) \<le> 57)"

definition is_space :: "char \<Rightarrow> bool" where
  "is_space c = ((of_char c :: nat) = 32 \<or> 9 \<le> (of_char c :: nat) \<and> (of_char c :: nat) \<le> 13)"

definition digits_val :: "string \<Rightarrow> nat" where
  "digits_val ds = foldl (\<lambda>a c. 10 * a + (of_char c - 48)) 0 ds"

definition ParseUInteger :: "string \<Rightarrow> u64 option" where
  "ParseUInteger s =
     (let t = dropWhile is_space s;
          neg = (t \<noteq> [] \<and> hd t = CHR ''-'');
          ds = (if t \<noteq> [] \<and> (hd t = CHR ''-'' \<or> hd t = CHR ''+'') then tl t else t) in
      if ds = [] \<or> \<not> list_all is_digit ds \<or> digits_val ds \<ge> 2 ^ 64 then None
      else Some (if neg then - of_nat (digits_val ds) else of_nat (digits_val ds)))"

text \<open>The optional arguments, in their order; a later value replaces an earlier one.\<close>

function parse_args :: "string \<Rightarrow> SimbricksAdapterParams \<Rightarrow> SimbricksAdapterParams option" where
  "parse_args s p =
     (if s = [] then Some p
      else case NextDelimiter s CHR '':'' of (field, rest) \<Rightarrow>
        (case NextDelimiter field CHR ''='' of (name, arg) \<Rightarrow>
           if arg = [] then None
           else if name = ''latency'' then
             (case ParseUInteger arg of None \<Rightarrow> None
              | Some v \<Rightarrow> parse_args rest (p\<lparr> ap_link_latency := v, link_latency_set := True \<rparr>))
           else if name = ''sync_interval'' then
             (case ParseUInteger arg of None \<Rightarrow> None
              | Some v \<Rightarrow> parse_args rest (p\<lparr> ap_sync_interval := v, sync_interval_set := True \<rparr>))
           else None))"
  by pat_completeness auto

termination
  by (relation "measure (\<lambda>(s, p). length s)") (simp_all add: NextDelimiter_shorter)

declare parse_args.simps [simp del]

text \<open>The first argument is the contents of the allocated memory at the latency and at the interval.\<close>

type_synonym unset_params = "u64 \<times> u64"

definition SimbricksParametersParse :: "unset_params \<Rightarrow> string \<Rightarrow> SimbricksAdapterParams option" where
  "SimbricksParametersParse mem url =
     (case NextDelimiter url CHR '':'' of (ty, r1) \<Rightarrow>
      if ty \<noteq> ''connect'' \<and> ty \<noteq> ''listen'' then None
      else if r1 = [] then None
      else case NextDelimiter r1 CHR '':'' of (sock, r2) \<Rightarrow>
        if sock = [] then None
        else do {
          (shmp, r3) \<leftarrow> (if ty = ''listen'' then
              (if r2 = [] then None
               else case NextDelimiter r2 CHR '':'' of (shmp, r3) \<Rightarrow> if shmp = [] then None else Some (Some shmp, r3))
            else Some (None, r2));
          if r3 = [] then None
          else case NextDelimiter r3 CHR '':'' of (field, r4) \<Rightarrow>
            (case NextDelimiter field CHR ''='' of (name, arg) \<Rightarrow>
              if name \<noteq> ''sync'' \<or> arg \<noteq> ''true'' \<and> arg \<noteq> ''false'' then None
              else parse_args r4 \<lparr> ap_listen = (ty = ''listen''), socket_path = sock, shm_path = shmp,
                ap_sync = (arg = ''true''), link_latency_set = False, ap_link_latency = fst mem,
                sync_interval_set = False, ap_sync_interval = snd mem \<rparr>) })"

section \<open>Setting up interfaces from URLs\<close>

definition apply_params :: "SimbricksAdapterParams \<Rightarrow> SimbricksBaseIfParams \<Rightarrow> SimbricksBaseIfParams" where
  "apply_params ap p0 =
     (let p = p0\<lparr> blocking_conn := False, sock_path := Some (socket_path ap) \<rparr> in
      if ap_sync ap then
        (let p1 = p\<lparr> sync_mode := SyncRequired \<rparr>;
             p2 = (if link_latency_set ap then p1\<lparr> link_latency := ap_link_latency ap \<rparr> else p1) in
         if sync_interval_set ap then p2\<lparr> sync_interval := ap_sync_interval ap \<rparr> else p2)
      else p\<lparr> sync_mode := SyncDisabled \<rparr>)"

definition mempool_size :: "(SimbricksAdapterParams \<times> SimbricksBaseIfParams) list \<Rightarrow> u64" where
  "mempool_size ps = sum_list (map (\<lambda>(ap, bp). if ap_listen ap then SHMSize bp else 0) ps)"

text \<open>
  The answers of the operating system: the memory allocated for each URL, and the answers to the
  pool, per interface, to the establishment, to unmapping.
\<close>

record param_env =
  pe_mem :: "nat \<Rightarrow> unset_params"
  pe_open :: int
  pe_truncate :: bool
  pe_map :: "u64 option"
  pe_ifs :: "(listen_env \<times> connect_env) list"
  pe_rounds :: "(est_env list \<times> bool) list"
  pe_unmap :: bool

text \<open>Preparing each interface; the result says whether all of them were prepared.\<close>

fun prepare_ifs :: "((listen_env \<times> connect_env) \<times> SimbricksAdapterParams \<times> SimbricksBaseIfParams) list \<Rightarrow>
    SimbricksBaseIfSHMPool \<Rightarrow> EstablishData list \<Rightarrow> (bool \<times> SimbricksBaseIfSHMPool \<times> EstablishData list) option" where
  "prepare_ifs ((e, ap, bp) # xs) pool (d # ds) =
     (case SimbricksBaseIfInit bp of
        None \<Rightarrow> Some (False, pool, d # ds)
      | Some b \<Rightarrow> do {
          (r, pool1, b1) \<leftarrow> (if ap_listen ap then Listen (fst e) pool b
             else map_option (\<lambda>(r, b1). (r, pool, b1)) (Connect (snd e) b));
          if r \<noteq> 0 then Some (False, pool1, d\<lparr> base_if := b1 \<rparr> # ds)
          else do {
            (ok, pool2, ds2) \<leftarrow> prepare_ifs xs pool1 ds;
            Some (ok, pool2, d\<lparr> base_if := b1 \<rparr> # ds2) } })"
| "prepare_ifs _ pool ds = Some (True, pool, ds)"

text \<open>
  The whole set-up: the result, whether the pool was removed again, the pool and the interfaces.
  Interfaces share the pool, and a pool is created only for listening interfaces; its path is the
  given one or that of the first listening URL.
\<close>

definition pool_path_of :: "string option \<Rightarrow> SimbricksAdapterParams list \<Rightarrow> string option" where
  "pool_path_of path aps = (case path of Some p \<Rightarrow> Some p
     | None \<Rightarrow> (case filter ap_listen aps of [] \<Rightarrow> None | ap # _ \<Rightarrow> shm_path ap))"

definition SimbricksParametersEstablish :: "param_env \<Rightarrow> string list \<Rightarrow> string option \<Rightarrow> SimbricksBaseIfSHMPool \<Rightarrow>
    EstablishData list \<Rightarrow> (est_outcome \<times> bool \<times> SimbricksBaseIfSHMPool \<times> EstablishData list) option" where
  "SimbricksParametersEstablish env urls path pool ds =
     (case those (map (\<lambda>(i, url). SimbricksParametersParse (pe_mem env i) url) (List.enumerate 0 urls)) of
        None \<Rightarrow> Some (EstReturn (-1), False, pool, ds)
      | Some aps \<Rightarrow>
          (let bps = map2 (\<lambda>ap d. apply_params ap (params (base_if d))) aps ds;
               n = mempool_size (zip aps bps) in
           do {
             (r, pool1) \<leftarrow> (if n = 0 then Some (0, SHMPool_zero)
               else do { p \<leftarrow> pool_path_of path aps;
                         Some (SHMPoolCreate p n (pe_open env) (pe_truncate env) (pe_map env) SHMPool_zero) });
             if r \<noteq> 0 then Some (EstReturn (-1), False, pool1, ds)
             else do {
               (ok, pool2, ds2) \<leftarrow> prepare_ifs (zip (pe_ifs env) (zip aps bps)) pool1 ds;
               (oc, ds3) \<leftarrow> (if ok then Establish (pe_rounds env) 0 ds2 else Some (EstReturn (-1), ds2));
               (let oc1 = (case oc of EstReturn r \<Rightarrow> EstReturn (if r = 0 then 0 else -1) | _ \<Rightarrow> oc);
                    failed = (case oc of EstReturn r \<Rightarrow> r \<noteq> 0 | _ \<Rightarrow> False) in
                Some (oc1, n \<noteq> 0 \<and> failed,
                      if n \<noteq> 0 \<and> failed then snd (SHMPoolUnmap (pe_unmap env) pool2) else pool2, ds3)) } }))"

section \<open>The grammar of URLs\<close>

text \<open>
  Well-formed parameters: the values that a URL can express, with the contents of the allocated
  memory where a flag is not set.
\<close>

definition wf_params :: "unset_params \<Rightarrow> SimbricksAdapterParams \<Rightarrow> bool" where
  "wf_params mem ap = (socket_path ap \<noteq> [] \<and> CHR '':'' \<notin> set (socket_path ap) \<and>
     (case shm_path ap of None \<Rightarrow> \<not> ap_listen ap | Some p \<Rightarrow> ap_listen ap \<and> p \<noteq> [] \<and> CHR '':'' \<notin> set p) \<and>
     (link_latency_set ap \<or> ap_link_latency ap = fst mem) \<and> (sync_interval_set ap \<or> ap_sync_interval ap = snd mem))"

definition digit_char :: "nat \<Rightarrow> char" where
  "digit_char d = ''0123456789'' ! d"

fun print_dec :: "nat \<Rightarrow> string" where
  "print_dec n = (if n < 10 then [digit_char n] else print_dec (n div 10) @ [digit_char (n mod 10)])"

declare print_dec.simps [simp del]

definition print_args :: "SimbricksAdapterParams \<Rightarrow> string" where
  "print_args ap =
     (if link_latency_set ap then '':latency='' @ print_dec (unat (ap_link_latency ap)) else []) @
     (if sync_interval_set ap then '':sync_interval='' @ print_dec (unat (ap_sync_interval ap)) else [])"

definition print_url :: "SimbricksAdapterParams \<Rightarrow> string" where
  "print_url ap =
     (if ap_listen ap then ''listen:'' @ socket_path ap @ '':'' @ the (shm_path ap) else ''connect:'' @ socket_path ap) @
     '':sync='' @ (if ap_sync ap then ''true'' else ''false'') @ print_args ap"

lemma NextDelimiter_field [simp]:
  "c \<notin> set f \<Longrightarrow> NextDelimiter f c = (f, [])"
  "c \<notin> set f \<Longrightarrow> NextDelimiter (f @ c # r) c = (f, r)"
proof -
  assume "c \<notin> set f"
  then have "takeWhile (\<lambda>x. x \<noteq> c) f = f" "dropWhile (\<lambda>x. x \<noteq> c) f = []"
    "takeWhile (\<lambda>x. x \<noteq> c) (f @ c # r) = f" "dropWhile (\<lambda>x. x \<noteq> c) (f @ c # r) = c # r"
    by (induction f) auto
  then show "NextDelimiter f c = (f, [])" "NextDelimiter (f @ c # r) c = (f, r)"
    by (simp_all only: NextDelimiter_def) simp_all
qed

lemma NextDelimiter_clean: "NextDelimiter s c = (f, r) \<Longrightarrow> c \<notin> set f"
  by (auto simp: NextDelimiter_def dest: set_takeWhileD)

lemma of_char_digit:
  assumes "d < 10"
  shows "(of_char (digit_char d) :: nat) = 48 + d"
proof -
  from assms have "d \<in> {0, 1, 2, 3, 4, 5, 6, 7, 8, 9}" by auto
  then show ?thesis by (auto simp: digit_char_def)
qed

lemma digit_char_ok: "d < 10 \<Longrightarrow> is_digit (digit_char d)"
  by (simp add: is_digit_def of_char_digit)

lemma print_dec_digits: "list_all is_digit (print_dec n) \<and> print_dec n \<noteq> []"
proof (induction n rule: print_dec.induct)
  case (1 n)
  then show ?case by (subst (1 2) print_dec.simps) (auto simp: digit_char_ok)
qed

lemma digits_val_print: "digits_val (print_dec n) = n"
proof (induction n rule: print_dec.induct)
  case (1 n)
  then show ?case by (subst print_dec.simps) (auto simp: digits_val_def of_char_digit)
qed

lemma digit_not_special: "is_digit c \<Longrightarrow> \<not> is_space c \<and> c \<noteq> CHR ''-'' \<and> c \<noteq> CHR ''+'' \<and> c \<noteq> CHR '':'' \<and> c \<noteq> CHR ''=''"
  by (auto simp: is_digit_def is_space_def)

lemma print_dec_clean: "CHR '':'' \<notin> set (print_dec n) \<and> CHR ''='' \<notin> set (print_dec n)"
  using print_dec_digits[of n] digit_not_special by (auto simp: list_all_iff)

lemma ParseUInteger_print: "ParseUInteger (print_dec (unat v)) = Some v"
proof -
  obtain c cs where d: "print_dec (unat v) = c # cs" "list_all is_digit (c # cs)"
    using print_dec_digits[of "unat v"] by (cases "print_dec (unat v)") auto
  have c: "\<not> is_space c" "c \<noteq> CHR ''-''" "c \<noteq> CHR ''+''" using digit_not_special[of c] d(2) by auto
  have v: "digits_val (c # cs) = unat v" using digits_val_print[of "unat v"] d(1) by simp
  have "unat v < 2 ^ LENGTH(64)" by (rule unsigned_less)
  then show ?thesis using d(2) c by (simp add: ParseUInteger_def d(1) v)
qed

lemma parse_latency: "parse_args (''latency='' @ print_dec (unat v)) p =
    Some (p\<lparr> ap_link_latency := v, link_latency_set := True \<rparr>)"
  "parse_args (''latency='' @ print_dec (unat v) @ CHR '':'' # r) p =
    parse_args r (p\<lparr> ap_link_latency := v, link_latency_set := True \<rparr>)"
proof -
  note d = print_dec_clean[of "unat v"] print_dec_digits[of "unat v"] ParseUInteger_print[of v]
  have e: "NextDelimiter (''latency='' @ print_dec (unat v)) CHR ''='' = (''latency'', print_dec (unat v))"
    using NextDelimiter_field(2)[of "CHR ''=''" "''latency''"] by simp
  have f: "NextDelimiter (''latency='' @ print_dec (unat v)) CHR '':'' = (''latency='' @ print_dec (unat v), [])"
    "NextDelimiter (''latency='' @ print_dec (unat v) @ CHR '':'' # r) CHR '':'' = (''latency='' @ print_dec (unat v), r)"
    using d NextDelimiter_field[of "CHR '':''" "''latency='' @ print_dec (unat v)"] by auto
  show "parse_args (''latency='' @ print_dec (unat v)) p = Some (p\<lparr> ap_link_latency := v, link_latency_set := True \<rparr>)"
    by (subst parse_args.simps, subst parse_args.simps) (use d e f in simp)
  show "parse_args (''latency='' @ print_dec (unat v) @ CHR '':'' # r) p =
    parse_args r (p\<lparr> ap_link_latency := v, link_latency_set := True \<rparr>)"
    by (subst parse_args.simps) (use d e f in simp)
qed

lemma parse_interval: "parse_args (''sync_interval='' @ print_dec (unat v)) p =
    Some (p\<lparr> ap_sync_interval := v, sync_interval_set := True \<rparr>)"
proof -
  note d = print_dec_clean[of "unat v"] print_dec_digits[of "unat v"] ParseUInteger_print[of v]
  have e: "NextDelimiter (''sync_interval='' @ print_dec (unat v)) CHR ''='' = (''sync_interval'', print_dec (unat v))"
    using NextDelimiter_field(2)[of "CHR ''=''" "''sync_interval''"] by simp
  have f: "NextDelimiter (''sync_interval='' @ print_dec (unat v)) CHR '':'' = (''sync_interval='' @ print_dec (unat v), [])"
    using d NextDelimiter_field[of "CHR '':''" "''sync_interval='' @ print_dec (unat v)"] by auto
  show ?thesis by (subst parse_args.simps, subst parse_args.simps) (use d e f in simp)
qed

lemma parse_print_args:
  "parse_args (drop 1 (print_args ap)) p = Some (
     (if sync_interval_set ap then (\<lambda>x. x\<lparr> ap_sync_interval := ap_sync_interval ap, sync_interval_set := True \<rparr>) else id)
     ((if link_latency_set ap then p\<lparr> ap_link_latency := ap_link_latency ap, link_latency_set := True \<rparr> else p)))"
proof -
  have nil: "parse_args [] p = Some p" by (subst parse_args.simps) simp
  show ?thesis
    by (cases "link_latency_set ap"; cases "sync_interval_set ap")
      (simp_all add: print_args_def parse_latency[simplified] parse_interval[simplified] nil)
qed

lemma print_args_split: "print_args ap = [] \<or> print_args ap = CHR '':'' # drop 1 (print_args ap)"
  by (auto simp: print_args_def)

lemma NextDelimiter_args:
  "c = CHR '':'' \<Longrightarrow> c \<notin> set f \<Longrightarrow> NextDelimiter (f @ print_args ap) c = (f, drop 1 (print_args ap))"
  using print_args_split[of ap] NextDelimiter_field(1)[of c f] NextDelimiter_field(2)[of c f "drop 1 (print_args ap)"]
  by (elim disjE) (simp, metis)

lemma parse_sync:
  "NextDelimiter (''sync='' @ (if b then ''true'' else ''false'') @ print_args ap) CHR '':'' =
     (''sync='' @ (if b then ''true'' else ''false''), drop 1 (print_args ap))"
  "NextDelimiter (''sync='' @ (if b then ''true'' else ''false'')) CHR ''='' = (''sync'', if b then ''true'' else ''false'')"
proof -
  show "NextDelimiter (''sync='' @ (if b then ''true'' else ''false'') @ print_args ap) CHR '':'' =
     (''sync='' @ (if b then ''true'' else ''false''), drop 1 (print_args ap))"
    using NextDelimiter_args[OF refl, of "''sync='' @ (if b then ''true'' else ''false'')" ap] by simp
  show "NextDelimiter (''sync='' @ (if b then ''true'' else ''false'')) CHR ''='' = (''sync'', if b then ''true'' else ''false'')"
    using NextDelimiter_field(2)[of "CHR ''=''" "''sync''"] by simp
qed

text \<open>
  C21. Every well-formed set of adapter parameters is what parsing its URL yields: paths without
  a colon, the synchronization flag, and any 64-bit latency and interval. A latency or interval
  that is not set has the value that the allocated memory held, whatever that is.
\<close>

theorem parse_print:
  assumes "wf_params mem ap"
  shows "SimbricksParametersParse mem (print_url ap) = Some ap"
proof -
  let ?sy = "''sync='' @ (if ap_sync ap then ''true'' else ''false'') @ print_args ap"
  have ty: "NextDelimiter (''listen:'' @ r) CHR '':'' = (''listen'', r)" "NextDelimiter (''connect:'' @ r) CHR '':'' = (''connect'', r)" for r
    using NextDelimiter_field(2)[of "CHR '':''" "''listen''" r] NextDelimiter_field(2)[of "CHR '':''" "''connect''" r] by simp_all
  have so: "NextDelimiter (socket_path ap @ CHR '':'' # r) CHR '':'' = (socket_path ap, r)" for r
    using assms by (simp add: wf_params_def)
  have ap: "ap = \<lparr> ap_listen = ap_listen ap, socket_path = socket_path ap, shm_path = shm_path ap, ap_sync = ap_sync ap,
      link_latency_set = link_latency_set ap, ap_link_latency = ap_link_latency ap,
      sync_interval_set = sync_interval_set ap, ap_sync_interval = ap_sync_interval ap \<rparr>" by simp
  have args: "parse_args (drop 1 (print_args ap)) \<lparr> ap_listen = ap_listen ap, socket_path = socket_path ap,
      shm_path = shm_path ap, ap_sync = ap_sync ap, link_latency_set = False, ap_link_latency = fst mem,
      sync_interval_set = False, ap_sync_interval = snd mem \<rparr> = Some ap"
    unfolding parse_print_args using assms by (subst (5) ap) (auto simp: wf_params_def)
  show ?thesis
  proof (cases "shm_path ap")
    case None
    then have "print_url ap = ''connect:'' @ socket_path ap @ CHR '':'' # ?sy" "\<not> ap_listen ap" "socket_path ap \<noteq> []"
      using assms by (auto simp: print_url_def wf_params_def)
    then show ?thesis using args parse_sync(1)[of "ap_sync ap" ap] parse_sync(2)[of "ap_sync ap"] None
      by (simp only: SimbricksParametersParse_def ty so prod.case) (auto split: if_splits)
  next
    case (Some p)
    then have "print_url ap = ''listen:'' @ socket_path ap @ CHR '':'' # p @ CHR '':'' # ?sy" "ap_listen ap" "socket_path ap \<noteq> []"
      and p: "NextDelimiter (p @ CHR '':'' # r) CHR '':'' = (p, r)" "p \<noteq> []" for r
      using assms by (auto simp: print_url_def wf_params_def)
    then show ?thesis using args parse_sync(1)[of "ap_sync ap" ap] parse_sync(2)[of "ap_sync ap"] Some
      by (simp only: SimbricksParametersParse_def ty so p prod.case) (auto split: if_splits)
  qed
qed

theorem parse_print_witness:
  "SimbricksParametersParse (3, 7) ''listen:/tmp/a:/tmp/b:sync=true:latency=500'' = Some
     \<lparr> ap_listen = True, socket_path = ''/tmp/a'', shm_path = Some ''/tmp/b'', ap_sync = True, link_latency_set = True,
       ap_link_latency = 500, sync_interval_set = False, ap_sync_interval = 7 \<rparr>"
proof -
  let ?ap = "\<lparr> ap_listen = True, socket_path = ''/tmp/a'', shm_path = Some ''/tmp/b'', ap_sync = True, link_latency_set = True,
    ap_link_latency = 500, sync_interval_set = False, ap_sync_interval = 7 \<rparr>"
  have "print_url ?ap = ''listen:/tmp/a:/tmp/b:sync=true:latency=500''"
    by (simp add: print_url_def print_args_def print_dec.simps digit_char_def)
  moreover have "wf_params (3, 7) ?ap" by (simp add: wf_params_def)
  ultimately show ?thesis using parse_print[of "(3, 7)" ?ap] by simp
qed

lemma parse_args_keeps:
  "parse_args s p = Some ap \<Longrightarrow> ap_listen ap = ap_listen p \<and> socket_path ap = socket_path p \<and> shm_path ap = shm_path p \<and>
     ap_sync ap = ap_sync p \<and> (link_latency_set ap \<or> \<not> link_latency_set p \<and> ap_link_latency ap = ap_link_latency p) \<and>
     (sync_interval_set ap \<or> \<not> sync_interval_set p \<and> ap_sync_interval ap = ap_sync_interval p)"
proof (induction s p rule: parse_args.induct)
  case (1 s p)
  show ?case
  proof (cases "s = []")
    case True
    then show ?thesis using "1.prems" by (simp add: parse_args.simps)
  next
    case False
    obtain field rest where f: "NextDelimiter s CHR '':'' = (field, rest)" by fastforce
    obtain name arg where n: "NextDelimiter field CHR ''='' = (name, arg)" by fastforce
    note IH = "1.IH"[OF False f[symmetric] n[symmetric]]
    note eq = "1.prems"[unfolded parse_args.simps[of s p] f n prod.case]
    from eq False obtain v where a: "arg \<noteq> []" "ParseUInteger arg = Some v"
      by (auto split: if_split_asm option.split_asm)
    from eq False a consider
        "name = ''latency''" "parse_args rest (p\<lparr> ap_link_latency := v, link_latency_set := True \<rparr>) = Some ap"
      | "name = ''sync_interval''" "parse_args rest (p\<lparr> ap_sync_interval := v, sync_interval_set := True \<rparr>) = Some ap"
      by (auto split: if_split_asm)
    then show ?thesis
    proof cases
      case 1
      from IH(1)[OF a(1) 1(1) a(2) 1(2)] show ?thesis by simp
    next
      case 2
      then have "name \<noteq> ''latency''" by simp
      from IH(2)[OF a(1) this 2(1) a(2) 2(2)] show ?thesis by simp
    qed
  qed
qed

text \<open>The same parameters with other contents of the allocated memory.\<close>

definition refill :: "unset_params \<Rightarrow> SimbricksAdapterParams \<Rightarrow> SimbricksAdapterParams" where
  "refill mem ap = ap\<lparr> ap_link_latency := (if link_latency_set ap then ap_link_latency ap else fst mem),
     ap_sync_interval := (if sync_interval_set ap then ap_sync_interval ap else snd mem) \<rparr>"

lemma refill_set:
  "(refill mem p)\<lparr> ap_link_latency := v, link_latency_set := True \<rparr> =
     refill mem (p\<lparr> ap_link_latency := v, link_latency_set := True \<rparr>)"
  "(refill mem p)\<lparr> ap_sync_interval := v, sync_interval_set := True \<rparr> =
     refill mem (p\<lparr> ap_sync_interval := v, sync_interval_set := True \<rparr>)"
  by (simp_all add: refill_def)

lemma parse_args_refill: "parse_args s (refill mem p) = map_option (refill mem) (parse_args s p)"
proof (induction s p rule: parse_args.induct)
  case (1 s p)
  show ?case
  proof (cases "s = []")
    case True
    then show ?thesis by (simp add: parse_args.simps)
  next
    case False
    obtain field rest where f: "NextDelimiter s CHR '':'' = (field, rest)" by fastforce
    obtain name arg where n: "NextDelimiter field CHR ''='' = (name, arg)" by fastforce
    note IH = "1.IH"[OF False f[symmetric] n[symmetric]]
    show ?thesis unfolding parse_args.simps[of s] f n prod.case
      by (auto simp: False refill_set IH split: option.split)
  qed
qed

lemma Parse_refill:
  "SimbricksParametersParse mem' url = map_option (refill mem') (SimbricksParametersParse mem url)"
proof -
  have e: "\<lparr> ap_listen = l, socket_path = so, shm_path = sh, ap_sync = sy, link_latency_set = False,
      ap_link_latency = fst mem', sync_interval_set = False, ap_sync_interval = snd mem' \<rparr> =
    refill mem' \<lparr> ap_listen = l, socket_path = so, shm_path = sh, ap_sync = sy, link_latency_set = False,
      ap_link_latency = fst mem, sync_interval_set = False, ap_sync_interval = snd mem \<rparr>" for l so sh sy
    by (simp add: refill_def)
  show ?thesis unfolding SimbricksParametersParse_def e parse_args_refill
    by (auto split: prod.split Option.bind_split)
qed

text \<open>
  C40. Whatever text is parsed, the result is well-formed: a socket path, a shared memory path
  exactly for a listener, no colon in either. The parser leaves the latency and the interval that
  the text does not set to the contents of the allocated memory; with other contents the same text
  is parsed to the same result up to these values, and the parameters that an interface is given
  are the same.
\<close>

theorem parse_well_formed:
  assumes "SimbricksParametersParse mem url = Some ap"
  shows "wf_params mem ap \<and> SimbricksParametersParse mem' url = Some (refill mem' ap) \<and>
    apply_params (refill mem' ap) p = apply_params ap p"
proof -
  obtain ty r1 where ty: "NextDelimiter url CHR '':'' = (ty, r1)" by fastforce
  obtain sock r2 where so: "NextDelimiter r1 CHR '':'' = (sock, r2)" by fastforce
  obtain shmp r3 where sh: "NextDelimiter r2 CHR '':'' = (shmp, r3)" by fastforce
  note clean = NextDelimiter_clean[OF so] NextDelimiter_clean[OF sh]
  have "\<exists>s p. parse_args s p = Some ap \<and> wf_params mem p \<and> \<not> link_latency_set p \<and> \<not> sync_interval_set p"
  proof (cases "ty = ''listen''")
    case True
    then show ?thesis using assms clean unfolding SimbricksParametersParse_def ty so sh prod.case
      by (auto simp: so sh split: prod.split_asm if_split_asm) (intro exI conjI, assumption, simp_all add: wf_params_def)+
  next
    case False
    then show ?thesis using assms clean unfolding SimbricksParametersParse_def ty so prod.case
      by (auto simp: so split: prod.split_asm if_split_asm) (intro exI conjI, assumption, simp_all add: wf_params_def)+
  qed
  then obtain s p where p: "parse_args s p = Some ap" "wf_params mem p" "\<not> link_latency_set p" "\<not> sync_interval_set p"
    by blast
  note k = parse_args_keeps[OF p(1)]
  have "wf_params mem ap" using k p(2-4) unfolding wf_params_def by (cases "shm_path p") auto
  moreover have "SimbricksParametersParse mem' url = Some (refill mem' ap)"
    using assms by (simp add: Parse_refill[of mem' url mem])
  ultimately show ?thesis by (simp add: refill_def apply_params_def Let_def)
qed

theorem parse_well_formed_witness:
  "\<exists>ap. SimbricksParametersParse (3, 7) ''connect:/tmp/a:sync=false:'' = Some ap \<and> wf_params (3, 7) ap \<and>
     SimbricksParametersParse (4, 8) ''connect:/tmp/a:sync=false:'' = Some (refill (4, 8) ap)"
proof -
  have "SimbricksParametersParse (3, 7) ''connect:/tmp/a:sync=false:'' = Some \<lparr> ap_listen = False,
    socket_path = ''/tmp/a'', shm_path = None, ap_sync = False, link_latency_set = False, ap_link_latency = 3,
    sync_interval_set = False, ap_sync_interval = 7 \<rparr>"
    by (simp add: SimbricksParametersParse_def NextDelimiter_def parse_args.simps)
  then show ?thesis using parse_well_formed[where mem' = "(4, 8)"] by blast
qed

text \<open>A negative latency is accepted and wraps around to an enormous one.\<close>

theorem negative_latency_accepted: "ParseUInteger ''-1'' = Some 0xFFFFFFFFFFFFFFFF"
  by (simp add: ParseUInteger_def is_space_def is_digit_def digits_val_def)

text \<open>
  Any URL that does not parse fails the whole set-up before anything is created, and a set-up that
  fails later releases the pool it created.
\<close>

lemma Establish_bad_url:
  assumes "\<exists>u\<in>set urls. SimbricksParametersParse mem u = None"
  shows "SimbricksParametersEstablish env urls path pool ds = Some (EstReturn (-1), False, pool, ds)"
proof -
  have "\<exists>u\<in>set urls. SimbricksParametersParse mem u = None \<Longrightarrow>
    those (map (\<lambda>(i, url). SimbricksParametersParse (pe_mem env i) url) (List.enumerate n urls)) = None" for n
  proof (induction urls arbitrary: n)
    case (Cons u urls)
    then show ?case using Parse_refill[of "pe_mem env n" u mem] by (auto split: option.split)
  qed simp
  with assms show ?thesis by (simp add: SimbricksParametersEstablish_def)
qed

end
