(* ===== verification/Nicbm.thy ===== *)
theory Nicbm
  imports Parser
begin

text \<open>
  The behavioural-model runner that drives a NIC device (\<^verbatim>\<open>lib/simbricks/nicbm/nicbm.cc\<close>,
  \<^verbatim>\<open>nicbm.h\<close>): register accesses of the host, DMA operations with their window of pending
  operations, interrupts, packets, timed events, and the main loop.

  The device is a record of its virtual functions. The functions of the runner that a device calls
  return nothing to it and never call it back, so a device function yields the list of the calls
  it makes, and the runner performs them in order. The outgoing queues are the sequences of the
  slots allocated so far; waiting for a free slot delays the allocation and changes nothing else.
  The incoming queues are the contents that a poll sees. Operations handed to the runner are
  identified by their address; \<open>dma_live\<close> holds those not yet completed, which are the ones whose
  address may be followed.
\<close>

section \<open>Operations, events and messages\<close>

definition DMA_MAX_PENDING :: u64 where [simp]: "DMA_MAX_PENDING = 64"

record DMAOp =
  op_id :: u64
  op_write :: bool
  op_addr :: u64
  op_len :: nat
  op_data :: bytes

record 'e TimedEvent =
  te_time :: u64
  te_priority :: int
  te_body :: 'e

definition EventCmp :: "'e TimedEvent \<Rightarrow> 'e TimedEvent \<Rightarrow> bool" where
  "EventCmp a b = (te_time a < te_time b \<or> te_time a = te_time b \<and> te_priority a < te_priority b)"

datatype d2h_msg =
    D2HRead (d2h_req: u64) (d2h_off: u64) (d2h_len: u16)
  | D2HWrite (d2h_req: u64) (d2h_off: u64) (d2h_len: u16) bytes
  | D2HInterrupt u16 u8
  | D2HReadcomp u64 bytes
  | D2HWritecomp u64
  | D2HSync

record 'm out_slot =
  os_time :: u64
  os_msg :: "'m option"

datatype d2n_msg = D2NPacket u16 u8 bytes | D2NSync

text \<open>A message of the host; only the fields of its type are read.\<close>

record H2DMsg =
  h_req_id :: u64
  h_offset :: u64
  h_len :: u16
  h_bar :: u8
  h_flags :: u64
  h_data :: bytes

type_synonym h2d_queue = "H2DMsg BaseMsg list"

definition PCIE_INT_LEGACY_HI :: u8 where [simp]: "PCIE_INT_LEGACY_HI = 0"
definition PCIE_INT_LEGACY_LO :: u8 where [simp]: "PCIE_INT_LEGACY_LO = 1"
definition PCIE_INT_MSI :: u8 where [simp]: "PCIE_INT_MSI = 2"
definition PCIE_INT_MSIX :: u8 where [simp]: "PCIE_INT_MSIX = 3"

definition H2D_MSG_READ :: u8 where [simp]: "H2D_MSG_READ = 0x60"
definition H2D_MSG_WRITE :: u8 where [simp]: "H2D_MSG_WRITE = 0x61"
definition H2D_MSG_READCOMP :: u8 where [simp]: "H2D_MSG_READCOMP = 0x62"
definition H2D_MSG_WRITECOMP :: u8 where [simp]: "H2D_MSG_WRITECOMP = 0x63"
definition H2D_MSG_DEVCTRL :: u8 where [simp]: "H2D_MSG_DEVCTRL = 0x64"
definition H2D_MSG_WRITE_POSTED :: u8 where [simp]: "H2D_MSG_WRITE_POSTED = 0x65"

definition PCIE_CTRL_INTX_EN :: u64 where [simp]: "PCIE_CTRL_INTX_EN = 1"
definition PCIE_CTRL_MSI_EN :: u64 where [simp]: "PCIE_CTRL_MSI_EN = 2"
definition PCIE_CTRL_MSIX_EN :: u64 where [simp]: "PCIE_CTRL_MSIX_EN = 4"

section \<open>Device and runner\<close>

datatype 'e runner_call =
    CallDma DMAOp
  | CallMsi u8
  | CallMsiX u8
  | CallIntX bool
  | CallEthSend bytes
  | CallSchedule "'e TimedEvent"
  | CallCancel "'e TimedEvent"

record int_enables =
  int_intx_en :: bool
  int_msi_en :: bool
  int_msix_en :: bool

text \<open>The virtual functions of a device; each of them is given the time and \<open>None\<close> is an abort.\<close>

record ('d, 'e) Device =
  dev_RegRead :: "u8 \<Rightarrow> u64 \<Rightarrow> nat \<Rightarrow> u64 \<Rightarrow> 'd \<Rightarrow> (bytes \<times> 'e runner_call list \<times> 'd) option"
  dev_RegWrite :: "u8 \<Rightarrow> u64 \<Rightarrow> bytes \<Rightarrow> u64 \<Rightarrow> 'd \<Rightarrow> ('e runner_call list \<times> 'd) option"
  dev_DmaComplete :: "DMAOp \<Rightarrow> u64 \<Rightarrow> 'd \<Rightarrow> ('e runner_call list \<times> 'd) option"
  dev_EthRx :: "u8 \<Rightarrow> bytes \<Rightarrow> u64 \<Rightarrow> 'd \<Rightarrow> ('e runner_call list \<times> 'd) option"
  dev_Timed :: "'e TimedEvent \<Rightarrow> u64 \<Rightarrow> 'd \<Rightarrow> ('e runner_call list \<times> 'd) option"
  dev_DevctrlUpdate :: "u64 \<Rightarrow> u64 \<Rightarrow> 'd \<Rightarrow> ('e runner_call list \<times> 'd) option"

record ('d, 'e) Runner =
  main_time :: u64
  dev :: 'd
  events :: "'e TimedEvent list"
  dma_queue :: "DMAOp list"
  dma_pending :: u64
  dma_live :: "DMAOp list"
  nicif :: SimbricksNicIf
  d2h :: "d2h_msg out_slot list"
  d2n :: "d2n_msg out_slot list"

definition DevctrlUpdate :: "u64 \<Rightarrow> int_enables" where
  "DevctrlUpdate flags = \<lparr> int_intx_en = (flags AND PCIE_CTRL_INTX_EN \<noteq> 0), int_msi_en = (flags AND PCIE_CTRL_MSI_EN \<noteq> 0),
     int_msix_en = (flags AND PCIE_CTRL_MSIX_EN \<noteq> 0) \<rparr>"

section \<open>Outgoing messages\<close>

text \<open>What an allocation changes in an interface, and the time it stamps on the slot.\<close>

definition out_advance :: "u64 \<Rightarrow> SimbricksBaseIf \<Rightarrow> SimbricksBaseIf" where
  "out_advance ts b = b\<lparr> out_pos := (out_pos b + 1) mod out_enum b, out_timestamp := ts \<rparr>"

definition D2HAlloc :: "('d, 'e) Runner \<Rightarrow> (nat \<times> ('d, 'e) Runner) option" where
  "D2HAlloc s =
     (let b = nic_pcie (nicif s) in
      if in_terminated b \<or> out_enum b = 0 then None
      else Some (length (d2h s),
        s\<lparr> d2h := d2h s @ [\<lparr> os_time = main_time s + link_latency (params b), os_msg = None \<rparr>],
           nicif := (nicif s)\<lparr> nic_pcie := out_advance (main_time s) b \<rparr> \<rparr>))"

definition D2NAlloc :: "('d, 'e) Runner \<Rightarrow> (nat \<times> ('d, 'e) Runner) option" where
  "D2NAlloc s =
     (let b = nic_net (nicif s) in
      if out_enum b = 0 then None
      else Some (length (d2n s),
        s\<lparr> d2n := d2n s @ [\<lparr> os_time = main_time s + link_latency (params b), os_msg = None \<rparr>],
           nicif := (nicif s)\<lparr> nic_net := out_advance (main_time s) b \<rparr> \<rparr>))"

definition D2HOutSend :: "nat \<Rightarrow> d2h_msg \<Rightarrow> ('d, 'e) Runner \<Rightarrow> ('d, 'e) Runner" where
  "D2HOutSend i m s = s\<lparr> d2h := (d2h s)[i := (d2h s ! i)\<lparr> os_msg := Some m \<rparr>] \<rparr>"

definition D2NOutSend :: "nat \<Rightarrow> d2n_msg \<Rightarrow> ('d, 'e) Runner \<Rightarrow> ('d, 'e) Runner" where
  "D2NOutSend i m s = s\<lparr> d2n := (d2n s)[i := (d2n s ! i)\<lparr> os_msg := Some m \<rparr>] \<rparr>"

section \<open>Calls of the device\<close>

definition DmaDo :: "DMAOp \<Rightarrow> ('d, 'e) Runner \<Rightarrow> ('d, 'e) Runner option" where
  "DmaDo op s =
     (if in_terminated (nic_pcie (nicif s)) then Some s
      else do {
        (i, s1) \<leftarrow> D2HAlloc s;
        let s2 = s1\<lparr> dma_pending := dma_pending s1 + 1 \<rparr>;
        let maxlen = unat (out_elen (nic_pcie (nicif s2)));
        if maxlen < msg_header_size + op_len op then None
        else if op_write op then do {
          d \<leftarrow> rd (op_data op) 0 (op_len op);
          Some (D2HOutSend i (D2HWrite (op_id op) (op_addr op) (of_nat (op_len op)) d) s2) }
        else Some (D2HOutSend i (D2HRead (op_id op) (op_addr op) (of_nat (op_len op))) s2) })"

definition DmaTrigger :: "('d, 'e) Runner \<Rightarrow> ('d, 'e) Runner option" where
  "DmaTrigger s = (case dma_queue s of
       [] \<Rightarrow> Some s
     | op # ops \<Rightarrow> if dma_pending s = DMA_MAX_PENDING then Some s else DmaDo op (s\<lparr> dma_queue := ops \<rparr>))"

definition IssueDma :: "DMAOp \<Rightarrow> ('d, 'e) Runner \<Rightarrow> ('d, 'e) Runner option" where
  "IssueDma op s0 =
     (let s = s0\<lparr> dma_live := dma_live s0 @ [op] \<rparr> in
      if dma_pending s < DMA_MAX_PENDING then DmaDo op s
      else Some (s\<lparr> dma_queue := dma_queue s @ [op] \<rparr>))"

definition interrupt :: "u16 \<Rightarrow> u8 \<Rightarrow> ('d, 'e) Runner \<Rightarrow> ('d, 'e) Runner option" where
  "interrupt vec ty s =
     (if in_terminated (nic_pcie (nicif s)) then Some s
      else do { (i, s1) \<leftarrow> D2HAlloc s; Some (D2HOutSend i (D2HInterrupt vec ty) s1) })"

definition MsiIssue :: "u8 \<Rightarrow> ('d, 'e) Runner \<Rightarrow> ('d, 'e) Runner option" where
  "MsiIssue vec = interrupt (ucast vec) PCIE_INT_MSI"

definition MsiXIssue :: "u8 \<Rightarrow> ('d, 'e) Runner \<Rightarrow> ('d, 'e) Runner option" where
  "MsiXIssue vec = interrupt (ucast vec) PCIE_INT_MSIX"

definition IntXIssue :: "bool \<Rightarrow> ('d, 'e) Runner \<Rightarrow> ('d, 'e) Runner option" where
  "IntXIssue level = interrupt 0 (if level then PCIE_INT_LEGACY_HI else PCIE_INT_LEGACY_LO)"

definition EthSend_nic :: "bytes \<Rightarrow> ('d, 'e) Runner \<Rightarrow> ('d, 'e) Runner option" where
  "EthSend_nic data s = do {
     (i, s1) \<leftarrow> D2NAlloc s;
     if unat (out_elen (nic_net (nicif s1))) < msg_header_size + length data then None
     else Some (D2NOutSend i (D2NPacket (of_nat (length data)) 0 data) s1) }"

text \<open>
  The event set is ordered by time and priority; an event is inserted behind the equivalent ones.
  Cancelling erases by key, and so every event equivalent to the given one.
\<close>

fun event_insert :: "'e TimedEvent \<Rightarrow> 'e TimedEvent list \<Rightarrow> 'e TimedEvent list" where
  "event_insert e [] = [e]"
| "event_insert e (x # xs) = (if EventCmp e x then e # x # xs else x # event_insert e xs)"

definition EventSchedule :: "'e TimedEvent \<Rightarrow> ('d, 'e) Runner \<Rightarrow> ('d, 'e) Runner" where
  "EventSchedule e s = s\<lparr> events := event_insert e (events s) \<rparr>"

definition EventCancel :: "'e TimedEvent \<Rightarrow> ('d, 'e) Runner \<Rightarrow> ('d, 'e) Runner" where
  "EventCancel e s = s\<lparr> events := filter (\<lambda>x. EventCmp e x \<or> EventCmp x e) (events s) \<rparr>"

fun perform :: "'e runner_call \<Rightarrow> ('d, 'e) Runner \<Rightarrow> ('d, 'e) Runner option" where
  "perform (CallDma op) s = IssueDma op s"
| "perform (CallMsi v) s = MsiIssue v s"
| "perform (CallMsiX v) s = MsiXIssue v s"
| "perform (CallIntX l) s = IntXIssue l s"
| "perform (CallEthSend d) s = EthSend_nic d s"
| "perform (CallSchedule e) s = Some (EventSchedule e s)"
| "perform (CallCancel e) s = Some (EventCancel e s)"

fun perform_all :: "'e runner_call list \<Rightarrow> ('d, 'e) Runner \<Rightarrow> ('d, 'e) Runner option" where
  "perform_all [] s = Some s"
| "perform_all (c # cs) s = do { s1 \<leftarrow> perform c s; perform_all cs s1 }"

definition device_call :: "('d \<Rightarrow> ('e runner_call list \<times> 'd) option) \<Rightarrow> ('d, 'e) Runner \<Rightarrow> ('d, 'e) Runner option" where
  "device_call f s = do { (cs, d) \<leftarrow> f (dev s); perform_all cs (s\<lparr> dev := d \<rparr>) }"

section \<open>Messages of the host and of the network\<close>

definition H2DRead :: "('d, 'e) Device \<Rightarrow> H2DMsg \<Rightarrow> ('d, 'e) Runner \<Rightarrow> ('d, 'e) Runner option" where
  "H2DRead D m s = do {
     (i, s1) \<leftarrow> D2HAlloc s;
     if unat (out_elen (nic_pcie (nicif s1))) < msg_header_size + unat (h_len m) then None
     else do {
       (d, cs, dv) \<leftarrow> dev_RegRead D (h_bar m) (h_offset m) (unat (h_len m)) (main_time s1) (dev s1);
       s2 \<leftarrow> perform_all cs (s1\<lparr> dev := dv \<rparr>);
       Some (D2HOutSend i (D2HReadcomp (h_req_id m) d) s2) } }"

definition H2DWrite :: "('d, 'e) Device \<Rightarrow> H2DMsg \<Rightarrow> bool \<Rightarrow> ('d, 'e) Runner \<Rightarrow> ('d, 'e) Runner option" where
  "H2DWrite D m posted s = do {
     d \<leftarrow> rd (h_data m) 0 (unat (h_len m));
     s1 \<leftarrow> device_call (dev_RegWrite D (h_bar m) (h_offset m) d (main_time s)) s;
     if posted then Some s1
     else do { (i, s2) \<leftarrow> D2HAlloc s1; Some (D2HOutSend i (D2HWritecomp (h_req_id m)) s2) } }"

text \<open>The operation at an address, and its completion: the device is told before the count drops.\<close>

definition live_op :: "u64 \<Rightarrow> ('d, 'e) Runner \<Rightarrow> DMAOp option" where
  "live_op r s = find (\<lambda>op. op_id op = r) (dma_live s)"

definition complete_op :: "('d, 'e) Device \<Rightarrow> DMAOp \<Rightarrow> bytes \<Rightarrow> ('d, 'e) Runner \<Rightarrow> ('d, 'e) Runner option" where
  "complete_op D op d s = do {
     s1 \<leftarrow> device_call (dev_DmaComplete D (op\<lparr> op_data := wr 0 d (op_data op) \<rparr>) (main_time s))
             (s\<lparr> dma_live := remove1 op (dma_live s) \<rparr>);
     DmaTrigger (s1\<lparr> dma_pending := dma_pending s1 - 1 \<rparr>) }"

definition H2DReadcomp :: "('d, 'e) Device \<Rightarrow> H2DMsg \<Rightarrow> ('d, 'e) Runner \<Rightarrow> ('d, 'e) Runner option" where
  "H2DReadcomp D m s = do {
     op \<leftarrow> live_op (h_req_id m) s;
     d \<leftarrow> rd (h_data m) 0 (op_len op);
     complete_op D op d s }"

definition H2DWritecomp :: "('d, 'e) Device \<Rightarrow> H2DMsg \<Rightarrow> ('d, 'e) Runner \<Rightarrow> ('d, 'e) Runner option" where
  "H2DWritecomp D m s = do { op \<leftarrow> live_op (h_req_id m) s; complete_op D op [] s }"

definition H2DDevctrl :: "('d, 'e) Device \<Rightarrow> H2DMsg \<Rightarrow> ('d, 'e) Runner \<Rightarrow> ('d, 'e) Runner option" where
  "H2DDevctrl D m s = device_call (dev_DevctrlUpdate D (h_flags m) (main_time s)) s"

definition EthRecv :: "('d, 'e) Device \<Rightarrow> NetPacket \<Rightarrow> ('d, 'e) Runner \<Rightarrow> ('d, 'e) Runner option" where
  "EthRecv D p s = do {
     d \<leftarrow> rd (np_data p) 0 (unat (np_len p));
     device_call (dev_EthRx D (np_port p) d (main_time s)) s }"

definition h2d_dispatch :: "('d, 'e) Device \<Rightarrow> u8 \<Rightarrow> H2DMsg \<Rightarrow> ('d, 'e) Runner \<Rightarrow> ('d, 'e) Runner option" where
  "h2d_dispatch D ty m s =
     (if ty = H2D_MSG_READ then H2DRead D m s
      else if ty = H2D_MSG_WRITE then H2DWrite D m False s
      else if ty = H2D_MSG_WRITE_POSTED then H2DWrite D m True s
      else if ty = H2D_MSG_READCOMP then H2DReadcomp D m s
      else if ty = H2D_MSG_WRITECOMP then H2DWritecomp D m s
      else if ty = H2D_MSG_DEVCTRL then H2DDevctrl D m s
      else Some s)"

definition PollH2D :: "('d, 'e) Device \<Rightarrow> h2d_queue \<Rightarrow> ('d, 'e) Runner \<Rightarrow> (h2d_queue \<times> ('d, 'e) Runner) option" where
  "PollH2D D q s = do {
     (r, b) \<leftarrow> InPoll (main_time s) q (nic_pcie (nicif s));
     let s1 = s\<lparr> nicif := (nicif s)\<lparr> nic_pcie := b \<rparr> \<rparr>;
     case r of
       None \<Rightarrow> Some (q, s1)
     | Some i \<Rightarrow> do {
         s2 \<leftarrow> h2d_dispatch D (InType (q ! i)) (body (q ! i)) s1;
         Some (InDone i q, s2) } }"

definition PollN2D :: "('d, 'e) Device \<Rightarrow> net_queue \<Rightarrow> ('d, 'e) Runner \<Rightarrow> (net_queue \<times> ('d, 'e) Runner) option" where
  "PollN2D D q s = do {
     (r, b) \<leftarrow> InPoll (main_time s) q (nic_net (nicif s));
     let s1 = s\<lparr> nicif := (nicif s)\<lparr> nic_net := b \<rparr> \<rparr>;
     case r of
       None \<Rightarrow> Some (q, s1)
     | Some i \<Rightarrow> do {
         s2 \<leftarrow> (if InType (q ! i) = NET_MSG_PACKET then EthRecv D (body (q ! i)) s1 else Some s1);
         Some (InDone i q, s2) } }"

section \<open>Events and main loop\<close>

definition EventNext :: "('d, 'e) Runner \<Rightarrow> u64 option" where
  "EventNext s = (case events s of [] \<Rightarrow> None | e # _ \<Rightarrow> Some (te_time e))"

definition EventTrigger :: "('d, 'e) Device \<Rightarrow> ('d, 'e) Runner \<Rightarrow> ('d, 'e) Runner option" where
  "EventTrigger D s = (case events s of
       [] \<Rightarrow> Some s
     | e # es \<Rightarrow> if te_time e > main_time s then Some s
                else device_call (dev_Timed D e (main_time s)) (s\<lparr> events := es \<rparr>))"

definition max_step :: u64 where [simp]: "max_step = 10000"

definition next_ts :: "bool \<Rightarrow> ('d, 'e) Runner \<Rightarrow> u64" where
  "next_ts is_sync s =
     (let lim = main_time s + max_step;
          t = (if is_sync then (let n = NicIfNextTimestamp (nicif s) in if n > lim then lim else n) else lim) in
      case EventNext s of Some e \<Rightarrow> if e < t then e else t | None \<Rightarrow> t)"

text \<open>One iteration of the inner loop, with the queue contents that its polls see.\<close>

definition poll_once :: "('d, 'e) Device \<Rightarrow> bool \<Rightarrow> h2d_queue \<times> net_queue \<Rightarrow> ('d, 'e) Runner \<Rightarrow> (u64 \<times> ('d, 'e) Runner) option" where
  "poll_once D is_sync v s = do {
     (_, s1) \<leftarrow> PollH2D D (fst v) s;
     (_, s2) \<leftarrow> PollN2D D (snd v) s1;
     s3 \<leftarrow> EventTrigger D s2;
     Some (next_ts is_sync s3, s3) }"

text \<open>
  The inner loop; every element is the contents of the queues and whether the exit flag is set
  after the iteration. \<open>Inl\<close> is a loop still running when the inputs end.
\<close>

fun poll_loop :: "('d, 'e) Device \<Rightarrow> bool \<Rightarrow> ((h2d_queue \<times> net_queue) \<times> bool) list \<Rightarrow> ('d, 'e) Runner \<Rightarrow>
    (('d, 'e) Runner + ('d, 'e) Runner) option" where
  "poll_loop D is_sync [] s = Some (Inl s)"
| "poll_loop D is_sync ((v, exiting) # vs) s = do {
     (ts, s1) \<leftarrow> poll_once D is_sync v s;
     if ts \<le> main_time s1 \<and> \<not> exiting then poll_loop D is_sync vs s1
     else Some (Inr (s1\<lparr> main_time := ts \<rparr>)) }"

text \<open>
  Synchronization messages; the pair of flags says whether the network and the PCIe queue have a
  free slot at the attempt.
\<close>

definition sync_due :: "u64 \<Rightarrow> SimbricksBaseIf \<Rightarrow> bool" where
  "sync_due ts b = (sync b \<and> \<not> (out_timestamp b > 0 \<and> ts - out_timestamp b < sync_interval (params b)))"

definition nic_sync :: "bool \<times> bool \<Rightarrow> ('d, 'e) Runner \<Rightarrow> (bool \<times> ('d, 'e) Runner) option" where
  "nic_sync free s = do {
     (ok1, s1) \<leftarrow> (if \<not> sync_due (main_time s) (nic_net (nicif s)) then Some (True, s)
                  else if \<not> fst free then Some (False, s)
                  else do { (i, s1) \<leftarrow> D2NAlloc s; Some (True, D2NOutSend i D2NSync s1) });
     if \<not> ok1 then Some (False, s1)
     else if \<not> sync_due (main_time s1) (nic_pcie (nicif s1)) then Some (True, s1)
     else if \<not> snd free then Some (False, s1)
     else do { (i, s2) \<leftarrow> D2HAlloc s1; Some (True, D2HOutSend i D2HSync s2) } }"

fun sync_loop :: "(bool \<times> bool) list \<Rightarrow> ('d, 'e) Runner \<Rightarrow> ('d, 'e) Runner option" where
  "sync_loop [] s = None"
| "sync_loop (f # fs) s = do { (ok, s1) \<leftarrow> nic_sync f s; if ok then Some s1 else sync_loop fs s1 }"

text \<open>The passes of the main loop until the exit flag is set.\<close>

fun RunMain_loop :: "('d, 'e) Device \<Rightarrow> bool \<Rightarrow> ((bool \<times> bool) list \<times> ((h2d_queue \<times> net_queue) \<times> bool) list) list \<Rightarrow>
    ('d, 'e) Runner \<Rightarrow> ('d, 'e) Runner option" where
  "RunMain_loop D is_sync [] s = Some s"
| "RunMain_loop D is_sync ((fs, vs) # ps) s = do {
     s1 \<leftarrow> sync_loop fs s;
     r \<leftarrow> poll_loop D is_sync vs s1;
     case r of Inl s2 \<Rightarrow> Some s2 | Inr s2 \<Rightarrow> RunMain_loop D is_sync ps s2 }"

section \<open>Command line\<close>

text \<open>
  The number conversion of the C library with its prefixes; a number beyond 64 bits is the largest
  one, and a text without digits is zero.
\<close>

definition digit_value :: "char \<Rightarrow> nat" where
  "digit_value c = (let n = of_char c in
     if 48 \<le> n \<and> n \<le> 57 then n - 48 else if 97 \<le> n \<and> n \<le> 122 then n - 87
     else if 65 \<le> n \<and> n \<le> 90 then n - 55 else 99)"

definition strtoull :: "string \<Rightarrow> nat \<Rightarrow> u64" where
  "strtoull s base =
     (let t = dropWhile is_space s;
          neg = (take 1 t = ''-'');
          u = (if take 1 t = ''-'' \<or> take 1 t = ''+'' then drop 1 t else t);
          hex = ((base = 0 \<or> base = 16) \<and> (take 2 u = ''0x'' \<or> take 2 u = ''0X'') \<and> 2 < length u \<and> digit_value (u ! 2) < 16);
          b = (if hex then 16 else if base = 0 then (if take 1 u = ''0'' then 8 else 10) else base);
          ds = takeWhile (\<lambda>c. digit_value c < b) (if hex then drop 2 u else u);
          v = foldl (\<lambda>a c. b * a + digit_value c) 0 ds in
      if v \<ge> 2 ^ 64 then UINT64_MAX else if neg then - of_nat v else of_nat v)"

record RunnerConfig =
  rc_main_time :: u64
  rc_mac_addr :: u64
  rc_pcieParams :: SimbricksBaseIfParams
  rc_netParams :: SimbricksBaseIfParams
  rc_shmPath :: "string option"
  pcieAdapterParams :: "SimbricksAdapterParams option"
  netAdapterParams :: "SimbricksAdapterParams option"

text \<open>
  The constructor reads six bytes of the eight of the address; the upper two are whatever the
  memory holds, the first argument.
\<close>

definition RunnerConfig_new :: "u64 \<Rightarrow> bytes \<Rightarrow> RunnerConfig" where
  "RunnerConfig_new mem rnd =
     \<lparr> rc_main_time = 0, rc_mac_addr = (mem AND NOT 0xFFFFFFFFFFFF OR le_word (take 6 rnd)) AND NOT 3,
       rc_pcieParams = PcieIfDefaultParams, rc_netParams = NetIfDefaultParams, rc_shmPath = None,
       pcieAdapterParams = None, netAdapterParams = None \<rparr>"

definition GetSyncMode :: "bool \<Rightarrow> SyncMode" where
  "GetSyncMode b = (if b then SyncRequired else SyncDisabled)"

definition adapter_params :: "SimbricksAdapterParams \<Rightarrow> SimbricksBaseIfParams \<Rightarrow> SimbricksBaseIfParams" where
  "adapter_params ap p =
     (let p1 = p\<lparr> sock_path := Some (socket_path ap), sync_mode := GetSyncMode (ap_sync ap) \<rparr>;
          p2 = (if sync_interval_set ap then p1\<lparr> sync_interval := ap_sync_interval ap * 1000 \<rparr> else p1) in
      if link_latency_set ap then p2\<lparr> link_latency := ap_link_latency ap * 1000 \<rparr> else p2)"

text \<open>The first two arguments are the contents of the memory allocated for the two URLs.\<close>

definition ParseArgs :: "unset_params \<Rightarrow> unset_params \<Rightarrow> string list \<Rightarrow> RunnerConfig \<Rightarrow> int \<times> RunnerConfig" where
  "ParseArgs mem1 mem2 argv c =
     (if pcieAdapterParams c \<noteq> None \<or> netAdapterParams c \<noteq> None then (-1, c)
      else if length argv < 3 \<or> length argv > 6 then (-1, c)
      else (let c1 = (if length argv \<ge> 4 then c\<lparr> rc_main_time := strtoull (argv ! 3) 0 \<rparr> else c);
                c2 = (if length argv \<ge> 5 then c1\<lparr> rc_mac_addr := strtoull (argv ! 4) 16 \<rparr> else c1);
                c3 = c2\<lparr> pcieAdapterParams := SimbricksParametersParse mem1 (argv ! 1),
                         netAdapterParams := SimbricksParametersParse mem2 (argv ! 2) \<rparr> in
            case (pcieAdapterParams c3, netAdapterParams c3) of
              (Some pa, Some na) \<Rightarrow>
                if \<not> (ap_listen pa \<and> ap_listen na) then (-1, c3)
                else (0, c3\<lparr> rc_pcieParams := adapter_params pa (rc_pcieParams c3),
                             rc_netParams := adapter_params na (rc_netParams c3), rc_shmPath := shm_path pa \<rparr>)
            | _ \<Rightarrow> (-1, c3)))"

text \<open>Freeing parameters follows the pointer; it is defined only for parsed ones.\<close>

definition SimbricksParametersFree :: "SimbricksAdapterParams option \<Rightarrow> unit option" where
  "SimbricksParametersFree p = map_option (\<lambda>_. ()) p"

definition Runner_destroy :: "RunnerConfig \<Rightarrow> unit option" where
  "Runner_destroy c = do {
     _ \<leftarrow> SimbricksParametersFree (pcieAdapterParams c);
     SimbricksParametersFree (netAdapterParams c) }"

definition Runner_new :: "u64 \<Rightarrow> 'd \<Rightarrow> SimbricksNicIf \<Rightarrow> ('d, 'e) Runner" where
  "Runner_new start d nif = \<lparr> main_time = start, dev = d, events = [], dma_queue = [], dma_pending = 0, dma_live = [],
     nicif = nif, d2h = [], d2n = [] \<rparr>"

end
