(* ===== verification/Nicbm_Safety.thy ===== *)
theory Nicbm_Safety
  imports Nicbm "HOL-Library.Multiset"
begin

text \<open>
  Properties of the runner: the window of pending DMA operations and the order in which they reach
  the host, and the contract between the runner and a timely device, under which simulated time
  never passes a scheduled event and every event is delivered exactly at its time.
\<close>

section \<open>Steps\<close>

text \<open>The steps of the main loop; their order and the queue contents are arbitrary.\<close>

inductive nic_step :: "('d, 'e) Device \<Rightarrow> ('d, 'e) Runner \<Rightarrow> ('d, 'e) Runner \<Rightarrow> bool" for D where
  h2d: "PollH2D D q s = Some (q', s') \<Longrightarrow> nic_step D s s'"
| n2d: "PollN2D D q s = Some (q', s') \<Longrightarrow> nic_step D s s'"
| trigger: "EventTrigger D s = Some s' \<Longrightarrow> nic_step D s s'"
| synchronize: "nic_sync f s = Some (ok, s') \<Longrightarrow> nic_step D s s'"
| advance: "nic_step D s (s\<lparr> main_time := next_ts b s \<rparr>)"

definition terminated :: "('d, 'e) Runner \<Rightarrow> bool" where
  "terminated s = in_terminated (nic_pcie (nicif s))"

section \<open>DMA operations\<close>

text \<open>The identifiers of the DMA requests in a sequence of slots.\<close>

definition reqs :: "d2h_msg out_slot list \<Rightarrow> u64 list" where
  "reqs xs = concat (map (\<lambda>x. case os_msg x of Some (D2HRead r _ _) \<Rightarrow> [r] | Some (D2HWrite r _ _ _) \<Rightarrow> [r] | _ \<Rightarrow> []) xs)"

lemma reqs_simps [simp]: "reqs [] = []" "reqs (xs @ ys) = reqs xs @ reqs ys"
  by (simp_all add: reqs_def)

text \<open>The operations in the order in which they reach the host: those requested, then those waiting.\<close>

definition dma_order :: "('d, 'e) Runner \<Rightarrow> u64 list" where
  "dma_order s = reqs (d2h s) @ map op_id (dma_queue s)"

text \<open>
  The window: the pending operations and the waiting ones are the operations handed over and not
  completed, at most 64 are pending, and none waits unless the window is full. While the device is
  told of a completion, the completed operation still counts.
\<close>

definition dma_inv :: "nat \<Rightarrow> ('d, 'e) Runner \<Rightarrow> bool" where
  "dma_inv k s = (unat (dma_pending s) + length (dma_queue s) = length (dma_live s) + k \<and>
     dma_pending s \<le> DMA_MAX_PENDING \<and> (dma_queue s \<noteq> [] \<longrightarrow> dma_pending s = DMA_MAX_PENDING))"

text \<open>What a step of the device's calls does to the DMA state, the slots and the rest.\<close>

definition sends :: "('d, 'e) Runner \<Rightarrow> u64 list \<Rightarrow> ('d, 'e) Runner \<Rightarrow> bool" where
  "sends s ids s' = (\<exists>ys. d2h s' = d2h s @ ys \<and> reqs ys = ids)"

lemma sends_refl: "d2h s' = d2h s \<Longrightarrow> sends s [] s'"
  by (auto simp: sends_def)

lemma sends_trans: "sends s a s1 \<Longrightarrow> sends s1 b s2 \<Longrightarrow> sends s (a @ b) s2"
  by (auto simp: sends_def)

definition same_dma :: "('d, 'e) Runner \<Rightarrow> ('d, 'e) Runner \<Rightarrow> bool" where
  "same_dma s s' = (dma_pending s' = dma_pending s \<and> dma_queue s' = dma_queue s \<and> dma_live s' = dma_live s \<and>
     terminated s' = terminated s)"

lemma same_dma_inv: "same_dma s s' \<Longrightarrow> dma_inv k s' = dma_inv k s"
  by (simp add: same_dma_def dma_inv_def)

definition msg_reqs :: "d2h_msg \<Rightarrow> u64 list" where
  "msg_reqs m = reqs [\<lparr> os_time = 0, os_msg = Some m \<rparr>]"

lemma alloc_send:
  assumes "D2HAlloc s = Some (i, s1)"
  shows "i = length (d2h s)" "sends s (msg_reqs m) (D2HOutSend i m s1)" "same_dma s s1" "same_dma s (D2HOutSend i m s1)"
    "dev s1 = dev s" "events s1 = events s" "main_time s1 = main_time s" "nic_net (nicif s1) = nic_net (nicif s)"
  using assms by (auto simp: D2HAlloc_def D2HOutSend_def sends_def same_dma_def terminated_def msg_reqs_def reqs_def
      out_advance_def Let_def split: if_splits)

lemma DmaDo_effect:
  assumes "DmaDo op s = Some s'" "\<not> terminated s"
  shows "dma_pending s' = dma_pending s + 1" "dma_queue s' = dma_queue s" "dma_live s' = dma_live s" "\<not> terminated s'"
    "sends s [op_id op] s'"
proof -
  obtain i s1 where al0: "D2HAlloc s = Some (i, s1)"
    using assms by (auto simp: DmaDo_def terminated_def split: Option.bind_split_asm prod.split_asm)
  have mr: "msg_reqs (D2HWrite r x l d) = [r]" "msg_reqs (D2HRead r x l) = [r]" for r x l d
    by (simp_all add: msg_reqs_def reqs_def)
  have "\<exists>m. msg_reqs m = [op_id op] \<and> s' = D2HOutSend i m (s1\<lparr> dma_pending := dma_pending s1 + 1 \<rparr>)"
    using assms al0
    by (auto simp: DmaDo_def terminated_def Let_def split: if_split_asm Option.bind_split_asm intro: mr)
  then obtain m where a: "msg_reqs m = [op_id op]" and s': "s' = D2HOutSend i m (s1\<lparr> dma_pending := dma_pending s1 + 1 \<rparr>)"
    by blast
  have e: "D2HOutSend i m (s1\<lparr> dma_pending := p \<rparr>) = (D2HOutSend i m s1)\<lparr> dma_pending := p \<rparr>" for p
    by (simp add: D2HOutSend_def)
  note al = alloc_send(2,4)[OF al0, where m = m] alloc_send(3)[OF al0]
  show "dma_pending s' = dma_pending s + 1" "dma_queue s' = dma_queue s" "dma_live s' = dma_live s" "\<not> terminated s'"
    "sends s [op_id op] s'"
    using al assms(2) a unfolding s' e by (simp_all add: same_dma_def terminated_def sends_def)
qed

text \<open>The operations that a list of calls hands over.\<close>

fun call_ops :: "'e runner_call list \<Rightarrow> u64 list" where
  "call_ops [] = []"
| "call_ops (CallDma op # cs) = op_id op # call_ops cs"
| "call_ops (_ # cs) = call_ops cs"

lemma DmaTrigger_dma:
  assumes "DmaTrigger s = Some s'" "\<not> terminated s" "dma_pending s \<le> DMA_MAX_PENDING"
    "unat (dma_pending s) + length (dma_queue s) = length (dma_live s)" "dma_queue s \<noteq> [] \<longrightarrow> 63 \<le> dma_pending s"
  shows "dma_inv 0 s'" "\<not> terminated s'" "dma_order s' = dma_order s" "\<exists>ids. sends s ids s'"
proof -
  consider "dma_queue s = []" "s' = s" | "dma_queue s \<noteq> []" "dma_pending s = 64" "s' = s"
    | op ops where "dma_queue s = op # ops" "dma_pending s = 63" "DmaDo op (s\<lparr> dma_queue := ops \<rparr>) = Some s'"
  proof (cases "dma_queue s")
    case (Cons op ops)
    then have "dma_pending s = 64 \<or> dma_pending s = 63" using assms(3,5) by (auto simp: word_le_nat_alt word_unat_eq_iff)
    then show thesis using that assms(1) Cons by (auto simp: DmaTrigger_def)
  qed (use that assms(1) in \<open>auto simp: DmaTrigger_def\<close>)
  then have "dma_inv 0 s' \<and> \<not> terminated s' \<and> dma_order s' = dma_order s \<and> (\<exists>ids. sends s ids s')"
  proof cases
    case 3
    have nt: "\<not> terminated (s\<lparr> dma_queue := ops \<rparr>)" using assms(2) by (simp add: terminated_def)
    note e = DmaDo_effect[OF 3(3) nt]
    show ?thesis using e 3(1,2) assms(4) by (auto simp: dma_inv_def dma_order_def sends_def)
  qed (use assms in \<open>auto simp: dma_inv_def intro: sends_refl\<close>)
  then show "dma_inv 0 s'" "\<not> terminated s'" "dma_order s' = dma_order s" "\<exists>ids. sends s ids s'" by auto
qed

lemma IssueDma_dma:
  assumes "IssueDma op s = Some s'" "\<not> terminated s" "dma_inv k s"
  shows "dma_inv k s' \<and> \<not> terminated s' \<and> dma_order s' = dma_order s @ [op_id op] \<and> (\<exists>ids. sends s ids s')"
proof (cases "dma_pending s < 64")
  case True
  let ?s = "s\<lparr> dma_live := dma_live s @ [op] \<rparr>"
  have q: "dma_queue s = []" using assms(3) True by (auto simp: dma_inv_def)
  have d: "DmaDo op ?s = Some s'" "\<not> terminated ?s" using assms(1,2) True by (simp_all add: IssueDma_def terminated_def)
  note e = DmaDo_effect[OF d]
  have u: "unat (dma_pending s + 1) = Suc (unat (dma_pending s))" "dma_pending s + 1 \<le> 64"
    using True by (simp_all add: word_less_nat_alt word_le_nat_alt unat_word_ariths)
  show ?thesis using e q u assms(3) by (auto simp: dma_inv_def dma_order_def sends_def)
next
  case False
  then have "s' = s\<lparr> dma_live := dma_live s @ [op], dma_queue := dma_queue s @ [op] \<rparr>" "dma_pending s = 64"
    using assms(1,3) by (auto simp: IssueDma_def Let_def dma_inv_def)
  then show ?thesis using assms(2,3) by (auto simp: dma_inv_def dma_order_def terminated_def sends_def)
qed

lemma quiet_dma:
  assumes "same_dma s s'" "sends s [] s'" "\<not> terminated s" "dma_inv k s"
  shows "dma_inv k s' \<and> \<not> terminated s' \<and> dma_order s' = dma_order s \<and> (\<exists>ids. sends s ids s')"
  using assms by (auto simp: same_dma_inv) (auto simp: same_dma_def dma_order_def sends_def)

lemma interrupt_quiet:
  assumes "interrupt v t s = Some s'"
  shows "same_dma s s'" "sends s [] s'"
  using assms alloc_send(2,4)[where s = s and m = "D2HInterrupt v t"]
  by (auto simp: interrupt_def msg_reqs_def reqs_def same_dma_def split: if_split_asm Option.bind_split_asm intro: sends_refl)

lemma EthSend_quiet:
  assumes "EthSend_nic d s = Some s'"
  shows "same_dma s s'" "sends s [] s'"
  using assms by (auto simp: EthSend_nic_def D2NAlloc_def D2NOutSend_def same_dma_def terminated_def Let_def
      split: if_split_asm intro: sends_refl)

lemma perform_dma:
  assumes "perform c s = Some s'" "\<not> terminated s" "dma_inv k s"
  shows "dma_inv k s' \<and> \<not> terminated s' \<and> dma_order s' = dma_order s @ call_ops [c] \<and> (\<exists>ids. sends s ids s')"
proof (cases c)
  case (CallDma op)
  with IssueDma_dma[of op s s' k] assms show ?thesis by simp
next
  case (CallMsi v)
  with assms show ?thesis using quiet_dma[OF interrupt_quiet] by (simp add: MsiIssue_def)
next
  case (CallMsiX v)
  with assms show ?thesis using quiet_dma[OF interrupt_quiet] by (simp add: MsiXIssue_def)
next
  case (CallIntX l)
  with assms show ?thesis using quiet_dma[OF interrupt_quiet] by (simp add: IntXIssue_def)
next
  case (CallEthSend d)
  with assms show ?thesis using quiet_dma[OF EthSend_quiet] by simp
next
  case (CallSchedule e)
  with assms have "same_dma s s'" "sends s [] s'"
    by (auto simp: EventSchedule_def same_dma_def terminated_def intro: sends_refl)
  with assms show ?thesis using quiet_dma CallSchedule by simp
next
  case (CallCancel e)
  with assms have "same_dma s s'" "sends s [] s'"
    by (auto simp: EventCancel_def same_dma_def terminated_def intro: sends_refl)
  with assms show ?thesis using quiet_dma CallCancel by simp
qed

lemma perform_all_dma:
  "perform_all cs s = Some s' \<Longrightarrow> \<not> terminated s \<Longrightarrow> dma_inv k s \<Longrightarrow>
     dma_inv k s' \<and> \<not> terminated s' \<and> dma_order s' = dma_order s @ call_ops cs \<and> (\<exists>ids. sends s ids s')"
proof (induction cs arbitrary: s)
  case Nil
  then show ?case by (auto intro: sends_refl)
next
  case (Cons c cs)
  obtain s1 where s1: "perform c s = Some s1" "perform_all cs s1 = Some s'"
    using Cons.prems(1) by (auto split: Option.bind_split_asm)
  have "call_ops (c # cs) = call_ops [c] @ call_ops cs" by (cases c) auto
  moreover note p = perform_dma[OF s1(1) Cons.prems(2,3)]
  moreover have "dma_inv k s' \<and> \<not> terminated s' \<and> dma_order s' = dma_order s1 @ call_ops cs \<and> (\<exists>ids. sends s1 ids s')"
    using Cons.IH[OF s1(2)] p by blast
  ultimately show ?case using sends_trans by (metis append.assoc)
qed

lemma sends_fill:
  assumes "sends (s\<lparr> d2h := d2h s @ [x] \<rparr>) ids s'" "os_msg x = None" "msg_reqs m = []"
  shows "sends s ids (D2HOutSend (length (d2h s)) m s')"
  using assms by (auto simp: sends_def D2HOutSend_def msg_reqs_def reqs_def nth_append list_update_append
      split: option.splits d2h_msg.splits)

lemma device_call_dma:
  assumes "device_call f s = Some s'" "\<not> terminated s" "dma_inv k s"
  shows "dma_inv k s' \<and> \<not> terminated s' \<and> (\<exists>ops. dma_order s' = dma_order s @ ops)"
proof -
  obtain cs d where c: "f (dev s) = Some (cs, d)" "perform_all cs (s\<lparr> dev := d \<rparr>) = Some s'"
    using assms(1) by (auto simp: device_call_def split: Option.bind_split_asm prod.split_asm)
  have "\<not> terminated (s\<lparr> dev := d \<rparr>)" "dma_inv k (s\<lparr> dev := d \<rparr>)" "dma_order (s\<lparr> dev := d \<rparr>) = dma_order s"
    using assms(2,3) by (simp_all add: terminated_def dma_inv_def dma_order_def)
  with perform_all_dma[OF c(2)] show ?thesis by auto
qed

text \<open>What every step keeps while the host is connected.\<close>

definition dma_step_ok :: "('d, 'e) Runner \<Rightarrow> ('d, 'e) Runner \<Rightarrow> bool" where
  "dma_step_ok s s' = (dma_inv 0 s' \<and> (\<exists>ops. dma_order s' = dma_order s @ ops))"

lemma complete_op_dma:
  assumes "complete_op D op d s = Some s'" "\<not> terminated s" "dma_inv 0 s" "op \<in> set (dma_live s)"
  shows "dma_step_ok s s' \<and> \<not> terminated s'"
proof -
  let ?s0 = "s\<lparr> dma_live := remove1 op (dma_live s) \<rparr>"
  obtain s1 where s1: "device_call (dev_DmaComplete D (op\<lparr> op_data := wr 0 d (op_data op) \<rparr>) (main_time s)) ?s0 = Some s1"
      "DmaTrigger (s1\<lparr> dma_pending := dma_pending s1 - 1 \<rparr>) = Some s'"
    using assms(1) by (auto simp: complete_op_def split: Option.bind_split_asm)
  have l: "length (remove1 op (dma_live s)) + 1 = length (dma_live s)"
    using assms(4) by (simp add: length_remove1) (metis Suc_pred length_pos_if_in_set)
  have i0: "\<not> terminated ?s0" "dma_inv 1 ?s0" "dma_order ?s0 = dma_order s"
    using assms(2,3) l by (simp_all add: terminated_def dma_inv_def dma_order_def)
  from device_call_dma[OF s1(1) i0(1,2)] obtain ops where
    i1: "dma_inv 1 s1" "\<not> terminated s1" "dma_order s1 = dma_order s @ ops" using i0(3) by auto
  let ?s2 = "s1\<lparr> dma_pending := dma_pending s1 - 1 \<rparr>"
  have pos: "1 \<le> unat (dma_pending s1)" using i1(1) by (cases "dma_queue s1 = []") (auto simp: dma_inv_def)
  then have u: "unat (dma_pending s1 - 1) = unat (dma_pending s1) - 1" by (simp add: unat_sub word_le_nat_alt)
  have t: "\<not> terminated ?s2" "dma_order ?s2 = dma_order s1" using i1(2) by (simp_all add: terminated_def dma_order_def)
  have "dma_pending ?s2 \<le> DMA_MAX_PENDING" "unat (dma_pending ?s2) + length (dma_queue ?s2) = length (dma_live ?s2)"
    "dma_queue ?s2 \<noteq> [] \<longrightarrow> 63 \<le> dma_pending ?s2"
    using i1(1) pos u by (auto simp: dma_inv_def word_le_nat_alt)
  from DmaTrigger_dma[OF s1(2) t(1) this] t(2) i1(3) show ?thesis by (auto simp: dma_step_ok_def)
qed

lemma dma_step_quiet: "same_dma s s' \<Longrightarrow> sends s [] s' \<Longrightarrow> dma_inv 0 s \<Longrightarrow> dma_step_ok s s'"
  by (auto simp: dma_step_ok_def same_dma_inv) (auto simp: dma_order_def same_dma_def sends_def)

lemma dma_step_trans: "dma_step_ok s s1 \<Longrightarrow> dma_step_ok s1 s2 \<Longrightarrow> dma_step_ok s s2"
  by (auto simp: dma_step_ok_def)

lemma live_op_in: "live_op r s = Some op \<Longrightarrow> op \<in> set (dma_live s)"
  by (auto simp: live_op_def find_Some_iff)

lemma device_call_step:
  "device_call f s = Some s' \<Longrightarrow> \<not> terminated s \<Longrightarrow> dma_inv 0 s \<Longrightarrow> dma_step_ok s s' \<and> \<not> terminated s'"
  using device_call_dma[of f s s' 0] by (auto simp: dma_step_ok_def)

lemma H2DRead_dma:
  assumes "H2DRead D m s = Some s'" "\<not> terminated s" "dma_inv 0 s"
  shows "dma_step_ok s s' \<and> \<not> terminated s'"
proof -
  obtain i s1 d cs dv s2 where a: "D2HAlloc s = Some (i, s1)" "perform_all cs (s1\<lparr> dev := dv \<rparr>) = Some s2"
      and s': "s' = D2HOutSend i (D2HReadcomp (h_req_id m) d) s2"
    using assms(1) by (auto simp: H2DRead_def split: if_split_asm Option.bind_split_asm prod.split_asm)
  have al: "i = length (d2h s)" "same_dma s s1" using alloc_send(1,3)[OF a(1)] by auto
  obtain x where x: "d2h s1 = d2h s @ [x]" "os_msg x = None"
    using a(1) by (auto simp: D2HAlloc_def Let_def split: if_splits)
  have s1: "\<not> terminated (s1\<lparr> dev := dv \<rparr>)" "dma_inv 0 (s1\<lparr> dev := dv \<rparr>)"
    using assms(2,3) al(2) by (auto simp: same_dma_def terminated_def dma_inv_def)
  obtain ids where p: "dma_inv 0 s2" "\<not> terminated s2" "dma_order s2 = dma_order (s1\<lparr> dev := dv \<rparr>) @ call_ops cs"
      "sends (s1\<lparr> dev := dv \<rparr>) ids s2"
    using perform_all_dma[OF a(2) s1] by auto
  have "sends s ids s'" unfolding s' al(1)
    by (rule sends_fill[of s x]) (use p(4) x in \<open>auto simp: sends_def msg_reqs_def reqs_def\<close>)
  moreover have "same_dma s2 s'" unfolding s' by (simp add: same_dma_def D2HOutSend_def terminated_def)
  moreover have "reqs (d2h s2) = reqs (d2h s) @ ids" using p(4) x by (auto simp: sends_def reqs_def)
  ultimately show ?thesis using p(1-3) al(2) x
    by (auto simp: dma_step_ok_def same_dma_inv) (auto simp: dma_order_def same_dma_def sends_def reqs_def)
qed

lemma H2DWrite_dma:
  assumes "H2DWrite D m posted s = Some s'" "\<not> terminated s" "dma_inv 0 s"
  shows "dma_step_ok s s' \<and> \<not> terminated s'"
proof -
  obtain d s1 where s1: "device_call (dev_RegWrite D (h_bar m) (h_offset m) d (main_time s)) s = Some s1"
      "(if posted then Some s1 else do { (i, s2) \<leftarrow> D2HAlloc s1; Some (D2HOutSend i (D2HWritecomp (h_req_id m)) s2) }) = Some s'"
    using assms(1) by (auto simp: H2DWrite_def split: Option.bind_split_asm)
  note st = device_call_step[OF s1(1) assms(2,3)]
  show ?thesis
  proof (cases posted)
    case False
    then obtain i s2 where a: "D2HAlloc s1 = Some (i, s2)" "s' = D2HOutSend i (D2HWritecomp (h_req_id m)) s2"
      using s1(2) by (auto split: Option.bind_split_asm)
    have "sends s1 [] s'" "same_dma s1 s'"
      using alloc_send(2,4)[OF a(1), where m = "D2HWritecomp (h_req_id m)"] a(2) by (auto simp: msg_reqs_def reqs_def)
    with st dma_step_quiet[of s1 s'] dma_step_trans[of s s1 s'] show ?thesis
      by (auto simp: dma_step_ok_def same_dma_def)
  qed (use st s1(2) in simp)
qed

lemma h2d_dispatch_dma:
  assumes "h2d_dispatch D ty m s = Some s'" "\<not> terminated s" "dma_inv 0 s"
  shows "dma_step_ok s s' \<and> \<not> terminated s'"
proof -
  have r: "dma_step_ok s s" using assms(3) by (simp add: dma_step_ok_def)
  have c: "dma_step_ok s s' \<and> \<not> terminated s'" if "H2DReadcomp D m s = Some s'"
    using that complete_op_dma[OF _ assms(2,3) live_op_in] by (auto simp: H2DReadcomp_def split: Option.bind_split_asm)
  have w: "dma_step_ok s s' \<and> \<not> terminated s'" if "H2DWritecomp D m s = Some s'"
    using that complete_op_dma[OF _ assms(2,3) live_op_in] by (auto simp: H2DWritecomp_def split: Option.bind_split_asm)
  show ?thesis
    using assms(1) H2DRead_dma[OF _ assms(2,3)] H2DWrite_dma[OF _ assms(2,3)] c w device_call_step[OF _ assms(2,3)] r assms(2)
    unfolding h2d_dispatch_def H2DDevctrl_def by (auto split: if_split_asm)
qed

text \<open>Only a message of the host ends the connection, and nothing restores it.\<close>

lemma DmaDo_terminated: "DmaDo op s = Some s' \<Longrightarrow> terminated s' = terminated s"
  using DmaDo_effect(4)[of op s s'] by (cases "terminated s") (auto simp: DmaDo_def terminated_def)

lemma quiet_terminated:
  "interrupt v t s = Some s' \<Longrightarrow> terminated s' = terminated s" "EthSend_nic d s = Some s' \<Longrightarrow> terminated s' = terminated s"
  using interrupt_quiet(1)[of v t s s'] EthSend_quiet(1)[of d s s'] by (auto simp: same_dma_def)

lemma perform_terminated: "perform c s = Some s' \<Longrightarrow> terminated s' = terminated s"
proof (cases c)
  case (CallDma op)
  moreover have "terminated (s\<lparr> dma_live := x \<rparr>) = terminated s" for x by (simp add: terminated_def)
  ultimately show "perform c s = Some s' \<Longrightarrow> ?thesis" using DmaDo_terminated[of op _ s']
    by (auto simp: IssueDma_def Let_def terminated_def split: if_split_asm)
qed (auto simp: MsiIssue_def MsiXIssue_def IntXIssue_def dest: quiet_terminated, auto simp: EventSchedule_def EventCancel_def terminated_def)

lemma perform_all_terminated: "perform_all cs s = Some s' \<Longrightarrow> terminated s' = terminated s"
  by (induction cs arbitrary: s) (auto split: Option.bind_split_asm dest: perform_terminated)

lemma device_call_terminated: "device_call f s = Some s' \<Longrightarrow> terminated s' = terminated s"
  using perform_all_terminated[of _ _ s']
  by (fastforce simp: device_call_def terminated_def split: Option.bind_split_asm prod.split_asm)

lemma alloc_terminated: "D2HAlloc s = Some (i, s1) \<Longrightarrow> terminated (D2HOutSend j m s1) = terminated s \<and> terminated s1 = terminated s"
  by (auto simp: D2HAlloc_def D2HOutSend_def terminated_def out_advance_def Let_def split: if_splits)

lemma DmaTrigger_terminated: "DmaTrigger s = Some s' \<Longrightarrow> terminated s' = terminated s"
  using DmaDo_terminated[of _ _ s'] by (fastforce simp: DmaTrigger_def terminated_def split: list.split_asm if_split_asm)

lemma complete_op_terminated: "complete_op D op d s = Some s' \<Longrightarrow> terminated s' = terminated s"
proof -
  assume "complete_op D op d s = Some s'"
  then obtain f s1 where "device_call f (s\<lparr> dma_live := remove1 op (dma_live s) \<rparr>) = Some s1"
      "DmaTrigger (s1\<lparr> dma_pending := dma_pending s1 - 1 \<rparr>) = Some s'"
    by (auto simp: complete_op_def split: Option.bind_split_asm)
  from device_call_terminated[OF this(1)] DmaTrigger_terminated[OF this(2)] show "terminated s' = terminated s"
    by (simp add: terminated_def)
qed

lemma H2DRead_terminated: "H2DRead D m s = Some s' \<Longrightarrow> terminated s' = terminated s"
proof -
  assume "H2DRead D m s = Some s'"
  then obtain i s1 cs dv s2 r where a: "D2HAlloc s = Some (i, s1)" "perform_all cs (s1\<lparr> dev := dv \<rparr>) = Some s2"
      "s' = D2HOutSend i r s2"
    by (auto simp: H2DRead_def split: if_split_asm Option.bind_split_asm prod.split_asm)
  show "terminated s' = terminated s"
    using alloc_terminated[OF a(1)] perform_all_terminated[OF a(2)] a(3) by (simp add: terminated_def D2HOutSend_def)
qed

lemma H2DWrite_terminated: "H2DWrite D m p s = Some s' \<Longrightarrow> terminated s' = terminated s"
  by (auto simp: H2DWrite_def split: if_split_asm Option.bind_split_asm dest: device_call_terminated alloc_terminated)

lemma h2d_dispatch_terminated: "h2d_dispatch D ty m s = Some s' \<Longrightarrow> terminated s' = terminated s"
  by (auto simp: h2d_dispatch_def H2DReadcomp_def H2DWritecomp_def H2DDevctrl_def
      split: if_split_asm Option.bind_split_asm
      dest: complete_op_terminated device_call_terminated H2DRead_terminated H2DWrite_terminated)

lemma InPoll_terminated:
  assumes "InPoll t q b = Some (r, b')"
  shows "in_terminated b \<Longrightarrow> in_terminated b'"
    and "in_terminated b' \<Longrightarrow> \<not> in_terminated b \<Longrightarrow> \<exists>i. r = Some i \<and> InType (q ! i) = MSG_TYPE_TERMINATE"
  using assms by (auto simp: InPoll_def InPeek_def slot_def Let_def split: Option.bind_split_asm if_split_asm option.split_asm)

lemma PollH2D_dma:
  assumes "PollH2D D q s = Some (q', s')"
  shows "terminated s \<Longrightarrow> terminated s'" and "\<not> terminated s \<Longrightarrow> dma_inv 0 s \<Longrightarrow> terminated s' \<or> dma_step_ok s s'"
proof -
  obtain r b where ip: "InPoll (main_time s) q (nic_pcie (nicif s)) = Some (r, b)"
    using assms by (auto simp: PollH2D_def split: Option.bind_split_asm)
  let ?s1 = "s\<lparr> nicif := (nicif s)\<lparr> nic_pcie := b \<rparr> \<rparr>"
  consider "r = None" "s' = ?s1" | i where "r = Some i" "h2d_dispatch D (InType (q ! i)) (body (q ! i)) ?s1 = Some s'"
    using assms ip by (cases r) (auto simp: PollH2D_def Let_def split: Option.bind_split_asm)
  note cs = this
  show "terminated s \<Longrightarrow> terminated s'"
    using cs InPoll_terminated(1)[OF ip] by cases (auto simp: terminated_def dest!: h2d_dispatch_terminated)
  assume nt: "\<not> terminated s" and inv: "dma_inv 0 s"
  have q1: "dma_inv 0 ?s1" "dma_order ?s1 = dma_order s" using inv by (simp_all add: dma_inv_def dma_order_def)
  show "terminated s' \<or> dma_step_ok s s'"
  proof (cases "terminated ?s1")
    case True
    then show ?thesis using cs by cases (auto dest!: h2d_dispatch_terminated)
  next
    case False
    from cs show ?thesis
    proof cases
      case 1
      then show ?thesis using q1 by (auto simp: dma_step_ok_def)
    next
      case (2 i)
      from h2d_dispatch_dma[OF 2(2) False q1(1)] q1(2) show ?thesis by (simp add: dma_step_ok_def)
    qed
  qed
qed

lemma PollN2D_dma:
  assumes "PollN2D D q s = Some (q', s')"
  shows "terminated s' = terminated s" and "\<not> terminated s \<Longrightarrow> dma_inv 0 s \<Longrightarrow> dma_step_ok s s'"
proof -
  obtain r b where ip: "InPoll (main_time s) q (nic_net (nicif s)) = Some (r, b)"
    using assms by (auto simp: PollN2D_def split: Option.bind_split_asm)
  let ?s1 = "s\<lparr> nicif := (nicif s)\<lparr> nic_net := b \<rparr> \<rparr>"
  have t: "terminated ?s1 = terminated s" "dma_inv 0 ?s1 = dma_inv 0 s" "dma_order ?s1 = dma_order s"
    by (simp_all add: terminated_def dma_inv_def dma_order_def)
  consider "s' = ?s1" | f where "device_call f ?s1 = Some s'"
  proof (cases r)
    case None
    then show thesis using that(1) assms ip by (simp add: PollN2D_def)
  next
    case (Some i)
    show thesis
    proof (cases "InType (q ! i) = NET_MSG_PACKET")
      case True
      then have "EthRecv D (body (q ! i)) ?s1 = Some s'" using assms ip Some
        by (simp add: PollN2D_def split: Option.bind_split_asm)
      then show thesis using that(2) by (simp add: EthRecv_def split: Option.bind_split_asm)
    next
      case False
      then show thesis using that(1) assms ip Some by (simp add: PollN2D_def)
    qed
  qed
  note cs = this
  show "terminated s' = terminated s" using cs
  proof cases
    case 2
    from device_call_terminated[OF 2] show ?thesis by (simp only: t)
  qed (simp only: t)
  assume nt: "\<not> terminated s" and inv: "dma_inv 0 s"
  from cs show "dma_step_ok s s'"
  proof cases
    case 1
    then show ?thesis using inv by (simp add: dma_step_ok_def t)
  next
    case 2
    from device_call_step[OF 2] nt inv show ?thesis by (simp add: dma_step_ok_def t)
  qed
qed

lemma EventTrigger_dma:
  assumes "EventTrigger D s = Some s'"
  shows "terminated s' = terminated s" and "\<not> terminated s \<Longrightarrow> dma_inv 0 s \<Longrightarrow> dma_step_ok s s'"
proof -
  consider "s' = s" | f es where "device_call f (s\<lparr> events := es \<rparr>) = Some s'"
  proof (cases "events s = [] \<or> te_time (hd (events s)) > main_time s")
    case True
    then show thesis using that(1) assms by (cases "events s") (auto simp: EventTrigger_def)
  next
    case False
    then obtain e es where "events s = e # es" "\<not> te_time e > main_time s" by (cases "events s") auto
    then have "device_call (dev_Timed D e (main_time s)) (s\<lparr> events := es \<rparr>) = Some s'" using assms by (simp add: EventTrigger_def)
    then show thesis by (rule that(2))
  qed
  note cs = this
  have t: "terminated (s\<lparr> events := es \<rparr>) = terminated s" "dma_inv 0 (s\<lparr> events := es \<rparr>) = dma_inv 0 s"
      "dma_order (s\<lparr> events := es \<rparr>) = dma_order s" for es
    by (simp_all add: terminated_def dma_inv_def dma_order_def)
  show "terminated s' = terminated s" using cs
  proof cases
    case 2
    from device_call_terminated[OF 2] show ?thesis by (simp only: t)
  qed (simp only: t)
  assume nt: "\<not> terminated s" and inv: "dma_inv 0 s"
  from cs show "dma_step_ok s s'"
  proof cases
    case 1
    then show ?thesis using inv by (simp add: dma_step_ok_def t)
  next
    case 2
    from device_call_step[OF 2] nt inv show ?thesis by (simp add: dma_step_ok_def t)
  qed
qed

lemma nic_sync_quiet:
  assumes "nic_sync f s = Some (ok, s')"
  shows "same_dma s s'" "sends s [] s'" "dev s' = dev s" "events s' = events s" "main_time s' = main_time s"
proof -
  have n: "same_dma s s1 \<and> sends s [] s1 \<and> dev s1 = dev s \<and> events s1 = events s \<and> main_time s1 = main_time s"
    if "D2NAlloc s = Some (i, s0)" "s1 = D2NOutSend i m s0" for i s0 m and s s1 :: "('a, 'b) Runner"
    using that by (auto simp: D2NAlloc_def D2NOutSend_def same_dma_def terminated_def Let_def sends_refl split: if_split_asm)
  have h: "same_dma s s1 \<and> sends s [] s1 \<and> dev s1 = dev s \<and> events s1 = events s \<and> main_time s1 = main_time s"
    if "D2HAlloc s = Some (i, s0)" "s1 = D2HOutSend i D2HSync s0" for i s0 and s s1 :: "('a, 'b) Runner"
    using alloc_send(2,4)[OF that(1), where m = D2HSync] alloc_send(5-7)[OF that(1)] that(2)
    by (simp add: msg_reqs_def reqs_def D2HOutSend_def)
  obtain ok1 s1 where s1: "(if \<not> sync_due (main_time s) (nic_net (nicif s)) then Some (True, s)
        else if \<not> fst f then Some (False, s)
        else do { (i, s1) \<leftarrow> D2NAlloc s; Some (True, D2NOutSend i D2NSync s1) }) = Some (ok1, s1)"
      "(if \<not> ok1 then Some (False, s1)
        else if \<not> sync_due (main_time s1) (nic_pcie (nicif s1)) then Some (True, s1)
        else if \<not> snd f then Some (False, s1)
        else do { (i, s2) \<leftarrow> D2HAlloc s1; Some (True, D2HOutSend i D2HSync s2) }) = Some (ok, s')"
    using assms by (auto simp: nic_sync_def split: Option.bind_split_asm)
  have r: "same_dma x x \<and> sends x [] x" for x :: "('a, 'b) Runner" by (simp add: same_dma_def sends_refl)
  have a: "same_dma s s1 \<and> sends s [] s1 \<and> dev s1 = dev s \<and> events s1 = events s \<and> main_time s1 = main_time s"
    using s1(1) n[of s] r[of s] by (auto split: if_split_asm Option.bind_split_asm)
  moreover have b: "same_dma s1 s' \<and> sends s1 [] s' \<and> dev s' = dev s1 \<and> events s' = events s1 \<and> main_time s' = main_time s1"
    using s1(2) h[of s1] r[of s1] by (auto split: if_split_asm Option.bind_split_asm)
  moreover have "sends s [] s'" using sends_trans[of s "[]" s1 "[]" s'] a b by simp
  ultimately show "same_dma s s'" "sends s [] s'" "dev s' = dev s" "events s' = events s" "main_time s' = main_time s"
    by (auto simp: same_dma_def)
qed

lemma nic_step_dma:
  assumes "nic_step D s s'"
  shows "(terminated s \<longrightarrow> terminated s') \<and> (\<not> terminated s \<and> dma_inv 0 s \<longrightarrow> terminated s' \<or> dma_step_ok s s')"
  using assms
proof cases
  case (h2d q q')
  from PollH2D_dma[OF this] show ?thesis by blast
next
  case (n2d q q')
  from PollN2D_dma[OF this] show ?thesis by blast
next
  case trigger
  from EventTrigger_dma[OF this] show ?thesis by blast
next
  case (synchronize f ok)
  from nic_sync_quiet(1,2)[OF this] dma_step_quiet[of s s'] show ?thesis by (auto simp: same_dma_def)
next
  case (advance b)
  then show ?thesis by (auto simp: terminated_def dma_step_ok_def dma_inv_def dma_order_def)
qed

lemma nic_run_dma:
  "(nic_step D)\<^sup>*\<^sup>* s s' \<Longrightarrow> \<not> terminated s' \<Longrightarrow> dma_inv 0 s \<Longrightarrow> \<not> terminated s \<and> dma_step_ok s s'"
proof (induction rule: rtranclp_induct)
  case base
  then show ?case by (simp add: dma_step_ok_def)
next
  case (step y z)
  have y: "\<not> terminated y" using nic_step_dma[OF step.hyps(2)] step.prems(1) by blast
  then have "dma_step_ok s y" "\<not> terminated s" using step.IH step.prems(2) by auto
  moreover have "dma_step_ok y z" using nic_step_dma[OF step.hyps(2)] y step.prems(1) calculation by (auto simp: dma_step_ok_def)
  ultimately show ?case using dma_step_trans by blast
qed

text \<open>
  C12. The DMA window of the runner. Whatever the host, the network and the device do, while the
  host is connected at most 64 operations are pending, none waits unless 64 are, pending and
  waiting ones are exactly the operations handed over and not completed, and operations reach the
  host in the order in which the device handed them over.
\<close>

theorem dma_window:
  assumes "(nic_step D)\<^sup>*\<^sup>* (Runner_new t d nif) s" "(nic_step D)\<^sup>*\<^sup>* s s'" "\<not> terminated s'"
  shows "dma_inv 0 s' \<and> (\<exists>ops. dma_order s' = dma_order s @ ops)"
proof -
  have "dma_inv 0 (Runner_new t d nif :: ('a, 'b) Runner)" by (simp add: dma_inv_def Runner_new_def)
  moreover have "\<not> terminated s" using rtranclp_induct[OF assms(2), of "\<lambda>x. terminated s \<longrightarrow> terminated x"]
    nic_step_dma[of D] assms(3) by blast
  ultimately have "dma_inv 0 s" using nic_run_dma[OF assms(1)] by (simp add: dma_step_ok_def)
  with nic_run_dma[OF assms(2,3)] show ?thesis by (simp add: dma_step_ok_def)
qed

definition demo_nic_if :: SimbricksNicIf where
  "demo_nic_if = (let b = \<lparr> in_queue = 0, in_pos = 0, in_elen = 128, in_enum = 2, in_timestamp = 0, out_queue = 256, out_pos = 0,
     out_elen = 128, out_enum = 2, out_timestamp = 0, in_terminated = False, conn_state = kConnOpen, sync = False,
     params = PcieIfDefaultParams, shm = None, listen_fd = -1, conn_fd = 5, listener = True \<rparr> in
     \<lparr> nic_pool = SHMPool_zero, nic_net = b, nic_pcie = b \<rparr>)"

text \<open>A device that starts a DMA read for every register write.\<close>

definition demo_nic :: "(nat, unit) Device" where
  "demo_nic = \<lparr> dev_RegRead = \<lambda>_ _ n _ d. Some (replicate n 0, [], d),
     dev_RegWrite = \<lambda>_ a _ _ d. Some ([CallDma \<lparr> op_id = a, op_write = False, op_addr = 4096, op_len = 4, op_data = [0, 0, 0, 0] \<rparr>], Suc d),
     dev_DmaComplete = \<lambda>_ _ d. Some ([], d), dev_EthRx = \<lambda>_ _ _ d. Some ([], d), dev_Timed = \<lambda>_ _ d. Some ([], d),
     dev_DevctrlUpdate = \<lambda>_ _ d. Some ([], d) \<rparr>"

definition demo_h2d :: h2d_queue where
  "demo_h2d = [\<lparr> body = \<lparr> h_req_id = 1, h_offset = 16, h_len = 4, h_bar = 0, h_flags = 0, h_data = replicate 64 9 \<rparr>,
     timestamp = 0, own_type = 0xE5 \<rparr>]"

definition demo_nic_run :: "(nat, unit) Runner" where
  "demo_nic_run = snd (the (PollH2D demo_nic demo_h2d (Runner_new 0 0 demo_nic_if)))"

theorem dma_window_witness:
  "dma_inv 0 demo_nic_run \<and> (\<exists>ops. dma_order demo_nic_run = dma_order (Runner_new 0 0 demo_nic_if :: (nat, unit) Runner) @ ops) \<and>
     dma_order demo_nic_run = [16]"
proof -
  have "PollH2D demo_nic demo_h2d (Runner_new 0 0 demo_nic_if) \<noteq> None" by code_simp
  then obtain q' where "PollH2D demo_nic demo_h2d (Runner_new 0 0 demo_nic_if) = Some (q', demo_nic_run)"
    by (auto simp: demo_nic_run_def)
  then have "nic_step demo_nic (Runner_new 0 0 demo_nic_if) demo_nic_run" by (rule nic_step.h2d)
  moreover have "\<not> terminated demo_nic_run" by code_simp
  moreover have "dma_order demo_nic_run = [16]" by code_simp
  ultimately show ?thesis
    using dma_window[of demo_nic 0 0 demo_nic_if "Runner_new 0 0 demo_nic_if" demo_nic_run] by blast
qed

text \<open>Every pass of the main loop is a sequence of these steps.\<close>

lemma sync_loop_steps: "sync_loop fs s = Some s' \<Longrightarrow> (nic_step D)\<^sup>*\<^sup>* s s'"
proof (induction fs arbitrary: s)
  case (Cons f fs)
  obtain ok s1 where n: "nic_sync f s = Some (ok, s1)" "(if ok then Some s1 else sync_loop fs s1) = Some s'"
    using Cons.prems by (auto split: Option.bind_split_asm)
  have "(nic_step D)\<^sup>*\<^sup>* s1 s'" using n(2) Cons.IH[of s1] by (auto split: if_split_asm)
  then show ?case using nic_step.synchronize[OF n(1), of D] by (rule converse_rtranclp_into_rtranclp[rotated])
qed simp

lemma poll_once_steps:
  assumes "poll_once D b v s = Some (ts, s')"
  shows "(nic_step D)\<^sup>*\<^sup>* s s'" "ts = next_ts b s'"
proof -
  obtain q1 s1 q2 s2 where p: "PollH2D D (fst v) s = Some (q1, s1)" "PollN2D D (snd v) s1 = Some (q2, s2)"
      "EventTrigger D s2 = Some s'" "ts = next_ts b s'"
    using assms by (auto simp: poll_once_def split: Option.bind_split_asm)
  show "ts = next_ts b s'" by fact
  show "(nic_step D)\<^sup>*\<^sup>* s s'"
    using nic_step.h2d[OF p(1)] nic_step.n2d[OF p(2)] nic_step.trigger[OF p(3)]
    by (meson r_into_rtranclp rtranclp.rtrancl_into_rtrancl)
qed

lemma poll_loop_steps:
  "poll_loop D b vs s = Some r \<Longrightarrow> (nic_step D)\<^sup>*\<^sup>* s (case r of Inl x \<Rightarrow> x | Inr x \<Rightarrow> x)"
proof (induction vs arbitrary: s)
  case (Cons ve vs)
  obtain v ex where ve: "ve = (v, ex)" by (cases ve)
  obtain ts s1 where p: "poll_once D b v s = Some (ts, s1)"
      "(if ts \<le> main_time s1 \<and> \<not> ex then poll_loop D b vs s1 else Some (Inr (s1\<lparr> main_time := ts \<rparr>))) = Some r"
    using Cons.prems ve by (auto split: Option.bind_split_asm)
  note st = poll_once_steps[OF p(1)]
  show ?case
  proof (cases "ts \<le> main_time s1 \<and> \<not> ex")
    case True
    with p(2) Cons.IH[of s1] st(1) show ?thesis by (simp add: rtranclp_trans)
  next
    case False
    with p(2) st nic_step.advance[of D s1 b] show ?thesis by (auto simp: rtranclp.rtrancl_into_rtrancl)
  qed
qed auto

lemma RunMain_loop_steps: "RunMain_loop D b ps s = Some s' \<Longrightarrow> (nic_step D)\<^sup>*\<^sup>* s s'"
proof (induction ps arbitrary: s)
  case (Cons p ps)
  obtain fs vs where p: "p = (fs, vs)" by (cases p)
  obtain s1 r where l: "sync_loop fs s = Some s1" "poll_loop D b vs s1 = Some r"
      "(case r of Inl s2 \<Rightarrow> Some s2 | Inr s2 \<Rightarrow> RunMain_loop D b ps s2) = Some s'"
    using Cons.prems p by (auto split: Option.bind_split_asm)
  have "(nic_step D)\<^sup>*\<^sup>* s (case r of Inl x \<Rightarrow> x | Inr x \<Rightarrow> x)"
    using sync_loop_steps[OF l(1)] poll_loop_steps[OF l(2)] by (rule rtranclp_trans)
  moreover have "(nic_step D)\<^sup>*\<^sup>* (case r of Inl x \<Rightarrow> x | Inr x \<Rightarrow> x) s'"
    using l(3) Cons.IH by (cases r) auto
  ultimately show ?case by (rule rtranclp_trans)
qed simp

section \<open>Events and time\<close>

definition ev_sorted :: "'e TimedEvent list \<Rightarrow> bool" where
  "ev_sorted es = sorted_wrt (\<lambda>a b. \<not> EventCmp b a) es"

text \<open>What the calls of a device do to the event set, and calls that schedule nothing in the past.\<close>

fun event_call :: "'e runner_call \<Rightarrow> 'e TimedEvent list \<Rightarrow> 'e TimedEvent list" where
  "event_call (CallSchedule e) es = event_insert e es"
| "event_call (CallCancel e) es = filter (\<lambda>x. EventCmp e x \<or> EventCmp x e) es"
| "event_call _ es = es"

definition event_calls :: "'e runner_call list \<Rightarrow> 'e TimedEvent list \<Rightarrow> 'e TimedEvent list" where
  "event_calls cs es = fold event_call cs es"

definition timely :: "u64 \<Rightarrow> 'e runner_call list \<Rightarrow> bool" where
  "timely t cs = (\<forall>e. CallSchedule e \<in> set cs \<longrightarrow> t \<le> te_time e)"

lemma event_insert_set: "set (event_insert e es) = insert e (set es)"
  by (induction es) auto

lemma event_insert_mset: "mset (event_insert e es) = add_mset e (mset es)"
  by (induction es) auto

lemma lex_negtrans:
  fixes a b c :: "'a::linorder" and p q r :: "'b::linorder"
  assumes "a < b \<or> a = b \<and> p < q" "\<not> (c < b \<or> c = b \<and> r < q)"
  shows "\<not> (c < a \<or> c = a \<and> r < p)"
proof -
  have "b \<le> c" "c = b \<Longrightarrow> q \<le> r" using assms(2) by auto
  then show ?thesis using assms(1) by (metis leD le_less_trans less_le_not_le less_trans order.strict_trans2)
qed

lemma EventCmp_negtrans: "EventCmp e x \<Longrightarrow> \<not> EventCmp y x \<Longrightarrow> \<not> EventCmp y e"
  unfolding EventCmp_def by (rule lex_negtrans)

lemma EventCmp_asym: "EventCmp e x \<Longrightarrow> \<not> EventCmp x e"
  using EventCmp_negtrans[of e x x] by (simp add: EventCmp_def)

lemma event_insert_sorted:
  assumes "ev_sorted es"
  shows "ev_sorted (event_insert e es)"
  using assms
proof (induction es)
  case (Cons x xs)
  have xs: "ev_sorted xs" "\<And>y. y \<in> set xs \<Longrightarrow> \<not> EventCmp y x" using Cons.prems by (auto simp: ev_sorted_def)
  show ?case
  proof (cases "EventCmp e x")
    case True
    have "\<forall>y\<in>set (x # xs). \<not> EventCmp y e"
      using True xs(2) EventCmp_negtrans[OF True] EventCmp_asym[OF True] by simp
    with True Cons.prems show ?thesis by (simp add: ev_sorted_def)
  next
    case False
    with Cons.IH[OF xs(1)] xs(2) show ?thesis by (simp add: ev_sorted_def event_insert_set)
  qed
qed (simp add: ev_sorted_def)

lemma event_calls_sorted: "ev_sorted es \<Longrightarrow> ev_sorted (event_calls cs es)"
proof (induction cs arbitrary: es)
  case (Cons c cs)
  have "ev_sorted (event_call c es)"
    using Cons.prems event_insert_sorted[of es] by (cases c) (auto simp: ev_sorted_def sorted_wrt_filter)
  with Cons.IH show ?case by (simp add: event_calls_def)
qed (simp add: event_calls_def)

lemma event_calls_timely:
  "timely t cs \<Longrightarrow> \<forall>e\<in>set es. t \<le> te_time e \<Longrightarrow> \<forall>e\<in>set (event_calls cs es). t \<le> te_time e"
proof (induction cs arbitrary: es)
  case (Cons c cs)
  have "\<forall>e\<in>set (event_call c es). t \<le> te_time e"
    using Cons.prems by (cases c) (auto simp: event_insert_set timely_def)
  moreover have "timely t cs" using Cons.prems(1) by (auto simp: timely_def)
  ultimately show ?case using Cons.IH by (simp add: event_calls_def)
qed (simp add: event_calls_def)

text \<open>
  Cancelling an event erases every pending event of the same time and priority, whichever event
  it is.
\<close>

theorem cancel_erases_equivalent_events:
  assumes "te_time e = te_time x" "te_priority e = te_priority x"
  shows "x \<notin> set (events (EventCancel e s))"
  using assms by (simp add: EventCancel_def EventCmp_def)

text \<open>A runner whose arguments were never parsed is destroyed through null pointers.\<close>

theorem destroy_unparsed_faults: "Runner_destroy (RunnerConfig_new mem rnd) = None"
  by (simp add: Runner_destroy_def SimbricksParametersFree_def RunnerConfig_new_def)

text \<open>The same URL is read as nanoseconds by the runner and as picoseconds by the generic set-up.\<close>

theorem latency_units_differ:
  assumes "link_latency_set ap" "ap_sync ap"
  shows "link_latency (adapter_params ap p) = 1000 * link_latency (apply_params ap p)"
  using assms by (simp add: adapter_params_def apply_params_def Let_def mult.commute)

text \<open>A step that leaves device, events and time alone.\<close>

definition same_dev :: "('d, 'e) Runner \<Rightarrow> ('d, 'e) Runner \<Rightarrow> bool" where
  "same_dev s s' = (dev s' = dev s \<and> events s' = events s \<and> main_time s' = main_time s)"

lemma alloc_same: "D2HAlloc s = Some (i, s1) \<Longrightarrow> same_dev s s1 \<and> same_dev s (D2HOutSend j m s1)"
  by (auto simp: D2HAlloc_def D2HOutSend_def same_dev_def Let_def split: if_splits)

lemma DmaDo_same: "DmaDo op s = Some s' \<Longrightarrow> same_dev s s'"
proof -
  assume d: "DmaDo op s = Some s'"
  show ?thesis
  proof (cases "in_terminated (nic_pcie (nicif s))")
    case False
    obtain i s1 where a: "D2HAlloc s = Some (i, s1)"
      using d False by (auto simp: DmaDo_def split: Option.bind_split_asm)
    then have "same_dev s s1" using alloc_same by blast
    moreover have "same_dev s1 s'" using d False a
      by (auto simp: DmaDo_def Let_def D2HOutSend_def same_dev_def split: if_split_asm Option.bind_split_asm)
    ultimately show ?thesis by (simp add: same_dev_def)
  qed (use d in \<open>simp add: DmaDo_def same_dev_def\<close>)
qed

lemma DmaTrigger_same: "DmaTrigger s = Some s' \<Longrightarrow> same_dev s s'"
  using DmaDo_same[of _ _ s'] by (fastforce simp: DmaTrigger_def same_dev_def split: list.split_asm if_split_asm)

lemma IssueDma_same: "IssueDma op s = Some s' \<Longrightarrow> same_dev s s'"
  using DmaDo_same[of op _ s'] by (fastforce simp: IssueDma_def Let_def same_dev_def split: if_split_asm)

lemma interrupt_same: "interrupt v t s = Some s' \<Longrightarrow> same_dev s s'"
  using alloc_same[of s] by (fastforce simp: interrupt_def same_dev_def split: if_split_asm Option.bind_split_asm)

lemma EthSend_same: "EthSend_nic d s = Some s' \<Longrightarrow> same_dev s s'"
  by (auto simp: EthSend_nic_def D2NAlloc_def D2NOutSend_def same_dev_def Let_def split: if_split_asm)

lemma perform_events:
  "perform c s = Some s' \<Longrightarrow> dev s' = dev s \<and> main_time s' = main_time s \<and> events s' = event_call c (events s)"
  by (cases c) (auto simp: MsiIssue_def MsiXIssue_def IntXIssue_def EventSchedule_def EventCancel_def same_dev_def
      dest: IssueDma_same interrupt_same EthSend_same)

lemma perform_all_events:
  "perform_all cs s = Some s' \<Longrightarrow> dev s' = dev s \<and> main_time s' = main_time s \<and> events s' = event_calls cs (events s)"
proof (induction cs arbitrary: s)
  case (Cons c cs)
  obtain s1 where "perform c s = Some s1" "perform_all cs s1 = Some s'" using Cons.prems by (auto split: Option.bind_split_asm)
  with perform_events[of c s s1] Cons.IH[of s1] show ?case by (simp add: event_calls_def)
qed (simp add: event_calls_def)

lemma device_call_events:
  assumes "device_call f s = Some s'"
  obtains cs where "f (dev s) = Some (cs, dev s')" "events s' = event_calls cs (events s)" "main_time s' = main_time s"
proof -
  obtain cs d where c: "f (dev s) = Some (cs, d)" "perform_all cs (s\<lparr> dev := d \<rparr>) = Some s'"
    using assms by (auto simp: device_call_def split: Option.bind_split_asm)
  from perform_all_events[OF c(2)] c(1) that show thesis by simp
qed

text \<open>The next time never passes an event.\<close>

lemma next_ts_le_event:
  assumes "ev_sorted (events s)" "e \<in> set (events s)"
  shows "next_ts b s \<le> te_time e"
proof -
  obtain x xs where x: "events s = x # xs" using assms(2) by (cases "events s") auto
  have "e = x \<or> \<not> EventCmp e x" using assms x by (auto simp: ev_sorted_def)
  then have "te_time x \<le> te_time e" by (auto simp: EventCmp_def)
  moreover have "\<exists>t. next_ts b s = (if te_time x < t then te_time x else t)"
    unfolding next_ts_def EventNext_def x Let_def list.case option.case by (rule exI) (rule refl)
  then have "next_ts b s \<le> te_time x" by (auto simp: not_less)
  ultimately show ?thesis by simp
qed

text \<open>
  The contract of a timely device: up to the time \<open>T\<close>, every function of the device keeps a
  relation between the device and its pending events and schedules nothing in the past. The event
  being delivered is no longer pending while the device handles it.
\<close>

locale timely_device =
  fixes D :: "('d, 'e) Device" and I :: "'d \<Rightarrow> 'e TimedEvent list \<Rightarrow> bool" and T :: u64
  assumes reg_read: "I d es \<Longrightarrow> t \<le> T \<Longrightarrow> dev_RegRead D bar a n t d = Some (bs, cs, d') \<Longrightarrow> timely t cs \<and> I d' (event_calls cs es)"
    and reg_write: "I d es \<Longrightarrow> t \<le> T \<Longrightarrow> dev_RegWrite D bar a bs t d = Some (cs, d') \<Longrightarrow> timely t cs \<and> I d' (event_calls cs es)"
    and dma_complete: "I d es \<Longrightarrow> t \<le> T \<Longrightarrow> dev_DmaComplete D op t d = Some (cs, d') \<Longrightarrow> timely t cs \<and> I d' (event_calls cs es)"
    and eth_rx: "I d es \<Longrightarrow> t \<le> T \<Longrightarrow> dev_EthRx D port bs t d = Some (cs, d') \<Longrightarrow> timely t cs \<and> I d' (event_calls cs es)"
    and timed: "I d (e # es) \<Longrightarrow> t \<le> T \<Longrightarrow> dev_Timed D e t d = Some (cs, d') \<Longrightarrow> timely t cs \<and> I d' (event_calls cs es)"
    and devctrl: "I d es \<Longrightarrow> t \<le> T \<Longrightarrow> dev_DevctrlUpdate D fl t d = Some (cs, d') \<Longrightarrow> timely t cs \<and> I d' (event_calls cs es)"
begin

definition rinv :: "('d, 'e) Runner \<Rightarrow> bool" where
  "rinv s = (I (dev s) (events s) \<and> ev_sorted (events s) \<and> (\<forall>e\<in>set (events s). main_time s \<le> te_time e))"

lemma rinvD: "rinv s \<Longrightarrow> I (dev s) (events s)"
  by (simp add: rinv_def)

lemma rinv_same: "same_dev s s' \<Longrightarrow> rinv s' = rinv s"
  by (simp add: rinv_def same_dev_def)

lemma rinv_calls:
  assumes "rinv s" "timely (main_time s) cs" "I d' (event_calls cs (events s))" "dev s' = d'"
    "events s' = event_calls cs (events s)" "main_time s' = main_time s"
  shows "rinv s'"
  using assms event_calls_sorted[of "events s" cs] event_calls_timely[of "main_time s" cs "events s"]
  by (simp add: rinv_def)

lemma device_call_rinv:
  assumes "device_call f s = Some s'" "rinv s"
    "\<And>cs d'. f (dev s) = Some (cs, d') \<Longrightarrow> timely (main_time s) cs \<and> I d' (event_calls cs (events s))"
  shows "rinv s' \<and> main_time s' = main_time s"
proof -
  obtain cs where c: "f (dev s) = Some (cs, dev s')" "events s' = event_calls cs (events s)" "main_time s' = main_time s"
    by (rule device_call_events[OF assms(1)])
  from rinv_calls[OF assms(2) _ _ refl c(2,3)] assms(3)[OF c(1)] c(3) show ?thesis by blast
qed

lemma complete_op_rinv:
  assumes "complete_op D op d s = Some s'" "rinv s" "main_time s \<le> T"
  shows "rinv s' \<and> main_time s' = main_time s"
proof -
  let ?s0 = "s\<lparr> dma_live := remove1 op (dma_live s) \<rparr>"
  obtain s1 where s1: "device_call (dev_DmaComplete D (op\<lparr> op_data := wr 0 d (op_data op) \<rparr>) (main_time s)) ?s0 = Some s1"
      "DmaTrigger (s1\<lparr> dma_pending := dma_pending s1 - 1 \<rparr>) = Some s'"
    using assms(1) by (auto simp: complete_op_def split: Option.bind_split_asm)
  have r0: "rinv ?s0" using assms(2) by (simp add: rinv_def)
  have "rinv s1 \<and> main_time s1 = main_time ?s0"
    by (rule device_call_rinv[OF s1(1) r0]) (use dma_complete[OF rinvD[OF assms(2)] assms(3)] in simp)
  moreover have "rinv s' = rinv s1 \<and> main_time s' = main_time s1"
    using DmaTrigger_same[OF s1(2)] by (simp add: rinv_def same_dev_def)
  ultimately show ?thesis by simp
qed

lemma H2DRead_rinv:
  assumes "H2DRead D m s = Some s'" "rinv s" "main_time s \<le> T"
  shows "rinv s' \<and> main_time s' = main_time s"
proof -
  obtain i s1 d cs dv s2 where a: "D2HAlloc s = Some (i, s1)"
      "dev_RegRead D (h_bar m) (h_offset m) (unat (h_len m)) (main_time s1) (dev s1) = Some (d, cs, dv)"
      "perform_all cs (s1\<lparr> dev := dv \<rparr>) = Some s2" and s': "s' = D2HOutSend i (D2HReadcomp (h_req_id m) d) s2"
    using assms(1) by (auto simp: H2DRead_def split: if_split_asm Option.bind_split_asm prod.split_asm)
  have e: "dev s1 = dev s" "events s1 = events s" "main_time s1 = main_time s"
    using alloc_same[OF a(1)] by (simp_all add: same_dev_def)
  have p: "dev s2 = dv" "main_time s2 = main_time s" "events s2 = event_calls cs (events s)"
    using perform_all_events[OF a(3)] e by simp_all
  have "timely (main_time s) cs \<and> I dv (event_calls cs (events s))"
    using reg_read[OF rinvD[OF assms(2)] assms(3)] a(2) e by simp
  then have "rinv s2" using rinv_calls[OF assms(2), of cs dv s2] p by simp
  then show ?thesis using p(2) by (simp add: s' D2HOutSend_def rinv_def)
qed

lemma H2DWrite_rinv:
  assumes "H2DWrite D m posted s = Some s'" "rinv s" "main_time s \<le> T"
  shows "rinv s' \<and> main_time s' = main_time s"
proof -
  obtain d s1 where s1: "device_call (dev_RegWrite D (h_bar m) (h_offset m) d (main_time s)) s = Some s1"
      "(if posted then Some s1 else do { (i, s2) \<leftarrow> D2HAlloc s1; Some (D2HOutSend i (D2HWritecomp (h_req_id m)) s2) }) = Some s'"
    using assms(1) by (auto simp: H2DWrite_def split: Option.bind_split_asm)
  have "rinv s1 \<and> main_time s1 = main_time s"
    by (rule device_call_rinv[OF s1(1) assms(2)]) (rule reg_write[OF rinvD[OF assms(2)] assms(3)])
  moreover have "s' = s1 \<or> same_dev s1 s'"
    using s1(2) alloc_same[of s1] by (auto split: if_split_asm Option.bind_split_asm)
  then have "rinv s' = rinv s1 \<and> main_time s' = main_time s1"
    using rinv_same[of s1 s'] by (auto simp: same_dev_def)
  ultimately show ?thesis by simp
qed

lemma h2d_dispatch_rinv:
  assumes "h2d_dispatch D ty m s = Some s'" "rinv s" "main_time s \<le> T"
  shows "rinv s' \<and> main_time s' = main_time s"
proof -
  have dc: "rinv s' \<and> main_time s' = main_time s" if "H2DDevctrl D m s = Some s'"
    using that unfolding H2DDevctrl_def
    by (rule device_call_rinv[OF _ assms(2)]) (rule devctrl[OF rinvD[OF assms(2)] assms(3)])
  have co: "rinv s' \<and> main_time s' = main_time s" if "H2DReadcomp D m s = Some s' \<or> H2DWritecomp D m s = Some s'"
    using that complete_op_rinv[OF _ assms(2,3)]
    by (auto simp: H2DReadcomp_def H2DWritecomp_def split: Option.bind_split_asm)
  show ?thesis
    using assms(1) H2DRead_rinv[OF _ assms(2,3)] H2DWrite_rinv[OF _ assms(2,3)] dc co assms(2)
    unfolding h2d_dispatch_def by (auto split: if_split_asm)
qed

lemma rinv_nicif: "rinv (s\<lparr> nicif := x \<rparr>) = rinv s"
  by (simp add: rinv_def)

lemma PollH2D_rinv:
  assumes "PollH2D D q s = Some (q', s')" "rinv s" "main_time s \<le> T"
  shows "rinv s'"
proof -
  obtain r b where ip: "InPoll (main_time s) q (nic_pcie (nicif s)) = Some (r, b)"
    using assms(1) by (auto simp: PollH2D_def split: Option.bind_split_asm)
  let ?s1 = "s\<lparr> nicif := (nicif s)\<lparr> nic_pcie := b \<rparr> \<rparr>"
  have r1: "rinv ?s1" "main_time ?s1 \<le> T" using assms(2,3) by (simp_all add: rinv_nicif)
  show ?thesis
  proof (cases r)
    case None
    then show ?thesis using assms(1) ip r1 by (simp add: PollH2D_def)
  next
    case (Some i)
    then have "h2d_dispatch D (InType (q ! i)) (body (q ! i)) ?s1 = Some s'"
      using assms(1) ip by (simp add: PollH2D_def split: Option.bind_split_asm)
    from h2d_dispatch_rinv[OF this r1] show ?thesis by blast
  qed
qed

lemma PollN2D_rinv:
  assumes "PollN2D D q s = Some (q', s')" "rinv s" "main_time s \<le> T"
  shows "rinv s'"
proof -
  obtain r b where ip: "InPoll (main_time s) q (nic_net (nicif s)) = Some (r, b)"
    using assms(1) by (auto simp: PollN2D_def split: Option.bind_split_asm)
  let ?s1 = "s\<lparr> nicif := (nicif s)\<lparr> nic_net := b \<rparr> \<rparr>"
  have r1: "rinv ?s1" "main_time ?s1 \<le> T" "I (dev ?s1) (events ?s1)" using assms(2,3) by (simp_all add: rinv_def)
  show ?thesis
  proof (cases r)
    case None
    then show ?thesis using assms(1) ip r1 by (simp add: PollN2D_def)
  next
    case (Some i)
    show ?thesis
    proof (cases "InType (q ! i) = NET_MSG_PACKET")
      case True
      then have "EthRecv D (body (q ! i)) ?s1 = Some s'"
        using assms(1) ip Some by (simp add: PollN2D_def split: Option.bind_split_asm)
      then obtain d where "device_call (dev_EthRx D (np_port (body (q ! i))) d (main_time ?s1)) ?s1 = Some s'"
        by (simp add: EthRecv_def split: Option.bind_split_asm)
      from device_call_rinv[OF this r1(1)] eth_rx[OF r1(3,2)] show ?thesis by blast
    next
      case False
      then show ?thesis using assms(1) ip Some r1 by (simp add: PollN2D_def)
    qed
  qed
qed

text \<open>An event is delivered exactly at its time, in the order of the events.\<close>

lemma EventTrigger_rinv:
  assumes "EventTrigger D s = Some s'" "rinv s" "main_time s \<le> T"
  shows "rinv s'" and "events s = e # es \<Longrightarrow> te_time e \<le> main_time s \<Longrightarrow> te_time e = main_time s"
proof -
  show "events s = e # es \<Longrightarrow> te_time e \<le> main_time s \<Longrightarrow> te_time e = main_time s"
    using assms(2) by (auto simp: rinv_def)
  show "rinv s'"
  proof (cases "events s = [] \<or> te_time (hd (events s)) > main_time s")
    case True
    then show ?thesis using assms(1,2) by (cases "events s") (auto simp: EventTrigger_def)
  next
    case False
    then obtain e es where e: "events s = e # es" "\<not> te_time e > main_time s" by (cases "events s") auto
    then have dcall: "device_call (dev_Timed D e (main_time s)) (s\<lparr> events := es \<rparr>) = Some s'"
      using assms(1) by (simp add: EventTrigger_def)
    obtain cs where c: "dev_Timed D e (main_time s) (dev s) = Some (cs, dev s')" "events s' = event_calls cs es"
        "main_time s' = main_time s"
      using device_call_events[OF dcall] by auto
    have "timely (main_time s) cs \<and> I (dev s') (event_calls cs es)"
      using timed[OF rinvD[OF assms(2), unfolded e(1)] assms(3) c(1)] .
    moreover have "ev_sorted es" "\<forall>x\<in>set es. main_time s \<le> te_time x" using assms(2) e(1) by (auto simp: rinv_def ev_sorted_def)
    ultimately show ?thesis
      using c event_calls_sorted[of es cs] event_calls_timely[of "main_time s" cs es] by (simp add: rinv_def)
  qed
qed

lemma nic_step_rinv:
  assumes "nic_step D s s'" "rinv s" "main_time s \<le> T"
  shows "rinv s'"
  using assms(1)
proof cases
  case (h2d q q')
  from PollH2D_rinv[OF this assms(2,3)] show ?thesis .
next
  case (n2d q q')
  from PollN2D_rinv[OF this assms(2,3)] show ?thesis .
next
  case trigger
  from EventTrigger_rinv(1)[OF this assms(2,3)] show ?thesis .
next
  case (synchronize f ok)
  from nic_sync_quiet(3-5)[OF this] assms(2) show ?thesis by (simp add: rinv_def)
next
  case (advance b)
  with assms(2) next_ts_le_event[of s _ b] show ?thesis by (simp add: rinv_def)
qed

lemma nic_run_rinv:
  "(\<lambda>x y. nic_step D x y \<and> main_time x \<le> T)\<^sup>*\<^sup>* s s' \<Longrightarrow> rinv s \<Longrightarrow> rinv s'"
  by (induction rule: rtranclp_induct) (auto intro: nic_step_rinv)

end

end
