(* ===== verification/Dpu_Nic.thy ===== *)
theory Dpu_Nic
  imports Nicbm_Safety Dpu_Safety
begin

text \<open>
  The DPU device under the runner: the device's virtual functions as the runner calls them
  (\<^verbatim>\<open>sims/nic/dpu_bm/dpu_bm.cc\<close> with \<^verbatim>\<open>lib/simbricks/nicbm/nicbm.cc\<close>). The device meets the
  contract of a timely device, so the invariant of the device and its pending processing events
  holds for the events that the runner holds, and each of them is delivered at its time.
\<close>

datatype dpu_event = ProcEv ProcessingEvent | SampEv

fun to_call :: "dpu_effect \<Rightarrow> dpu_event runner_call" where
  "to_call (EthSend f) = CallEthSend f"
| "to_call (ScheduleProcessing pe) = CallSchedule \<lparr> te_time = ev_time pe, te_priority = 0, te_body = ProcEv pe \<rparr>"
| "to_call (ScheduleSampling t) = CallSchedule \<lparr> te_time = t, te_priority = 0, te_body = SampEv \<rparr>"

definition dpu_timed :: "dpu_event TimedEvent \<Rightarrow> u64 \<Rightarrow> DpuDevice \<Rightarrow> (dpu_event runner_call list \<times> DpuDevice) option" where
  "dpu_timed te now d = (case te_body te of
       ProcEv pe \<Rightarrow> map_option (map_prod (map to_call) id) (Timed pe d)
     | SampEv \<Rightarrow> Some (map_prod (map to_call) id (Timed_sampling now d)))"

definition dpu_device :: "(DpuDevice, dpu_event) Device" where
  "dpu_device = \<lparr> dev_RegRead = \<lambda>bar a n _ d. Some (RegRead bar a n d, [], d),
     dev_RegWrite = \<lambda>bar a bs _ d. Some ([], RegWrite bar a bs d),
     dev_DmaComplete = \<lambda>_ _ d. Some ([], d),
     dev_EthRx = \<lambda>port f now d. map_option (map_prod (map to_call) id) (EthRx port f now d),
     dev_Timed = dpu_timed,
     dev_DevctrlUpdate = \<lambda>_ _ d. Some ([], d) \<rparr>"

text \<open>The start of the simulation: the device is set up and its first sampling event is scheduled.\<close>

definition dpu_start :: "DpuConfig \<Rightarrow> PcieDevIntro \<Rightarrow> u64 \<Rightarrow> SimbricksNicIf \<Rightarrow> (DpuDevice, dpu_event) Runner option" where
  "dpu_start c di start nif = do {
     d \<leftarrow> DpuDevice_new c;
     (case SetupIntro di start d of (_, es, d1) \<Rightarrow> perform_all (map to_call es) (Runner_new start d1 nif)) }"

section \<open>The device meets the contract of the runner\<close>

definition procs :: "dpu_event TimedEvent list \<Rightarrow> ProcessingEvent list" where
  "procs es = concat (map (\<lambda>e. case te_body e of ProcEv pe \<Rightarrow> [pe] | SampEv \<Rightarrow> []) es)"

definition time_limit :: u64 where [simp]: "time_limit = 0x7FFFFFFFFFFFFFFF"

definition delays_ok :: "DpuDevice \<Rightarrow> bool" where
  "delays_ok d = (per_packet_base_latency_ns (cfg d) * 1000 \<le> time_limit \<and> sampling_interval_ps d \<le> time_limit)"

definition dpu_pending_inv :: "DpuDevice \<Rightarrow> dpu_event TimedEvent list \<Rightarrow> bool" where
  "dpu_pending_inv d es = (dpu_inv (d, procs es) \<and> delays_ok d)"

lemma no_wrap: "t \<le> time_limit \<Longrightarrow> x \<le> time_limit \<Longrightarrow> t \<le> t + x"
  by (simp add: word_le_nat_alt unat_word_ariths)

lemma dpu_inv_perm:
  assumes "mset P = mset Q" "dpu_inv (d, P)"
  shows "dpu_inv (d, Q)"
proof -
  have s: "set P = set Q" "length P = length Q" using assms(1) by (auto dest: mset_eq_setD mset_eq_length)
  have "mset (cores P) = mset (cores Q)" using assms(1) by (simp add: cores_def)
  then have "set (cores P) = set (cores Q)" "distinct (cores P) = distinct (cores Q)"
    by (auto dest: mset_eq_setD mset_eq_imp_distinct_iff)
  with assms(2) s show ?thesis by simp
qed

lemma procs_insert: "mset (procs (event_insert e es)) = mset (procs [e]) + mset (procs es)"
  by (induction es) (auto simp: procs_def)

text \<open>Effects that only schedule processing in the future and otherwise send packets.\<close>

lemma procs_calls:
  "mset (procs (event_calls (map to_call es) evs)) = mset (procs evs @ scheduled es)"
proof (induction es arbitrary: evs)
  case Nil
  then show ?case by (simp add: event_calls_def)
next
  case (Cons e es)
  have "event_calls (map to_call (e # es)) evs = event_calls (map to_call es) (event_call (to_call e) evs)"
    by (simp add: event_calls_def)
  moreover have "mset (procs (event_call (to_call e) evs)) = mset (procs evs @ scheduled [e])"
    by (cases e) (simp_all add: procs_insert, simp_all add: procs_def)
  moreover have "mset (scheduled (e # es)) = mset (scheduled [e]) + mset (scheduled es)" by (cases e) simp_all
  ultimately show ?case using Cons.IH[of "event_call (to_call e) evs"] by simp
qed

lemma EthRx_delay:
  assumes "EthRx port frame now d = Some (es, d')"
  shows "cfg d' = cfg d" "sampling_interval_ps d' = sampling_interval_ps d"
    "x \<in> set es \<Longrightarrow> (\<exists>f. x = EthSend f) \<or> (\<exists>pe. x = ScheduleProcessing pe \<and> ev_time pe = now + per_packet_base_latency_ns (cfg d) * 1000)"
  using assms
  by (auto simp: EthRx_def Let_def EscalateToHost_def split: if_split_asm option.split_asm prod.split_asm Option.bind_split_asm)

lemma run_actions_sends: "run_actions acts d = (es, d') \<Longrightarrow> x \<in> set es \<Longrightarrow> \<exists>f. x = EthSend f"
proof (induction acts d arbitrary: es d' rule: run_actions.induct)
  case (3 f as d)
  then show ?case by (auto simp: EscalateToHost_def split: prod.splits)
qed (auto split: prod.splits)

lemma Timed_sends:
  assumes "Timed pe d = Some (es, d')"
  shows "x \<in> set es \<Longrightarrow> \<exists>f. x = EthSend f"
proof -
  assume x: "x \<in> set es"
  show ?thesis
  proof (cases "map_of (handlers d) (ev_primitive_type pe)")
    case None
    then show ?thesis using assms x by (auto simp: Timed_def Let_def split: if_split_asm Option.bind_split_asm)
  next
    case (Some h)
    then obtain acts h' where "HandlePacket h (drop kMinHcopFrameLen (ev_payload pe)) (ev_ctx pe) = Some (acts, h')"
      using assms by (auto simp: Timed_def split: Option.bind_split_asm)
    moreover obtain es1 d1 where "run_actions acts (d\<lparr> handlers := AList.update (ev_primitive_type pe) h' (handlers d) \<rparr>) = (es1, d1)"
      by fastforce
    ultimately show ?thesis using assms Some x run_actions_sends[of acts _ es1 d1]
      by (auto simp: Timed_def Let_def split: if_split_asm Option.bind_split_asm)
  qed
qed

lemma sends_no_events: "(\<And>x. x \<in> set es \<Longrightarrow> \<exists>f. x = EthSend f) \<Longrightarrow> event_calls (map to_call es) evs = evs \<and> timely t (map to_call es)"
proof (induction es arbitrary: evs)
  case (Cons e es)
  obtain f where "e = EthSend f" using Cons.prems[of e] by auto
  moreover have "event_calls (map to_call es) evs = evs \<and> timely t (map to_call es)" using Cons.IH[of evs] Cons.prems by auto
  ultimately show ?case by (auto simp: event_calls_def timely_def)
qed (simp add: event_calls_def timely_def)

lemma dpu_eth_rx:
  assumes "dpu_pending_inv d es" "t \<le> time_limit" "EthRx port f t d = Some (effs, d')"
  shows "timely t (map to_call effs) \<and> dpu_pending_inv d' (event_calls (map to_call effs) es)"
proof -
  note e = EthRx_delay[OF assms(3)]
  have dl: "delays_ok d" using assms(1) by (simp add: dpu_pending_inv_def)
  have "t \<le> t + per_packet_base_latency_ns (cfg d) * 1000" using no_wrap[OF assms(2)] dl by (simp add: delays_ok_def)
  then have "timely t (map to_call effs)" using e(3) by (fastforce simp: timely_def)
  moreover have "dpu_inv (d', procs es @ scheduled effs)"
    using EthRx_inv[OF _ assms(3)] assms(1) by (simp add: dpu_pending_inv_def del: dpu_inv.simps)
  then have "dpu_inv (d', procs (event_calls (map to_call effs) es))" by (rule dpu_inv_perm[OF procs_calls[symmetric]])
  ultimately show ?thesis using dl e(1,2) by (simp add: dpu_pending_inv_def delays_ok_def del: dpu_inv.simps)
qed

lemma dpu_processing:
  assumes "dpu_pending_inv d (e # es)" "te_body e = ProcEv pe" "Timed pe d = Some (effs, d')"
  shows "timely t (map to_call effs) \<and> dpu_pending_inv d' (event_calls (map to_call effs) es)"
proof -
  have inv: "dpu_inv (d, pe # procs es)" using assms(1,2) by (simp add: dpu_pending_inv_def procs_def del: dpu_inv.simps)
  then obtain h where h: "map_of (handlers d) (ev_primitive_type pe) = Some h" by (auto simp: event_ok_def)
  have "dpu_inv (d', procs es)" using Timed_inv[OF inv, of 0 effs d'] assms(3) by (simp del: dpu_inv.simps)
  moreover have "cfg d' = cfg d" "sampling_interval_ps d' = sampling_interval_ps d"
    by (rule Timed_cases[OF assms(3) h], simp)+
  moreover have "event_calls (map to_call effs) es = es \<and> timely t (map to_call effs)"
    by (rule sends_no_events) (rule Timed_sends[OF assms(3)])
  ultimately show ?thesis using assms(1) by (simp add: dpu_pending_inv_def delays_ok_def del: dpu_inv.simps)
qed

lemma dpu_sampling:
  assumes "dpu_pending_inv d es" "t \<le> time_limit" "Timed_sampling t d = (effs, d')"
  shows "timely t (map to_call effs) \<and> dpu_pending_inv d' (event_calls (map to_call effs) es)"
proof -
  have e: "effs = [ScheduleSampling (t + sampling_interval_ps d)]" "d' = d\<lparr> sampling_time := t + sampling_interval_ps d \<rparr>"
    using assms(3) by (simp_all add: Timed_sampling_def)
  have "t \<le> t + sampling_interval_ps d" using no_wrap[OF assms(2)] assms(1) by (simp add: dpu_pending_inv_def delays_ok_def)
  then have "timely t (map to_call effs)" by (simp add: e timely_def)
  moreover have "dpu_inv (d', procs es @ scheduled effs)"
    using assms(1) by (simp add: dpu_pending_inv_def e registry_ok_def event_ok_def)
  then have "dpu_inv (d', procs (event_calls (map to_call effs) es))" by (rule dpu_inv_perm[OF procs_calls[symmetric]])
  ultimately show ?thesis using assms(1) by (simp add: dpu_pending_inv_def delays_ok_def e(2) del: dpu_inv.simps)
qed

lemma dpu_timed_ok:
  assumes "dpu_pending_inv d (e # es)" "t \<le> time_limit" "dpu_timed e t d = Some (cs, d')"
  shows "timely t cs \<and> dpu_pending_inv d' (event_calls cs es)"
proof (cases "te_body e")
  case (ProcEv pe)
  then obtain effs where "Timed pe d = Some (effs, d')" "cs = map to_call effs"
    using assms(3) by (auto simp: dpu_timed_def)
  with dpu_processing[OF assms(1) ProcEv] show ?thesis by blast
next
  case SampEv
  then have "dpu_pending_inv d es" using assms(1) by (simp add: dpu_pending_inv_def procs_def del: dpu_inv.simps)
  moreover obtain effs where "Timed_sampling t d = (effs, d')" "cs = map to_call effs"
    using assms(3) SampEv by (cases "Timed_sampling t d") (auto simp: dpu_timed_def)
  ultimately show ?thesis using dpu_sampling[OF _ assms(2)] by blast
qed

interpretation dpu_nic: timely_device dpu_device dpu_pending_inv time_limit
proof
  fix d es t port bs cs d'
  assume "dpu_pending_inv d es" "t \<le> time_limit" "dev_EthRx dpu_device port bs t d = Some (cs, d')"
  then show "timely t cs \<and> dpu_pending_inv d' (event_calls cs es)"
    using dpu_eth_rx[of d es t port bs] by (auto simp: dpu_device_def)
next
  fix d e es t cs d'
  assume "dpu_pending_inv d (e # es)" "t \<le> time_limit" "dev_Timed dpu_device e t d = Some (cs, d')"
  then show "timely t cs \<and> dpu_pending_inv d' (event_calls cs es)"
    using dpu_timed_ok[of d e es t cs d'] by (simp add: dpu_device_def)
qed (auto simp: dpu_device_def RegWrite_def timely_def event_calls_def)

lemma dpu_start_inv:
  assumes "dpu_start c di start nif = Some s" "start \<le> time_limit"
    "per_packet_base_latency_ns c * 1000 \<le> time_limit" "telemetry_interval_ms c * 1000 * 1000000 \<le> time_limit"
  shows "dpu_nic.rinv s"
proof -
  obtain d where d: "DpuDevice_new c = Some d" using assms(1) by (auto simp: dpu_start_def split: Option.bind_split_asm)
  have dl: "delays_ok d" using d assms(3,4)
    by (auto simp: delays_ok_def DpuDevice_new_def RegisterHandler_def Let_def split: Option.bind_split_asm)
  have s: "s = EventSchedule \<lparr> te_time = start + sampling_interval_ps d, te_priority = 0, te_body = SampEv \<rparr>
      (Runner_new start (d\<lparr> sampling_time := start + sampling_interval_ps d \<rparr>) nif)"
    using assms(1) d by (simp add: dpu_start_def SetupIntro_def)
  have "start \<le> start + sampling_interval_ps d" using no_wrap[OF assms(2)] dl by (simp add: delays_ok_def)
  moreover have "dpu_inv (d\<lparr> sampling_time := start + sampling_interval_ps d \<rparr>, [])"
    using dpu_inv_new[OF d] by (simp add: registry_ok_def)
  ultimately show ?thesis using dl
    by (simp add: s dpu_nic.rinv_def EventSchedule_def Runner_new_def dpu_pending_inv_def procs_def delays_ok_def ev_sorted_def
        del: dpu_inv.simps)
qed

text \<open>
  C7. The DPU under the runner. In every run up to the time limit, whatever the host and the
  network send, the processing events that the runner holds are exactly those of the busy cores,
  one per core, and no pending event lies in the past: simulated time never passes an event, and
  the one delivered next is delivered exactly at its time.
\<close>

theorem dpu_events_on_time:
  assumes "dpu_start c di start nif = Some s0" "start \<le> time_limit"
    "per_packet_base_latency_ns c * 1000 \<le> time_limit" "telemetry_interval_ms c * 1000 * 1000000 \<le> time_limit"
    "(\<lambda>x y. nic_step dpu_device x y \<and> main_time x \<le> time_limit)\<^sup>*\<^sup>* s0 s"
  shows "distinct (cores (procs (events s))) \<and> set (cores (procs (events s))) = busy (core_pool (dev s)) \<and>
    (\<forall>e\<in>set (events s). main_time s \<le> te_time e) \<and>
    (\<forall>e es. events s = e # es \<and> te_time e \<le> main_time s \<longrightarrow> te_time e = main_time s)"
proof -
  have "dpu_nic.rinv s" using dpu_nic.nic_run_rinv[OF assms(5)] dpu_start_inv[OF assms(1-4)] by blast
  then show ?thesis by (auto simp: dpu_nic.rinv_def dpu_pending_inv_def)
qed

definition demo_intro :: PcieDevIntro where
  "demo_intro = \<lparr> bars = replicate 6 (0, 0), pci_vendor_id = 0, pci_device_id = 0, pci_class = 0, pci_subclass = 0, pci_revision = 0,
     pci_msi_nvecs = 0, pci_msix_nvecs = 0, pci_msix_table_bar = 0, pci_msix_pba_bar = 0, pci_msix_table_offset = 0,
     pci_msix_pba_offset = 0, psi_msix_cap_offset = 0 \<rparr>"

definition demo_dpu_runner :: "(DpuDevice, dpu_event) Runner" where
  "demo_dpu_runner = the (dpu_start DpuConfig_init demo_intro 0 demo_nic_if)"

definition demo_n2d :: net_queue where
  "demo_n2d = [\<lparr> body = \<lparr> np_len = of_nat (length demo_dpu_frame), np_port = 0, np_data = demo_dpu_frame \<rparr>,
     timestamp = 0, own_type = 0xC0 \<rparr>]"

definition demo_dpu_rx :: "(DpuDevice, dpu_event) Runner" where
  "demo_dpu_rx = snd (the (PollN2D dpu_device demo_n2d demo_dpu_runner))"

theorem dpu_events_on_time_witness:
  "distinct (cores (procs (events demo_dpu_rx))) \<and> set (cores (procs (events demo_dpu_rx))) = busy (core_pool (dev demo_dpu_rx)) \<and>
     list_all (\<lambda>e. main_time demo_dpu_rx \<le> te_time e) (events demo_dpu_rx) \<and> cores (procs (events demo_dpu_rx)) = [0]"
proof -
  have "dpu_start DpuConfig_init demo_intro 0 demo_nic_if \<noteq> None" by code_simp
  then have s: "dpu_start DpuConfig_init demo_intro 0 demo_nic_if = Some demo_dpu_runner" by (auto simp: demo_dpu_runner_def)
  have "PollN2D dpu_device demo_n2d demo_dpu_runner \<noteq> None" by code_simp
  then obtain q' where "PollN2D dpu_device demo_n2d demo_dpu_runner = Some (q', demo_dpu_rx)" by (auto simp: demo_dpu_rx_def)
  then have "nic_step dpu_device demo_dpu_runner demo_dpu_rx" by (rule nic_step.n2d)
  moreover have "main_time demo_dpu_runner \<le> time_limit" by code_simp
  ultimately have r: "(\<lambda>x y. nic_step dpu_device x y \<and> main_time x \<le> time_limit)\<^sup>*\<^sup>* demo_dpu_runner demo_dpu_rx" by auto
  have b: "(0 :: u64) \<le> time_limit" "per_packet_base_latency_ns DpuConfig_init * 1000 \<le> time_limit"
    "telemetry_interval_ms DpuConfig_init * 1000 * 1000000 \<le> time_limit" by code_simp+
  have "cores (procs (events demo_dpu_rx)) = [0]" by code_simp
  with dpu_events_on_time[OF s b r] show ?thesis unfolding list_all_iff by blast
qed

end
