(* ===== verification/I40e_Sums.thy ===== *)
theory I40e_Sums
  imports Prelude
begin

text \<open>
  Receive-side-scaling hash and checksum offload of the i40e NIC
  (\<^verbatim>\<open>sims/nic/i40e_bm/rss.cc\<close>, \<^verbatim>\<open>xsums.cc\<close>). The hash uses a table of all 32-bit windows of the
  key; the checksums are computed with an unrolled loop and deferred carries. Both are shown equal
  to their textbook definitions. Buffers are byte lists; an access beyond the end is \<open>None\<close>.
\<close>

unbundle bit_operations_syntax

section \<open>Receive-side scaling\<close>

definition rss_key_len :: nat where [simp]: "rss_key_len = 52"
definition rss_cache_len :: nat where [simp]: "rss_cache_len = 288"

text \<open>
  The cache refers to the key registers of the device; here it holds their contents, and a change
  of the registers changes the field \<open>rss_key\<close>.
\<close>

record rss_key_cache =
  cache_dirty :: bool
  rss_key :: "u32 list"
  rss_cache :: "u32 list"

definition rss_key_cache_new :: "u32 list \<Rightarrow> rss_key_cache" where
  "rss_key_cache_new key = \<lparr> cache_dirty = True, rss_key = key, rss_cache = replicate rss_cache_len 0 \<rparr>"

definition key_bytes :: "u32 list \<Rightarrow> bytes" where
  "key_bytes key = concat (map (le_bytes 4) key)"

fun build_loop :: "bytes \<Rightarrow> nat \<Rightarrow> nat \<Rightarrow> u32 \<Rightarrow> u32 list" where
  "build_loop k idx 0 result = []"
| "build_loop k idx (Suc n) result = result # build_loop k (Suc idx) n
     (push_bit 1 result OR (if push_bit (idx mod 8) (ucast (k ! (idx div 8)) :: u32) AND 0x80 \<noteq> 0 then 1 else 0))"

definition rss_build :: "rss_key_cache \<Rightarrow> rss_key_cache" where
  "rss_build c =
     (let k = key_bytes (rss_key c);
          result = push_bit 24 (ucast (k ! 0)) OR push_bit 16 (ucast (k ! 1)) OR push_bit 8 (ucast (k ! 2)) OR ucast (k ! 3) in
      c\<lparr> rss_cache := build_loop k 32 rss_cache_len result, cache_dirty := False \<rparr>)"

definition set_dirty :: "rss_key_cache \<Rightarrow> rss_key_cache" where
  "set_dirty c = c\<lparr> cache_dirty := True \<rparr>"

text \<open>One of the four loops: \<open>n\<close> bits of \<open>v\<close> from the top, against the table from \<open>off\<close>.\<close>

fun hash_loop :: "u32 list \<Rightarrow> nat \<Rightarrow> nat \<Rightarrow> 'a::len word \<Rightarrow> 'a word \<Rightarrow> u32 \<Rightarrow> u32" where
  "hash_loop c off 0 msb v res = res"
| "hash_loop c off (Suc n) msb v res =
     hash_loop c (Suc off) n msb (push_bit 1 v) (if v AND msb \<noteq> 0 then res XOR c ! off else res)"

definition hash_ipv4 :: "u32 \<Rightarrow> u32 \<Rightarrow> u16 \<Rightarrow> u16 \<Rightarrow> rss_key_cache \<Rightarrow> u32 \<times> rss_key_cache" where
  "hash_ipv4 sip dip sp dp c0 =
     (let c = (if cache_dirty c0 then rss_build c0 else c0);
          r1 = hash_loop (rss_cache c) 0 32 0x80000000 sip 0;
          r2 = hash_loop (rss_cache c) 32 32 0x80000000 dip r1;
          r3 = hash_loop (rss_cache c) 64 16 0x8000 sp r2 in
      (hash_loop (rss_cache c) 80 16 0x8000 dp r3, c))"

section \<open>Checksums\<close>

definition word16 :: "u8 \<Rightarrow> u8 \<Rightarrow> u32" where
  "word16 lo hi = ucast lo OR push_bit 8 (ucast hi)"

fun raw_cksum4 :: "bytes \<Rightarrow> u32 \<Rightarrow> bytes \<times> u32" where
  "raw_cksum4 (b0 # b1 # b2 # b3 # b4 # b5 # b6 # b7 # bs) acc =
     raw_cksum4 bs (acc + word16 b0 b1 + word16 b2 b3 + word16 b4 b5 + word16 b6 b7)"
| "raw_cksum4 bs acc = (bs, acc)"

fun raw_cksum2 :: "bytes \<Rightarrow> u32 \<Rightarrow> u32" where
  "raw_cksum2 (b0 # b1 # bs) acc = raw_cksum2 bs (acc + word16 b0 b1)"
| "raw_cksum2 [b] acc = acc + ucast b"
| "raw_cksum2 [] acc = acc"

definition raw_cksum :: "bytes \<Rightarrow> u32 \<Rightarrow> u32" where
  "raw_cksum bs acc = (case raw_cksum4 bs acc of (rest, s) \<Rightarrow> raw_cksum2 rest s)"

definition fold_carry :: "u32 \<Rightarrow> u32" where
  "fold_carry acc = drop_bit 16 (acc AND 0xffff0000) + (acc AND 0xffff)"

definition raw_cksum_reduce :: "u32 \<Rightarrow> u16" where
  "raw_cksum_reduce acc = ucast (fold_carry (fold_carry acc))"

definition rte_raw_cksum :: "bytes \<Rightarrow> nat \<Rightarrow> nat \<Rightarrow> u16 option" where
  "rte_raw_cksum bs off len = map_option (\<lambda>d. raw_cksum_reduce (raw_cksum d 0)) (rd bs off len)"

definition be16 :: "u16 \<Rightarrow> bytes" where
  "be16 w = [ucast (drop_bit 8 w), ucast w]"

definition rd_be16 :: "bytes \<Rightarrow> nat \<Rightarrow> u16 option" where
  "rd_be16 bs off = map_option (\<lambda>d. push_bit 8 (ucast (d ! 0)) OR ucast (d ! 1)) (rd bs off 2)"

definition be32 :: "u32 \<Rightarrow> bytes" where
  "be32 w = [ucast (drop_bit 24 w), ucast (drop_bit 16 w), ucast (drop_bit 8 w), ucast w]"

definition rd_be32 :: "bytes \<Rightarrow> nat \<Rightarrow> u32 option" where
  "rd_be32 bs off = map_option (\<lambda>d. push_bit 24 (ucast (d ! 0)) OR push_bit 16 (ucast (d ! 1)) OR
     push_bit 8 (ucast (d ! 2)) OR ucast (d ! 3)) (rd bs off 4)"

definition sizeof_ipv4_hdr :: nat where [simp]: "sizeof_ipv4_hdr = 20"

definition ipv4_psd_header :: "bytes \<Rightarrow> bytes option" where
  "ipv4_psd_header ih = do {
     addrs \<leftarrow> rd ih 12 8;
     proto \<leftarrow> rd ih 9 1;
     total \<leftarrow> rd_be16 ih 2;
     Some (addrs @ [0] @ proto @ be16 (total - of_nat sizeof_ipv4_hdr)) }"

definition rte_ipv4_phdr_cksum :: "bytes \<Rightarrow> u16 option" where
  "rte_ipv4_phdr_cksum ih = do { p \<leftarrow> ipv4_psd_header ih; rte_raw_cksum p 0 12 }"

text \<open>The complement of a folded sum, as it is stored into a header.\<close>

definition cksum_field :: "u32 \<Rightarrow> bytes" where
  "cksum_field c = le_bytes 2 (ucast (NOT (fold_carry c) AND 0xffff) :: u16)"

definition store :: "nat \<Rightarrow> bytes \<Rightarrow> bytes \<Rightarrow> bytes option" where
  "store off new bs = (if off + length new \<le> length bs then Some (wr off new bs) else None)"

definition xsum_udp :: "nat \<Rightarrow> bytes \<Rightarrow> bytes option" where
  "xsum_udp l4_len udp = do { c \<leftarrow> rte_raw_cksum udp 0 l4_len; store 6 (cksum_field (ucast c)) udp }"

definition xsum_tcp :: "nat \<Rightarrow> bytes \<Rightarrow> bytes option" where
  "xsum_tcp l4_len tcp = do { c \<leftarrow> rte_raw_cksum tcp 0 l4_len; store 16 (cksum_field (ucast c)) tcp }"

definition xsum_tcpip_tso :: "u8 \<Rightarrow> u8 \<Rightarrow> u16 \<Rightarrow> bytes \<Rightarrow> bytes option" where
  "xsum_tcpip_tso iplen l4len paylen p0 = do {
     p1 \<leftarrow> store 2 (be16 (ucast iplen + ucast l4len + paylen)) p0;
     p2 \<leftarrow> store 10 [0, 0] p1;
     c1 \<leftarrow> rte_raw_cksum p2 0 (unat iplen);
     p3 \<leftarrow> store 10 (cksum_field (ucast c1)) p2;
     p4 \<leftarrow> store (unat iplen + 16) [0, 0] p3;
     c2 \<leftarrow> rte_raw_cksum p4 (unat iplen) (unat l4len + unat paylen);
     ph \<leftarrow> rte_ipv4_phdr_cksum p4;
     store (unat iplen + 16) (cksum_field (ucast c2 + ucast ph)) p4 }"

definition tso_postupdate_header :: "u8 \<Rightarrow> u8 \<Rightarrow> u16 \<Rightarrow> bytes \<Rightarrow> bytes option" where
  "tso_postupdate_header iplen l4len paylen p0 = do {
     seqno \<leftarrow> rd_be32 p0 (unat iplen + 4);
     p1 \<leftarrow> store (unat iplen + 4) (be32 (seqno + ucast paylen)) p0;
     pid \<leftarrow> rd_be16 p1 4;
     store 4 (be16 (pid + 1)) p1 }"

section \<open>The hash is the Toeplitz hash of the key\<close>

definition key_bit :: "bytes \<Rightarrow> nat \<Rightarrow> bool" where
  "key_bit k n = bit (k ! (n div 8)) (7 - n mod 8)"

text \<open>The 32 key bits from bit \<open>i\<close>, and the hash of a bit string: the windows at its set bits.\<close>

definition window :: "bytes \<Rightarrow> nat \<Rightarrow> u32" where
  "window k i = foldl (\<lambda>r j. push_bit 1 r OR of_bool (key_bit k (i + j))) 0 [0..<32]"

definition toeplitz :: "bytes \<Rightarrow> bool list \<Rightarrow> u32" where
  "toeplitz k bs = foldl (\<lambda>r i. if bs ! i then r XOR window k i else r) 0 [0..<length bs]"

definition bits_be :: "nat \<Rightarrow> 'a::len word \<Rightarrow> bool list" where
  "bits_be n v = map (\<lambda>j. bit v (n - 1 - j)) [0..<n]"

lemma bit_mult_2 [simp]:
  fixes v :: "'a::len word"
  shows "bit (v * 2) n \<longleftrightarrow> 0 < n \<and> n < LENGTH('a) \<and> bit v (n - 1)"
  using bit_double_iff[of v n] by (auto simp: mult.commute)

lemma window_prefix_bits:
  "m \<le> 32 \<Longrightarrow> bit (foldl (\<lambda>r j. push_bit 1 r OR of_bool (key_bit k (i + j))) (0::u32) [0..<m]) n \<longleftrightarrow>
     n < m \<and> key_bit k (i + m - 1 - n)"
proof (induction m arbitrary: n)
  case (Suc m)
  show ?case
  proof (cases n)
    case 0
    then show ?thesis by (simp add: bit_or_iff bit_of_bool_iff)
  next
    case (Suc n')
    then have "n' < m \<Longrightarrow> n' < 31" using Suc.prems by simp
    with Suc show ?thesis using Suc.IH[of n'] Suc.prems by (auto simp: bit_or_iff bit_of_bool_iff)
  qed
qed simp

lemma bit_window: "bit (window k i) n \<longleftrightarrow> n < 32 \<and> key_bit k (i + 31 - n)"
  unfolding window_def by (subst window_prefix_bits) (simp_all add: add.commute[of i])

lemma window_Suc: "window k (Suc i) = push_bit 1 (window k i) OR of_bool (key_bit k (i + 32))"
proof (rule bit_word_eqI)
  fix n assume n: "n < LENGTH(32)"
  show "bit (window k (Suc i)) n = bit (push_bit 1 (window k i) OR of_bool (key_bit k (i + 32))) n"
  proof (cases n)
    case 0
    then show ?thesis by (simp add: bit_window bit_or_iff bit_of_bool_iff add.commute[of i])
  next
    case (Suc m)
    then show ?thesis using n by (simp add: bit_window bit_or_iff bit_of_bool_iff add.commute[of i])
  qed
qed

lemma next_key_bit:
  "(push_bit (idx mod 8) (ucast (k ! (idx div 8)) :: u32) AND 0x80 \<noteq> 0) = key_bit k idx"
proof -
  have "(w AND 0x80 \<noteq> 0) = bit w 7" for w :: u32
    using and_exp_eq_0_iff_not_bit[of w 7] by simp
  moreover have "idx mod 8 \<le> 7" using mod_less_divisor[of 8 idx] by linarith
  ultimately show ?thesis by (auto simp: key_bit_def bit_simps)
qed

lemma build_loop_windows:
  "build_loop k (i + 32) n (window k i) = map (window k) [i..<i + n]"
proof (induction n arbitrary: i)
  case (Suc n)
  have "build_loop k (i + 32) (Suc n) (window k i) = window k i # build_loop k (Suc i + 32) n (window k (Suc i))"
    by (simp only: build_loop.simps next_key_bit window_Suc of_bool_def add_Suc)
  also have "\<dots> = window k i # map (window k) [Suc i..<Suc i + n]" by (simp only: Suc.IH)
  also have "\<dots> = map (window k) [i..<i + Suc n]" by (simp add: upt_conv_Cons del: upt_Suc)
  finally show ?case .
qed simp

lemma key_bit_first:
  assumes "m < 8" "q \<le> 3"
  shows "key_bit k (31 - (8 * q + m)) = bit (k ! (3 - q)) m"
proof -
  have e: "31 - (8 * q + m) = 8 * (3 - q) + (7 - m)" using assms by linarith
  have "(8 * a + b) div 8 = a" "(8 * a + b) mod 8 = b" if "b < 8" for a b :: nat using that by simp_all
  from this[of "7 - m" "3 - q"] have "(8 * (3 - q) + (7 - m)) div 8 = 3 - q" "(8 * (3 - q) + (7 - m)) mod 8 = 7 - m" by simp_all
  then show ?thesis using assms(1) unfolding key_bit_def e by simp
qed

lemma window_0: "push_bit 24 (ucast (k ! 0)) OR push_bit 16 (ucast (k ! 1)) OR push_bit 8 (ucast (k ! 2)) OR ucast (k ! 3) = window k 0"
  (is "?l = _")
proof (rule bit_word_eqI)
  fix n assume "n < LENGTH(32)"
  then have n: "n < 32" by simp
  define q where "q = n div 8"
  define m where "m = n mod 8"
  have nq: "n = 8 * q + m" "m < 8" "q \<le> 3" using n by (auto simp: q_def m_def)
  have h: "bit (w :: u8) j \<Longrightarrow> j < 8" for w j using bit_imp_le_length[of w j] by simp
  have w: "bit (window k 0) n = bit (k ! (3 - q)) m"
    using key_bit_first[OF nq(2,3), of k] n by (simp add: bit_window nq(1))
  have pb: "bit (push_bit a (ucast b :: u32)) n \<longleftrightarrow> a \<le> n \<and> bit b (n - a)" for a and b :: u8
    using n by (auto simp: bit_push_bit_iff bit_ucast_iff)
  have u: "bit (ucast b :: u32) n \<longleftrightarrow> bit b n" for b :: u8 using n by (simp add: bit_ucast_iff)
  have r: "bit ?l n = ((24 \<le> n \<and> bit (k ! 0) (n - 24)) \<or> (16 \<le> n \<and> bit (k ! 1) (n - 16)) \<or>
      (8 \<le> n \<and> bit (k ! 2) (n - 8)) \<or> bit (k ! 3) n)"
    by (simp only: bit_or_iff pb u)
  consider "q = 0" | "q = 1" | "q = 2" | "q = 3" using nq(3) by linarith
  then show "bit ?l n = bit (window k 0) n"
    unfolding w r by cases (use nq in \<open>auto dest: h\<close>)
qed

lemma rss_build_windows:
  "rss_cache (rss_build c) = map (window (key_bytes (rss_key c))) [0..<rss_cache_len]"
  using build_loop_windows[of "key_bytes (rss_key c)" 0 rss_cache_len]
  by (simp add: rss_build_def window_0[unfolded One_nat_def] Let_def del: rss_cache_len_def)

text \<open>A hash over bits from position \<open>off\<close>.\<close>

definition tz :: "(nat \<Rightarrow> u32) \<Rightarrow> nat \<Rightarrow> bool list \<Rightarrow> u32 \<Rightarrow> u32" where
  "tz w off bs r = foldl (\<lambda>r j. if bs ! j then r XOR w (off + j) else r) r [0..<length bs]"

lemma tz_Cons: "tz w off (b # bs) r = tz w (Suc off) bs (if b then r XOR w off else r)"
proof -
  have "foldl (\<lambda>r j. if (b # bs) ! j then r XOR w (off + j) else r) x (map Suc [0..<n]) =
      foldl (\<lambda>r j. if bs ! j then r XOR w (Suc off + j) else r) x [0..<n]" for x n
    by (induction n arbitrary: x) simp_all
  then show ?thesis by (simp add: tz_def upt_conv_Cons map_Suc_upt[symmetric] del: upt_Suc)
qed

lemma tz_append: "tz w off (xs @ ys) r = tz w (off + length xs) ys (tz w off xs r)"
  by (induction xs arbitrary: off r) (simp_all add: tz_Cons, simp add: tz_def)

lemma bits_be_Suc: "n < LENGTH('a) \<Longrightarrow> v = (v :: 'a::len word) \<Longrightarrow>
    map (\<lambda>j. bit v (LENGTH('a) - 1 - j)) [0..<Suc n] =
    bit v (LENGTH('a) - 1) # map (\<lambda>j. bit (push_bit 1 v) (LENGTH('a) - 1 - j)) [0..<n]"
  by (auto simp: upt_conv_Cons map_Suc_upt[symmetric] bit_simps simp del: upt_Suc intro!: map_cong[OF refl])

lemma hash_loop_tz:
  fixes v :: "'a::len word"
  assumes "\<And>v :: 'a word. (v AND m \<noteq> 0) = bit v (LENGTH('a) - 1)" "n \<le> LENGTH('a)" "off + n \<le> length c"
  shows "hash_loop c off n m v r = tz ((!) c) off (map (\<lambda>j. bit v (LENGTH('a) - 1 - j)) [0..<n]) r"
  using assms(2,3)
proof (induction n arbitrary: off v r)
  case 0
  then show ?case by (simp add: tz_def)
next
  case (Suc n)
  then show ?case by (simp only: hash_loop.simps assms(1) bits_be_Suc[OF _ refl] tz_Cons Suc_le_eq)
qed

lemma toeplitz_tz: "toeplitz k bs = tz (window k) 0 bs 0"
  unfolding toeplitz_def tz_def by (simp only: add_0)

lemma tz_cong: "(\<And>j. j < length bs \<Longrightarrow> w (off + j) = w' (off + j)) \<Longrightarrow> tz w off bs r = tz w' off bs r"
proof (induction bs arbitrary: off r)
  case (Cons b bs)
  have "w off = w' off" using Cons.prems[of 0] by simp
  moreover have "tz w (Suc off) bs x = tz w' (Suc off) bs x" for x
    by (rule Cons.IH) (use Cons.prems[of "Suc _"] in simp)
  ultimately show ?case by (simp add: tz_Cons)
qed (simp add: tz_def)

definition rss_inv :: "rss_key_cache \<Rightarrow> bool" where
  "rss_inv c = (length (rss_key c) = rss_key_len div 4 \<and> length (rss_cache c) = rss_cache_len \<and>
     (\<not> cache_dirty c \<longrightarrow> rss_cache c = map (window (key_bytes (rss_key c))) [0..<rss_cache_len]))"

lemma rss_inv_new: "length key = 13 \<Longrightarrow> rss_inv (rss_key_cache_new key)"
  by (simp add: rss_inv_def rss_key_cache_new_def)

lemma rss_inv_dirty: "rss_inv c \<Longrightarrow> rss_inv (set_dirty c)"
  by (simp add: rss_inv_def set_dirty_def)

lemma top_bit: "(v AND 0x80000000 \<noteq> (0::u32)) = bit v 31" "(w AND 0x8000 \<noteq> (0::u16)) = bit w 15"
  using and_exp_eq_0_iff_not_bit[of v 31] and_exp_eq_0_iff_not_bit[of w 15] by simp_all

text \<open>
  C16. The table-driven hash of the i40e is the Toeplitz hash of the key over source address,
  destination address, source port and destination port, most significant bits first, whether the
  table is up to date or has to be built; and the table is up to date afterwards.
\<close>

theorem hash_ipv4_toeplitz:
  assumes "rss_inv c"
  shows "fst (hash_ipv4 sip dip sp dp c) =
      toeplitz (key_bytes (rss_key c)) (bits_be 32 sip @ bits_be 32 dip @ bits_be 16 sp @ bits_be 16 dp) \<and>
    rss_inv (snd (hash_ipv4 sip dip sp dp c)) \<and> \<not> cache_dirty (snd (hash_ipv4 sip dip sp dp c))"
proof -
  let ?c = "if cache_dirty c then rss_build c else c" and ?w = "window (key_bytes (rss_key c))"
  have cache: "rss_cache ?c = map ?w [0..<288]" and k: "rss_key ?c = rss_key c" "\<not> cache_dirty ?c"
    using assms rss_build_windows[of c] by (auto simp: rss_inv_def rss_build_def Let_def)
  have l: "hash_loop (rss_cache ?c) off 32 0x80000000 v r = tz ?w off (bits_be 32 v) r" if "off + 32 \<le> 288" for off r and v :: u32
  proof -
    have "hash_loop (rss_cache ?c) off 32 0x80000000 v r =
        tz ((!) (rss_cache ?c)) off (map (\<lambda>j. bit v (LENGTH(32) - 1 - j)) [0..<32]) r"
      by (rule hash_loop_tz) (use that in \<open>simp_all add: top_bit cache\<close>)
    also have "\<dots> = tz ?w off (bits_be 32 v) r"
      unfolding bits_be_def cache by simp (rule tz_cong, use that in simp)
    finally show ?thesis .
  qed
  have s: "hash_loop (rss_cache ?c) off 16 0x8000 v r = tz ?w off (bits_be 16 v) r" if "off + 16 \<le> 288" for off r and v :: u16
  proof -
    have "hash_loop (rss_cache ?c) off 16 0x8000 v r =
        tz ((!) (rss_cache ?c)) off (map (\<lambda>j. bit v (LENGTH(16) - 1 - j)) [0..<16]) r"
      by (rule hash_loop_tz) (use that in \<open>simp_all add: top_bit cache\<close>)
    also have "\<dots> = tz ?w off (bits_be 16 v) r"
      unfolding bits_be_def cache by simp (rule tz_cong, use that in simp)
    finally show ?thesis .
  qed
  have "fst (hash_ipv4 sip dip sp dp c) =
      toeplitz (key_bytes (rss_key c)) (bits_be 32 sip @ bits_be 32 dip @ bits_be 16 sp @ bits_be 16 dp)"
    by (simp add: hash_ipv4_def Let_def l s toeplitz_tz tz_append) (simp add: bits_be_def)
  moreover have "rss_inv (snd (hash_ipv4 sip dip sp dp c))" "\<not> cache_dirty (snd (hash_ipv4 sip dip sp dp c))"
    using assms k cache by (simp_all add: hash_ipv4_def Let_def rss_inv_def)
  ultimately show ?thesis by blast
qed

theorem hash_ipv4_toeplitz_witness:
  "fst (hash_ipv4 1 2 3 4 (rss_key_cache_new (replicate 13 5))) =
     toeplitz (key_bytes (replicate 13 5)) (bits_be 32 (1 :: u32) @ bits_be 32 (2 :: u32) @ bits_be 16 (3 :: u16) @ bits_be 16 (4 :: u16))"
  using hash_ipv4_toeplitz[of "rss_key_cache_new (replicate 13 5)" 1 2 3 4] rss_inv_new[of "replicate 13 5"]
  by (simp add: rss_key_cache_new_def)

section \<open>The checksums are one's complement sums\<close>

text \<open>The sum of the 16-bit words of a buffer; an odd last byte is padded with a zero.\<close>

fun sum16 :: "bytes \<Rightarrow> nat" where
  "sum16 (b0 # b1 # bs) = unat b0 + 256 * unat b1 + sum16 bs"
| "sum16 [b] = unat b"
| "sum16 [] = 0"

lemma unat_word16: "unat (word16 lo hi) = unat lo + 256 * unat hi"
proof -
  have "ucast lo AND push_bit 8 (ucast hi :: u32) = (0 :: u32)"
    by (rule bit_word_eqI) (auto simp: bit_simps dest: bit_imp_le_length)
  then have "word16 lo hi = ucast lo + push_bit 8 (ucast hi :: u32)"
    unfolding word16_def by (simp add: disjunctive_add_eq_or)
  also have "\<dots> = of_nat (unat lo + 256 * unat hi)"
    by (simp add: push_bit_eq_mult of_nat_unat mult.commute)
  finally have "word16 lo hi = of_nat (unat lo + 256 * unat hi)" .
  moreover have "unat lo < 256" "unat hi < 256" using unsigned_less[of lo] unsigned_less[of hi] by simp_all
  then have "unat lo + 256 * unat hi < 2 ^ 32" by simp
  ultimately show ?thesis
    by (simp only: unsigned_of_nat take_bit_nat_eq_self[of _ "LENGTH(32)"] len_num0 len_num1 len_bit0) (simp add: take_bit_nat_eq_self)
qed

lemma raw_cksum2_sum: "raw_cksum2 bs acc = acc + of_nat (sum16 bs)"
proof (induction bs acc rule: raw_cksum2.induct)
  case (1 b0 b1 bs acc)
  have "word16 b0 b1 = of_nat (unat (word16 b0 b1))" by simp
  with 1 show ?case by (simp add: unat_word16 algebra_simps)
qed (simp_all add: of_nat_unat)

lemma raw_cksum4_sum: "raw_cksum4 bs acc = (rest, acc') \<Longrightarrow> acc + of_nat (sum16 bs) = acc' + of_nat (sum16 rest)"
proof (induction bs acc rule: raw_cksum4.induct)
  case (1 b0 b1 b2 b3 b4 b5 b6 b7 bs acc)
  have "word16 l h = of_nat (unat l) + 256 * of_nat (unat h)" for l h
    using arg_cong[OF unat_word16[of l h], of "of_nat :: nat \<Rightarrow> u32"] by simp
  with 1 show ?case by (simp add: algebra_simps)
qed simp_all

text \<open>The unrolled loop adds the words of the buffer.\<close>

lemma raw_cksum_sum: "raw_cksum bs acc = acc + of_nat (sum16 bs)"
  by (simp add: raw_cksum_def raw_cksum2_sum raw_cksum4_sum split: prod.split)

text \<open>The reduction: the representative of the sum modulo \<open>2 ^ 16 - 1\<close> that is zero only for zero.\<close>

definition ones_norm :: "nat \<Rightarrow> nat" where
  "ones_norm n = (if n = 0 then 0 else (n - 1) mod 65535 + 1)"

lemma unat_add_16: "unat (a :: u32) < 65536 \<Longrightarrow> unat (b :: u32) < 65536 \<Longrightarrow> unat (a + b) = unat a + unat b"
  by (simp add: unat_word_ariths)

lemma high_half_mask: "(0xffff0000 :: u32) = push_bit 16 (mask 16)"
  by (simp add: mask_eq_exp_minus_1)

lemma bit_high_half: "bit (0xffff0000 :: u32) k \<longleftrightarrow> 16 \<le> k \<and> k < 32"
  unfolding high_half_mask by (auto simp only: bit_push_bit_iff bit_mask_iff) simp_all

lemma drop_high_half: "drop_bit 16 (s AND 0xffff0000) = drop_bit 16 (s :: u32)"
proof (rule bit_word_eqI)
  fix n
  show "bit (drop_bit 16 (s AND 0xffff0000)) n = bit (drop_bit 16 s) n"
    using bit_imp_le_length[of s "16 + n"] by (auto simp only: bit_drop_bit_eq bit_and_iff comp_def bit_high_half) simp_all
qed

lemma low_half: "(s :: u32) AND 0xffff = take_bit 16 s"
  using take_bit_eq_mask[of 16 s] by (simp add: mask_eq_exp_minus_1)

lemma unat_halves:
  "unat (drop_bit 16 (s :: u32)) = unat s div 65536" "unat (take_bit 16 s) = unat s mod 65536"
  by (simp_all add: drop_bit_eq_div take_bit_eq_mod unat_div_distrib unat_mod_distrib)

lemma unat_halves_bound: "unat (drop_bit 16 (s :: u32)) < 65536" "unat (take_bit 16 s) < 65536"
  using unsigned_less[of s] unfolding unat_halves by (simp_all add: div_less_iff_less_mult)

lemma unat_fold_carry: "unat (fold_carry s) = unat s div 65536 + unat s mod 65536"
  unfolding fold_carry_def drop_high_half low_half
  using unat_add_16[OF unat_halves_bound[of s]] by (simp only: unat_halves)

lemma fold_nat: "n div 65536 + n mod 65536 \<noteq> 0 \<longleftrightarrow> n \<noteq> (0::nat)" "ones_norm (n div 65536 + n mod 65536) = ones_norm n"
proof -
  show nz: "n div 65536 + n mod 65536 \<noteq> 0 \<longleftrightarrow> n \<noteq> (0::nat)" using div_mult_mod_eq[of n 65536] by fastforce
  show "ones_norm (n div 65536 + n mod 65536) = ones_norm n"
  proof (cases "n = 0")
    case False
    let ?m = "n div 65536 + n mod 65536"
    have "n = ?m + 65535 * (n div 65536)" using div_mult_mod_eq[of n 65536] by linarith
    then have "n - 1 = (?m - 1) + 65535 * (n div 65536)" using False nz by linarith
    then have "(n - 1) mod 65535 = (?m - 1) mod 65535" by (metis mod_mult_self2)
    then show ?thesis using False nz by (simp add: ones_norm_def)
  qed (simp add: ones_norm_def)
qed

lemma ones_norm_small: "n \<le> 65535 \<Longrightarrow> ones_norm n = n"
  by (cases n) (simp_all add: ones_norm_def)

lemma unat_reduce: "unat (raw_cksum_reduce s) = ones_norm (unat s)"
proof -
  let ?f = "\<lambda>n. n div 65536 + n mod 65536 :: nat"
  have b: "unat s < 2 ^ 32" using unsigned_less[of s] by simp
  then have f1: "?f (unat s) < 131071" 
    using mod_less_divisor[of 65536 "unat s"] div_less_iff_less_mult[of 65536 "unat s" 65536] by simp
  have f2: "?f (?f (unat s)) \<le> 65535"
  proof (cases "?f (unat s) < 65536")
    case False
    then obtain r where "?f (unat s) = 65536 + r" by (metis le_add_diff_inverse not_less)
    then show ?thesis using f1 by simp
  qed simp
  have "unat (raw_cksum_reduce s) = ?f (?f (unat s))"
    using f2 by (simp add: raw_cksum_reduce_def unsigned_ucast_eq unat_fold_carry take_bit_nat_eq_self)
  also have "\<dots> = ones_norm (?f (?f (unat s)))" using ones_norm_small[OF f2] by simp
  also have "\<dots> = ones_norm (unat s)" by (simp only: fold_nat)
  finally show ?thesis .
qed

lemma ones_norm_le: "ones_norm n \<le> 65535"
  using mod_less_divisor[of 65535 "n - 1"] by (auto simp: ones_norm_def less_Suc_eq_le simp del: mod_less_divisor)

lemma ones_norm_Suc: "ones_norm (Suc n) = Suc (n mod 65535)"
  by (simp add: ones_norm_def)

lemma ones_norm_shift: "0 < n \<Longrightarrow> ones_norm (n + 65535 * k) = ones_norm n"
  by (cases n) (simp_all add: ones_norm_Suc)

lemma ones_norm_decomp: "\<exists>k. n = ones_norm n + 65535 * k"
proof (cases n)
  case (Suc m)
  have "n = ones_norm n + 65535 * (m div 65535)" unfolding Suc ones_norm_Suc by simp
  then show ?thesis ..
qed (simp add: ones_norm_def)

lemma ones_norm_pos: "0 < ones_norm n \<longleftrightarrow> 0 < n"
  by (simp add: ones_norm_def)

lemma ones_norm_add: "ones_norm (ones_norm a + ones_norm b) = ones_norm (a + b)"
proof (cases "a + b = 0")
  case False
  obtain k where k: "a = ones_norm a + 65535 * k" using ones_norm_decomp by blast
  obtain l where l: "b = ones_norm b + 65535 * l" using ones_norm_decomp by blast
  have "a + b = (ones_norm a + ones_norm b) + 65535 * (k + l)"
    using k l by (simp only: distrib_left)
  moreover have "0 < ones_norm a + ones_norm b" using False ones_norm_pos[of a] ones_norm_pos[of b] by auto
  ultimately show ?thesis using ones_norm_shift by metis
qed (simp add: ones_norm_def)

lemma ones_norm_complement: "ones_norm (n + (65535 - ones_norm n)) = 65535"
proof -
  obtain k where k: "n = ones_norm n + 65535 * k" using ones_norm_decomp by blast
  define x where "x = ones_norm n"
  have "x \<le> 65535" using ones_norm_le by (simp add: x_def)
  then have "n + (65535 - x) = 65535 + 65535 * k" using k unfolding x_def[symmetric] by linarith
  then show ?thesis using ones_norm_shift[of 65535 k] by (simp add: x_def ones_norm_def)
qed

lemma fold_carry_norm:
  assumes "unat c \<le> 131070"
  shows "unat (fold_carry c) = ones_norm (unat c)"
proof -
  have "unat (fold_carry c) \<le> 65535"
  proof (cases "unat c < 65536")
    case False
    then obtain r where "unat c = 65536 + r" by (metis le_add_diff_inverse not_less)
    then show ?thesis using assms by (simp add: unat_fold_carry)
  qed (simp add: unat_fold_carry)
  from ones_norm_small[OF this] show ?thesis by (simp add: unat_fold_carry fold_nat)
qed

lemma sum16_le_bytes: "sum16 (le_bytes 2 (w :: u16)) = unat w"
proof -
  have "unat w < 2 ^ LENGTH(16)" by (rule unsigned_less)
  then have "unat w div 256 < 256" by simp
  then have "unat (ucast w :: u8) = unat w mod 256" "unat (ucast (drop_bit 8 w) :: u8) = unat w div 256"
    by (simp_all add: unsigned_ucast_eq take_bit_eq_mod drop_bit_eq_div unat_div_distrib div_less_iff_less_mult)
  then show ?thesis by (simp add: numeral_2_eq_2)
qed

lemma cksum_field_sum:
  assumes "unat c \<le> 131070"
  shows "sum16 (cksum_field c) = 65535 - ones_norm (unat c)"
proof -
  let ?x = "fold_carry c"
  have x: "unat ?x = ones_norm (unat c)" using assms by (rule fold_carry_norm)
  have "ucast (NOT ?x AND 0xffff) = NOT (ucast ?x :: u16)"
    by (rule bit_word_eqI) (auto simp: low_half bit_simps)
  also have "\<dots> = - 1 - ucast ?x" by (simp add: not_eq_complement)
  finally have "unat (ucast (NOT ?x AND 0xffff) :: u16) = unat (- 1 - ucast ?x :: u16)" by simp
  also have "\<dots> = 65535 - unat (ucast ?x :: u16)"
    by (simp add: unat_sub unsigned_minus_1_eq_mask mask_eq_exp_minus_1)
  also have "unat (ucast ?x :: u16) = unat ?x"
    using ones_norm_le[of "unat c"] x by (simp add: unsigned_ucast_eq take_bit_nat_eq_self)
  finally show ?thesis by (simp add: cksum_field_def sum16_le_bytes x)
qed

lemma sum16_append: "even (length xs) \<Longrightarrow> sum16 (xs @ ys) = sum16 xs + sum16 ys"
  by (induction xs rule: sum16.induct) simp_all

lemma sum16_bound: "sum16 bs \<le> 65535 * (length bs + 1) div 2"
proof (induction bs rule: sum16.induct)
  case (1 b0 b1 bs)
  have "unat b0 < 2 ^ LENGTH(8)" "unat b1 < 2 ^ LENGTH(8)" by (rule unsigned_less)+
  with 1 show ?case by simp
next
  case (2 b)
  have "unat b < 2 ^ LENGTH(8)" by (rule unsigned_less)
  then show ?case by simp
qed simp

text \<open>A field written over two zero bytes at an even offset adds its value to the sum.\<close>

lemma sum16_wr:
  assumes "even off" "off + 2 \<le> length bs" "length f = 2"
  shows "sum16 (wr off f (wr off [0, 0] bs)) = sum16 (wr off [0, 0] bs) + sum16 f"
proof -
  have w: "wr off g (wr off [0, 0] bs) = take off bs @ g @ drop (off + 2) bs" if "length g = 2" for g
    using assms(2) that by (simp add: wr_def min_def)
  have z: "wr off [0, 0] (wr off [0, 0] bs) = wr off [0, 0] bs"
    using assms(2) by (simp add: wr_def min_def)
  have e: "even (length (take off bs))" using assms(1,2) by (simp add: min_def)
  have "sum16 (wr off g (wr off [0, 0] bs)) = sum16 (take off bs) + sum16 g + sum16 (drop (off + 2) bs)" if "length g = 2" for g
    unfolding w[OF that] using that by (simp only: sum16_append[OF e] sum16_append[of g] even_numeral add.assoc)
  from this[of f] this[of "[0, 0]"] show ?thesis using assms(3) z by simp
qed

lemma rd_wr_inside:
  assumes "rd bs b n = Some seg" "off + length f \<le> n"
  shows "rd (wr (b + off) f bs) b n = Some (wr off f seg)"
proof -
  have seg: "b + n \<le> length bs" "seg = take n (drop b bs)" using assms(1) by (auto simp: rd_def split: if_splits)
  have "drop b (wr (b + off) f bs) = wr off f (drop b bs)"
    using assms(2) seg(1) by (simp add: wr_def drop_take ac_simps)
  moreover have "take n (wr off f r) = wr off f (take n r)" if "n \<le> length r" for r
  proof (cases "n \<le> off")
    case True
    then have "n = off" "length f = 0" using assms(2) by linarith+
    then show ?thesis by (simp add: wr_def)
  qed (use assms(2) that in \<open>auto simp: wr_def drop_take min_def\<close>)
  moreover have "length (wr (b + off) f bs) = length bs" using assms(2) seg(1) by (simp add: wr_def)
  ultimately show ?thesis using seg by (simp add: rd_def)
qed

lemma rd_wr_other:
  assumes "b + n \<le> off" "off + length f \<le> length bs"
  shows "rd (wr off f bs) b n = rd bs b n"
proof -
  have "take (n + b) (wr off f bs) = take (n + b) bs" using assms by (simp add: wr_def min_def)
  then have "take n (drop b (wr off f bs)) = take n (drop b bs)" by (simp only: take_drop)
  moreover have "length (wr off f bs) = length bs" using assms(2) by (simp add: wr_def)
  ultimately show ?thesis by (simp only: rd_def)
qed

lemma rte_raw_cksum_Some:
  assumes "rte_raw_cksum bs off len = Some c" "len \<le> 65790"
  obtains d where "rd bs off len = Some d" "unat c = ones_norm (sum16 d)" "length d = len"
proof -
  obtain d where d: "rd bs off len = Some d" "c = raw_cksum_reduce (raw_cksum d 0)"
    using assms(1) by (auto simp: rte_raw_cksum_def)
  then have l: "length d = len" by (auto simp: rd_def split: if_splits)
  have "sum16 d < 2 ^ 32" using sum16_bound[of d] assms(2) l by simp
  then have "unat (of_nat (sum16 d) :: u32) = sum16 d" by (simp add: unsigned_of_nat take_bit_nat_eq_self)
  with d l that show thesis by (simp add: raw_cksum_sum unat_reduce)
qed

lemma store_Some: "store off f bs = Some bs' \<longleftrightarrow> off + length f \<le> length bs \<and> bs' = wr off f bs"
  by (auto simp: store_def)

text \<open>A header checksum that is zeroed, computed and stored makes the sum of its area all ones.\<close>

lemma stored_cksum_valid:
  assumes "rd (wr (b + off) [0, 0] bs) b n = Some d" "b + off + 2 \<le> length bs" "even off" "off + 2 \<le> n"
    "unat c \<le> 131070" "ones_norm (unat c) = ones_norm (sum16 d + x)"
  obtains d' where "rd (wr (b + off) (cksum_field c) (wr (b + off) [0, 0] bs)) b n = Some d'" "ones_norm (sum16 d' + x) = 65535"
proof -
  obtain d0 where d0: "rd bs b n = Some d0"
    using assms(1,2) by (auto simp: rd_def length_wr split: if_splits)
  have d: "d = wr off [0, 0] d0" using rd_wr_inside[OF d0, of off "[0, 0]"] assms(1,4) by simp
  have l: "off + 2 \<le> length d0" using d0 assms(4) by (auto simp: rd_def split: if_splits)
  have f: "length (cksum_field c) = 2" by (simp add: cksum_field_def)
  have r: "rd (wr (b + off) (cksum_field c) (wr (b + off) [0, 0] bs)) b n = Some (wr off (cksum_field c) d)"
    using rd_wr_inside[OF assms(1), of off "cksum_field c"] f assms(4) by simp
  have "sum16 (wr off (cksum_field c) d) + x = (sum16 d + x) + (65535 - ones_norm (sum16 d + x))"
    unfolding d using sum16_wr[OF assms(3) l f] cksum_field_sum[OF assms(5)] assms(6) d by simp
  then have "ones_norm (sum16 (wr off (cksum_field c) d) + x) = 65535" by (simp only: ones_norm_complement)
  with r that show thesis by blast
qed

lemma unat_ucast_16: "unat (ucast (c :: u16) :: u32) = unat c"
proof -
  have "unat c < 2 ^ LENGTH(16)" by (rule unsigned_less)
  then show ?thesis by (simp add: unsigned_ucast_eq take_bit_nat_eq_self)
qed

lemma length_cksum_field [simp]: "length (cksum_field c) = 2"
  by (simp add: cksum_field_def)

lemma cksum_all_ones:
  assumes "rd bs 0 n = Some d" "n \<le> 65790" "ones_norm (sum16 d) = 65535"
  shows "rte_raw_cksum bs 0 n = Some 0xFFFF"
proof -
  have "length d = n" using assms(1) by (auto simp: rd_def split: if_splits)
  then have "sum16 d < 2 ^ 32" using sum16_bound[of d] assms(2) by simp
  then have "unat (of_nat (sum16 d) :: u32) = sum16 d" by (simp add: unsigned_of_nat take_bit_nat_eq_self)
  then have "unat (raw_cksum_reduce (raw_cksum d 0)) = 65535" using assms(3) by (simp add: raw_cksum_sum unat_reduce)
  then have "raw_cksum_reduce (raw_cksum d 0) = 0xFFFF" by (simp add: word_unat_eq_iff)
  then show ?thesis using assms(1) by (simp add: rte_raw_cksum_def)
qed

text \<open>The steps of the offload of a segment.\<close>

lemma xsum_tso_steps:
  assumes "xsum_tcpip_tso iplen l4len paylen p = Some p'"
  obtains p1 c1 c2 ph where "12 \<le> length p1" "unat iplen + 18 \<le> length p1"
    "rte_raw_cksum (wr 10 [0, 0] p1) 0 (unat iplen) = Some c1"
    "rte_raw_cksum (wr (unat iplen + 16) [0, 0] (wr 10 (cksum_field (ucast c1)) (wr 10 [0, 0] p1))) (unat iplen)
       (unat l4len + unat paylen) = Some c2"
    "rte_ipv4_phdr_cksum (wr (unat iplen + 16) [0, 0] (wr 10 (cksum_field (ucast c1)) (wr 10 [0, 0] p1))) = Some ph"
    "p' = wr (unat iplen + 16) (cksum_field (ucast c2 + ucast ph))
       (wr (unat iplen + 16) [0, 0] (wr 10 (cksum_field (ucast c1)) (wr 10 [0, 0] p1)))"
  using assms that[of "wr 2 (be16 (ucast iplen + ucast l4len + paylen)) p"]
  by (auto simp: xsum_tcpip_tso_def store_Some bind_eq_Some_conv length_wr add.commute)

lemma unat_tso_lengths: "unat (iplen :: u8) \<le> 65790" "unat (l4len :: u8) + unat (paylen :: u16) \<le> 65790"
proof -
  have "unat iplen < 2 ^ LENGTH(8)" "unat l4len < 2 ^ LENGTH(8)" "unat paylen < 2 ^ LENGTH(16)" by (rule unsigned_less)+
  then show "unat iplen \<le> 65790" "unat l4len + unat paylen \<le> 65790" by simp_all
qed

lemma xsum_tso_ip:
  assumes "12 \<le> length p1" "rte_raw_cksum (wr 10 [0, 0] p1) 0 n = Some c" "12 \<le> n" "n \<le> 65790"
  obtains d where "rd (wr 10 (cksum_field (ucast c)) (wr 10 [0, 0] p1)) 0 n = Some d" "ones_norm (sum16 d) = 65535"
proof -
  obtain d1 where d1: "rd (wr 10 [0, 0] p1) 0 n = Some d1" "unat c = ones_norm (sum16 d1)"
    by (rule rte_raw_cksum_Some[OF assms(2,4)]) blast
  have u: "unat (ucast c :: u32) \<le> 131070" using ones_norm_le[of "sum16 d1"] d1(2) by (simp add: unat_ucast_16)
  have v: "ones_norm (unat (ucast c :: u32)) = ones_norm (sum16 d1 + 0)"
    using d1(2) ones_norm_small[OF ones_norm_le] by (simp add: unat_ucast_16)
  show thesis
  proof (rule stored_cksum_valid[of 0 10 p1 n d1 "ucast c" 0])
    fix d' assume "rd (wr (0 + 10) (cksum_field (ucast c)) (wr (0 + 10) [0, 0] p1)) 0 n = Some d'" "ones_norm (sum16 d' + 0) = 65535"
    then show thesis using that by simp
  qed (use d1(1) assms(1,3) u v in simp_all)
qed

lemma psd_header_head:
  assumes "\<And>b n. b + n \<le> 20 \<Longrightarrow> rd p b n = rd q b n"
  shows "ipv4_psd_header p = ipv4_psd_header q"
  using assms by (simp add: ipv4_psd_header_def rd_be16_def)

lemma xsum_tso_tcp:
  assumes "k + 18 \<le> length p3" "20 \<le> k" "18 \<le> n" "n \<le> 65790"
    "rte_raw_cksum (wr (k + 16) [0, 0] p3) k n = Some c2" "rte_ipv4_phdr_cksum (wr (k + 16) [0, 0] p3) = Some ph"
  shows "\<exists>seg psd. rd (wr (k + 16) (cksum_field (ucast c2 + ucast ph)) (wr (k + 16) [0, 0] p3)) k n = Some seg \<and>
    ipv4_psd_header (wr (k + 16) (cksum_field (ucast c2 + ucast ph)) (wr (k + 16) [0, 0] p3)) = Some psd \<and>
    ones_norm (sum16 seg + sum16 psd) = 65535"
proof -
  let ?p4 = "wr (k + 16) [0, 0] p3"
  obtain d where d: "rd ?p4 k n = Some d" "unat c2 = ones_norm (sum16 d)"
    by (rule rte_raw_cksum_Some[OF assms(5,4)]) blast
  obtain psd where psd: "ipv4_psd_header ?p4 = Some psd" "rte_raw_cksum psd 0 12 = Some ph"
    using assms(6) by (auto simp: rte_ipv4_phdr_cksum_def bind_eq_Some_conv)
  have "length psd = 12" using psd(1)
    by (auto simp: ipv4_psd_header_def bind_eq_Some_conv rd_def be16_def split: if_splits)
  then have phs: "unat ph = ones_norm (sum16 psd)"
    using rte_raw_cksum_Some[OF psd(2)] by (auto simp: rd_def)
  have u: "unat (ucast c2 + ucast ph :: u32) = unat c2 + unat ph"
    using ones_norm_le[of "sum16 d"] ones_norm_le[of "sum16 psd"] d(2) phs unat_add_16[of "ucast c2" "ucast ph"]
    by (simp add: unat_ucast_16)
  have "ipv4_psd_header (wr (k + 16) (cksum_field (ucast c2 + ucast ph)) ?p4) = Some psd"
    unfolding psd(1)[symmetric] using assms(1,2) by (intro psd_header_head rd_wr_other) (simp_all add: length_wr)
  moreover have "unat (ucast c2 + ucast ph :: u32) \<le> 131070"
    using u d(2) phs ones_norm_le[of "sum16 d"] ones_norm_le[of "sum16 psd"] by simp
  moreover have "ones_norm (unat (ucast c2 + ucast ph :: u32)) = ones_norm (sum16 d + sum16 psd)"
    using u d(2) phs by (simp add: ones_norm_add)
  ultimately show ?thesis
    using stored_cksum_valid[OF d(1), of "ucast c2 + ucast ph" "sum16 psd"] assms(1,3) by auto
qed

lemma xsum_tso_sums:
  assumes "xsum_tcpip_tso iplen l4len paylen p = Some p'" "20 \<le> unat iplen" "18 \<le> unat l4len + unat paylen"
  shows "rte_raw_cksum p' 0 (unat iplen) = Some 0xFFFF \<and>
    (\<exists>seg ph. rd p' (unat iplen) (unat l4len + unat paylen) = Some seg \<and> ipv4_psd_header p' = Some ph \<and>
      ones_norm (sum16 seg + sum16 ph) = 65535)"
proof (rule xsum_tso_steps[OF assms(1)])
  fix p1 and c1 c2 ph :: u16
  let ?i = "unat iplen" and ?p3 = "wr 10 (cksum_field (ucast c1)) (wr 10 [0, 0] p1)"
  assume p1: "12 \<le> length p1" "?i + 18 \<le> length p1"
    and c1: "rte_raw_cksum (wr 10 [0, 0] p1) 0 ?i = Some c1"
    and c2: "rte_raw_cksum (wr (?i + 16) [0, 0] ?p3) ?i (unat l4len + unat paylen) = Some c2"
    and ph: "rte_ipv4_phdr_cksum (wr (?i + 16) [0, 0] ?p3) = Some ph"
    and p': "p' = wr (?i + 16) (cksum_field (ucast c2 + ucast ph)) (wr (?i + 16) [0, 0] ?p3)"
  have len: "length ?p3 = length p1" using p1(1) by (simp add: length_wr)
  obtain d where d: "rd ?p3 0 ?i = Some d" "ones_norm (sum16 d) = 65535"
    by (rule xsum_tso_ip[OF p1(1) c1 _ unat_tso_lengths(1)]) (use assms(2) in simp)
  have "rd p' 0 ?i = rd (wr (?i + 16) [0, 0] ?p3) 0 ?i"
    unfolding p' by (rule rd_wr_other) (use p1(2) len in \<open>simp_all add: length_wr\<close>)
  also have "\<dots> = rd ?p3 0 ?i" by (rule rd_wr_other) (use p1(2) len in simp_all)
  finally have "rte_raw_cksum p' 0 ?i = Some 0xFFFF" using cksum_all_ones[OF _ unat_tso_lengths(1) d(2)] d(1) by simp
  with xsum_tso_tcp[OF _ assms(2,3) unat_tso_lengths(2) c2 ph] p1(2) len p' show ?thesis by simp
qed

text \<open>The offload succeeds on every buffer that holds the segment, and writes the total length.\<close>

lemma be16_roundtrip: "off + 2 \<le> length bs \<Longrightarrow> rd_be16 (wr off (be16 w) bs) off = Some w"
proof -
  assume l: "off + 2 \<le> length bs"
  have "rd (wr off (be16 w) bs) off 2 = Some (be16 w)" using l by (simp add: rd_def wr_def be16_def)
  moreover have "push_bit 8 (ucast (ucast (drop_bit 8 w) :: u8)) OR ucast (ucast w :: u8) = w"
    by (rule bit_word_eqI) (auto simp: bit_simps dest: bit_imp_le_length)
  ultimately show ?thesis by (simp add: rd_be16_def be16_def)
qed

lemma xsum_tso_total:
  assumes "unat iplen + (unat l4len + unat paylen) \<le> length p" "20 \<le> unat iplen" "18 \<le> unat l4len + unat paylen"
  shows "\<exists>p'. xsum_tcpip_tso iplen l4len paylen p = Some p'"
proof -
  have st: "store off f bs = Some (wr off f bs)" "length (wr off f bs) = length bs" if "off + length f \<le> length bs" for off f bs
    using that by (simp_all add: store_def length_wr)
  have b: "length (be16 w) = 2" for w by (simp add: be16_def)
  have r: "rte_raw_cksum bs off n \<noteq> None" if "off + n \<le> length bs" for bs off n
    using that by (simp add: rte_raw_cksum_def rd_def)
  have ph: "rte_ipv4_phdr_cksum bs \<noteq> None" if "20 \<le> length bs" for bs
    using that by (simp add: rte_ipv4_phdr_cksum_def ipv4_psd_header_def rd_be16_def rte_raw_cksum_def rd_def be16_def)
  let ?p2 = "wr 10 [0, 0] (wr 2 (be16 (ucast iplen + ucast l4len + paylen)) p)"
  have l2: "length ?p2 = length p" using assms by (simp add: length_wr b)
  obtain c1 where c1: "rte_raw_cksum ?p2 0 (unat iplen) = Some c1" using r[of 0 "unat iplen" ?p2] l2 assms(1) by auto
  let ?p4 = "wr (unat iplen + 16) [0, 0] (wr 10 (cksum_field (ucast c1)) ?p2)"
  have l4: "length ?p4 = length p" using assms l2 by (simp add: length_wr)
  obtain c2 where c2: "rte_raw_cksum ?p4 (unat iplen) (unat l4len + unat paylen) = Some c2"
    using r[of "unat iplen" _ ?p4] l4 assms(1) by auto
  obtain q where q: "rte_ipv4_phdr_cksum ?p4 = Some q" using ph[of ?p4] l4 assms by auto
  show ?thesis using assms l2 c1 c2 q l4 by (simp add: xsum_tcpip_tso_def st b length_wr)
qed

lemma xsum_tso_psd:
  assumes "xsum_tcpip_tso iplen l4len paylen p = Some p'" "20 \<le> unat iplen"
  shows "ipv4_psd_header p' = Some (take 8 (drop 12 p') @ [0, p' ! 9] @ be16 (ucast iplen + ucast l4len + paylen - 20))"
proof -
  have b: "length (be16 w) = 2" for w by (simp add: be16_def)
  let ?t = "ucast iplen + ucast l4len + paylen :: u16"
  let ?q1 = "wr 2 (be16 ?t) p" let ?q2 = "wr 10 [0, 0] ?q1"
  obtain c1 c2 ph :: u16 where l: "unat iplen + 18 \<le> length p" and p': "p' = wr (unat iplen + 16) (cksum_field (ucast c2 + ucast ph))
      (wr (unat iplen + 16) [0, 0] (wr 10 (cksum_field (ucast (c1 :: u16))) ?q2))"
    using assms(1) by (auto simp: xsum_tcpip_tso_def store_Some bind_eq_Some_conv length_wr b add.commute)
  let ?q3 = "wr 10 (cksum_field (ucast c1)) ?q2" let ?q4 = "wr (unat iplen + 16) [0, 0] ?q3"
  have len: "length ?q1 = length p" "length ?q2 = length p" "length ?q3 = length p" "length ?q4 = length p"
      "length p' = length p"
    using l assms(2) by (simp_all add: p' length_wr b)
  have "rd p' 2 2 = rd ?q4 2 2" unfolding p' by (rule rd_wr_other) (use l len in simp_all)
  also have "\<dots> = rd ?q3 2 2" by (rule rd_wr_other) (use l len in simp_all)
  also have "\<dots> = rd ?q2 2 2" by (rule rd_wr_other) (use l assms(2) len in simp_all)
  also have "\<dots> = rd ?q1 2 2" by (rule rd_wr_other) (use l assms(2) len in simp_all)
  finally have "rd p' 2 2 = rd ?q1 2 2" .
  then have "rd_be16 p' 2 = Some ?t" using be16_roundtrip[of 2 p ?t] l by (simp add: rd_be16_def)
  moreover have "rd p' 12 8 = Some (take 8 (drop 12 p'))" "rd p' 9 1 = Some [p' ! 9]"
    using len l assms(2) by (simp_all add: rd_def take_Suc_conv_app_nth[of 0] hd_drop_conv_nth take_Suc)
  ultimately show ?thesis by (simp add: ipv4_psd_header_def)
qed

text \<open>
  C18. Checksum offload of a segment behind an IP header of 20 bytes, without options: it succeeds on every buffer that
  holds the segment; the IP header then sums to all ones, and so does the TCP segment with the
  pseudo header of its addresses, protocol and length, which is what a receiver checks.
\<close>

theorem xsum_tso_valid:
  assumes "20 + (unat l4len + unat paylen) \<le> length p" "18 \<le> unat l4len + unat paylen"
  shows "\<exists>p' seg. xsum_tcpip_tso 20 l4len paylen p = Some p' \<and> rte_raw_cksum p' 0 20 = Some 0xFFFF \<and>
    rd p' 20 (unat l4len + unat paylen) = Some seg \<and>
    ones_norm (sum16 seg + sum16 (take 8 (drop 12 p') @ [0, p' ! 9] @ be16 (ucast l4len + paylen))) = 65535"
proof -
  obtain p' where p': "xsum_tcpip_tso 20 l4len paylen p = Some p'"
    using xsum_tso_total[of 20 l4len paylen p] assms by auto
  have "ipv4_psd_header p' = Some (take 8 (drop 12 p') @ [0, p' ! 9] @ be16 (ucast l4len + paylen))"
    using xsum_tso_psd[OF p'] by simp
  then show ?thesis using xsum_tso_sums[OF p' _ assms(2)] p' by auto
qed

theorem xsum_tso_valid_witness:
  "\<exists>p' seg. xsum_tcpip_tso 20 20 1 (replicate 41 7) = Some p' \<and> rte_raw_cksum p' 0 20 = Some 0xFFFF \<and>
    rd p' 20 21 = Some seg \<and>
    ones_norm (sum16 seg + sum16 (take 8 (drop 12 p') @ [0, p' ! 9] @ be16 21)) = 65535"
  using xsum_tso_valid[of 20 1 "replicate 41 7"] by simp

text \<open>
  Behind an IP header with options the pseudo header counts the options as part of the segment:
  its length is too large by the length of the options.
\<close>

theorem options_counted_in_segment:
  assumes "xsum_tcpip_tso 24 l4len paylen p = Some p'"
  shows "ipv4_psd_header p' = Some (take 8 (drop 12 p') @ [0, p' ! 9] @ be16 (ucast l4len + paylen + 4))"
proof -
  have "ucast (24 :: u8) + ucast l4len + paylen - 20 = ucast l4len + paylen + (4 :: u16)" by simp
  then show ?thesis using xsum_tso_psd[OF assms] by (simp only:) simp
qed

end
