(* ===== verification/Mem_Sims.thy ===== *)
theory Mem_Sims
  imports Nicbm
begin

text \<open>
  The memory simulators: the messages of the memory protocol (\<^verbatim>\<open>lib/simbricks/mem/proto.h\<close>), the
  flat memory of \<^verbatim>\<open>sims/mem/basicmem\<close> and the output terminal of \<^verbatim>\<open>sims/mem/terminal\<close>. Queues are given as in the base
  interface; an operation takes the contents that it sees and returns what it leaves. Throwing an
  exception that nothing catches, aborting, and an access outside of an array are \<open>None\<close>.
\<close>

section \<open>Messages of the memory protocol\<close>

text \<open>Requests have one layout; a read leaves the data area of its slot alone.\<close>

record H2MMsg =
  hm_req_id :: u64
  hm_as_id :: u64
  hm_addr :: u64
  hm_len :: u16
  hm_data :: bytes

record M2HMsg =
  mh_req_id :: u64
  mh_data :: bytes

type_synonym h2m_queue = "H2MMsg BaseMsg list"
type_synonym m2h_queue = "M2HMsg BaseMsg list"

definition M2H_MSG_READCOMP :: u8 where [simp]: "M2H_MSG_READCOMP = 0x40"
definition M2H_MSG_WRITECOMP :: u8 where [simp]: "M2H_MSG_WRITECOMP = 0x41"
definition H2M_READ :: u8 where [simp]: "H2M_READ = 0x60"
definition H2M_WRITE :: u8 where [simp]: "H2M_WRITE = 0x61"
definition H2M_WRITE_POSTED :: u8 where [simp]: "H2M_WRITE_POSTED = 0x62"

text \<open>Filling in completions; the data area of the slot bounds what can be copied.\<close>

definition fill_readcomp :: "u64 \<Rightarrow> bytes \<Rightarrow> nat \<Rightarrow> m2h_queue \<Rightarrow> m2h_queue option" where
  "fill_readcomp rid d i q =
     (if length d \<le> length (mh_data (body (q ! i)))
      then Some (q[i := (q ! i)\<lparr> body := \<lparr> mh_req_id = rid, mh_data = wr 0 d (mh_data (body (q ! i))) \<rparr> \<rparr>])
      else None)"

definition fill_writecomp :: "u64 \<Rightarrow> nat \<Rightarrow> m2h_queue \<Rightarrow> m2h_queue" where
  "fill_writecomp rid i q = q[i := (q ! i)\<lparr> body := (body (q ! i))\<lparr> mh_req_id := rid \<rparr> \<rparr>]"

text \<open>\<^verbatim>\<open>memcpy\<close> into an array at an offset.\<close>

definition put :: "nat \<Rightarrow> bytes \<Rightarrow> bytes \<Rightarrow> bytes option" where
  "put off d mem = (if off + length d \<le> length mem then Some (wr off d mem) else None)"

section \<open>The flat memory\<close>

text \<open>
  The memory is indexed by the address of the request itself; the base address of the command line
  is not used and the bounds are not tested.
\<close>

record BasicMem =
  mem_array :: bytes
  bm_if :: SimbricksBaseIf
  bm_ts :: u64

text \<open>
  One poll. The response queue is given by the contents it shows at each attempt of \<^verbatim>\<open>M2HAlloc\<close>,
  which waits for a free slot; it is returned when a response was sent.
\<close>

definition PollH2M :: "h2m_queue \<Rightarrow> m2h_queue list \<Rightarrow> BasicMem \<Rightarrow> (h2m_queue \<times> m2h_queue option \<times> BasicMem) option" where
  "PollH2M qi qos s = do {
     (r, b1) \<leftarrow> InPoll (bm_ts s) qi (bm_if s);
     let s1 = s\<lparr> bm_if := b1 \<rparr>;
     case r of
       None \<Rightarrow> Some (qi, None, s1)
     | Some i \<Rightarrow> do {
         let m = body (qi ! i);
         let t = InType (qi ! i);
         (qo, s2) \<leftarrow>
           (if t = H2M_READ then do {
              (j, q1, b2) \<leftarrow> alloc_wait (bm_ts s) qos b1;
              d \<leftarrow> rd (mem_array s1) (unat (hm_addr m)) (unat (hm_len m));
              q2 \<leftarrow> fill_readcomp (hm_req_id m) d j q1;
              Some (Some (OutSend j M2H_MSG_READCOMP q2), s1\<lparr> bm_if := b2 \<rparr>) }
            else if t = H2M_WRITE then do {
              d \<leftarrow> rd (hm_data m) 0 (unat (hm_len m));
              mem \<leftarrow> put (unat (hm_addr m)) d (mem_array s1);
              (j, q1, b2) \<leftarrow> alloc_wait (bm_ts s) qos b1;
              Some (Some (OutSend j M2H_MSG_WRITECOMP (fill_writecomp (hm_req_id m) j q1)), s1\<lparr> mem_array := mem, bm_if := b2 \<rparr>) }
            else if t = H2M_WRITE_POSTED then do {
              d \<leftarrow> rd (hm_data m) 0 (unat (hm_len m));
              mem \<leftarrow> put (unat (hm_addr m)) d (mem_array s1);
              Some (None, s1\<lparr> mem_array := mem \<rparr>) }
            else Some (None, s1));
         Some (InDone i qi, qo, s2) } }"

text \<open>
  The polling loop of one time step. Each element gives the queues that the poll sees and whether
  the exit flag is set after it; the result collects what each poll leaves in the queues, and the
  flag says whether the loop was left.
\<close>

fun basicmem_polls :: "((h2m_queue \<times> m2h_queue list) \<times> bool) list \<Rightarrow> BasicMem \<Rightarrow>
    (bool \<times> (h2m_queue \<times> m2h_queue option) list \<times> BasicMem) option" where
  "basicmem_polls [] s = Some (False, [], s)"
| "basicmem_polls (((qi, qos), exiting) # vs) s = do {
     (qi1, qo1, s1) \<leftarrow> PollH2M qi qos s;
     let next_ts = in_timestamp (bm_if s1);
     if \<not> exiting \<and> next_ts \<le> bm_ts s1
     then do { (d, os, s2) \<leftarrow> basicmem_polls vs s1; Some (d, (qi1, qo1) # os, s2) }
     else Some (True, [(qi1, qo1)], s1\<lparr> bm_ts := next_ts \<rparr>) }"

text \<open>The synchronization before it, repeated until it succeeds.\<close>

fun mem_sync :: "u64 \<Rightarrow> 'b BaseMsg list list \<Rightarrow> SimbricksBaseIf \<Rightarrow> ('b BaseMsg list \<times> SimbricksBaseIf) option" where
  "mem_sync ts [] b = None"
| "mem_sync ts (q # qs) b = do { (r, q1, b1) \<leftarrow> OutSync ts q b; if r \<noteq> 0 then mem_sync ts qs b1 else Some (q1, b1) }"

definition basicmem_step :: "m2h_queue list \<Rightarrow> ((h2m_queue \<times> m2h_queue list) \<times> bool) list \<Rightarrow> BasicMem \<Rightarrow>
    (bool \<times> m2h_queue \<times> (h2m_queue \<times> m2h_queue option) list \<times> BasicMem) option" where
  "basicmem_step sq vs s = do {
     (q, b) \<leftarrow> mem_sync (bm_ts s) sq (bm_if s);
     (d, os, s1) \<leftarrow> basicmem_polls vs (s\<lparr> bm_if := b \<rparr>);
     Some (d, q, os, s1) }"

text \<open>
  Loading a program: the segments that the ELF library reports, with fields of the word size of
  the file, whose sum wraps at this size.
\<close>

definition PT_LOAD :: u32 where [simp]: "PT_LOAD = 1"

record 'w phdr =
  p_type :: u32
  p_offset :: 'w
  p_vaddr :: 'w
  p_filesz :: 'w
  p_memsz :: 'w

fun load_segments :: "bytes \<Rightarrow> ('a :: len) word phdr list \<Rightarrow> bytes \<Rightarrow> (bool \<times> bytes) option" where
  "load_segments raw [] mem = Some (True, mem)"
| "load_segments raw (p # ps) mem =
     (if p_type p \<noteq> PT_LOAD then load_segments raw ps mem
      else if p_filesz p = 0 then load_segments raw ps mem
      else if unat (p_vaddr p + p_memsz p) > length mem then Some (False, mem)
      else do {
        d \<leftarrow> rd raw (unat (p_offset p)) (unat (p_filesz p));
        mem1 \<leftarrow> put (unat (p_vaddr p)) d mem;
        load_segments raw ps mem1 })"

datatype elf_phdrs = Elf64 "u64 phdr list" | Elf32 "u32 phdr list"

definition LoadElf :: "(bytes \<times> elf_phdrs option) option \<Rightarrow> bytes \<Rightarrow> (bool \<times> bytes) option" where
  "LoadElf elf mem = (case elf of
       None \<Rightarrow> Some (False, mem)
     | Some (raw, None) \<Rightarrow> Some (False, mem)
     | Some (raw, Some (Elf64 ps)) \<Rightarrow> load_segments raw ps mem
     | Some (raw, Some (Elf32 ps)) \<Rightarrow> load_segments raw ps mem)"

text \<open>
  Connecting. A failed initialisation is reported and ignored: the interface is then used
  without having been set up.
\<close>

record memif_env =
  me_open :: int
  me_truncate :: bool
  me_map :: "u64 option"
  me_listen :: listen_env
  me_rounds :: "(est_env list \<times> bool) list"

definition MemifInit :: "memif_env \<Rightarrow> string \<Rightarrow> SimbricksBaseIfParams \<Rightarrow> (bool \<times> SimbricksBaseIf) option" where
  "MemifInit env path p = do {
     b \<leftarrow> SimbricksBaseIfInit p;
     (case SHMPoolCreate path (SHMSize (params b)) (me_open env) (me_truncate env) (me_map env) SHMPool_zero of (r, pool) \<Rightarrow>
      if r \<noteq> 0 then Some (False, b)
      else do {
        (r1, pool1, b1) \<leftarrow> Listen (me_listen env) pool b;
        if r1 \<noteq> 0 then Some (False, b1)
        else do {
          (oc, ds) \<leftarrow> Establish (me_rounds env) 0 [establish_if b1 (replicate 4 0) 4];
          Some (oc = EstReturn 0, base_if (hd ds)) } }) }"

text \<open>The command line; \<open>args\<close> holds the program name first.\<close>

record mem_config =
  mc_size :: u64
  mc_base_addr :: u64
  mc_start :: u64
  mc_params :: SimbricksBaseIfParams
  mc_shm :: string
  mc_elf :: "string option"

definition basicmem_args :: "string list \<Rightarrow> mem_config option" where
  "basicmem_args args =
     (if length args < 6 \<or> length args > 11 then None
      else Some \<lparr> mc_size = strtoull (args ! 1) 0, mc_base_addr = strtoull (args ! 2) 0,
        mc_start = (if length args \<ge> 8 then strtoull (args ! 7) 0 else 0),
        mc_params = MemIfDefaultParams\<lparr>
          sync_interval := (if length args \<ge> 9 then strtoull (args ! 8) 0 * 1000 else sync_interval MemIfDefaultParams),
          link_latency := (if length args \<ge> 10 then strtoull (args ! 9) 0 * 1000 else link_latency MemIfDefaultParams),
          sock_path := Some (args ! 4), sync_mode := SyncOptional, blocking_conn := True \<rparr>,
        mc_shm = args ! 5, mc_elf = (if length args \<ge> 11 then Some (args ! 10) else None) \<rparr>)"

section \<open>The terminal\<close>

record Terminal =
  outbuf :: string
  printed :: "string list"
  tm_if :: SimbricksBaseIf
  tm_ts :: u64

text \<open>A line feed prints the buffer, up to a zero byte if it has one.\<close>

definition term_Read :: "u64 \<Rightarrow> u16 \<Rightarrow> u64" where
  "term_Read addr len = 0"

definition term_Write :: "u64 \<Rightarrow> u16 \<Rightarrow> u64 \<Rightarrow> Terminal \<Rightarrow> Terminal" where
  "term_Write addr len val s =
     (let c = char_of (unat (ucast val :: u8)) in
      if addr \<noteq> 0 then s
      else if c = CHR 0x0A then s\<lparr> printed := printed s @ [takeWhile (\<lambda>x. x \<noteq> CHR 0x00) (outbuf s)], outbuf := [] \<rparr>
      else s\<lparr> outbuf := outbuf s @ [c] \<rparr>)"

definition term_Poll :: "h2m_queue \<Rightarrow> m2h_queue \<Rightarrow> Terminal \<Rightarrow> (h2m_queue \<times> m2h_queue \<times> Terminal) option" where
  "term_Poll qi qo s = do {
     (r, b1) \<leftarrow> InPoll (tm_ts s) qi (tm_if s);
     let s1 = s\<lparr> tm_if := b1 \<rparr>;
     case r of
       None \<Rightarrow> Some (qi, qo, s1)
     | Some i \<Rightarrow> do {
         let m = body (qi ! i);
         let t = InType (qi ! i);
         (q2, s2) \<leftarrow>
           (if t = H2M_READ then
              if unat (hm_len m) > 8 then None
              else do {
                (j0, q1, b2) \<leftarrow> OutAlloc (tm_ts s) qo b1;
                j \<leftarrow> j0;
                q2 \<leftarrow> fill_readcomp (hm_req_id m) (take (unat (hm_len m)) (le_bytes 8 (term_Read (hm_addr m) (hm_len m)))) j q1;
                Some (OutSend j M2H_MSG_READCOMP q2, s1\<lparr> tm_if := b2 \<rparr>) }
            else if t = H2M_WRITE \<or> t = H2M_WRITE_POSTED then
              if unat (hm_len m) > 8 then None
              else do {
                d \<leftarrow> rd (hm_data m) 0 (unat (hm_len m));
                let s2 = term_Write (hm_addr m) (hm_len m) (le_word d) s1;
                if t = H2M_WRITE_POSTED then Some (qo, s2)
                else do {
                  (j0, q1, b2) \<leftarrow> OutAlloc (tm_ts s) qo b1;
                  j \<leftarrow> j0;
                  Some (OutSend j M2H_MSG_WRITECOMP (fill_writecomp (hm_req_id m) j q1), s2\<lparr> tm_if := b2 \<rparr>) } }
            else if t = MSG_TYPE_SYNC then Some (qo, s1)
            else None);
         Some (InDone i qi, q2, s2) } }"

text \<open>Connecting the terminal, and its loop of one time step, which is that of the memory.\<close>

definition term_Connect :: "param_env \<Rightarrow> string \<Rightarrow> (bool \<times> EstablishData list) option" where
  "term_Connect env url = do {
     b \<leftarrow> SimbricksBaseIfInit MemIfDefaultParams;
     (oc, _, _, ds) \<leftarrow> SimbricksParametersEstablish env [url] None SHMPool_zero [establish_if b (replicate 4 0) 4];
     Some (oc = EstReturn 0, ds) }"

fun term_polls :: "((h2m_queue \<times> m2h_queue) \<times> bool) list \<Rightarrow> Terminal \<Rightarrow> (bool \<times> (h2m_queue \<times> m2h_queue) list \<times> Terminal) option" where
  "term_polls [] s = Some (False, [], s)"
| "term_polls (((qi, qo), exiting) # vs) s = do {
     (qi1, qo1, s1) \<leftarrow> term_Poll qi qo s;
     let next_ts = in_timestamp (tm_if s1);
     if \<not> exiting \<and> next_ts \<le> tm_ts s1
     then do { (d, os, s2) \<leftarrow> term_polls vs s1; Some (d, (qi1, qo1) # os, s2) }
     else Some (True, [(qi1, qo1)], s1\<lparr> tm_ts := next_ts \<rparr>) }"

end
