(* ===== verification/Interconnect.thy ===== *)
theory Interconnect
  imports Mem_Sims
begin

text \<open>
  The address-mapped interconnect of \<^verbatim>\<open>sims/mem/interconnect/interconnect.cc\<close>: requests of its hosts
  are routed by a table of address ranges to its devices, and completions back to the host of the
  request. A request in flight is a heap object whose address is the request identifier on the
  device side; the heap is an association list, the address that the allocator returns is an
  argument, and following a pointer to a deleted object is \<open>None\<close>.
\<close>

record ic_port =
  is_device :: bool
  ic_if :: SimbricksBaseIf

record Pending =
  pd_host :: nat
  pd_write :: bool
  pd_req_id :: u64
  pd_addr :: u64
  pd_len :: u64

record TableEntry =
  vaddr_start :: u64
  vaddr_end :: u64
  phys_start :: u64
  te_dev :: "nat option"

record Interconn =
  ic_ports :: "ic_port list"
  map_table :: "TableEntry list"
  pendings :: "(u64 \<times> Pending) list"
  ic_ts :: u64

text \<open>Routing an address: the first range that holds it, the translated address and the device.\<close>

fun Lookup :: "TableEntry list \<Rightarrow> u64 \<Rightarrow> u64 \<Rightarrow> (u64 \<times> nat option) option" where
  "Lookup [] addr len = None"
| "Lookup (te # tes) addr len =
     (if vaddr_start te \<le> addr \<and> vaddr_end te > addr
      then if addr + len > vaddr_end te then None
           else Some (phys_start te + (addr - vaddr_start te), te_dev te)
      else Lookup tes addr len)"

definition set_if :: "nat \<Rightarrow> SimbricksBaseIf \<Rightarrow> Interconn \<Rightarrow> Interconn" where
  "set_if k b s = s\<lparr> ic_ports := (ic_ports s)[k := (ic_ports s ! k)\<lparr> ic_if := b \<rparr>] \<rparr>"

text \<open>Sending a request to a device; a full queue throws.\<close>

definition Device_Read :: "nat \<Rightarrow> u64 \<Rightarrow> h2m_queue \<Rightarrow> Interconn \<Rightarrow> (h2m_queue \<times> Interconn) option" where
  "Device_Read k p q s = do {
     pd \<leftarrow> map_of (pendings s) p;
     (i0, q1, b1) \<leftarrow> OutAlloc (ic_ts s) q (ic_if (ic_ports s ! k));
     i \<leftarrow> i0;
     Some (OutSend i H2M_READ (q1[i := (q1 ! i)\<lparr> body := (body (q1 ! i))\<lparr> hm_addr := pd_addr pd, hm_len := ucast (pd_len pd),
             hm_as_id := 0, hm_req_id := p \<rparr> \<rparr>]), set_if k b1 s) }"

definition Device_Write :: "nat \<Rightarrow> u64 \<Rightarrow> bytes \<Rightarrow> bool \<Rightarrow> h2m_queue \<Rightarrow> Interconn \<Rightarrow> (h2m_queue \<times> Interconn) option" where
  "Device_Write k p data posted q s = do {
     pd \<leftarrow> map_of (pendings s) p;
     (i0, q1, b1) \<leftarrow> OutAlloc (ic_ts s) q (ic_if (ic_ports s ! k));
     i \<leftarrow> i0;
     d \<leftarrow> memcpy (hm_data (body (q1 ! i))) data (unat (pd_len pd));
     let m = \<lparr> hm_req_id = (if posted then 0 else p), hm_as_id = 0, hm_addr = pd_addr pd, hm_len = ucast (pd_len pd), hm_data = d \<rparr>;
     let s1 = set_if k b1 s;
     Some (OutSend i (if posted then H2M_WRITE_POSTED else H2M_WRITE) (q1[i := (q1 ! i)\<lparr> body := m \<rparr>]),
           if posted then s1\<lparr> pendings := AList.delete p (pendings s1) \<rparr> else s1) }"

text \<open>Completing a request at its host.\<close>

definition CompletePendingR :: "nat \<Rightarrow> u64 \<Rightarrow> bytes \<Rightarrow> m2h_queue \<Rightarrow> Interconn \<Rightarrow> (m2h_queue \<times> Interconn) option" where
  "CompletePendingR h p data q s = do {
     pd \<leftarrow> map_of (pendings s) p;
     (i0, q1, b1) \<leftarrow> OutAlloc (ic_ts s) q (ic_if (ic_ports s ! h));
     i \<leftarrow> i0;
     d \<leftarrow> memcpy (mh_data (body (q1 ! i))) data (unat (pd_len pd));
     let s1 = set_if h b1 s;
     Some (OutSend i M2H_MSG_READCOMP (q1[i := (q1 ! i)\<lparr> body := \<lparr> mh_req_id = pd_req_id pd, mh_data = d \<rparr> \<rparr>]),
           s1\<lparr> pendings := AList.delete p (pendings s1) \<rparr>) }"

definition CompletePendingW :: "nat \<Rightarrow> u64 \<Rightarrow> m2h_queue \<Rightarrow> Interconn \<Rightarrow> (m2h_queue \<times> Interconn) option" where
  "CompletePendingW h p q s = do {
     pd \<leftarrow> map_of (pendings s) p;
     (i0, q1, b1) \<leftarrow> OutAlloc (ic_ts s) q (ic_if (ic_ports s ! h));
     i \<leftarrow> i0;
     let s1 = set_if h b1 s;
     Some (OutSend i M2H_MSG_WRITECOMP (fill_writecomp (pd_req_id pd) i q1), s1\<lparr> pendings := AList.delete p (pendings s1) \<rparr>) }"

text \<open>
  Polling a device: \<open>qs\<close> gives the completion queue of each port. The result names the port whose
  completion queue was written, with its contents.
\<close>

definition Device_Poll :: "nat \<Rightarrow> m2h_queue \<Rightarrow> (nat \<Rightarrow> m2h_queue) \<Rightarrow> Interconn \<Rightarrow>
    (m2h_queue \<times> (nat \<times> m2h_queue) option \<times> Interconn) option" where
  "Device_Poll k qi qs s = do {
     (r, b1) \<leftarrow> InPoll (ic_ts s) qi (ic_if (ic_ports s ! k));
     let s1 = set_if k b1 s;
     case r of
       None \<Rightarrow> Some (qi, None, s1)
     | Some i \<Rightarrow> do {
         let m = body (qi ! i);
         let t = InType (qi ! i);
         (qo, s2) \<leftarrow>
           (if t = M2H_MSG_READCOMP then do {
              pd \<leftarrow> map_of (pendings s1) (mh_req_id m);
              (q, s2) \<leftarrow> CompletePendingR (pd_host pd) (mh_req_id m) (mh_data m) (qs (pd_host pd)) s1;
              Some (Some (pd_host pd, q), s2) }
            else if t = M2H_MSG_WRITECOMP then do {
              pd \<leftarrow> map_of (pendings s1) (mh_req_id m);
              (q, s2) \<leftarrow> CompletePendingW (pd_host pd) (mh_req_id m) (qs (pd_host pd)) s1;
              Some (Some (pd_host pd, q), s2) }
            else if t = MSG_TYPE_SYNC then Some (None, s1)
            else None);
         Some (InDone i qi, qo, s2) } }"

text \<open>Polling a host: \<open>p\<close> is the address of a new pending request, \<open>qs\<close> the request queues of the ports.\<close>

definition Host_Poll :: "u64 \<Rightarrow> nat \<Rightarrow> h2m_queue \<Rightarrow> (nat \<Rightarrow> h2m_queue) \<Rightarrow> Interconn \<Rightarrow>
    (h2m_queue \<times> (nat \<times> h2m_queue) option \<times> Interconn) option" where
  "Host_Poll p h qi qs s = do {
     (r, b1) \<leftarrow> InPoll (ic_ts s) qi (ic_if (ic_ports s ! h));
     let s1 = set_if h b1 s;
     case r of
       None \<Rightarrow> Some (qi, None, s1)
     | Some i \<Rightarrow> do {
         let m = body (qi ! i);
         let t = InType (qi ! i);
         (qo, s2) \<leftarrow>
           (if t = H2M_READ \<or> t = H2M_WRITE \<or> t = H2M_WRITE_POSTED then do {
              (addr, dev) \<leftarrow> Lookup (map_table s1) (hm_addr m) (ucast (hm_len m));
              k \<leftarrow> dev;
              let pd = \<lparr> pd_host = h, pd_write = False, pd_req_id = hm_req_id m, pd_addr = addr, pd_len = ucast (hm_len m) \<rparr>;
              let s2 = s1\<lparr> pendings := (p, pd) # pendings s1 \<rparr>;
              (q, s3) \<leftarrow> (if t = H2M_READ then Device_Read k p (qs k) s2
                         else Device_Write k p (hm_data m) (t = H2M_WRITE_POSTED) (qs k) s2);
              Some (Some (k, q), s3) }
            else if t = MSG_TYPE_SYNC then Some (None, s1)
            else None);
         Some (InDone i qi, qo, s2) } }"

text \<open>
  One round over all ports, as far as time is concerned: each poll is given its view, and the
  round yields the least timestamp of the synchronized ports. \<open>acc\<close> is the minimum so far.
\<close>

datatype ic_view =
    HostView u64 h2m_queue "nat \<Rightarrow> h2m_queue"
  | DeviceView m2h_queue "nat \<Rightarrow> m2h_queue"

datatype ic_effect =
    HostEffect h2m_queue "(nat \<times> h2m_queue) option"
  | DeviceEffect m2h_queue "(nat \<times> m2h_queue) option"

definition port_Poll :: "ic_view \<Rightarrow> nat \<Rightarrow> Interconn \<Rightarrow> (ic_effect \<times> Interconn) option" where
  "port_Poll v k s = (case v of
       HostView p qi qs \<Rightarrow> map_option (\<lambda>(a, b, c). (HostEffect a b, c)) (Host_Poll p k qi qs s)
     | DeviceView qi qs \<Rightarrow> map_option (\<lambda>(a, b, c). (DeviceEffect a b, c)) (Device_Poll k qi qs s))"

fun poll_ports :: "ic_view list \<Rightarrow> nat \<Rightarrow> u64 \<Rightarrow> Interconn \<Rightarrow> (u64 \<times> ic_effect list \<times> Interconn) option" where
  "poll_ports [] k acc s = Some (acc, [], s)"
| "poll_ports (v # vs) k acc s = do {
     (e, s1) \<leftarrow> port_Poll v k s;
     let b = ic_if (ic_ports s1 ! k);
     let acc1 = (if sync b \<and> in_timestamp b < acc then in_timestamp b else acc);
     (ts, es, s2) \<leftarrow> poll_ports vs (Suc k) acc1 s1;
     Some (ts, e # es, s2) }"

fun poll_rounds :: "(ic_view list \<times> bool) list \<Rightarrow> Interconn \<Rightarrow> (bool \<times> ic_effect list list \<times> Interconn) option" where
  "poll_rounds [] s = Some (False, [], s)"
| "poll_rounds ((vs, exiting) # rs) s = do {
     (min_ts, es, s1) \<leftarrow> poll_ports vs 0 UINT64_MAX s;
     if \<not> exiting \<and> min_ts \<le> ic_ts s1
     then do { (d, ess, s2) \<leftarrow> poll_rounds rs s1; Some (d, es # ess, s2) }
     else Some (True, [es], if min_ts < UINT64_MAX then s1\<lparr> ic_ts := min_ts \<rparr> else s1) }"

section \<open>Command line\<close>

text \<open>Tokens separated by commas, empty ones skipped.\<close>

definition tokens :: "string \<Rightarrow> string list" where
  "tokens s = filter (\<lambda>t. t \<noteq> []) (foldr (\<lambda>c ts. if c = CHR '','' then [] # ts else (c # hd ts) # tl ts) s [[]])"

record ic_options =
  io_devices :: "(string \<times> nat option) list"
  io_ports :: "(bool \<times> string) list"
  io_pool :: "string option"
  io_table :: "TableEntry list"

datatype 'a option_result = OptOk 'a | OptFail | OptBad 'a

text \<open>
  One option. A route with fewer than four fields leaves the rest of its entry uninitialised
  (\<open>None\<close>); looking up an unknown device name enters a null pointer for it.
\<close>

definition ic_option :: "char \<Rightarrow> string \<Rightarrow> ic_options \<Rightarrow> ic_options option_result option" where
  "ic_option c arg o1 =
     (if c = CHR ''d'' then
        (if CHR ''='' \<notin> set arg then Some OptFail
         else Some (OptOk (o1\<lparr> io_devices := AList.update (takeWhile (\<lambda>x. x \<noteq> CHR ''='') arg) (Some (length (io_ports o1))) (io_devices o1),
                io_ports := io_ports o1 @ [(True, drop 1 (dropWhile (\<lambda>x. x \<noteq> CHR ''='') arg))] \<rparr>)))
      else if c = CHR ''h'' then Some (OptOk (o1\<lparr> io_ports := io_ports o1 @ [(False, arg)] \<rparr>))
      else if c = CHR ''p'' then Some (OptOk (o1\<lparr> io_pool := Some arg \<rparr>))
      else if c = CHR ''m'' then
        (case tokens arg of
           [a, b, p, n] \<Rightarrow>
             (let devs = (if map_of (io_devices o1) n = None then AList.update n None (io_devices o1) else io_devices o1);
                  te = \<lparr> vaddr_start = strtoull a 0, vaddr_end = strtoull b 0, phys_start = strtoull p 0,
                         te_dev = the (map_of devs n) \<rparr> in
              Some (OptOk (o1\<lparr> io_devices := devs, io_table := io_table o1 @ [te] \<rparr>)))
         | ts \<Rightarrow> if length ts > 4 then Some OptFail else None)
      else Some (OptBad o1))"

fun ic_parse :: "(char \<times> string) list \<Rightarrow> ic_options \<Rightarrow> ic_options option option" where
  "ic_parse [] o1 = Some (if io_devices o1 = [] \<or> io_table o1 = [] \<or> io_ports o1 = [] then None else Some o1)"
| "ic_parse ((c, arg) # as) o1 = do {
     r \<leftarrow> ic_option c arg o1;
     case r of OptOk o2 \<Rightarrow> ic_parse as o2 | OptFail \<Rightarrow> Some None | OptBad o2 \<Rightarrow> Some None }"

section \<open>Connecting and synchronizing\<close>

text \<open>All ports are connected from their URLs, with the parameters of the memory interface.\<close>

definition ic_ConnectAll :: "param_env \<Rightarrow> ic_options \<Rightarrow> (bool \<times> EstablishData list) option" where
  "ic_ConnectAll env o1 = do {
     b \<leftarrow> SimbricksBaseIfInit MemIfDefaultParams;
     (oc, _, _, ds) \<leftarrow> SimbricksParametersEstablish env (map snd (io_ports o1)) (io_pool o1) SHMPool_zero
        (map (\<lambda>_. establish_if b (replicate 4 0) 4) (io_ports o1));
     Some (oc = EstReturn 0, ds) }"

text \<open>The synchronization of all ports; a port waits until its message is sent.\<close>

datatype ic_out_view = OutReq "h2m_queue list" | OutComp "m2h_queue list"

fun sync_ports :: "ic_out_view list \<Rightarrow> nat \<Rightarrow> Interconn \<Rightarrow> Interconn option" where
  "sync_ports [] k s = Some s"
| "sync_ports (v # vs) k s = do {
     b \<leftarrow> (case v of OutReq qs \<Rightarrow> map_option snd (mem_sync (ic_ts s) qs (ic_if (ic_ports s ! k)))
        | OutComp qs \<Rightarrow> map_option snd (mem_sync (ic_ts s) qs (ic_if (ic_ports s ! k))));
     sync_ports vs (Suc k) (set_if k b s) }"

end
