(* ===== verification/Chan_Link.thy ===== *)
theory Chan_Link
  imports Port_Safety
begin

text \<open>
  The two ends of a channel as programs use them: taking the next message (poll and release) and
  putting a message (allocation, contents, send), and what either leaves of an interface that
  serves an incoming and an outgoing channel at once.
\<close>

lemma InPoll_frame:
  assumes "InPoll ts q b = Some (r, b')"
  shows "out_pos b' = out_pos b" "out_enum b' = out_enum b" "params b' = params b" "in_enum b' = in_enum b"
  using assms by (auto simp: InPoll_def InPeek_def Let_def bind_eq_Some_conv split: if_splits option.splits)

lemma OutAlloc_frame:
  assumes "OutAlloc ts q b = Some (r, q', b')"
  shows "in_pos b' = in_pos b" "in_enum b' = in_enum b" "params b' = params b" "sync b' = sync b"
    "in_timestamp b' = in_timestamp b" "out_enum b' = out_enum b" "length q' = length q"
  using assms by (auto simp: OutAlloc_def bind_eq_Some_conv split: if_splits)

lemma OutSync_frame:
  assumes "OutSync ts q b = Some (r, q', b')"
  shows "in_pos b' = in_pos b" "in_enum b' = in_enum b" "params b' = params b" "sync b' = sync b" "in_timestamp b' = in_timestamp b"
  using assms by (auto simp: OutSync_def bind_eq_Some_conv dest: OutAlloc_frame split: if_splits option.splits)

lemma chan_inv_consumer:
  assumes "chan_inv N c" "in_pos b = in_pos (consumer c)" "in_enum b = in_enum (consumer c)"
  shows "chan_inv N (c\<lparr> consumer := b \<rparr>)"
  using assms by (simp add: chan_inv_def n_sent_def n_done_def)

lemma chan_inv_producer:
  assumes "chan_inv N c" "out_pos b = out_pos (producer c)" "out_enum b = out_enum (producer c)"
  shows "chan_inv N (c\<lparr> producer := b \<rparr>)"
  using assms by (simp add: chan_inv_def n_sent_def n_done_def)

text \<open>Taking a message.\<close>

lemma chan_take:
  assumes "chan_inv N c" "held c = None" "InPoll ts (cq c) (consumer c) = Some (Some i, b')"
  shows "chan_inv N (c\<lparr> cq := InDone i (cq c), consumer := b', rcvd := rcvd c @ [cq c ! i] \<rparr>)"
    "cq c ! i = sent c ! length (rcvd c)" "length (rcvd c) < length (sent c)"
proof -
  let ?c1 = "c\<lparr> consumer := b', held := Some i, rcvd := rcvd c @ [cq c ! i] \<rparr>"
  have "chan_inv N ?c1" by (rule chan_poll_inv[OF assms]) simp
  then have "chan_inv N (?c1\<lparr> cq := InDone i (cq ?c1), held := None \<rparr>)" by (rule chan_release_inv) simp_all
  moreover have "?c1\<lparr> cq := InDone i (cq ?c1), held := None \<rparr> = c\<lparr> cq := InDone i (cq c), consumer := b', rcvd := rcvd c @ [cq c ! i] \<rparr>"
    using assms(2) by (cases c) simp
  ultimately show "chan_inv N (c\<lparr> cq := InDone i (cq c), consumer := b', rcvd := rcvd c @ [cq c ! i] \<rparr>)" by simp
  from InPoll_spec[OF assms] show "cq c ! i = sent c ! length (rcvd c)" "length (rcvd c) < length (sent c)"
    by (auto simp: n_sent_def)
qed

lemma chan_idle:
  assumes "chan_inv N c" "held c = None" "InPoll ts (cq c) (consumer c) = Some (None, b')"
  shows "chan_inv N (c\<lparr> consumer := b' \<rparr>)"
  using InPoll_spec[OF assms] by (intro chan_inv_consumer[OF assms(1)]) simp_all

text \<open>A message that is due is taken, and the interface keeps its outgoing side.\<close>

lemma chan_take_due:
  assumes "chan_inv N c" "held c = None" "length (rcvd c) < length (sent c)"
    "sync (consumer c) \<longrightarrow> timestamp (sent c ! length (rcvd c)) \<le> ts"
  obtains i b' where "InPoll ts (cq c) (consumer c) = Some (Some i, b')" "cq c ! i = sent c ! length (rcvd c)"
    "in_timestamp b' = timestamp (sent c ! length (rcvd c)) \<or> InType (cq c ! i) = MSG_TYPE_TERMINATE"
proof -
  note d = chan_invD[OF assms(1)]
  let ?r = "length (rcvd c)" let ?i = "?r mod N"
  have nd: "n_done c = ?r" using assms(2) by (simp add: n_done_def)
  have c: "cq c ! ?i = sent c ! ?r" "con (sent c ! ?r)" using d(13)[of ?r] nd assms(3) by (auto simp: n_sent_def)
  have e: "in_enum (consumer c) \<noteq> 0" using d(1,4) by auto
  have s: "slot (cq c) ?i = Some (cq c ! ?i)" using d(1,2) by (simp add: slot_def)
  have due: "\<not> (sync (consumer c) \<and> ts < timestamp (sent c ! ?r))" using assms(4) by (simp add: not_less)
  show thesis
  proof (rule that)
    show "InPoll ts (cq c) (consumer c) = Some (Some ?i,
        let b2 = (consumer c)\<lparr> in_timestamp := timestamp (cq c ! ?i), in_pos := (in_pos (consumer c) + 1) mod in_enum (consumer c) \<rparr> in
        if InType (cq c ! ?i) = MSG_TYPE_TERMINATE
        then b2\<lparr> in_timestamp := UINT64_MAX, out_timestamp := UINT64_MAX, in_terminated := True, sync := False \<rparr> else b2)"
      using s c e due by (auto simp: InPoll_def InPeek_def d(6) con_def Let_def)
    show "cq c ! ?i = sent c ! ?r" by (rule c(1))
  qed (simp add: c(1) Let_def)
qed

text \<open>Putting a message.\<close>

definition put_msg :: "nat \<Rightarrow> u8 \<Rightarrow> 'b \<Rightarrow> 'b BaseMsg list \<Rightarrow> 'b BaseMsg list" where
  "put_msg j ty x q = OutSend j ty (q[j := (q ! j)\<lparr> body := x \<rparr>])"

lemma chan_put:
  assumes "chan_inv N c" "pend c = None" "OutAlloc ts (cq c) (producer c) = Some (Some j, q1, b1)" "q' = put_msg j ty x q1"
  shows "chan_inv N (c\<lparr> cq := q', producer := b1, sent := sent c @ [q' ! j] \<rparr>)"
    "q' ! j = \<lparr> body = x, timestamp = ts + link_latency (params (producer c)), own_type = ty OR MSG_OWN_CON \<rparr>"
    "j = length (sent c) mod N" "length (sent c) < n_done c + N" "body (q1 ! j) = body (cq c ! j)"
proof -
  note d = chan_invD[OF assms(1)]
  note spec = OutAlloc_spec[OF assms(1,2), of ts, unfolded assms(3)]
  from spec have lt: "n_sent c < n_done c + N" and j: "j = n_sent c mod N"
    and q1: "q1 = (cq c)[j := (cq c ! j)\<lparr> timestamp := ts + link_latency (params (producer c)) \<rparr>]" by (auto split: if_splits)
  from lt j show "j = length (sent c) mod N" "length (sent c) < n_done c + N" by (simp_all add: n_sent_def)
  have jl: "j < length (cq c)" using d(1,2) j by simp
  then show "body (q1 ! j) = body (cq c ! j)" using q1 by simp
  show "q' ! j = \<lparr> body = x, timestamp = ts + link_latency (params (producer c)), own_type = ty OR MSG_OWN_CON \<rparr>"
    using jl q1 assms(4) by (simp add: put_msg_def OutSend_def)
  let ?c1 = "c\<lparr> cq := q1, producer := b1, pend := Some j \<rparr>"
  have c1: "chan_inv N ?c1" by (rule chan_alloc_inv[OF assms(1-3)]) simp
  have "chan_inv N (?c1\<lparr> cq := q', pend := None, sent := sent ?c1 @ [q' ! j] \<rparr>)"
    by (rule chan_send_inv[OF c1, of j q' ty x]) (simp_all add: assms(4) put_msg_def)
  moreover have "?c1\<lparr> cq := q', pend := None, sent := sent ?c1 @ [q' ! j] \<rparr> = c\<lparr> cq := q', producer := b1, sent := sent c @ [q' ! j] \<rparr>"
    using assms(2) by (cases c) simp
  ultimately show "chan_inv N (c\<lparr> cq := q', producer := b1, sent := sent c @ [q' ! j] \<rparr>)" by simp
qed

lemma chan_room:
  assumes "chan_inv N c" "pend c = None" "length (sent c) < n_done c + N"
  obtains q1 b1 where "OutAlloc ts (cq c) (producer c) = Some (Some (length (sent c) mod N), q1, b1)"
    "body (q1 ! (length (sent c) mod N)) = body (cq c ! (length (sent c) mod N))"
proof -
  note d = chan_invD[OF assms(1)]
  have j: "length (sent c) mod N < length (cq c)" using d(1,2) by simp
  show thesis using OutAlloc_spec[OF assms(1,2), of ts] assms(3) that j by (simp add: n_sent_def)
qed

lemma quiet_room: "chan_inv N c \<Longrightarrow> held c = None \<Longrightarrow> length (rcvd c) = length (sent c) \<Longrightarrow> length (sent c) < n_done c + N"
  using chan_invD(1)[of N c] by (simp add: n_done_def)

lemma put_type:
  assumes "ty AND MSG_OWN_MASK = 0"
  shows "InType \<lparr> body = x, timestamp = t, own_type = ty OR MSG_OWN_CON \<rparr> = ty"
proof -
  have "(ty OR MSG_OWN_CON) AND NOT MSG_OWN_MASK = ty AND NOT MSG_OWN_MASK" by (simp add: bit.conj_disj_distrib2)
  also have "\<dots> = ty" using bit.conj_disj_distrib[of ty MSG_OWN_MASK "NOT MSG_OWN_MASK"] assms by simp
  finally show ?thesis by (simp add: InType_def)
qed

lemma alloc_wait_one [simp]: "alloc_wait ts [q] b = Some (j, q1, b1) \<longleftrightarrow> OutAlloc ts q b = Some (Some j, q1, b1)"
  by (auto simp: bind_eq_Some_conv split: option.splits)

end
