(* ===== verification/Mem_Safety.thy ===== *)
theory Mem_Safety
  imports Mem_Sims Chan_Link
begin

text \<open>
  Correctness of the flat memory: it serves the requests of its queue in order, exactly once each,
  as an abstract array of bytes does.
\<close>

section \<open>The abstract memory\<close>

datatype mem_req = MRead u64 nat nat | MWrite u64 nat bytes | MPosted nat bytes | MOther

datatype mem_rsp = RData u64 bytes | RDone u64

definition req_of :: "H2MMsg BaseMsg \<Rightarrow> mem_req" where
  "req_of m = (let x = body m; t = InType m; d = take (unat (hm_len x)) (hm_data x) in
     if t = H2M_READ then MRead (hm_req_id x) (unat (hm_addr x)) (unat (hm_len x))
     else if t = H2M_WRITE then MWrite (hm_req_id x) (unat (hm_addr x)) d
     else if t = H2M_WRITE_POSTED then MPosted (unat (hm_addr x)) d
     else MOther)"

fun serve :: "mem_req \<Rightarrow> bytes \<Rightarrow> bytes \<times> mem_rsp list" where
  "serve (MRead rid a n) mem = (mem, [RData rid (take n (drop a mem))])"
| "serve (MWrite rid a d) mem = (wr a d mem, [RDone rid])"
| "serve (MPosted a d) mem = (wr a d mem, [])"
| "serve MOther mem = (mem, [])"

fun serve_all :: "mem_req list \<Rightarrow> bytes \<Rightarrow> bytes \<times> mem_rsp list" where
  "serve_all [] mem = (mem, [])"
| "serve_all (r # rs) mem = (case serve r mem of (m1, xs) \<Rightarrow> case serve_all rs m1 of (m2, ys) \<Rightarrow> (m2, xs @ ys))"

lemma serve_all_append:
  "serve_all (rs @ qs) mem = (case serve_all rs mem of (m1, xs) \<Rightarrow> case serve_all qs m1 of (m2, ys) \<Rightarrow> (m2, xs @ ys))"
  by (induction rs arbitrary: mem) (auto split: prod.splits)

lemma serve_all_one [simp]: "serve_all [r] mem = serve r mem"
  by (simp split: prod.splits)

text \<open>Which message is the response.\<close>

fun answers :: "M2HMsg BaseMsg \<Rightarrow> mem_rsp \<Rightarrow> bool" where
  "answers m (RData rid d) = (InType m = M2H_MSG_READCOMP \<and> mh_req_id (body m) = rid \<and>
     length d \<le> length (mh_data (body m)) \<and> take (length d) (mh_data (body m)) = d)"
| "answers m (RDone rid) = (InType m = M2H_MSG_WRITECOMP \<and> mh_req_id (body m) = rid)"

definition is_sync :: "'b BaseMsg \<Rightarrow> bool" where
  "is_sync m = (InType m = MSG_TYPE_SYNC)"

text \<open>An access touches the addresses of its range.\<close>

fun overlaps :: "nat \<Rightarrow> nat \<Rightarrow> mem_req \<Rightarrow> bool" where
  "overlaps a n (MWrite _ b d) = (a < b + length d \<and> b < a + n)"
| "overlaps a n (MPosted b d) = (a < b + length d \<and> b < a + n)"
| "overlaps a n _ = False"

fun in_range :: "nat \<Rightarrow> mem_req \<Rightarrow> bool" where
  "in_range n (MRead _ a k) = (a + k \<le> n)"
| "in_range n (MWrite _ a d) = (a + length d \<le> n)"
| "in_range n (MPosted a d) = (a + length d \<le> n)"
| "in_range n MOther = True"

lemma length_serve_all: "\<forall>r\<in>set rs. in_range (length mem) r \<Longrightarrow> length (fst (serve_all rs mem)) = length mem"
proof (induction rs arbitrary: mem)
  case (Cons r rs)
  have "length (fst (serve r mem)) = length mem" using Cons.prems by (cases r) auto
  with Cons.IH[of "fst (serve r mem)"] Cons.prems show ?case by (auto split: prod.splits)
qed simp

lemma wr_disjoint:
  assumes "b + length d \<le> length mem" "a + n \<le> b \<or> b + length d \<le> a"
  shows "take n (drop a (wr b d mem)) = take n (drop a mem)"
proof (rule nth_equalityI)
  have l: "length (wr b d mem) = length mem" using assms(1) by simp
  then show "length (take n (drop a (wr b d mem))) = length (take n (drop a mem))" by simp
  fix i assume "i < length (take n (drop a (wr b d mem)))"
  then have i: "i < n" "a + i < length mem" by (auto simp: l)
  then have "wr b d mem ! (a + i) = mem ! (a + i)" using nth_wr[of b d mem "a + i"] assms by auto
  with i l show "take n (drop a (wr b d mem)) ! i = take n (drop a mem) ! i" by simp
qed

lemma serve_all_undisturbed:
  assumes "\<forall>r\<in>set rs. in_range (length mem) r \<and> \<not> overlaps a n r"
  shows "take n (drop a (fst (serve_all rs mem))) = take n (drop a mem)"
  using assms
proof (induction rs arbitrary: mem)
  case (Cons r rs)
  have r: "length (fst (serve r mem)) = length mem" "take n (drop a (fst (serve r mem))) = take n (drop a mem)"
    using Cons.prems by (cases r; auto simp: not_less intro!: wr_disjoint)+
  with Cons.IH[of "fst (serve r mem)"] Cons.prems show ?case by (auto split: prod.splits)
qed simp

text \<open>A read returns what was written, if nothing else was written over it.\<close>

lemma read_after_write:
  assumes "a + length d \<le> length mem" "\<forall>r\<in>set rs. in_range (length mem) r \<and> \<not> overlaps a (length d) r"
  shows "last (snd (serve_all (MWrite w a d # rs @ [MRead r a (length d)]) mem)) = RData r d"
proof -
  have "take (length d) (drop a (fst (serve_all rs (wr a d mem)))) = take (length d) (drop a (wr a d mem))"
    by (rule serve_all_undisturbed) (use assms in simp)
  moreover have "\<dots> = d" using assms(1) by (simp add: wr_def)
  ultimately show ?thesis by (auto simp: serve_all_append split: prod.splits)
qed

section \<open>The flat memory serves its queue\<close>

lemma sends_put:
  "fill_readcomp rid d j q = Some q' \<Longrightarrow>
     OutSend j M2H_MSG_READCOMP q' = put_msg j M2H_MSG_READCOMP \<lparr> mh_req_id = rid, mh_data = wr 0 d (mh_data (body (q ! j))) \<rparr> q"
  "OutSend j M2H_MSG_WRITECOMP (fill_writecomp rid j q) = put_msg j M2H_MSG_WRITECOMP ((body (q ! j))\<lparr> mh_req_id := rid \<rparr>) q"
  by (auto simp: fill_readcomp_def fill_writecomp_def put_msg_def split: if_splits)

definition taken :: "BasicMem \<Rightarrow> h2m_queue \<Rightarrow> H2MMsg BaseMsg list" where
  "taken m q = (case InPoll (bm_ts m) q (bm_if m) of Some (Some i, _) \<Rightarrow> [q ! i] | _ \<Rightarrow> [])"

text \<open>The response channel after an operation that may have sent one message.\<close>

definition sent_one :: "M2HMsg BaseMsg list option \<Rightarrow> SimbricksBaseIf \<Rightarrow> M2HMsg chan \<Rightarrow> M2HMsg chan" where
  "sent_one qo b c = (case qo of None \<Rightarrow> c\<lparr> producer := b \<rparr>
     | Some q \<Rightarrow> c\<lparr> cq := q, producer := b, sent := sent c @ [q ! unat (out_pos (producer c))] \<rparr>)"

lemma sent_one_put:
  assumes "chan_inv M c" "pend c = None" "OutAlloc ts (cq c) b0 = Some (Some j, q1, b1)"
    "out_pos b0 = out_pos (producer c)" "out_enum b0 = out_enum (producer c)" "params b0 = params (producer c)"
  shows "chan_inv M (sent_one (Some (put_msg j ty x q1)) b1 c)"
    "sent (sent_one (Some (put_msg j ty x q1)) b1 c) =
       sent c @ [\<lparr> body = x, timestamp = ts + link_latency (params (producer c)), own_type = ty OR MSG_OWN_CON \<rparr>]"
    "body (q1 ! j) = body (cq c ! j)"
proof -
  let ?c = "c\<lparr> producer := b0 \<rparr>"
  have inv: "chan_inv M ?c" by (rule chan_inv_producer[OF assms(1,4,5)])
  have p: "pend ?c = None" "OutAlloc ts (cq ?c) (producer ?c) = Some (Some j, q1, b1)" using assms(2,3) by simp_all
  note put = chan_put(1,2)[OF inv p refl, of ty x] and slot = chan_put(3,5)[OF inv p refl]
  have j: "unat (out_pos (producer c)) = j" using chan_invD(5)[OF assms(1)] assms(2) slot(1) by (simp add: n_sent_def)
  show "chan_inv M (sent_one (Some (put_msg j ty x q1)) b1 c)" using put(1) by (simp add: sent_one_def j)
  show "sent (sent_one (Some (put_msg j ty x q1)) b1 c) =
       sent c @ [\<lparr> body = x, timestamp = ts + link_latency (params (producer c)), own_type = ty OR MSG_OWN_CON \<rparr>]"
    using put(2) assms(6) by (simp add: sent_one_def j)
  show "body (q1 ! j) = body (cq c ! j)" using slot(2) by simp
qed

lemma sent_one_none:
  assumes "chan_inv M c" "out_pos b = out_pos (producer c)" "out_enum b = out_enum (producer c)"
  shows "chan_inv M (sent_one None b c)" "sent (sent_one None b c) = sent c"
  using chan_inv_producer[OF assms] by (simp_all add: sent_one_def)

lemma msg_types:
  "InType \<lparr> body = x, timestamp = t, own_type = M2H_MSG_READCOMP OR MSG_OWN_CON \<rparr> = M2H_MSG_READCOMP"
  "InType \<lparr> body = x, timestamp = t, own_type = M2H_MSG_WRITECOMP OR MSG_OWN_CON \<rparr> = M2H_MSG_WRITECOMP"
  "InType \<lparr> body = x, timestamp = t, own_type = MSG_TYPE_SYNC OR MSG_OWN_CON \<rparr> = MSG_TYPE_SYNC"
  "InType \<lparr> body = x, timestamp = t, own_type = H2M_READ OR MSG_OWN_CON \<rparr> = H2M_READ"
  "InType \<lparr> body = x, timestamp = t, own_type = H2M_WRITE OR MSG_OWN_CON \<rparr> = H2M_WRITE"
  "InType \<lparr> body = x, timestamp = t, own_type = H2M_WRITE_POSTED OR MSG_OWN_CON \<rparr> = H2M_WRITE_POSTED"
  by (intro put_type; simp)+

lemmas InType_sent [simp] = msg_types[simplified]

text \<open>One poll of the memory: both channels stay intact and the request taken is served.\<close>

definition poll_ok :: "nat \<Rightarrow> nat \<Rightarrow> BasicMem \<Rightarrow> H2MMsg chan \<Rightarrow> M2HMsg chan \<Rightarrow> h2m_queue \<Rightarrow> m2h_queue option \<Rightarrow> BasicMem \<Rightarrow> bool" where
  "poll_ok N M m ci co qi qo m' =
     (chan_inv N (ci\<lparr> cq := qi, consumer := bm_if m', rcvd := rcvd ci @ taken m (cq ci) \<rparr>) \<and>
      chan_inv M (sent_one qo (bm_if m') co) \<and>
      fst (serve_all (map req_of (taken m (cq ci))) (mem_array m)) = mem_array m' \<and>
      (\<exists>xs. sent (sent_one qo (bm_if m') co) = sent co @ xs \<and> filter (\<lambda>x. \<not> is_sync x) xs = xs \<and>
         (\<forall>x\<in>set xs. timestamp x = bm_ts m + link_latency (params (bm_if m))) \<and>
         list_all2 answers xs (snd (serve_all (map req_of (taken m (cq ci))) (mem_array m)))) \<and> bm_ts m' = bm_ts m)"

lemma poll_ok_take:
  assumes "chan_inv N ci" "held ci = None" "consumer ci = bm_if m" "InPoll (bm_ts m) (cq ci) (bm_if m) = Some (Some i, b1)"
    "in_pos (bm_if m') = in_pos b1" "in_enum (bm_if m') = in_enum b1" "chan_inv M (sent_one qo (bm_if m') co)"
    "sent (sent_one qo (bm_if m') co) = sent co @ xs" "filter (\<lambda>x. \<not> is_sync x) xs = xs \<and> (\<forall>x\<in>set xs. timestamp x = bm_ts m + link_latency (params (bm_if m)))"
    "serve (req_of (cq ci ! i)) (mem_array m) = (mem_array m', rs)" "list_all2 answers xs rs" "bm_ts m' = bm_ts m"
  shows "poll_ok N M m ci co (InDone i (cq ci)) qo m'"
proof -
  let ?ci = "ci\<lparr> cq := InDone i (cq ci), consumer := b1, rcvd := rcvd ci @ [cq ci ! i] \<rparr>"
  have "chan_inv N ?ci" using chan_take(1)[OF assms(1,2), of "bm_ts m" i b1] assms(3,4) by simp
  then have "chan_inv N (?ci\<lparr> consumer := bm_if m' \<rparr>)" by (rule chan_inv_consumer) (use assms(5,6) in simp_all)
  moreover have "?ci\<lparr> consumer := bm_if m' \<rparr> = ci\<lparr> cq := InDone i (cq ci), consumer := bm_if m', rcvd := rcvd ci @ [cq ci ! i] \<rparr>" by simp
  moreover have "taken m (cq ci) = [cq ci ! i]" using assms(4) by (simp add: taken_def)
  ultimately show ?thesis using assms(7-12) by (auto simp: poll_ok_def)
qed

lemma poll_ok_put:
  assumes "chan_inv N ci" "held ci = None" "consumer ci = bm_if m" "chan_inv M co" "pend co = None" "producer co = bm_if m"
    "InPoll (bm_ts m) (cq ci) (bm_if m) = Some (Some i, b1)" "OutAlloc (bm_ts m) (cq co) b1 = Some (Some j, q1, b2)"
    "bm_if m' = b2" "bm_ts m' = bm_ts m" "serve (req_of (cq ci ! i)) (mem_array m) = (mem_array m', [rsp])"
    "\<And>ts. answers \<lparr> body = y, timestamp = ts, own_type = ty OR MSG_OWN_CON \<rparr> rsp" "ty = M2H_MSG_READCOMP \<or> ty = M2H_MSG_WRITECOMP"
  shows "poll_ok N M m ci co (InDone i (cq ci)) (Some (put_msg j ty y q1)) m'"
proof -
  note fr = InPoll_frame[OF assms(7)] and fa = OutAlloc_frame[OF assms(8)]
  note put = sent_one_put(1,2)[OF assms(4,5,8), of ty y]
  show ?thesis
  proof (rule poll_ok_take[OF assms(1-3,7) _ _ _ _ _ assms(11) _ assms(10)])
    show "chan_inv M (sent_one (Some (put_msg j ty y q1)) (bm_if m') co)" using put(1) fr assms(6,9) by simp
    show "sent (sent_one (Some (put_msg j ty y q1)) (bm_if m') co) =
        sent co @ [\<lparr> body = y, timestamp = bm_ts m + link_latency (params (bm_if m)), own_type = ty OR MSG_OWN_CON \<rparr>]"
      using put(2) fr assms(6,9) by simp
  qed (use fa assms(9,12,13) in \<open>auto simp: is_sync_def\<close>)
qed

lemma PollH2M_step:
  assumes inv: "chan_inv N ci" "held ci = None" "consumer ci = bm_if m" "chan_inv M co" "pend co = None" "producer co = bm_if m"
    and poll: "PollH2M (cq ci) [cq co] m = Some (qi, qo, m')"
  shows "poll_ok N M m ci co qi qo m'"
proof -
  obtain r b1 where ip: "InPoll (bm_ts m) (cq ci) (bm_if m) = Some (r, b1)"
    using poll by (auto simp: PollH2M_def bind_eq_Some_conv)
  note fr = InPoll_frame[OF ip]
  have none: "chan_inv M (sent_one None b1 co)" "sent (sent_one None b1 co) = sent co"
    using sent_one_none[OF inv(4), of b1] fr inv(6) by simp_all
  show ?thesis
  proof (cases r)
    case None
    then have eq: "qi = cq ci" "qo = None" "m' = m\<lparr> bm_if := b1 \<rparr>" "taken m (cq ci) = []"
      using poll ip by (auto simp: PollH2M_def taken_def)
    have "chan_inv N (ci\<lparr> consumer := b1 \<rparr>)" using chan_idle[OF inv(1,2), of "bm_ts m" b1] ip None inv(3) by simp
    with none show ?thesis by (simp add: poll_ok_def eq)
  next
    case (Some i)
    let ?x = "body (cq ci ! i)" and ?t = "InType (cq ci ! i)"
    let ?d = "take (unat (hm_len ?x)) (hm_data ?x)" and ?a = "unat (hm_addr ?x)"
    have ip': "InPoll (bm_ts m) (cq ci) (bm_if m) = Some (Some i, b1)" using ip Some by simp
    consider "?t = H2M_READ" | "?t = H2M_WRITE" | "?t = H2M_WRITE_POSTED" | "?t \<notin> {H2M_READ, H2M_WRITE, H2M_WRITE_POSTED}" by blast
    then show ?thesis
    proof cases
      case 1
      define d where d: "d = take (unat (hm_len ?x)) (drop ?a (mem_array m))"
      with 1 obtain j q1 b2 q2 where a: "OutAlloc (bm_ts m) (cq co) b1 = Some (Some j, q1, b2)" and
        f: "fill_readcomp (hm_req_id ?x) d j q1 = Some q2" and
        eq: "qi = InDone i (cq ci)" "qo = Some (OutSend j M2H_MSG_READCOMP q2)" "m' = m\<lparr> bm_if := b2 \<rparr>"
        using poll ip' by (auto simp: PollH2M_def Let_def bind_eq_Some_conv rd_def simp del: alloc_wait.simps split: if_splits)
      show ?thesis unfolding eq(1,2) sends_put(1)[OF f]
        by (rule poll_ok_put[OF inv ip' a, where rsp = "RData (hm_req_id ?x) d"])
          (use 1 f in \<open>simp_all add: eq(3) req_of_def Let_def d[symmetric] wr_take fill_readcomp_def split: if_splits\<close>)
    next
      case 2
      then obtain j q1 b2 where a: "OutAlloc (bm_ts m) (cq co) b1 = Some (Some j, q1, b2)" and
        eq: "qi = InDone i (cq ci)" "qo = Some (OutSend j M2H_MSG_WRITECOMP (fill_writecomp (hm_req_id ?x) j q1))"
          "m' = m\<lparr> mem_array := wr ?a ?d (mem_array m), bm_if := b2 \<rparr>"
        using poll ip' by (auto simp: PollH2M_def Let_def bind_eq_Some_conv rd_def put_def simp del: alloc_wait.simps split: if_splits)
      show ?thesis unfolding eq(1,2) sends_put(2)
        by (rule poll_ok_put[OF inv ip' a, where rsp = "RDone (hm_req_id ?x)"])
          (use 2 in \<open>simp_all add: eq(3) req_of_def Let_def\<close>)
    next
      case 3
      then have eq: "qi = InDone i (cq ci)" "qo = None" "m' = m\<lparr> bm_if := b1, mem_array := wr ?a ?d (mem_array m) \<rparr>"
        using poll ip' by (auto simp: PollH2M_def Let_def bind_eq_Some_conv rd_def put_def simp del: alloc_wait.simps split: if_splits)
      show ?thesis unfolding eq(1,2)
        by (rule poll_ok_take[OF inv(1-3) ip', where xs = "[]"]) (use none 3 in \<open>simp_all add: eq(3) req_of_def Let_def\<close>)
    next
      case 4
      then have eq: "qi = InDone i (cq ci)" "qo = None" "m' = m\<lparr> bm_if := b1 \<rparr>" using poll ip' by (auto simp: PollH2M_def)
      show ?thesis unfolding eq(1,2)
        by (rule poll_ok_take[OF inv(1-3) ip', where xs = "[]"]) (use none 4 in \<open>simp_all add: eq(3) req_of_def Let_def\<close>)
    qed
  qed
qed

text \<open>
  A memory with its two channels. The host sends requests and takes responses at any time; the
  memory polls, synchronizes, and its clock moves. A poll that has to wait for a response slot is
  the step at which it gets one.
\<close>

record mem_sys =
  ms_mem :: BasicMem
  ms_req :: "H2MMsg chan"
  ms_rsp :: "M2HMsg chan"

inductive mem_step :: "mem_sys \<Rightarrow> mem_sys \<Rightarrow> bool" where
  host_send: "chan_step (ms_req s) c \<Longrightarrow> consumer c = consumer (ms_req s) \<Longrightarrow> held c = held (ms_req s) \<Longrightarrow>
    rcvd c = rcvd (ms_req s) \<Longrightarrow> mem_step s (s\<lparr> ms_req := c \<rparr>)"
| host_take: "chan_step (ms_rsp s) c \<Longrightarrow> producer c = producer (ms_rsp s) \<Longrightarrow> pend c = pend (ms_rsp s) \<Longrightarrow>
    sent c = sent (ms_rsp s) \<Longrightarrow> mem_step s (s\<lparr> ms_rsp := c \<rparr>)"
| mem_poll: "PollH2M (cq (ms_req s)) [cq (ms_rsp s)] (ms_mem s) = Some (qi, qo, m) \<Longrightarrow>
    mem_step s \<lparr> ms_mem = m, ms_req = (ms_req s)\<lparr> cq := qi, consumer := bm_if m, rcvd := rcvd (ms_req s) @ taken (ms_mem s) (cq (ms_req s)) \<rparr>,
      ms_rsp = sent_one qo (bm_if m) (ms_rsp s) \<rparr>"
| mem_syncs: "OutSync (bm_ts (ms_mem s)) (cq (ms_rsp s)) (bm_if (ms_mem s)) = Some (r, q, b) \<Longrightarrow>
    mem_step s \<lparr> ms_mem = (ms_mem s)\<lparr> bm_if := b \<rparr>, ms_req = (ms_req s)\<lparr> consumer := b \<rparr>,
      ms_rsp = sent_one (if r = 0 \<and> sync_due (bm_ts (ms_mem s)) (bm_if (ms_mem s)) then Some q else None) b (ms_rsp s) \<rparr>"
| mem_time: "mem_step s (s\<lparr> ms_mem := (ms_mem s)\<lparr> bm_ts := t \<rparr> \<rparr>)"

definition mem_start :: "nat \<Rightarrow> nat \<Rightarrow> mem_sys \<Rightarrow> bool" where
  "mem_start N M s = (chan_init N (ms_req s) \<and> chan_init M (ms_rsp s) \<and> consumer (ms_req s) = bm_if (ms_mem s) \<and>
     producer (ms_rsp s) = bm_if (ms_mem s))"

definition responses :: "M2HMsg chan \<Rightarrow> M2HMsg BaseMsg list" where
  "responses c = filter (\<lambda>m. \<not> is_sync m) (sent c)"

definition mem_inv :: "nat \<Rightarrow> nat \<Rightarrow> bytes \<Rightarrow> mem_sys \<Rightarrow> bool" where
  "mem_inv N M mem0 s = (chan_inv N (ms_req s) \<and> held (ms_req s) = None \<and> consumer (ms_req s) = bm_if (ms_mem s) \<and>
     chan_inv M (ms_rsp s) \<and> pend (ms_rsp s) = None \<and> producer (ms_rsp s) = bm_if (ms_mem s) \<and>
     fst (serve_all (map req_of (rcvd (ms_req s))) mem0) = mem_array (ms_mem s) \<and>
     list_all2 answers (responses (ms_rsp s)) (snd (serve_all (map req_of (rcvd (ms_req s))) mem0)))"

lemma sent_one_simps [simp]: "pend (sent_one qo b c) = pend c" "producer (sent_one qo b c) = b"
  by (simp_all add: sent_one_def split: option.splits)

lemma mem_inv_start: "mem_start N M s \<Longrightarrow> mem_inv N M (mem_array (ms_mem s)) s"
  by (auto simp: mem_start_def mem_inv_def responses_def chan_inv_init) (auto simp: chan_init_def)

lemma mem_sync_inv:
  assumes "chan_inv M c" "pend c = None" "producer c = b0" "OutSync ts (cq c) b0 = Some (r, q, b)"
  shows "chan_inv M (sent_one (if r = 0 \<and> sync_due ts b0 then Some q else None) b c) \<and>
    responses (sent_one (if r = 0 \<and> sync_due ts b0 then Some q else None) b c) = responses c"
proof (cases "sync_due ts b0")
  case False
  then have "b = b0" using assms(4) by (auto simp: OutSync_def sync_due_def split: if_splits)
  with False assms(3) sent_one_none[OF assms(1), of b] show ?thesis by (simp add: responses_def)
next
  case True
  then have "\<not> (\<not> sync b0 \<or> out_timestamp b0 > 0 \<and> ts - out_timestamp b0 < sync_interval (params b0))" by (simp add: sync_due_def)
  with assms(4) obtain r1 q1 where a: "OutAlloc ts (cq c) b0 = Some (r1, q1, b)"
    and rq: "r = (case r1 of None \<Rightarrow> -1 | Some i \<Rightarrow> 0)" "q = (case r1 of None \<Rightarrow> q1 | Some i \<Rightarrow> OutSend i MSG_TYPE_SYNC q1)"
    unfolding OutSync_def by (auto simp: bind_eq_Some_conv split: option.splits if_splits)
  show ?thesis
  proof (cases r1)
    case None
    then have "b = b0" using a by (auto simp: OutAlloc_def bind_eq_Some_conv split: if_splits)
    with None rq assms(3) sent_one_none[OF assms(1), of b] show ?thesis by (simp add: responses_def)
  next
    case (Some i)
    have "OutSend i MSG_TYPE_SYNC q1 = put_msg i MSG_TYPE_SYNC (body (q1 ! i)) q1" by (simp add: put_msg_def)
    with Some True rq sent_one_put(1,2)[OF assms(1,2) a[unfolded Some], of MSG_TYPE_SYNC "body (q1 ! i)"] assms(3)
    show ?thesis by (simp add: responses_def is_sync_def)
  qed
qed

lemma mem_step_inv [inv_intros]:
  assumes "mem_inv N M mem0 s" "mem_step s s'"
  shows "mem_inv N M mem0 s'"
  using assms(2)
proof cases
  case (host_send c)
  then show ?thesis using assms(1) chan_step_inv[of N "ms_req s" c] by (simp add: mem_inv_def)
next
  case (host_take c)
  then show ?thesis using assms(1) chan_step_inv[of M "ms_rsp s" c] by (simp add: mem_inv_def responses_def)
next
  case (mem_poll qi qo m)
  have "poll_ok N M (ms_mem s) (ms_req s) (ms_rsp s) qi qo m"
    by (rule PollH2M_step) (use assms(1) mem_poll(2) in \<open>simp_all add: mem_inv_def\<close>)
  then show ?thesis using assms(1)
    by (auto simp: mem_poll(1) mem_inv_def poll_ok_def responses_def serve_all_append split: prod.splits intro!: list_all2_appendI)
next
  case (mem_syncs r q b)
  have inv: "chan_inv M (ms_rsp s)" "pend (ms_rsp s) = None" "producer (ms_rsp s) = bm_if (ms_mem s)" using assms(1) by (simp_all add: mem_inv_def)
  note sy = mem_sync_inv[OF inv mem_syncs(2)] and fr = OutSync_frame[OF mem_syncs(2)]
  have "chan_inv N ((ms_req s)\<lparr> consumer := b \<rparr>)"
    by (rule chan_inv_consumer) (use assms(1) fr in \<open>simp_all add: mem_inv_def\<close>)
  with sy assms(1) show ?thesis by (simp add: mem_syncs(1) mem_inv_def)
next
  case (mem_time t)
  with assms(1) show ?thesis by (simp add: mem_inv_def)
qed

lemma mem_run_inv: "mem_step\<^sup>*\<^sup>* s s' \<Longrightarrow> mem_inv N M mem0 s \<Longrightarrow> mem_inv N M mem0 s'"
  by (induction rule: rtranclp_induct) (auto intro: mem_step_inv)

text \<open>
  C5. The memory simulator is a memory. In every interleaving of the host's requests with the
  polls of the simulator, the contents are those of an array after the requests taken so far, in the
  order in which the host sent them and each of them once; the responses sent are the responses of
  the array to them, in order, under their identifiers and with their data; and the host receives
  these responses in order.
\<close>

theorem basicmem_serves:
  assumes "mem_start N M s0" "mem_step\<^sup>*\<^sup>* s0 s"
  shows "let reqs = map req_of (rcvd (ms_req s)); (mem, rs) = serve_all reqs (mem_array (ms_mem s0)) in
    mem_array (ms_mem s) = mem \<and> list_all2 answers (responses (ms_rsp s)) rs \<and>
    rcvd (ms_req s) = take (length reqs) (sent (ms_req s)) \<and> rcvd (ms_rsp s) = take (length (rcvd (ms_rsp s))) (sent (ms_rsp s))"
proof -
  have inv: "mem_inv N M (mem_array (ms_mem s0)) s" using mem_run_inv[OF assms(2) mem_inv_start[OF assms(1)]] .
  then have "chan_inv N (ms_req s)" "chan_inv M (ms_rsp s)" by (simp_all add: mem_inv_def)
  from chan_invD(12)[OF this(1)] chan_invD(12)[OF this(2)] inv show ?thesis
    by (auto simp: mem_inv_def Let_def split: prod.splits)
qed

definition demo_mem0 :: mem_sys where
  "demo_mem0 = \<lparr> ms_mem = \<lparr> mem_array = [1, 2, 3, 4], bm_if = demo_if, bm_ts = 1000000 \<rparr>,
     ms_req = \<lparr> cq = replicate 2 \<lparr> body = \<lparr> hm_req_id = 0, hm_as_id = 0, hm_addr = 0, hm_len = 0, hm_data = replicate 4 0 \<rparr>, timestamp = 0, own_type = 0 \<rparr>,
       producer = demo_if, consumer = demo_if, pend = None, held = None, sent = [], rcvd = [] \<rparr>,
     ms_rsp = \<lparr> cq = replicate 2 \<lparr> body = \<lparr> mh_req_id = 0, mh_data = replicate 4 0 \<rparr>, timestamp = 0, own_type = 0 \<rparr>,
       producer = demo_if, consumer = demo_if, pend = None, held = None, sent = [], rcvd = [] \<rparr> \<rparr>"

definition demo_mem1 :: mem_sys where
  "demo_mem1 = (case OutAlloc 10 (cq (ms_req demo_mem0)) (producer (ms_req demo_mem0)) of Some (r, q, b) \<Rightarrow>
     demo_mem0\<lparr> ms_req := (ms_req demo_mem0)\<lparr> cq := q, producer := b, pend := r \<rparr> \<rparr> | None \<Rightarrow> demo_mem0)"

definition demo_write :: H2MMsg where
  "demo_write = \<lparr> hm_req_id = 5, hm_as_id = 0, hm_addr = 1, hm_len = 2, hm_data = [8, 9, 0, 0] \<rparr>"

definition demo_mem2 :: mem_sys where
  "demo_mem2 = (let q = put_msg 0 H2M_WRITE demo_write (cq (ms_req demo_mem1)) in
     demo_mem1\<lparr> ms_req := (ms_req demo_mem1)\<lparr> cq := q, pend := None, sent := sent (ms_req demo_mem1) @ [q ! 0] \<rparr> \<rparr>)"

definition demo_mem3 :: mem_sys where
  "demo_mem3 = (case PollH2M (cq (ms_req demo_mem2)) [cq (ms_rsp demo_mem2)] (ms_mem demo_mem2) of Some (qi, qo, m) \<Rightarrow>
     \<lparr> ms_mem = m, ms_req = (ms_req demo_mem2)\<lparr> cq := qi, consumer := bm_if m, rcvd := rcvd (ms_req demo_mem2) @ taken (ms_mem demo_mem2) (cq (ms_req demo_mem2)) \<rparr>,
       ms_rsp = sent_one qo (bm_if m) (ms_rsp demo_mem2) \<rparr> | None \<Rightarrow> demo_mem2)"

theorem basicmem_serves_witness:
  "mem_array (ms_mem demo_mem3) = [1, 8, 9, 4] \<and> list_all2 answers (responses (ms_rsp demo_mem3)) [RDone 5] \<and>
     rcvd (ms_req demo_mem3) = take 1 (sent (ms_req demo_mem3))"
proof -
  have start: "mem_start 2 2 demo_mem0"
    by (simp add: mem_start_def chan_init_def demo_mem0_def demo_if_def pro_def SimbricksBaseIfInit_def demo_params_def DefaultParams_def)
  have "OutAlloc 10 (cq (ms_req demo_mem0)) (producer (ms_req demo_mem0)) \<noteq> None" by code_simp
  then have "chan_step (ms_req demo_mem0) (ms_req demo_mem1)"
    using chan_step.alloc[of "ms_req demo_mem0" 10] by (auto simp: demo_mem1_def) (simp add: demo_mem0_def)
  moreover have "demo_mem1 = demo_mem0\<lparr> ms_req := ms_req demo_mem1 \<rparr>" by (simp add: demo_mem1_def split: option.splits)
  ultimately have s1: "mem_step demo_mem0 demo_mem1"
    using mem_step.host_send[of demo_mem0 "ms_req demo_mem1"] by (auto simp: demo_mem1_def split: option.splits)
  have "pend (ms_req demo_mem1) = Some 0" by code_simp
  then have "chan_step (ms_req demo_mem1) (ms_req demo_mem2)"
    using chan_step.send[of "ms_req demo_mem1" 0 _ H2M_WRITE demo_write] by (simp add: demo_mem2_def Let_def put_msg_def)
  then have s2: "mem_step demo_mem1 demo_mem2"
    using mem_step.host_send[of demo_mem1 "ms_req demo_mem2"] by (simp add: demo_mem2_def Let_def)
  have "PollH2M (cq (ms_req demo_mem2)) [cq (ms_rsp demo_mem2)] (ms_mem demo_mem2) \<noteq> None" by code_simp
  then have s3: "mem_step demo_mem2 demo_mem3" using mem_step.mem_poll[of demo_mem2] by (auto simp: demo_mem3_def)
  have "mem_step\<^sup>*\<^sup>* demo_mem0 demo_mem3" using s1 s2 s3 by (meson rtranclp.rtrancl_into_rtrancl rtranclp.rtrancl_refl)
  from basicmem_serves[OF start this]
  have "let reqs = map req_of (rcvd (ms_req demo_mem3)); (mem, rs) = serve_all reqs (mem_array (ms_mem demo_mem0)) in
    mem_array (ms_mem demo_mem3) = mem \<and> list_all2 answers (responses (ms_rsp demo_mem3)) rs \<and>
    rcvd (ms_req demo_mem3) = take (length reqs) (sent (ms_req demo_mem3))" by (auto simp: Let_def split: prod.splits)
  moreover have "map req_of (rcvd (ms_req demo_mem3)) = [MWrite 5 1 [8, 9]]" by code_simp
  moreover have "mem_array (ms_mem demo_mem0) = [1, 2, 3, 4]" by (simp add: demo_mem0_def)
  ultimately show ?thesis by (simp add: Let_def wr_def)
qed

text \<open>An address beyond the memory is not tested: the poll reads outside of the array.\<close>

theorem basicmem_address_unchecked:
  "PollH2M (replicate 2 \<lparr> body = \<lparr> hm_req_id = 1, hm_as_id = 0, hm_addr = 3, hm_len = 2, hm_data = [] \<rparr>, timestamp = 0, own_type = H2M_READ OR 128 \<rparr>)
     [cq (ms_rsp demo_mem0)] (ms_mem demo_mem0) = None"
  by (simp add: PollH2M_def InPoll_def InPeek_def slot_def demo_mem0_def demo_if_def SimbricksBaseIfInit_def demo_params_def
      DefaultParams_def InType_def OutAlloc_def)

text \<open>A host that has sent one read.\<close>

definition demo_read :: "u64 \<Rightarrow> H2MMsg" where
  "demo_read a = \<lparr> hm_req_id = 5, hm_as_id = 0, hm_addr = a, hm_len = 2, hm_data = [0, 0, 0, 0] \<rparr>"

definition demo_cH :: "u64 \<Rightarrow> H2MMsg chan" where
  "demo_cH a = (let c = ms_req demo_mem0 in case OutAlloc 0 (cq c) (producer c) of Some (Some j, q1, b1) \<Rightarrow>
     (let q = put_msg j H2M_READ (demo_read a) q1 in c\<lparr> cq := q, producer := b1, sent := sent c @ [q ! j] \<rparr>) | _ \<Rightarrow> c)"

lemma demo_chans: "chan_inv 2 (ms_req demo_mem0)" "chan_inv 2 (ms_rsp demo_mem0)" "chan_inv 2 (demo_cH a)"
proof -
  have "chan_init 2 (ms_req demo_mem0)" "chan_init 2 (ms_rsp demo_mem0)"
    by (simp_all add: chan_init_def demo_mem0_def demo_if_def pro_def SimbricksBaseIfInit_def demo_params_def DefaultParams_def)
  then show c: "chan_inv 2 (ms_req demo_mem0)" "chan_inv 2 (ms_rsp demo_mem0)" by (simp_all add: chan_inv_init)
  have p: "pend (ms_req demo_mem0) = None" by (simp add: demo_mem0_def)
  from chan_put(1)[OF c(1) p _ refl] c(1) show "chan_inv 2 (demo_cH a)" by (auto simp: demo_cH_def Let_def split: option.splits)
qed

end
