(* ===== verification/Interconnect_Safety.thy ===== *)
theory Interconnect_Safety
  imports Interconnect Mem_Safety "HOL-Library.Multiset"
begin

text \<open>
  Correctness of the interconnect. Every request is completed once, at the host that issued it and
  under its identifier, and a request that goes through the interconnect to a memory and back has
  the effect of an access to the translated address.
\<close>

section \<open>Routing by the interconnect\<close>

lemma OutAlloc_slot: "OutAlloc ts q b = Some (Some i, q1, b1) \<Longrightarrow> i = unat (out_pos b) \<and> i < length q1"
  by (auto simp: OutAlloc_def slot_def bind_eq_Some_conv split: if_splits)

lemma mset_delete:
  assumes "distinct (map fst xs)" "map_of xs p = Some v"
  shows "mset xs = add_mset (p, v) (mset (AList.delete p xs))"
  using assms
proof (induction xs)
  case (Cons x xs)
  show ?case
  proof (cases "fst x = p")
    case True
    with Cons.prems have "x = (p, v)" "AList.delete p (x # xs) = xs" by (cases x; force intro: delete_id)+
    then show ?thesis by simp
  next
    case False
    with Cons show ?thesis by (cases x) simp
  qed
qed simp

definition in_flight :: "Interconn \<Rightarrow> (nat \<times> u64) multiset" where
  "in_flight s = mset (map (\<lambda>(p, pd). (pd_host pd, pd_req_id pd)) (pendings s))"

definition heap_ok :: "Interconn \<Rightarrow> bool" where
  "heap_ok s = distinct (map fst (pendings s))"

lemma set_if_simps [simp]: "pendings (set_if k b s) = pendings s" "map_table (set_if k b s) = map_table s" "ic_ts (set_if k b s) = ic_ts s"
  "length (ic_ports (set_if k b s)) = length (ic_ports s)"
  "k < length (ic_ports s) \<Longrightarrow> ic_if (ic_ports (set_if k b s) ! j) = (if j = k then b else ic_if (ic_ports s ! j))"
  by (simp_all add: set_if_def nth_list_update)

lemma delete_flight:
  assumes "heap_ok s" "map_of (pendings s) p = Some pd"
  shows "in_flight s = add_mset (pd_host pd, pd_req_id pd) (mset (map (\<lambda>(p, pd). (pd_host pd, pd_req_id pd)) (AList.delete p (pendings s))))"
    "distinct (map fst (AList.delete p (pendings s)))"
  using assms mset_delete[of "pendings s" p pd] by (simp_all add: heap_ok_def in_flight_def distinct_delete)

text \<open>What one poll of a port does to the requests in flight.\<close>

definition asks :: "nat \<Rightarrow> h2m_queue \<Rightarrow> Interconn \<Rightarrow> (nat \<times> u64) list" where
  "asks h qi s = (case InPoll (ic_ts s) qi (ic_if (ic_ports s ! h)) of
       Some (Some i, _) \<Rightarrow> if InType (qi ! i) = H2M_READ \<or> InType (qi ! i) = H2M_WRITE then [(h, hm_req_id (body (qi ! i)))] else []
     | _ \<Rightarrow> [])"

definition finishes :: "(nat \<times> m2h_queue) option \<Rightarrow> Interconn \<Rightarrow> (nat \<times> u64) list" where
  "finishes out s = (case out of None \<Rightarrow> []
     | Some (h, q) \<Rightarrow> [(h, mh_req_id (body (q ! unat (out_pos (ic_if (ic_ports s ! h))))))])"

lemma Device_Read_flight:
  assumes "Device_Read k p q s = Some (q', s')"
  shows "pendings s' = pendings s" "length (ic_ports s') = length (ic_ports s)"
  using assms by (auto simp: Device_Read_def bind_eq_Some_conv)

lemma Device_Write_flight:
  assumes "Device_Write k p d posted q s = Some (q', s')"
  shows "pendings s' = (if posted then AList.delete p (pendings s) else pendings s)" "length (ic_ports s') = length (ic_ports s)"
  using assms by (auto simp: Device_Write_def bind_eq_Some_conv Let_def)

lemma Host_Poll_flight:
  assumes "Host_Poll p h qi qs s = Some (qi', out, s')" "heap_ok s" "p \<notin> fst ` set (pendings s)"
  shows "heap_ok s'" "in_flight s' = in_flight s + mset (asks h qi s)" "length (ic_ports s') = length (ic_ports s)"
proof -
  obtain r b1 where ip: "InPoll (ic_ts s) qi (ic_if (ic_ports s ! h)) = Some (r, b1)"
    using assms(1) by (auto simp: Host_Poll_def bind_eq_Some_conv)
  have "heap_ok s' \<and> in_flight s' = in_flight s + mset (asks h qi s) \<and> length (ic_ports s') = length (ic_ports s)"
  proof (cases r)
    case None
    then show ?thesis using assms(1,2) ip by (auto simp: Host_Poll_def asks_def heap_ok_def in_flight_def)
  next
    case (Some i)
    let ?t = "InType (qi ! i)" and ?s1 = "set_if h b1 s"
    show ?thesis
    proof (cases "?t = H2M_READ \<or> ?t = H2M_WRITE \<or> ?t = H2M_WRITE_POSTED")
      case False
      then show ?thesis using assms(1,2) ip Some by (auto simp: Host_Poll_def asks_def heap_ok_def in_flight_def Let_def split: if_splits)
    next
      case True
      let ?s2 = "\<lambda>a. ?s1\<lparr> pendings := (p, \<lparr> pd_host = h, pd_write = False, pd_req_id = hm_req_id (body (qi ! i)), pd_addr = a,
        pd_len = ucast (hm_len (body (qi ! i))) \<rparr>) # pendings ?s1 \<rparr>"
      from True obtain a k q s2 where s2: "s2 = ?s2 a"
        and st: "(if ?t = H2M_READ then Device_Read k p (qs k) s2 else Device_Write k p (hm_data (body (qi ! i))) (?t = H2M_WRITE_POSTED) (qs k) s2) = Some (q, s')"
        using assms(1) ip Some by (auto simp: Host_Poll_def Let_def bind_eq_Some_conv split: if_splits)
      have pe: "pendings s' = (if ?t = H2M_WRITE_POSTED then AList.delete p (pendings s2) else pendings s2)" "length (ic_ports s') = length (ic_ports s2)"
        using st Device_Read_flight[of k p "qs k" s2 q s'] Device_Write_flight[of k p "hm_data (body (qi ! i))" "?t = H2M_WRITE_POSTED" "qs k" s2 q s']
        by (auto split: if_splits)
      have "AList.delete p (pendings s2) = pendings s" using assms(3) by (simp add: s2 delete_id)
      with pe True ip Some assms(2,3) show ?thesis
        by (auto simp: asks_def s2 heap_ok_def in_flight_def)
    qed
  qed
  then show "heap_ok s'" "in_flight s' = in_flight s + mset (asks h qi s)" "length (ic_ports s') = length (ic_ports s)" by blast+
qed

lemma Complete_flight:
  assumes "CompletePendingR h p d q s = Some (q', s') \<or> CompletePendingW h p q s = Some (q', s')"
  obtains pd where "map_of (pendings s) p = Some pd" "pendings s' = AList.delete p (pendings s)" "length (ic_ports s') = length (ic_ports s)"
    "mh_req_id (body (q' ! unat (out_pos (ic_if (ic_ports s ! h))))) = pd_req_id pd"
proof -
  have "\<exists>pd. map_of (pendings s) p = Some pd \<and> pendings s' = AList.delete p (pendings s) \<and> length (ic_ports s') = length (ic_ports s) \<and>
    mh_req_id (body (q' ! unat (out_pos (ic_if (ic_ports s ! h))))) = pd_req_id pd"
    using assms
  proof
    assume "CompletePendingR h p d q s = Some (q', s')"
    then show ?thesis by (auto simp: CompletePendingR_def bind_eq_Some_conv Let_def OutSend_def dest!: OutAlloc_slot)
  next
    assume "CompletePendingW h p q s = Some (q', s')"
    then show ?thesis by (auto simp: CompletePendingW_def fill_writecomp_def bind_eq_Some_conv Let_def OutSend_def dest!: OutAlloc_slot)
  qed
  then show thesis using that by blast
qed

lemma Device_Poll_flight:
  assumes "Device_Poll k qi qs s = Some (qi', out, s')" "heap_ok s" "k < length (ic_ports s)"
  shows "heap_ok s'" "in_flight s = in_flight s' + mset (finishes out s)" "length (ic_ports s') = length (ic_ports s)"
proof -
  obtain r b1 where ip: "InPoll (ic_ts s) qi (ic_if (ic_ports s ! k)) = Some (r, b1)"
    using assms(1) by (auto simp: Device_Poll_def bind_eq_Some_conv)
  let ?s1 = "set_if k b1 s"
  have op: "out_pos (ic_if (ic_ports ?s1 ! h)) = out_pos (ic_if (ic_ports s ! h))" for h
    using InPoll_frame(1)[OF ip] assms(3) by simp
  have "heap_ok s' \<and> in_flight s = in_flight s' + mset (finishes out s) \<and> length (ic_ports s') = length (ic_ports s)"
  proof (cases "out")
    case None
    then have "s' = ?s1" using assms(1) ip by (auto simp: Device_Poll_def Let_def bind_eq_Some_conv split: option.splits if_splits)
    with None assms(2) show ?thesis by (simp add: heap_ok_def in_flight_def finishes_def)
  next
    case (Some hq)
    then obtain i pd where pd: "map_of (pendings s) (mh_req_id (body (qi ! i))) = Some pd" "fst hq = pd_host pd"
      and st: "CompletePendingR (pd_host pd) (mh_req_id (body (qi ! i))) (mh_data (body (qi ! i))) (qs (pd_host pd)) ?s1 = Some (snd hq, s') \<or>
        CompletePendingW (pd_host pd) (mh_req_id (body (qi ! i))) (qs (pd_host pd)) ?s1 = Some (snd hq, s')"
      using assms(1) ip by (auto simp: Device_Poll_def Let_def bind_eq_Some_conv split: option.splits if_splits)
    from st show ?thesis
    proof (rule Complete_flight)
      fix pd' assume "map_of (pendings ?s1) (mh_req_id (body (qi ! i))) = Some pd'"
        and c: "pendings s' = AList.delete (mh_req_id (body (qi ! i))) (pendings ?s1)" "length (ic_ports s') = length (ic_ports ?s1)"
          "mh_req_id (body (snd hq ! unat (out_pos (ic_if (ic_ports ?s1 ! pd_host pd))))) = pd_req_id pd'"
      then have "pd' = pd" using pd(1) by simp
      with c op have "mh_req_id (body (snd hq ! unat (out_pos (ic_if (ic_ports s ! pd_host pd))))) = pd_req_id pd" by simp
      with c(1,2) pd Some delete_flight[OF assms(2) pd(1)] show ?thesis
        by (cases hq) (simp add: heap_ok_def finishes_def in_flight_def)
    qed
  qed
  then show "heap_ok s'" "in_flight s = in_flight s' + mset (finishes out s)" "length (ic_ports s') = length (ic_ports s)" by blast+
qed

text \<open>
  A run of the interconnect with the requests it has accepted from its hosts and the completions it
  has sent them. The allocator returns the address of no live object.
\<close>

record ic_run =
  ic_state :: Interconn
  accepted :: "(nat \<times> u64) list"
  completed :: "(nat \<times> u64) list"

inductive ic_step :: "ic_run \<Rightarrow> ic_run \<Rightarrow> bool" where
  host: "Host_Poll p h qi qs (ic_state r) = Some (qi', out, s') \<Longrightarrow> p \<notin> fst ` set (pendings (ic_state r)) \<Longrightarrow>
    ic_step r (r\<lparr> ic_state := s', accepted := accepted r @ asks h qi (ic_state r) \<rparr>)"
| device: "Device_Poll k qi qs (ic_state r) = Some (qi', out, s') \<Longrightarrow> k < length (ic_ports (ic_state r)) \<Longrightarrow>
    ic_step r (r\<lparr> ic_state := s', completed := completed r @ finishes out (ic_state r) \<rparr>)"
| syncs: "sync_ports vs k (ic_state r) = Some s' \<Longrightarrow> ic_step r (r\<lparr> ic_state := s' \<rparr>)"
| time: "ic_step r (r\<lparr> ic_state := (ic_state r)\<lparr> ic_ts := t \<rparr> \<rparr>)"

definition ic_inv :: "ic_run \<Rightarrow> bool" where
  "ic_inv r = (heap_ok (ic_state r) \<and> mset (accepted r) = mset (completed r) + in_flight (ic_state r))"

lemma sync_ports_flight: "sync_ports vs k s = Some s' \<Longrightarrow> pendings s' = pendings s"
  by (induction vs k s arbitrary: s' rule: sync_ports.induct) (auto simp: bind_eq_Some_conv)

lemma ic_step_inv [inv_intros]:
  assumes "ic_inv r" "ic_step r r'"
  shows "ic_inv r'"
  using assms(2)
proof cases
  case (host p h qi qs qi' out s')
  from Host_Poll_flight[OF host(2) _ host(3)] assms(1) show ?thesis by (simp add: host(1) ic_inv_def)
next
  case (device k qi qs qi' out s')
  from Device_Poll_flight[OF device(2) _ device(3)] assms(1) show ?thesis by (simp add: device(1) ic_inv_def)
next
  case (syncs vs k s')
  from sync_ports_flight[OF syncs(2)] assms(1) show ?thesis by (simp add: syncs(1) ic_inv_def heap_ok_def in_flight_def)
next
  case (time t)
  with assms(1) show ?thesis by (simp add: ic_inv_def heap_ok_def in_flight_def)
qed

lemma ic_run_inv: "ic_step\<^sup>*\<^sup>* r r' \<Longrightarrow> ic_inv r \<Longrightarrow> ic_inv r'"
  by (induction rule: rtranclp_induct) (auto intro: ic_step_inv)

text \<open>
  C17. The interconnect loses, duplicates and misroutes nothing. In every run that starts without
  requests in flight, the reads and writes accepted from the hosts are those completed together with
  those in flight, counted with host and identifier: a completion reaches the host that asked, under
  the identifier it used, at most once per request, and what is not completed is in flight.
\<close>

theorem interconnect_routing:
  assumes "pendings (ic_state r0) = []" "accepted r0 = []" "completed r0 = []" "ic_step\<^sup>*\<^sup>* r0 r"
  shows "mset (accepted r) = mset (completed r) + in_flight (ic_state r) \<and> heap_ok (ic_state r)"
proof -
  have "ic_inv r0" using assms(1-3) by (simp add: ic_inv_def heap_ok_def in_flight_def)
  from ic_run_inv[OF assms(4) this] show ?thesis by (simp add: ic_inv_def)
qed

section \<open>A memory behind the interconnect\<close>

lemma unat_ucast_16_64: "unat (ucast (w :: u16) :: u64) = unat w"
  by (simp add: unsigned_ucast_eq take_bit_nat_eq_self order_less_trans[OF unat_width(2)])

text \<open>A due request with a free response slot is always served.\<close>

lemma PollH2M_total:
  assumes ci: "chan_inv N ci" "held ci = None" "consumer ci = bm_if m" "length (rcvd ci) < length (sent ci)"
    "sync (bm_if m) \<longrightarrow> timestamp (sent ci ! length (rcvd ci)) \<le> bm_ts m"
    and co: "chan_inv M co" "pend co = None" "producer co = bm_if m" "length (sent co) < n_done co + M"
    and x: "X = sent ci ! length (rcvd ci)" "InType X = H2M_READ \<or> InType X = H2M_WRITE"
    and fits: "unat (hm_addr (body X)) + unat (hm_len (body X)) \<le> length (mem_array m)"
      "InType X = H2M_WRITE \<Longrightarrow> unat (hm_len (body X)) \<le> length (hm_data (body X))"
      "unat (hm_len (body X)) \<le> length (mh_data (body (cq co ! (length (sent co) mod M))))"
  shows "(\<exists>qi qo m'. PollH2M (cq ci) [cq co] m = Some (qi, Some qo, m')) \<and> taken m (cq ci) = [X]"
proof -
  obtain i b1 where ip: "InPoll (bm_ts m) (cq ci) (bm_if m) = Some (Some i, b1)" "cq ci ! i = X"
    using chan_take_due[OF ci(1,2,4), of "bm_ts m"] ci(3,5) x(1) by metis
  let ?co = "co\<lparr> producer := b1 \<rparr>"
  have inv: "chan_inv M ?co" by (rule chan_inv_producer[OF co(1)]) (use InPoll_frame[OF ip(1)] co(3) in simp_all)
  obtain q1 b2 where a: "OutAlloc (bm_ts m) (cq co) b1 = Some (Some (length (sent co) mod M), q1, b2)"
    and b: "body (q1 ! (length (sent co) mod M)) = body (cq co ! (length (sent co) mod M))"
    using chan_room[OF inv, of "bm_ts m"] co(2,4) by (auto simp: n_done_def)
  have w: "alloc_wait (bm_ts m) [cq co] b1 = Some (length (sent co) mod M, q1, b2)" using a by (simp only: alloc_wait_one)
  have "\<exists>qi qo m'. PollH2M (cq ci) [cq co] m = Some (qi, Some qo, m')"
    using x(2) ip w fits b
    by (auto simp: PollH2M_def Let_def fill_readcomp_def put_def simp del: alloc_wait.simps alloc_wait_one)
  with ip show ?thesis by (simp add: taken_def)
qed

text \<open>The request as the device sees it: the identifier of the pending object and the translated address.\<close>

fun retarget :: "u64 \<Rightarrow> nat \<Rightarrow> mem_req \<Rightarrow> mem_req" where
  "retarget p a (MRead _ _ n) = MRead p a n"
| "retarget p a (MWrite _ _ d) = MWrite p a d"
| "retarget p a (MPosted _ d) = MPosted a d"
| "retarget p a MOther = MOther"

lemma Host_Poll_sends:
  assumes cH: "chan_inv N cH" "held cH = None" "consumer cH = ic_if (ic_ports s ! h)" "length (rcvd cH) < length (sent cH)"
    "sync (consumer cH) \<longrightarrow> timestamp (sent cH ! length (rcvd cH)) \<le> ic_ts s"
    and cD: "chan_inv M cD" "pend cD = None" "producer cD = ic_if (ic_ports s ! k)" "length (sent cD) < n_done cD + M"
    and s: "h < length (ic_ports s)" "h \<noteq> k" "k < length (ic_ports s)"
      "Lookup (map_table s) (hm_addr (body X)) (ucast (hm_len (body X))) = Some (a, Some k)"
    and x: "X = sent cH ! length (rcvd cH)" "InType X = H2M_READ \<or> InType X = H2M_WRITE"
    and fits: "unat (hm_len (body X)) \<le> length (hm_data (body X))"
      "unat (hm_len (body X)) \<le> length (hm_data (body (cq cD ! (length (sent cD) mod M))))"
  obtains qi b1 j q1 b2 y s' where
    "Host_Poll p h (cq cH) (\<lambda>_. cq cD) s = Some (qi, Some (k, put_msg j (InType X) y q1), s')"
    "OutAlloc (ic_ts s) (cq cD) (producer cD) = Some (Some j, q1, b2)"
    "hm_addr y = a" "hm_len y = hm_len (body X)" "unat (hm_len y) \<le> length (hm_data y)"
    "\<And>ts. req_of \<lparr> body = y, timestamp = ts, own_type = InType X OR MSG_OWN_CON \<rparr> = retarget p (unat a) (req_of X)"
    "map_of (pendings s') p = Some \<lparr> pd_host = h, pd_write = False, pd_req_id = hm_req_id (body X), pd_addr = a, pd_len = ucast (hm_len (body X)) \<rparr>"
    "AList.delete p (pendings s') = AList.delete p (pendings s)" "length (ic_ports s') = length (ic_ports s)"
    "ic_if (ic_ports s' ! k) = b2" "ic_if (ic_ports s' ! h) = b1" "out_pos b1 = out_pos (ic_if (ic_ports s ! h))"
    "out_enum b1 = out_enum (ic_if (ic_ports s ! h))"
proof -
  let ?p = "\<lparr> pd_host = h, pd_write = False, pd_req_id = hm_req_id (body X), pd_addr = a, pd_len = ucast (hm_len (body X)) \<rparr>"
  obtain i b1 where ip: "InPoll (ic_ts s) (cq cH) (ic_if (ic_ports s ! h)) = Some (Some i, b1)" "cq cH ! i = X"
    using chan_take_due[OF cH(1,2,4,5)] cH(3) x(1) by metis
  let ?j = "length (sent cD) mod M" and ?x = "body X"
  obtain q1 b2 where al: "OutAlloc (ic_ts s) (cq cD) (producer cD) = Some (Some ?j, q1, b2)" and b: "body (q1 ! ?j) = body (cq cD ! ?j)"
    using chan_room[OF cD(1,2,4), of "ic_ts s"] by metis
  let ?s2 = "(set_if h b1 s)\<lparr> pendings := (p, ?p) # pendings s \<rparr>"
  let ?y = "if InType X = H2M_READ then (body (q1 ! ?j))\<lparr> hm_addr := a, hm_len := hm_len ?x, hm_as_id := 0, hm_req_id := p \<rparr>
    else \<lparr> hm_req_id = p, hm_as_id = 0, hm_addr = a, hm_len = hm_len ?x,
      hm_data = take (unat (hm_len ?x)) (hm_data ?x) @ drop (unat (hm_len ?x)) (hm_data (body (q1 ! ?j))) \<rparr>"
  have u: "unat (ucast (hm_len ?x) :: u64) = unat (hm_len ?x)" "ucast (ucast (hm_len ?x) :: u64) = hm_len ?x"
    by (simp_all add: unsigned_ucast_eq take_bit_word_eq_self take_bit_nat_eq_self order_less_trans[OF unat_width(2)])
  have al': "OutAlloc (ic_ts ?s2) (cq cD) (ic_if (ic_ports ?s2 ! k)) = Some (Some ?j, q1, b2)" using al cD(3) s(1,2) by simp
  have hp: "Host_Poll p h (cq cH) (\<lambda>_. cq cD) s = Some (InDone i (cq cH), Some (k, put_msg ?j (InType X) ?y q1), set_if k b2 ?s2)"
    using x(2) ip s(4) al' fits b u by (auto simp: Host_Poll_def Device_Read_def Device_Write_def Let_def put_msg_def)
  have rq: "req_of \<lparr> body = ?y, timestamp = ts, own_type = InType X OR MSG_OWN_CON \<rparr> = retarget p (unat a) (req_of X)" for ts
    using x(2) fits by (auto simp: req_of_def Let_def)
  show thesis
  proof (rule that[OF hp al _ _ _ rq])
    show "ic_if (ic_ports (set_if k b2 ?s2) ! h) = b1" using s(1-3) by simp
    show "out_pos b1 = out_pos (ic_if (ic_ports s ! h))" "out_enum b1 = out_enum (ic_if (ic_ports s ! h))"
      by (rule InPoll_frame[OF ip(1)])+
  qed (use s b fits in auto)
qed

lemma Device_Poll_completes:
  assumes cR: "chan_inv N cR" "held cR = None" "consumer cR = ic_if (ic_ports s ! k)" "length (rcvd cR) < length (sent cR)"
    "sync (consumer cR) \<longrightarrow> timestamp (sent cR ! length (rcvd cR)) \<le> ic_ts s"
    and cH: "chan_inv M cH" "pend cH = None" "producer cH = ic_if (ic_ports s ! h)" "length (sent cH) < n_done cH + M"
    and s: "k < length (ic_ports s)" "h \<noteq> k" "map_of (pendings s) p = Some pd" "pd_host pd = h"
    and x: "X = sent cR ! length (rcvd cR)" "answers X rsp" "rsp = RData p d \<or> rsp = RDone p" "rsp = RData p d \<Longrightarrow> unat (pd_len pd) = length d"
    and fits: "unat (pd_len pd) \<le> length (mh_data (body (cq cH ! (length (sent cH) mod M))))"
  shows "\<exists>qi q s'. Device_Poll k (cq cR) (\<lambda>_. cq cH) s = Some (qi, Some (h, q), s') \<and>
    answers (q ! (length (sent cH) mod M)) (case rsp of RData _ e \<Rightarrow> RData (pd_req_id pd) e | RDone _ \<Rightarrow> RDone (pd_req_id pd)) \<and>
    pendings s' = AList.delete p (pendings s)"
proof -
  obtain i b1 where ip: "InPoll (ic_ts s) (cq cR) (ic_if (ic_ports s ! k)) = Some (Some i, b1)" "cq cR ! i = X"
    using chan_take_due[OF cR(1,2,4,5)] cR(3) x(1) by metis
  let ?j = "length (sent cH) mod M"
  obtain q1 b2 where al: "OutAlloc (ic_ts s) (cq cH) (producer cH) = Some (Some ?j, q1, b2)" and b: "body (q1 ! ?j) = body (cq cH ! ?j)"
    using chan_room[OF cH(1,2,4), of "ic_ts s"] by metis
  have al': "OutAlloc (ic_ts s) (cq cH) (ic_if (ic_ports (set_if k b1 s) ! h)) = Some (Some ?j, q1, b2)" using al cH(3) s(1,2) by simp
  have j: "?j < length q1" using OutAlloc_slot[OF al] by simp
  show ?thesis
  proof (cases "rsp = RData p d")
    case True
    with x(2,4) have "InType X = M2H_MSG_READCOMP" "mh_req_id (body X) = p" "unat (pd_len pd) \<le> length (mh_data (body X))"
      "take (length d) (mh_data (body X)) = d" "unat (pd_len pd) = length d" by auto
    with True ip al' s fits b j show ?thesis
      by (auto simp: Device_Poll_def CompletePendingR_def Let_def OutSend_def InType_def)
  next
    case False
    with x(2,3) have "InType X = M2H_MSG_WRITECOMP" "mh_req_id (body X) = p" "rsp = RDone p" by auto
    with ip al' s b j show ?thesis
      by (auto simp: Device_Poll_def CompletePendingW_def fill_writecomp_def Let_def OutSend_def InType_def)
  qed
qed

text \<open>
  One access through the interconnect: it polls the host, the memory polls its request queue, and
  the interconnect polls the device, at the given times and on the shared queues.
\<close>

definition memory_access :: "u64 \<Rightarrow> nat \<Rightarrow> u64 \<Rightarrow> u64 \<Rightarrow> Interconn \<Rightarrow> BasicMem \<Rightarrow> h2m_queue \<Rightarrow> h2m_queue \<Rightarrow> m2h_queue \<Rightarrow> m2h_queue \<Rightarrow>
    (nat \<times> m2h_queue \<times> BasicMem \<times> Interconn) option" where
  "memory_access p h t1 t2 s m qH qD rD rH = do {
     (_, o1, s1) \<leftarrow> Host_Poll p h qH (\<lambda>_. qD) s;
     (k, q1) \<leftarrow> o1;
     (_, o2, m1) \<leftarrow> PollH2M q1 [rD] (m\<lparr> bm_ts := t1 \<rparr>);
     q2 \<leftarrow> o2;
     (_, o3, s2) \<leftarrow> Device_Poll k q2 (\<lambda>_. rH) (s1\<lparr> ic_ts := t2 \<rparr>);
     (h', q3) \<leftarrow> o3;
     Some (h', q3, m1, s2) }"

text \<open>
  A host, the interconnect and a memory connected by four channels: requests and responses on either
  side. The host has a request waiting; the other channels are empty.
\<close>

definition wired :: "nat \<Rightarrow> nat \<Rightarrow> nat \<Rightarrow> Interconn \<Rightarrow> BasicMem \<Rightarrow> H2MMsg chan \<Rightarrow> H2MMsg chan \<Rightarrow> M2HMsg chan \<Rightarrow> M2HMsg chan \<Rightarrow> bool" where
  "wired N h k s m cH cD rD rH =
     (h < length (ic_ports s) \<and> k < length (ic_ports s) \<and> h \<noteq> k \<and> chan_inv N cH \<and> chan_inv N cD \<and> chan_inv N rD \<and> chan_inv N rH \<and>
      held cH = None \<and> held cD = None \<and> held rD = None \<and> held rH = None \<and> pend cD = None \<and> pend rD = None \<and> pend rH = None \<and>
      consumer cH = ic_if (ic_ports s ! h) \<and> producer cD = ic_if (ic_ports s ! k) \<and> consumer cD = bm_if m \<and>
      producer rD = bm_if m \<and> consumer rD = ic_if (ic_ports s ! k) \<and> producer rH = ic_if (ic_ports s ! h) \<and>
      length (rcvd cH) < length (sent cH) \<and> length (rcvd cD) = length (sent cD) \<and> length (rcvd rD) = length (sent rD) \<and>
      length (rcvd rH) = length (sent rH))"

text \<open>The request waiting, and that it and its response fit the slots on their way.\<close>

definition waiting :: "H2MMsg chan \<Rightarrow> H2MMsg BaseMsg" where
  "waiting c = sent c ! length (rcvd c)"

definition fits_slots :: "nat \<Rightarrow> nat \<Rightarrow> H2MMsg chan \<Rightarrow> H2MMsg chan \<Rightarrow> M2HMsg chan \<Rightarrow> M2HMsg chan \<Rightarrow> bool" where
  "fits_slots N n cH cD rD rH = (n \<le> length (hm_data (body (waiting cH))) \<and> n \<le> length (hm_data (body (cq cD ! (length (sent cD) mod N)))) \<and>
     n \<le> length (mh_data (body (cq rD ! (length (sent rD) mod N)))) \<and> n \<le> length (mh_data (body (cq rH ! (length (sent rH) mod N)))))"

text \<open>The middle of the way: the memory serves what the interconnect has sent.\<close>

lemma device_serves:
  assumes cD: "chan_inv N cD" "held cD = None" "pend cD = None" "length (rcvd cD) = length (sent cD)" "consumer cD = bm_if m"
    and rD: "chan_inv N rD" "held rD = None" "pend rD = None" "length (rcvd rD) = length (sent rD)" "producer rD = bm_if m"
    and al: "OutAlloc ts (cq cD) (producer cD) = Some (Some j, q1, b2)" and ty: "ty = H2M_READ \<or> ty = H2M_WRITE"
    and due: "sync (bm_if m) \<longrightarrow> ts + link_latency (params (producer cD)) \<le> bm_ts m"
    and fits: "unat (hm_addr y) + unat (hm_len y) \<le> length (mem_array m)" "unat (hm_len y) \<le> length (hm_data y)"
      "unat (hm_len y) \<le> length (mh_data (body (cq rD ! (length (sent rD) mod N))))"
    and Y: "Y = \<lparr> body = y, timestamp = ts + link_latency (params (producer cD)), own_type = ty OR MSG_OWN_CON \<rparr>"
  obtains qi qo m' Z rsp where "PollH2M (put_msg j ty y q1) [cq rD] m = Some (qi, Some qo, m')" "serve (req_of Y) (mem_array m) = (mem_array m', [rsp])"
    "answers Z rsp" "timestamp Z = bm_ts m + link_latency (params (bm_if m))"
    "chan_inv N (sent_one (Some qo) (bm_if m') rD)" "sent (sent_one (Some qo) (bm_if m') rD) = sent rD @ [Z]"
proof -
  let ?c = "cD\<lparr> cq := put_msg j ty y q1, producer := b2, sent := sent cD @ [Y] \<rparr>"
  have c: "chan_inv N ?c" using chan_put(1,2)[OF cD(1,3) al refl, of ty y] by (simp add: Y)
  have t: "InType Y = ty" using ty msg_types(4,5) by (auto simp: Y)
  have X: "sent ?c ! length (rcvd ?c) = Y" using cD(4) by simp
  have "(\<exists>qi qo m'. PollH2M (cq ?c) [cq rD] m = Some (qi, Some qo, m')) \<and> taken m (cq ?c) = [Y]"
    by (rule PollH2M_total[OF c _ _ _ _ rD(1,3,5) quiet_room[OF rD(1,2,4)] X[symmetric]]) (use cD due t ty fits in \<open>auto simp: X Y\<close>)
  then obtain qi qo m' where p: "PollH2M (cq ?c) [cq rD] m = Some (qi, Some qo, m')" and tk: "taken m (cq ?c) = [Y]" by blast
  have ok: "poll_ok N N m ?c rD qi (Some qo) m'" by (rule PollH2M_step[OF c _ _ rD(1,3,5) p]) (use cD in simp_all)
  obtain rsp where rsp: "serve (req_of Y) (mem_array m) = (mem_array m', [rsp])"
    using ok tk t ty by (auto simp: poll_ok_def req_of_def Let_def)
  with ok tk obtain xs where "sent (sent_one (Some qo) (bm_if m') rD) = sent rD @ xs" "list_all2 answers xs [rsp]"
    "\<forall>x\<in>set xs. timestamp x = bm_ts m + link_latency (params (bm_if m))" "chan_inv N (sent_one (Some qo) (bm_if m') rD)"
    by (auto simp: poll_ok_def)
  with that[OF _ rsp] p show thesis by (auto simp: list_all2_Cons2)
qed

lemma serve_retarget:
  assumes "serve (retarget p a r) mem = (mem', [rsp])"
  shows "serve (retarget i a r) mem = (mem', [case rsp of RData _ e \<Rightarrow> RData i e | RDone _ \<Rightarrow> RDone i])"
    "\<exists>d. rsp = RData p d \<or> rsp = RDone p"
  using assms by (cases r; auto)+

text \<open>The way of a request to the memory, and what the memory sends back.\<close>

lemma request_reaches_memory:
  assumes w: "wired N h k s m cH cD rD rH" and due: "sync (consumer cH) \<longrightarrow> timestamp (waiting cH) \<le> ic_ts s"
    and ty: "InType (waiting cH) = H2M_READ \<or> InType (waiting cH) = H2M_WRITE"
    and x: "x = body (waiting cH)" "Lookup (map_table s) (hm_addr x) (ucast (hm_len x)) = Some (a, Some k)"
    and fits: "fits_slots N (unat (hm_len x)) cH cD rD rH" "unat a + unat (hm_len x) \<le> length (mem_array m)"
    and times: "sync (bm_if m) \<longrightarrow> ic_ts s + link_latency (params (ic_if (ic_ports s ! k))) \<le> t1"
  obtains qi q1 s1 qd qo m' Z rsp b1 b2 where "Host_Poll p h (cq cH) (\<lambda>_. cq cD) s = Some (qi, Some (k, q1), s1)"
    "PollH2M q1 [cq rD] (m\<lparr> bm_ts := t1 \<rparr>) = Some (qd, Some qo, m')"
    "serve (retarget p (unat a) (req_of (waiting cH))) (mem_array m) = (mem_array m', [rsp])" "answers Z rsp"
    "timestamp Z = t1 + link_latency (params (bm_if m))"
    "chan_inv N (sent_one (Some qo) (bm_if m') rD)" "sent (sent_one (Some qo) (bm_if m') rD) = sent rD @ [Z]"
    "map_of (pendings s1) p = Some \<lparr> pd_host = h, pd_write = False, pd_req_id = hm_req_id x, pd_addr = a, pd_len = ucast (hm_len x) \<rparr>"
    "AList.delete p (pendings s1) = AList.delete p (pendings s)" "length (ic_ports s1) = length (ic_ports s)"
    "ic_if (ic_ports s1 ! h) = b1" "out_pos b1 = out_pos (ic_if (ic_ports s ! h))" "out_enum b1 = out_enum (ic_if (ic_ports s ! h))"
    "ic_if (ic_ports s1 ! k) = b2" "in_pos b2 = in_pos (ic_if (ic_ports s ! k))" "in_enum b2 = in_enum (ic_if (ic_ports s ! k))"
    "sync b2 = sync (ic_if (ic_ports s ! k))"
proof -
  let ?X = "waiting cH" and ?m = "m\<lparr> bm_ts := t1 \<rparr>"
  have W: "h < length (ic_ports s)" "k < length (ic_ports s)" "h \<noteq> k" and cH: "chan_inv N cH" "held cH = None" "consumer cH = ic_if (ic_ports s ! h)"
      "length (rcvd cH) < length (sent cH)" and cD: "chan_inv N cD" "held cD = None" "pend cD = None" "length (rcvd cD) = length (sent cD)"
      "consumer cD = bm_if m" "producer cD = ic_if (ic_ports s ! k)"
    and rD: "chan_inv N rD" "held rD = None" "pend rD = None" "length (rcvd rD) = length (sent rD)" "producer rD = bm_if m" "consumer rD = ic_if (ic_ports s ! k)"
    and rH: "chan_inv N rH" "held rH = None" "pend rH = None" "length (rcvd rH) = length (sent rH)" "producer rH = ic_if (ic_ports s ! h)"
    using w unfolding wired_def by blast+
  have F: "unat (hm_len x) \<le> length (hm_data (body ?X))" "unat (hm_len x) \<le> length (hm_data (body (cq cD ! (length (sent cD) mod N))))"
      "unat (hm_len x) \<le> length (mh_data (body (cq rD ! (length (sent rD) mod N))))" "unat (hm_len x) \<le> length (mh_data (body (cq rH ! (length (sent rH) mod N))))"
    using fits(1) unfolding fits_slots_def by blast+
  obtain qi b1 j q1 b2 y s1 where hp: "Host_Poll p h (cq cH) (\<lambda>_. cq cD) s = Some (qi, Some (k, put_msg j (InType ?X) y q1), s1)"
    and al: "OutAlloc (ic_ts s) (cq cD) (producer cD) = Some (Some j, q1, b2)"
    and y: "hm_addr y = a" "hm_len y = hm_len (body ?X)" "unat (hm_len y) \<le> length (hm_data y)"
      "\<And>ts. req_of \<lparr> body = y, timestamp = ts, own_type = InType ?X OR MSG_OWN_CON \<rparr> = retarget p (unat a) (req_of ?X)"
    and s1: "map_of (pendings s1) p = Some \<lparr> pd_host = h, pd_write = False, pd_req_id = hm_req_id (body ?X), pd_addr = a, pd_len = ucast (hm_len (body ?X)) \<rparr>"
      "AList.delete p (pendings s1) = AList.delete p (pendings s)" "length (ic_ports s1) = length (ic_ports s)"
      "ic_if (ic_ports s1 ! k) = b2" "ic_if (ic_ports s1 ! h) = b1" "out_pos b1 = out_pos (ic_if (ic_ports s ! h))"
      "out_enum b1 = out_enum (ic_if (ic_ports s ! h))"
    by (rule Host_Poll_sends[OF cH due[unfolded waiting_def] cD(1,3,6) quiet_room[OF cD(1,2,4)] W(1,3,2) x(2)[unfolded x(1)] waiting_def ty F(1,2)[unfolded x(1)]], rule that)
  have due1: "sync (bm_if ?m) \<longrightarrow> ic_ts s + link_latency (params (producer cD)) \<le> bm_ts ?m" using times(1) cD(6) by simp
  have a: "unat (hm_addr y) + unat (hm_len y) \<le> length (mem_array ?m)"
    "unat (hm_len y) \<le> length (mh_data (body (cq rD ! (length (sent rD) mod N))))" "consumer cD = bm_if ?m" "producer rD = bm_if ?m"
    using fits(2) F(3) y(1,2) x(1) cD(5) rD(5) by simp_all
  obtain qd qo m' Z rsp where mp: "PollH2M (put_msg j (InType ?X) y q1) [cq rD] ?m = Some (qd, Some qo, m')"
    and sv: "serve (req_of \<lparr> body = y, timestamp = ic_ts s + link_latency (params (producer cD)), own_type = InType ?X OR MSG_OWN_CON \<rparr>)
      (mem_array ?m) = (mem_array m', [rsp])"
    and Z: "answers Z rsp" "timestamp Z = bm_ts ?m + link_latency (params (bm_if ?m))"
    and rD': "chan_inv N (sent_one (Some qo) (bm_if m') rD)" "sent (sent_one (Some qo) (bm_if m') rD) = sent rD @ [Z]"
    by (rule device_serves[OF cD(1-4) a(3) rD(1-4) a(4) al ty due1 a(1) y(3) a(2) refl], rule that)
  have al': "OutAlloc (ic_ts s) (cq cD) (ic_if (ic_ports s ! k)) = Some (Some j, q1, b2)" using al cD(6) by simp
  show thesis by (rule that[OF hp mp _ Z(1) _ rD' s1(1)[folded x(1)] s1(2,3,5,6,7,4) OutAlloc_frame(1,2,4)[OF al']]) (use sv y(4) Z(2) in simp_all)
qed

text \<open>
  C8. A memory behind the interconnect. A read or write of a host, for an address that the table
  maps to the memory, is completed at this host and under its own identifier with the result, and
  has the effect, of the same access to the memory at the translated address; no request is left in
  flight.
\<close>

theorem interconnect_memory_access:
  assumes w: "wired N h k s m cH cD rD rH" and due: "sync (consumer cH) \<longrightarrow> timestamp (waiting cH) \<le> ic_ts s"
    and ty: "InType (waiting cH) = H2M_READ \<or> InType (waiting cH) = H2M_WRITE"
    and x: "x = body (waiting cH)" "Lookup (map_table s) (hm_addr x) (ucast (hm_len x)) = Some (a, Some k)" "p \<notin> fst ` set (pendings s)"
    and fits: "fits_slots N (unat (hm_len x)) cH cD rD rH" "unat a + unat (hm_len x) \<le> length (mem_array m)"
    and times: "sync (bm_if m) \<longrightarrow> ic_ts s + link_latency (params (ic_if (ic_ports s ! k))) \<le> t1"
      "sync (ic_if (ic_ports s ! k)) \<longrightarrow> t1 + link_latency (params (bm_if m)) \<le> t2"
  shows "\<exists>q m' s' rsp. memory_access p h t1 t2 s m (cq cH) (cq cD) (cq rD) (cq rH) = Some (h, q, m', s') \<and>
    serve (retarget (hm_req_id x) (unat a) (req_of (waiting cH))) (mem_array m) = (mem_array m', [rsp]) \<and>
    answers (q ! (length (sent rH) mod N)) rsp \<and> pendings s' = pendings s"
proof -
  obtain qi q1 s1 qd qo m' Z rsp b1 b2 where hp: "Host_Poll p h (cq cH) (\<lambda>_. cq cD) s = Some (qi, Some (k, q1), s1)"
    and mp: "PollH2M q1 [cq rD] (m\<lparr> bm_ts := t1 \<rparr>) = Some (qd, Some qo, m')"
    and sv: "serve (retarget p (unat a) (req_of (waiting cH))) (mem_array m) = (mem_array m', [rsp])"
    and Z: "answers Z rsp" "timestamp Z = t1 + link_latency (params (bm_if m))"
    and cR: "chan_inv N (sent_one (Some qo) (bm_if m') rD)" "sent (sent_one (Some qo) (bm_if m') rD) = sent rD @ [Z]"
    and s1: "map_of (pendings s1) p = Some \<lparr> pd_host = h, pd_write = False, pd_req_id = hm_req_id x, pd_addr = a, pd_len = ucast (hm_len x) \<rparr>"
      "AList.delete p (pendings s1) = AList.delete p (pendings s)" "length (ic_ports s1) = length (ic_ports s)"
    and b1: "ic_if (ic_ports s1 ! h) = b1" "out_pos b1 = out_pos (ic_if (ic_ports s ! h))" "out_enum b1 = out_enum (ic_if (ic_ports s ! h))"
    and b2: "ic_if (ic_ports s1 ! k) = b2" "in_pos b2 = in_pos (ic_if (ic_ports s ! k))" "in_enum b2 = in_enum (ic_if (ic_ports s ! k))"
      "sync b2 = sync (ic_if (ic_ports s ! k))"
    by (rule request_reaches_memory[OF w due ty x(1,2) fits times(1), where p = p], rule that)
  let ?cR = "(sent_one (Some qo) (bm_if m') rD)\<lparr> consumer := b2 \<rparr>" and ?rH = "rH\<lparr> producer := b1 \<rparr>" and ?s = "s1\<lparr> ic_ts := t2 \<rparr>"
  let ?r = "case rsp of RData _ e \<Rightarrow> RData (hm_req_id x) e | RDone _ \<Rightarrow> RDone (hm_req_id x)"
  have W: "k < length (ic_ports s)" "h \<noteq> k" and rD: "held rD = None" "length (rcvd rD) = length (sent rD)" "consumer rD = ic_if (ic_ports s ! k)"
    and rH: "chan_inv N rH" "held rH = None" "pend rH = None" "length (rcvd rH) = length (sent rH)" "producer rH = ic_if (ic_ports s ! h)"
    using w unfolding wired_def by blast+
  have F: "unat (ucast (hm_len x) :: u64) \<le> length (mh_data (body (cq rH ! (length (sent rH) mod N))))"
    using fits(1) by (simp add: fits_slots_def unat_ucast_16_64)
  obtain d where d: "rsp = RData p d \<or> rsp = RDone p" using serve_retarget(2)[OF sv] by blast
  have ln: "unat (ucast (hm_len x) :: u64) = length d" if "rsp = RData p d"
  proof -
    have "req_of (waiting cH) = MRead (hm_req_id x) (unat (hm_addr x)) (unat (hm_len x))"
      using sv that ty by (auto simp: req_of_def Let_def x(1))
    with sv that fits(2) show ?thesis by (auto simp: unat_ucast_16_64)
  qed
  have cR': "chan_inv N ?cR" by (rule chan_inv_consumer[OF cR(1)]) (use b2 rD in \<open>simp_all add: sent_one_def\<close>)
  have rH': "chan_inv N ?rH" by (rule chan_inv_producer[OF rH(1)]) (use b1 rH(5) in simp_all)
  have X: "sent ?cR ! length (rcvd ?cR) = Z" "length (rcvd ?cR) < length (sent ?cR)" using cR(2) rD(2) by (simp_all add: sent_one_def)
  define pd where pd: "pd = \<lparr> pd_host = h, pd_write = False, pd_req_id = hm_req_id x, pd_addr = a, pd_len = (ucast (hm_len x) :: u64) \<rparr>"
  have "\<exists>qi q s'. Device_Poll k (cq ?cR) (\<lambda>_. cq ?rH) ?s = Some (qi, Some (h, q), s') \<and>
    answers (q ! (length (sent ?rH) mod N)) (case rsp of RData _ e \<Rightarrow> RData (pd_req_id pd) e | RDone _ \<Rightarrow> RDone (pd_req_id pd)) \<and>
    pendings s' = AList.delete p (pendings ?s)"
  proof (rule Device_Poll_completes[OF cR' _ _ X(2) _ rH' _ _ _ _ W(2) _ _ X(1)[symmetric] Z(1) d])
    show "length (sent ?rH) < n_done ?rH + N" using quiet_room[OF rH'] rH by simp
    show "map_of (pendings ?s) p = Some pd" using s1(1) by (simp add: pd)
  qed (use s1(3) b1 b2 Z(2) times(2) W rD rH ln F X in \<open>simp_all add: pd sent_one_def\<close>)
  moreover have "pd_req_id pd = hm_req_id x" "pendings ?s = pendings s1" "cq ?cR = qo" "cq ?rH = cq rH" "sent ?rH = sent rH"
    by (simp_all add: pd sent_one_def)
  ultimately obtain qe q s' where dp: "Device_Poll k qo (\<lambda>_. cq rH) ?s = Some (qe, Some (h, q), s')"
    and an: "answers (q ! (length (sent rH) mod N)) ?r" and pe: "pendings s' = pendings s"
    using s1(2) delete_id[OF x(3)] by metis
  have "memory_access p h t1 t2 s m (cq cH) (cq cD) (cq rD) (cq rH) = Some (h, q, m', s')"
    using hp mp dp by (simp add: memory_access_def)
  with serve_retarget(1)[OF sv, of "hm_req_id x"] an pe show ?thesis by blast
qed

section \<open>Examples\<close>

definition demo_ic :: Interconn where
  "demo_ic = \<lparr> ic_ports = [\<lparr> is_device = False, ic_if = demo_if \<rparr>, \<lparr> is_device = True, ic_if = demo_if \<rparr>],
     map_table = [\<lparr> vaddr_start = 0x1000, vaddr_end = 0x2000, phys_start = 0, te_dev = Some 1 \<rparr>], pendings = [], ic_ts = 500000 \<rparr>"

definition demo_run1 :: ic_run where
  "demo_run1 = (case Host_Poll 16 0 (cq (demo_cH 0x1001)) (\<lambda>_. cq (ms_req demo_mem0)) demo_ic of Some (_, _, s) \<Rightarrow>
     \<lparr> ic_state = s, accepted = asks 0 (cq (demo_cH 0x1001)) demo_ic, completed = [] \<rparr> | None \<Rightarrow> \<lparr> ic_state = demo_ic, accepted = [], completed = [] \<rparr>)"

theorem interconnect_routing_witness:
  "accepted demo_run1 = [(0, 5)] \<and> mset (accepted demo_run1) = mset (completed demo_run1) + in_flight (ic_state demo_run1) \<and> heap_ok (ic_state demo_run1)"
proof -
  let ?r = "\<lparr> ic_state = demo_ic, accepted = [], completed = [] \<rparr>"
  have "Host_Poll 16 0 (cq (demo_cH 0x1001)) (\<lambda>_. cq (ms_req demo_mem0)) demo_ic \<noteq> None" by code_simp
  then have "ic_step ?r demo_run1"
    using ic_step.host[of 16 0 "cq (demo_cH 0x1001)" "\<lambda>_. cq (ms_req demo_mem0)" ?r] by (auto simp: demo_run1_def demo_ic_def)
  moreover have "accepted demo_run1 = [(0, 5)]" by code_simp
  ultimately show ?thesis using interconnect_routing[of ?r demo_run1] by (auto simp: demo_ic_def)
qed

theorem interconnect_memory_access_witness:
  "\<exists>q m' s'. memory_access 16 0 1000000 1500000 demo_ic (ms_mem demo_mem0) (cq (demo_cH 0x1001)) (cq (ms_req demo_mem0)) (cq (ms_rsp demo_mem0))
     (cq (ms_rsp demo_mem0)) = Some (0, q, m', s') \<and> answers (q ! 0) (RData 5 [2, 3]) \<and> pendings s' = []"
proof -
  have w: "wired 2 0 1 demo_ic (ms_mem demo_mem0) (demo_cH 0x1001) (ms_req demo_mem0) (ms_rsp demo_mem0) (ms_rsp demo_mem0)"
  proof -
    have "length (sent (demo_cH 0x1001)) = 1" by code_simp
    moreover have "consumer (demo_cH 0x1001) = demo_if" "held (demo_cH 0x1001) = None" "rcvd (demo_cH 0x1001) = []"
      by (simp_all add: demo_cH_def demo_mem0_def Let_def split: option.splits)
    ultimately show ?thesis using demo_chans(1,2) demo_chans(3)[of "0x1001"] unfolding wired_def by (simp add: demo_ic_def) (simp add: demo_mem0_def)
  qed
  have x: "body (waiting (demo_cH 0x1001)) = (demo_read 0x1001)" "timestamp (waiting (demo_cH 0x1001)) = 500000" "InType (waiting (demo_cH 0x1001)) = H2M_READ" by code_simp+
  have fits: "fits_slots 2 (unat (hm_len (demo_read 0x1001))) (demo_cH 0x1001) (ms_req demo_mem0) (ms_rsp demo_mem0) (ms_rsp demo_mem0)" by code_simp
  have lk: "Lookup (map_table demo_ic) (hm_addr (demo_read 0x1001)) (ucast (hm_len (demo_read 0x1001))) = Some (1, Some 1)" by code_simp
  have lat: "link_latency (params (ic_if (ic_ports demo_ic ! 1))) = 500000" "link_latency (params (bm_if (ms_mem demo_mem0))) = 500000" by code_simp+
  from interconnect_memory_access[OF w _ _ x(1)[symmetric] lk _ fits, of 16 1000000 1500000] x lat
  obtain q m' s' rsp where r: "memory_access 16 0 1000000 1500000 demo_ic (ms_mem demo_mem0) (cq (demo_cH 0x1001)) (cq (ms_req demo_mem0)) (cq (ms_rsp demo_mem0))
     (cq (ms_rsp demo_mem0)) = Some (0, q, m', s')" "serve (retarget 5 1 (req_of (waiting (demo_cH 0x1001)))) (mem_array (ms_mem demo_mem0)) = (mem_array m', [rsp])"
     "answers (q ! (length (sent (ms_rsp demo_mem0)) mod 2)) rsp" "pendings s' = pendings demo_ic"
    by (auto simp: demo_ic_def demo_mem0_def demo_read_def)
  have "serve (retarget 5 1 (req_of (waiting (demo_cH 0x1001)))) (mem_array (ms_mem demo_mem0)) = ([1, 2, 3, 4], [RData 5 [2, 3]])" by code_simp
  with r show ?thesis by (auto simp: demo_mem0_def demo_ic_def)
qed

end
