(* ===== verification/Net_Mem.thy ===== *)
theory Net_Mem
  imports Mem_Sims
begin

text \<open>
  Memory over the network: the protocol of \<^verbatim>\<open>sims/mem/netproto/netproto.h\<close>, the adapter of a host
  (\<^verbatim>\<open>sims/mem/memnic/memnic.c\<close>) that sends its memory requests as UDP packets, and the memory server
  (\<^verbatim>\<open>sims/mem/netmem/netmem.c\<close>) that answers them. Packets are the byte arrays of the network queue;
  the headers are written in place over what the slot held before, so that fields which the code
  leaves alone keep their old contents.
\<close>

section \<open>Packets\<close>

text \<open>Ethernet, IP and UDP headers, then the memory operation, then its data.\<close>

definition off_ip :: nat where [simp]: "off_ip = 14"
definition off_udp :: nat where [simp]: "off_udp = 34"
definition off_memop :: nat where [simp]: "off_memop = 42"
definition sizeof_MemOp :: nat where [simp]: "sizeof_MemOp = 64"
definition off_data :: nat where [simp]: "off_data = 106"

record MemOp =
  OpType :: u8
  mo_req_id :: u64
  mo_addr :: u64
  mo_len :: u16
  mo_as_id :: u64

definition get_memop :: "bytes \<Rightarrow> MemOp option" where
  "get_memop p = do {
     t \<leftarrow> rd8 p off_memop; r \<leftarrow> rd64 p (off_memop + 1); a \<leftarrow> rd64 p (off_memop + 9);
     n \<leftarrow> rd16 p (off_memop + 17); s \<leftarrow> rd64 p (off_memop + 19);
     Some \<lparr> OpType = t, mo_req_id = r, mo_addr = a, mo_len = n, mo_as_id = s \<rparr> }"

definition put_memop :: "MemOp \<Rightarrow> bytes \<Rightarrow> bytes option" where
  "put_memop o1 p = put off_memop (le_bytes 1 (OpType o1) @ le_bytes 8 (mo_req_id o1) @ le_bytes 8 (mo_addr o1) @
     le_bytes 2 (mo_len o1) @ le_bytes 8 (mo_as_id o1)) p"

definition put16 :: "nat \<Rightarrow> u16 \<Rightarrow> bytes \<Rightarrow> bytes option" where
  "put16 off w = put off (le_bytes 2 w)"

definition put32 :: "nat \<Rightarrow> u32 \<Rightarrow> bytes \<Rightarrow> bytes option" where
  "put32 off w = put off (le_bytes 4 w)"

definition htons :: "u16 \<Rightarrow> u16" where
  "htons w = push_bit 8 w OR drop_bit 8 w"

definition ETH_P_IP :: u16 where [simp]: "ETH_P_IP = 0x0800"

section \<open>The adapter of a host\<close>

record MemNic =
  mn_mem :: SimbricksBaseIf
  mn_net :: SimbricksBaseIf
  mn_mac :: bytes
  mn_ts :: u64

definition memnic_ip :: u32 where [simp]: "memnic_ip = 0x0F0E0D0C"
definition src_port :: u16 where [simp]: "src_port = 1"
definition dest_port :: u16 where [simp]: "dest_port = 1"

text \<open>
  The packet of a request, written over the data area of a slot. Only a write adds its length to
  the length fields; the UDP length is left in host order.
\<close>

definition request_packet :: "u8 \<Rightarrow> H2MMsg \<Rightarrow> bytes \<Rightarrow> bytes \<Rightarrow> (u16 \<times> bytes) option" where
  "request_packet t m mac p0 = do {
     let extra = (if t = H2M_WRITE then hm_len m else 0);
     p1 \<leftarrow> put 0 (replicate 6 0xFF @ mac @ le_bytes 2 (htons ETH_P_IP)) p0;
     p2 \<leftarrow> put16 (off_ip + 2) (htons (20 + 8 + 64 + extra)) p1;
     p3 \<leftarrow> put32 (off_ip + 12) memnic_ip p2;
     p4 \<leftarrow> put32 (off_ip + 16) 0xFFFFFFFF p3;
     p5 \<leftarrow> put off_udp (le_bytes 2 src_port @ le_bytes 2 dest_port @ le_bytes 2 (8 + 64 + extra) @ le_bytes 2 (0 :: u16)) p4;
     p6 \<leftarrow> put_memop \<lparr> OpType = t, mo_req_id = hm_req_id m, mo_addr = hm_addr m, mo_len = hm_len m, mo_as_id = hm_as_id m \<rparr> p5;
     if t = H2M_WRITE then do {
       d \<leftarrow> rd (hm_data m) 0 (unat (hm_len m));
       p7 \<leftarrow> put off_data d p6;
       Some (106 + hm_len m, p7) }
     else Some (106, p6) }"

text \<open>A full network queue drops the request.\<close>

definition ForwardToETH :: "net_queue \<Rightarrow> u8 \<Rightarrow> H2MMsg \<Rightarrow> MemNic \<Rightarrow> (net_queue \<times> MemNic) option" where
  "ForwardToETH q t m s = do {
     (r, q1, b1) \<leftarrow> OutAlloc (mn_ts s) q (mn_net s);
     let s1 = s\<lparr> mn_net := b1 \<rparr>;
     case r of None \<Rightarrow> Some (q1, s1)
     | Some j \<Rightarrow> do {
         (n, p) \<leftarrow> request_packet t m (mn_mac s) (np_data (body (q1 ! j)));
         let x = \<lparr> np_len = n, np_port = np_port (body (q1 ! j)), np_data = p \<rparr>;
         Some (OutSend j NET_MSG_PACKET (q1[j := (q1 ! j)\<lparr> body := x \<rparr>]), s1) } }"

text \<open>
  A response packet becomes a completion. The slot is allocated first; for any other kind of
  operation it is not sent.
\<close>

definition ForwardToMEM :: "m2h_queue \<Rightarrow> NetPacket \<Rightarrow> MemNic \<Rightarrow> (m2h_queue \<times> MemNic) option" where
  "ForwardToMEM q pk s = do {
     (r, q1, b1) \<leftarrow> OutAlloc (mn_ts s) q (mn_mem s);
     let s1 = s\<lparr> mn_mem := b1 \<rparr>;
     case r of None \<Rightarrow> Some (q1, s1)
     | Some j \<Rightarrow> do {
         o1 \<leftarrow> get_memop (np_data pk);
         if OpType o1 = M2H_MSG_READCOMP then do {
           d \<leftarrow> rd (np_data pk) off_data (unat (mo_len o1));
           q2 \<leftarrow> fill_readcomp (mo_req_id o1) d j q1;
           Some (OutSend j M2H_MSG_READCOMP q2, s1) }
         else if OpType o1 = M2H_MSG_WRITECOMP then
           Some (OutSend j M2H_MSG_WRITECOMP (fill_writecomp (mo_req_id o1) j q1), s1)
         else Some (q1, s1) } }"

definition PollN2M_nic :: "net_queue \<Rightarrow> m2h_queue \<Rightarrow> MemNic \<Rightarrow> (net_queue \<times> m2h_queue \<times> MemNic) option" where
  "PollN2M_nic qi qo s = do {
     (r, b1) \<leftarrow> InPoll (mn_ts s) qi (mn_net s);
     let s1 = s\<lparr> mn_net := b1 \<rparr>;
     case r of None \<Rightarrow> Some (qi, qo, s1)
     | Some i \<Rightarrow> do {
         (q2, s2) \<leftarrow> (if InType (qi ! i) = NET_MSG_PACKET then ForwardToMEM qo (body (qi ! i)) s1 else Some (qo, s1));
         Some (InDone i qi, q2, s2) } }"

text \<open>Posted writes are not among the kinds of requests that are forwarded.\<close>

definition PollH2M_nic :: "h2m_queue \<Rightarrow> net_queue \<Rightarrow> MemNic \<Rightarrow> (h2m_queue \<times> net_queue \<times> MemNic) option" where
  "PollH2M_nic qi qo s = do {
     (r, b1) \<leftarrow> InPoll (mn_ts s) qi (mn_mem s);
     let s1 = s\<lparr> mn_mem := b1 \<rparr>;
     case r of None \<Rightarrow> Some (qi, qo, s1)
     | Some i \<Rightarrow> do {
         let t = InType (qi ! i);
         (q2, s2) \<leftarrow> (if t = H2M_READ \<or> t = H2M_WRITE then ForwardToETH qo t (body (qi ! i)) s1 else Some (qo, s1));
         Some (InDone i qi, q2, s2) } }"

definition MemNicIfSync :: "m2h_queue \<Rightarrow> net_queue \<Rightarrow> MemNic \<Rightarrow> (int \<times> m2h_queue \<times> net_queue \<times> MemNic) option" where
  "MemNicIfSync qm qn s = do {
     (r, qm1, b1) \<leftarrow> OutSync (mn_ts s) qm (mn_mem s);
     if r \<noteq> 0 then Some (-1, qm1, qn, s\<lparr> mn_mem := b1 \<rparr>)
     else do {
       (r2, qn1, b2) \<leftarrow> OutSync (mn_ts s) qn (mn_net s);
       Some (if r2 = 0 then 0 else -1, qm1, qn1, s\<lparr> mn_mem := b1, mn_net := b2 \<rparr>) } }"

definition MemNicIfNextTimestamp :: "MemNic \<Rightarrow> u64" where
  "MemNicIfNextTimestamp s = (if in_timestamp (mn_net s) < in_timestamp (mn_mem s) then in_timestamp (mn_net s) else in_timestamp (mn_mem s))"

text \<open>The polling loop of one time step; both sides count as synchronized.\<close>

fun memnic_polls :: "(((h2m_queue \<times> net_queue) \<times> (net_queue \<times> m2h_queue)) \<times> bool) list \<Rightarrow> MemNic \<Rightarrow> (bool \<times> MemNic) option" where
  "memnic_polls [] s = Some (False, s)"
| "memnic_polls ((((qh, qn), (ni, qm)), exiting) # vs) s = do {
     (_, _, s1) \<leftarrow> PollH2M_nic qh qn s;
     (_, _, s2) \<leftarrow> PollN2M_nic ni qm s1;
     let ts_mem = in_timestamp (mn_mem s2);
     let ts_net = in_timestamp (mn_net s2);
     if \<not> exiting \<and> (ts_mem \<le> mn_ts s2 \<or> ts_net \<le> mn_ts s2) then memnic_polls vs s2
     else Some (True, s2\<lparr> mn_ts := if ts_mem \<le> ts_net then ts_mem else ts_net \<rparr>) }"

section \<open>The memory server\<close>

record NetMem =
  nm_array :: bytes
  nm_if :: SimbricksBaseIf
  nm_mac :: bytes
  nm_ts :: u64

definition netmem_ip :: u32 where [simp]: "netmem_ip = 0x0A0B0C0D"

text \<open>The headers of a response to the packet \<open>p\<close>, written over a slot \<open>p0\<close>.\<close>

definition response_headers :: "bytes \<Rightarrow> bytes \<Rightarrow> u16 \<Rightarrow> bytes \<Rightarrow> bytes option" where
  "response_headers p mac extra p0 = do {
     proto \<leftarrow> rd p 12 2;
     p1 \<leftarrow> put 12 proto p0;
     src \<leftarrow> rd p 6 6;
     p2 \<leftarrow> put 0 src p1;
     p3 \<leftarrow> put 6 mac p2;
     p4 \<leftarrow> put32 (off_ip + 12) netmem_ip p3;
     saddr \<leftarrow> rd p (off_ip + 12) 4;
     p5 \<leftarrow> put (off_ip + 16) saddr p4;
     p6 \<leftarrow> put16 (off_ip + 2) (htons (20 + 8 + 64 + extra)) p5;
     dport \<leftarrow> rd p (off_udp + 2) 2;
     p7 \<leftarrow> put off_udp dport p6;
     sport \<leftarrow> rd p off_udp 2;
     p8 \<leftarrow> put (off_udp + 2) sport p7;
     put16 (off_udp + 4) (8 + 64 + extra) p8 }"

text \<open>
  The whole response. An unknown operation is reported and answered with the operation type that
  the slot held before.
\<close>

definition response_packet :: "bytes \<Rightarrow> bytes \<Rightarrow> bytes \<Rightarrow> bytes \<Rightarrow> ((u16 \<times> bytes) \<times> bytes) option" where
  "response_packet p mac mem p0 = do {
     o1 \<leftarrow> get_memop p;
     let t = OpType o1;
     p1 \<leftarrow> response_headers p mac (if t = H2M_READ then mo_len o1 else 0) p0;
     old \<leftarrow> rd8 p1 off_memop;
     let o2 = o1\<lparr> OpType := if t = H2M_READ then M2H_MSG_READCOMP else if t = H2M_WRITE then M2H_MSG_WRITECOMP else old \<rparr>;
     p2 \<leftarrow> put_memop o2 p1;
     if t = H2M_READ then do {
       d \<leftarrow> rd mem (unat (mo_addr o1)) (unat (mo_len o1));
       p3 \<leftarrow> put off_data d p2;
       Some ((106 + mo_len o1, p3), mem) }
     else if t = H2M_WRITE then do {
       d \<leftarrow> rd p off_data (unat (mo_len o1));
       mem1 \<leftarrow> put (unat (mo_addr o1)) d mem;
       Some ((106, p2), mem1) }
     else Some ((106, p2), mem) }"

definition HandleRequest :: "net_queue \<Rightarrow> NetPacket \<Rightarrow> NetMem \<Rightarrow> (bool \<times> net_queue \<times> NetMem) option" where
  "HandleRequest q pk s = do {
     (r, q1, b1) \<leftarrow> OutAlloc (nm_ts s) q (nm_if s);
     let s1 = s\<lparr> nm_if := b1 \<rparr>;
     case r of None \<Rightarrow> Some (False, q1, s1)
     | Some j \<Rightarrow> do {
         ((n, p), mem) \<leftarrow> response_packet (np_data pk) (nm_mac s) (nm_array s) (np_data (body (q1 ! j)));
         let x = \<lparr> np_len = n, np_port = np_port (body (q1 ! j)), np_data = p \<rparr>;
         Some (True, OutSend j NET_MSG_PACKET (q1[j := (q1 ! j)\<lparr> body := x \<rparr>]), s1\<lparr> nm_array := mem \<rparr>) } }"

text \<open>When no response slot is free, the poll ends without releasing the request.\<close>

definition PollN2M :: "net_queue \<Rightarrow> net_queue \<Rightarrow> NetMem \<Rightarrow> (net_queue \<times> net_queue \<times> NetMem) option" where
  "PollN2M qi qo s = do {
     (r, b1) \<leftarrow> InPoll (nm_ts s) qi (nm_if s);
     let s1 = s\<lparr> nm_if := b1 \<rparr>;
     case r of None \<Rightarrow> Some (qi, qo, s1)
     | Some i \<Rightarrow>
         if InType (qi ! i) = NET_MSG_PACKET then do {
           (ok, q2, s2) \<leftarrow> HandleRequest qo (body (qi ! i)) s1;
           Some (if ok then InDone i qi else qi, q2, s2) }
         else Some (InDone i qi, qo, s1) }"

text \<open>The loop of one time step; \<open>sync_mem\<close> is the result of the connection, \<open>next_ts\<close> keeps its value without it.\<close>

fun netmem_polls :: "bool \<Rightarrow> u64 \<Rightarrow> ((net_queue \<times> net_queue) \<times> bool) list \<Rightarrow> NetMem \<Rightarrow> (bool \<times> u64 \<times> NetMem) option" where
  "netmem_polls sync_mem next [] s = Some (False, next, s)"
| "netmem_polls sync_mem next (((qi, qo), exiting) # vs) s = do {
     (_, _, s1) \<leftarrow> PollN2M qi qo s;
     let next1 = (if sync_mem then in_timestamp (nm_if s1) else next);
     if \<not> exiting \<and> next1 \<le> nm_ts s1 then netmem_polls sync_mem next1 vs s1
     else Some (True, next1, s1\<lparr> nm_ts := next1 \<rparr>) }"

section \<open>Set-up\<close>

text \<open>
  The adapter listens for its host and for the network on one pool. As in the memory simulator a
  failed initialisation is reported and ignored.
\<close>

record memnic_env =
  mx_open :: int
  mx_truncate :: bool
  mx_map :: "u64 option"
  mx_mem :: listen_env
  mx_net :: listen_env
  mx_rounds :: "(est_env list \<times> bool) list"

definition MemNicIfInit :: "memnic_env \<Rightarrow> string \<Rightarrow> SimbricksBaseIfParams \<Rightarrow> SimbricksBaseIfParams \<Rightarrow>
    (bool \<times> (SimbricksBaseIf \<times> SimbricksBaseIf) option) option" where
  "MemNicIfInit env path mp np =
     (case SHMPoolCreate path (SHMSize mp + SHMSize np) (mx_open env) (mx_truncate env) (mx_map env) SHMPool_zero of (r, pool) \<Rightarrow>
      if r \<noteq> 0 then Some (False, None)
      else do {
        b \<leftarrow> SimbricksBaseIfInit mp;
        (r1, pool1, b1) \<leftarrow> Listen (mx_mem env) pool b;
        if r1 \<noteq> 0 then Some (False, None)
        else do {
          n \<leftarrow> SimbricksBaseIfInit np;
          (r2, pool2, n1) \<leftarrow> Listen (mx_net env) pool1 n;
          if r2 \<noteq> 0 then Some (False, None)
          else do {
            (oc, ds) \<leftarrow> Establish (mx_rounds env) 0 [establish_if b1 (replicate 4 0) 4, establish_if n1 (replicate 4 0) 4];
            Some (oc = EstReturn 0, Some (base_if (ds ! 0), base_if (ds ! 1))) } } })"

record memnic_config =
  nc_mem :: SimbricksBaseIfParams
  nc_net :: SimbricksBaseIfParams
  nc_shm :: string
  nc_mac :: bytes
  nc_start :: u64

text \<open>The MAC address is read from the fourth argument, which the test of their number does not require.\<close>

definition memnic_args :: "string list \<Rightarrow> memnic_config option option" where
  "memnic_args args =
     (if length args < 4 \<or> length args > 10 then Some None
      else if length args < 5 then None
      else Some (Some \<lparr>
        nc_mem = MemIfDefaultParams\<lparr>
          sync_interval := (if length args \<ge> 8 then strtoull (args ! 7) 0 * 1000 else sync_interval MemIfDefaultParams),
          link_latency := (if length args \<ge> 9 then strtoull (args ! 8) 0 * 1000 else link_latency MemIfDefaultParams),
          sock_path := Some (args ! 1), sync_mode := SyncOptional, blocking_conn := False \<rparr>,
        nc_net = NetIfDefaultParams\<lparr>
          sync_interval := (if length args \<ge> 8 then strtoull (args ! 7) 0 * 1000 else sync_interval NetIfDefaultParams),
          link_latency := (if length args \<ge> 10 then strtoull (args ! 9) 0 * 1000 else link_latency NetIfDefaultParams),
          sock_path := Some (args ! 2), sync_mode := SyncOptional \<rparr>,
        nc_shm = args ! 3, nc_mac = take 6 (le_bytes 8 (strtoull (args ! 4) 16)),
        nc_start = (if length args \<ge> 7 then strtoull (args ! 6) 0 else 0) \<rparr>))"

record netmem_config =
  sc_size :: u64
  sc_base :: u64
  sc_params :: SimbricksBaseIfParams
  sc_shm :: string
  sc_mac :: bytes
  sc_start :: u64

definition netmem_args :: "string list \<Rightarrow> netmem_config option" where
  "netmem_args args =
     (if length args < 7 \<or> length args > 11 then None
      else Some \<lparr> sc_size = strtoull (args ! 1) 0, sc_base = strtoull (args ! 2) 0,
        sc_params = NetIfDefaultParams\<lparr>
          sync_interval := (if length args \<ge> 10 then strtoull (args ! 9) 0 * 1000 else sync_interval NetIfDefaultParams),
          link_latency := (if length args \<ge> 11 then strtoull (args ! 10) 0 * 1000 else link_latency NetIfDefaultParams),
          sock_path := Some (args ! 4), sync_mode := SyncOptional, blocking_conn := False \<rparr>,
        sc_shm = args ! 5, sc_mac = take 6 (le_bytes 8 (strtoull (args ! 6) 16)),
        sc_start = (if length args \<ge> 9 then strtoull (args ! 8) 0 else 0) \<rparr>)"

text \<open>The connection of the server: the result, the interface and the synchronization flag.\<close>

definition netmem_connect :: "memif_env \<Rightarrow> netmem_config \<Rightarrow> (bool \<times> SimbricksBaseIf option \<times> bool) option" where
  "netmem_connect env c =
     (case SimbricksBaseIfInit (sc_params c) of None \<Rightarrow> Some (False, None, True)
      | Some b \<Rightarrow>
        (case SHMPoolCreate (sc_shm c) (SHMSize (sc_params c)) (me_open env) (me_truncate env) (me_map env) SHMPool_zero of (r, pool) \<Rightarrow>
         if r \<noteq> 0 then Some (False, None, True)
         else do {
           (r1, pool1, b1) \<leftarrow> Listen (me_listen env) pool b;
           if r1 \<noteq> 0 then Some (False, None, True)
           else do {
             (oc, ds) \<leftarrow> Establish (me_rounds env) 0 [establish_if b1 (replicate 4 0) 4];
             if oc \<noteq> EstReturn 0 then Some (False, None, True)
             else Some (True, Some (base_if (hd ds)), sync (base_if (hd ds))) } }))"

end
