(* ===== verification/Net_Switch.thy ===== *)
theory Net_Switch
  imports Net_Mem Interconnect
begin

text \<open>
  The learning switch of \<^verbatim>\<open>sims/net/switch/net_switch.cc\<close> and its variant for memory traffic,
  \<^verbatim>\<open>sims/mem/memswitch/memswitch.cc\<close>. Both keep a hash table from MAC addresses to ports whose keys are
  pointers: a learned key points into the queue slot of the packet it was learned from. An entry
  therefore records where its key lies and which bytes lay there when it was entered; using the
  table after a key has changed is undefined (\<open>None\<close>).
\<close>

section \<open>MAC table\<close>

text \<open>The location of a key: the source address in a slot of a port's queue, or a copy of its own.\<close>

datatype mac_key = InSlot nat nat | Owned

record mac_entry =
  me_key :: mac_key
  me_mac :: bytes
  me_port :: nat

type_synonym mac_table = "mac_entry list"

definition key_bytes_at :: "(nat \<Rightarrow> net_queue) \<Rightarrow> mac_entry \<Rightarrow> bytes option" where
  "key_bytes_at qs e = (case me_key e of Owned \<Rightarrow> Some (me_mac e)
     | InSlot k i \<Rightarrow> if i < length (qs k) then rd (np_data (body (qs k ! i))) 6 6 else None)"

definition keys_intact :: "(nat \<Rightarrow> net_queue) \<Rightarrow> mac_table \<Rightarrow> bool" where
  "keys_intact qs t = list_all (\<lambda>e. key_bytes_at qs e = Some (me_mac e)) t"

definition mac_map :: "mac_table \<Rightarrow> bytes \<Rightarrow> nat option" where
  "mac_map t = map_of (map (\<lambda>e. (me_mac e, me_port e)) t)"

definition mac_find :: "(nat \<Rightarrow> net_queue) \<Rightarrow> bytes \<Rightarrow> mac_table \<Rightarrow> nat option option" where
  "mac_find qs mac t = (if keys_intact qs t then Some (mac_map t mac) else None)"

text \<open>\<^verbatim>\<open>mac_table[src] = iport\<close>: an entry that exists keeps its key.\<close>

definition mac_learn :: "(nat \<Rightarrow> net_queue) \<Rightarrow> mac_key \<Rightarrow> bytes \<Rightarrow> nat \<Rightarrow> mac_table \<Rightarrow> mac_table option" where
  "mac_learn qs key mac iport t =
     (if \<not> keys_intact qs t then None
      else Some (if mac_map t mac = None then \<lparr> me_key = key, me_mac = mac, me_port = iport \<rparr> # t
                 else map (\<lambda>e. if me_mac e = mac then e\<lparr> me_port := iport \<rparr> else e) t))"

text \<open>The initialiser \<^verbatim>\<open>{0xFF}\<close> sets the first byte only.\<close>

definition bcast_addr :: bytes where "bcast_addr = [0xFF, 0, 0, 0, 0, 0]"

section \<open>Ports\<close>

text \<open>Receiving: a second reception before the first is done fails an assertion, an unknown type aborts.\<close>

definition sw_RxPacket :: "u64 \<Rightarrow> net_queue \<Rightarrow> NetPort \<Rightarrow> (RxPollState \<times> NetPort) option" where
  "sw_RxPacket ts q p =
     (if rx p \<noteq> None then None
      else do {
        (r, b1) \<leftarrow> InPoll ts q (netif p);
        let p1 = p\<lparr> netif := b1, rx := r \<rparr>;
        case r of None \<Rightarrow> Some (kRxPollFail, p1)
        | Some i \<Rightarrow>
            (if InType (q ! i) = NET_MSG_PACKET then Some (kRxPollSuccess, p1)
             else if InType (q ! i) = MSG_TYPE_SYNC then Some (kRxPollSync, p1)
             else None) })"

definition sw_RxDone :: "net_queue \<Rightarrow> NetPort \<Rightarrow> (net_queue \<times> NetPort) option" where
  "sw_RxDone q p = (case rx p of None \<Rightarrow> None | Some i \<Rightarrow> Some (InDone i q, p\<lparr> rx := None \<rparr>))"

record Switch =
  sw_ports :: "NetPort list"
  mac_tab :: mac_table
  sw_ts :: u64

text \<open>
  Forwarding to one port, and to several in turn. \<open>outs\<close> gives the contents of each outgoing queue
  and what it shows while a synchronized port waits; the result lists the queues written.
\<close>

type_synonym out_views = "nat \<Rightarrow> net_queue \<times> net_queue list"

definition forward_pkt :: "NetPacket \<Rightarrow> nat \<Rightarrow> out_views \<Rightarrow> Switch \<Rightarrow> ((nat \<times> bool \<times> net_queue) \<times> Switch) option" where
  "forward_pkt pk k outs s =
     (if k < length (sw_ports s) then do {
        d \<leftarrow> rd (np_data pk) 0 (unat (np_len pk));
        (ok, q, p1) \<leftarrow> TxPacket d (sw_ts s) (fst (outs k)) (snd (outs k)) (sw_ports s ! k);
        Some ((k, ok, q), s\<lparr> sw_ports := (sw_ports s)[k := p1] \<rparr>) }
      else None)"

fun forward_all :: "NetPacket \<Rightarrow> nat list \<Rightarrow> out_views \<Rightarrow> Switch \<Rightarrow> ((nat \<times> bool \<times> net_queue) list \<times> Switch) option" where
  "forward_all pk [] outs s = Some ([], s)"
| "forward_all pk (k # ks) outs s = do {
     (o1, s1) \<leftarrow> forward_pkt pk k outs s;
     (os, s2) \<leftarrow> forward_all pk ks outs s1;
     Some (o1 # os, s2) }"

section \<open>The learning switch\<close>

text \<open>The ports a packet leaves on, given the port of its destination if it is known.\<close>

definition egress :: "nat \<Rightarrow> nat \<Rightarrow> nat option \<Rightarrow> nat list" where
  "egress n iport found = (case found of Some e \<Rightarrow> if e \<noteq> iport then [e] else [] | None \<Rightarrow> filter (\<lambda>e. e \<noteq> iport) [0..<n])"

definition switch_pkt :: "nat \<Rightarrow> (nat \<Rightarrow> net_queue) \<Rightarrow> out_views \<Rightarrow> Switch \<Rightarrow>
    (net_queue \<times> (nat \<times> bool \<times> net_queue) list \<times> Switch) option" where
  "switch_pkt iport qs outs s = do {
     (st, p1) \<leftarrow> sw_RxPacket (sw_ts s) (qs iport) (sw_ports s ! iport);
     let s1 = s\<lparr> sw_ports := (sw_ports s)[iport := p1] \<rparr>;
     case st of
       kRxPollFail \<Rightarrow> Some (qs iport, [], s1)
     | _ \<Rightarrow> do {
         i \<leftarrow> rx p1;
         let pk = body (qs iport ! i);
         (os, s2) \<leftarrow>
           (if st = kRxPollSuccess then do {
              dst \<leftarrow> rd (np_data pk) 0 6;
              src \<leftarrow> rd (np_data pk) 6 6;
              t1 \<leftarrow> (if src \<noteq> bcast_addr then mac_learn qs (InSlot iport i) src iport (mac_tab s1) else Some (mac_tab s1));
              found \<leftarrow> mac_find qs dst t1;
              forward_all pk (egress (length (sw_ports s1)) iport found) outs (s1\<lparr> mac_tab := t1 \<rparr>) }
            else Some ([], s1));
         (q1, p2) \<leftarrow> sw_RxDone (qs iport) (sw_ports s2 ! iport);
         Some (q1, os, s2\<lparr> sw_ports := (sw_ports s2)[iport := p2] \<rparr>) } }"

text \<open>One round over all ports with the least timestamp of the synchronized ones, and the rounds of a time step.\<close>

type_synonym sw_view = "(nat \<Rightarrow> net_queue) \<times> out_views"

fun switch_ports :: "sw_view list \<Rightarrow> nat \<Rightarrow> u64 \<Rightarrow> Switch \<Rightarrow> (u64 \<times> Switch) option" where
  "switch_ports [] k acc s = Some (acc, s)"
| "switch_ports ((qs, outs) # vs) k acc s = do {
     (_, _, s1) \<leftarrow> switch_pkt k qs outs s;
     let p = sw_ports s1 ! k;
     switch_ports vs (Suc k) (if port_sync p \<and> NextTimestamp p < acc then NextTimestamp p else acc) s1 }"

fun switch_rounds :: "(sw_view list \<times> bool) list \<Rightarrow> Switch \<Rightarrow> (bool \<times> Switch) option" where
  "switch_rounds [] s = Some (False, s)"
| "switch_rounds ((vs, exiting) # rs) s = do {
     (min_ts, s1) \<leftarrow> switch_ports vs 0 UINT64_MAX s;
     if \<not> exiting \<and> min_ts \<le> sw_ts s1 then switch_rounds rs s1
     else Some (True, if min_ts < UINT64_MAX then s1\<lparr> sw_ts := min_ts \<rparr> else s1) }"

section \<open>The memory switch\<close>

record table_entry =
  tb_as_id :: u64
  tb_vaddr_start :: u64
  tb_vaddr_end :: u64
  tb_node_mac :: bytes
  tb_phys_start :: u64

text \<open>
  Routing a memory operation to an unknown destination: the first entry of its address space that
  holds its address, both ends included. The packet is rewritten in the slot it lies in.
\<close>

fun route_memop :: "table_entry list \<Rightarrow> MemOp \<Rightarrow> table_entry option" where
  "route_memop [] o1 = None"
| "route_memop (e # es) o1 =
     (if mo_as_id o1 = tb_as_id e \<and> mo_addr o1 \<ge> tb_vaddr_start e \<and> mo_addr o1 \<le> tb_vaddr_end e then Some e else route_memop es o1)"

definition rewrite_memop :: "table_entry \<Rightarrow> MemOp \<Rightarrow> bytes \<Rightarrow> bytes option" where
  "rewrite_memop e o1 p = do {
     p1 \<leftarrow> put (off_memop + 9) (le_bytes 8 (tb_phys_start e + (mo_addr o1 - tb_vaddr_start e))) p;
     put 0 (take 6 (tb_node_mac e)) p1 }"

text \<open>
  After the rewriting the switch assigns the new destination to its key and looks it up. The
  assignment operator of the key builds a copy and changes nothing, but the key points to the
  destination field of the packet, which now holds the new address.
\<close>

definition memswitch_pkt :: "table_entry list \<Rightarrow> nat \<Rightarrow> (nat \<Rightarrow> net_queue) \<Rightarrow> out_views \<Rightarrow> Switch \<Rightarrow>
    (net_queue \<times> (nat \<times> bool \<times> net_queue) list \<times> Switch) option" where
  "memswitch_pkt table iport qs outs s = do {
     (st, p1) \<leftarrow> sw_RxPacket (sw_ts s) (qs iport) (sw_ports s ! iport);
     let s1 = s\<lparr> sw_ports := (sw_ports s)[iport := p1] \<rparr>;
     case st of
       kRxPollFail \<Rightarrow> Some (qs iport, [], s1)
     | _ \<Rightarrow> do {
         i \<leftarrow> rx p1;
         let pk = body (qs iport ! i);
         (q, os, s2) \<leftarrow>
           (if st = kRxPollSuccess then do {
              dst \<leftarrow> rd (np_data pk) 0 6;
              src \<leftarrow> rd (np_data pk) 6 6;
              t1 \<leftarrow> (if src \<noteq> bcast_addr then mac_learn qs (InSlot iport i) src iport (mac_tab s1) else Some (mac_tab s1));
              found \<leftarrow> mac_find qs dst t1;
              let s2 = s1\<lparr> mac_tab := t1 \<rparr>;
              case found of
                Some e \<Rightarrow>
                  do { (os, s3) \<leftarrow> forward_all pk (egress (length (sw_ports s1)) iport found) outs s2;
                       Some (qs iport, os, s3) }
              | None \<Rightarrow>
                  if table = [] then Some (qs iport, [], s2)
                  else do {
                  o1 \<leftarrow> get_memop (np_data pk);
                  case route_memop table o1 of
                    None \<Rightarrow> Some (qs iport, [], s2)
                  | Some e \<Rightarrow> do {
                      p \<leftarrow> rewrite_memop e o1 (np_data pk);
                      let q1 = (qs iport)[i := (qs iport ! i)\<lparr> body := pk\<lparr> np_data := p \<rparr> \<rparr>];
                      found2 \<leftarrow> mac_find (qs(iport := q1)) (take 6 p) t1;
                      (os, s3) \<leftarrow> forward_all (pk\<lparr> np_data := p \<rparr>) (egress (length (sw_ports s1)) iport found2) outs s2;
                      Some (q1, os, s3) } } }
            else Some (qs iport, [], s1));
         (q2, p2) \<leftarrow> sw_RxDone q (sw_ports s2 ! iport);
         Some (q2, os, s2\<lparr> sw_ports := (sw_ports s2)[iport := p2] \<rparr>) } }"

section \<open>Set-up of the switch\<close>

record sw_options =
  so_ports :: "(bool \<times> string \<times> bool) list"
  so_sync :: bool
  so_params :: SimbricksBaseIfParams

definition sw_options_init :: sw_options where
  "sw_options_init = \<lparr> so_ports = [], so_sync = True, so_params = NetIfDefaultParams \<rparr>"

text \<open>
  One command line option; \<open>None\<close> ends the program. Opening the packet dump may fail. Synchronization
  is switched off for the ports that follow, the parameters apply to all ports.
\<close>

definition sw_option :: "bool \<Rightarrow> char \<Rightarrow> string \<Rightarrow> sw_options \<Rightarrow> sw_options option" where
  "sw_option pcap_ok c arg o1 =
     (if c = CHR ''s'' then Some (o1\<lparr> so_ports := so_ports o1 @ [(False, arg, so_sync o1)] \<rparr>)
      else if c = CHR ''h'' then Some (o1\<lparr> so_ports := so_ports o1 @ [(True, arg, so_sync o1)] \<rparr>)
      else if c = CHR ''u'' then Some (o1\<lparr> so_sync := False \<rparr>)
      else if c = CHR ''S'' then Some (o1\<lparr> so_params := (so_params o1)\<lparr> sync_interval := strtoull arg 0 * 1000 \<rparr> \<rparr>)
      else if c = CHR ''E'' then Some (o1\<lparr> so_params := (so_params o1)\<lparr> link_latency := strtoull arg 0 * 1000 \<rparr> \<rparr>)
      else if c = CHR ''p'' then (if pcap_ok then Some o1 else None)
      else None)"

fun sw_parse :: "bool \<Rightarrow> (char \<times> string) list \<Rightarrow> sw_options \<Rightarrow> sw_options option" where
  "sw_parse pcap_ok [] o1 = (if so_ports o1 = [] then None else Some o1)"
| "sw_parse pcap_ok ((c, arg) # as) o1 = (case sw_option pcap_ok c arg o1 of None \<Rightarrow> None | Some o2 \<Rightarrow> sw_parse pcap_ok as o2)"

definition NetPort_new :: "string \<Rightarrow> bool \<Rightarrow> SimbricksBaseIf \<Rightarrow> NetPort" where
  "NetPort_new path sy zero = \<lparr> netif = zero, rx = None, port_sync = sy, port_path = path \<rparr>"

text \<open>Connecting: every port is prepared, then all connections are established.\<close>

record port_env =
  pv_connect :: connect_env
  pv_open :: int
  pv_truncate :: bool
  pv_map :: "u64 option"
  pv_listen :: listen_env

fun prepare_ports :: "SimbricksBaseIfParams \<Rightarrow> (port_env \<times> bool \<times> NetPort) list \<Rightarrow> (bool \<times> NetPort list) option" where
  "prepare_ports ps [] = Some (True, [])"
| "prepare_ports ps ((e, listening, p) # xs) = do {
     (ok, p1) \<leftarrow> (if listening
        then map_option (\<lambda>(r, _, p1). (r, p1)) (Prepare_listen ps (pv_open e) (pv_truncate e) (pv_map e) (pv_listen e) SHMPool_zero p)
        else Prepare ps (pv_connect e) p);
     if \<not> ok then Some (False, p1 # map (\<lambda>x. snd (snd x)) xs)
     else do { (ok2, ps2) \<leftarrow> prepare_ports ps xs; Some (ok2, p1 # ps2) } }"

definition sw_ConnectAll :: "SimbricksBaseIfParams \<Rightarrow> bytes \<Rightarrow> (est_env list \<times> bool) list \<Rightarrow> (port_env \<times> bool \<times> NetPort) list \<Rightarrow>
    (bool \<times> NetPort list) option" where
  "sw_ConnectAll netParams intro rounds xs = do {
     (ok, ps) \<leftarrow> prepare_ports netParams xs;
     if \<not> ok then Some (False, ps)
     else do {
       (oc, ds) \<leftarrow> Establish rounds 0 (map (\<lambda>p. establish_if (netif p) intro 4) ps);
       Some (oc = EstReturn 0, map2 (\<lambda>p d. p\<lparr> netif := base_if d \<rparr>) ps ds) } }"

text \<open>
  The routes of the memory switch. Fewer than five fields leave the rest of the entry
  uninitialised and a number out of range is undefined (\<open>None\<close>); further fields are ignored.
\<close>

definition atoi :: "string \<Rightarrow> u64 option" where
  "atoi s = (let v = sint (strtoull s 10) in if - (2 ^ 31) \<le> v \<and> v < 2 ^ 31 then Some (word_of_int v) else None)"

definition memswitch_route :: "string \<Rightarrow> table_entry option" where
  "memswitch_route arg = (case tokens arg of
       a # b # c # m # p # _ \<Rightarrow> do {
         as_id \<leftarrow> atoi a;
         Some \<lparr> tb_as_id = as_id, tb_vaddr_start = strtoull b 0, tb_vaddr_end = strtoull c 0,
           tb_node_mac = take 6 (le_bytes 8 (strtoull m 16)), tb_phys_start = strtoull p 0 \<rparr> }
     | _ \<Rightarrow> None)"

fun contains :: "string \<Rightarrow> string \<Rightarrow> bool" where
  "contains pat [] = (pat = [])"
| "contains pat (c # cs) = (take (length pat) (c # cs) = pat \<or> contains pat cs)"

text \<open>
  The address of a memory server is entered for the ports whose path holds the name of the server
  with the current number; the number grows with every entry, the search ends at an address known.
\<close>

fun bind_server :: "string \<Rightarrow> bytes \<Rightarrow> nat \<Rightarrow> string list \<Rightarrow> nat \<Rightarrow> mac_table \<Rightarrow> nat \<times> mac_table" where
  "bind_server name mac k [] idx t = (idx, t)"
| "bind_server name mac k (path # ps) idx t =
     (if \<not> contains name path then bind_server name mac (Suc k) ps idx t
      else if mac_map t mac \<noteq> None then (idx, t)
      else bind_server name mac (Suc k) ps (Suc idx) (\<lparr> me_key = Owned, me_mac = mac, me_port = k \<rparr> # t))"

definition memswitch_map :: "string \<Rightarrow> string list \<Rightarrow> nat \<times> table_entry list \<times> mac_table \<Rightarrow> (nat \<times> table_entry list \<times> mac_table) option" where
  "memswitch_map arg paths st = (case st of (idx, table, t) \<Rightarrow> do {
     e \<leftarrow> memswitch_route arg;
     (case bind_server (''netmem'' @ print_dec idx) (tb_node_mac e) 0 paths idx t of (idx1, t1) \<Rightarrow> Some (idx1, table @ [e], t1)) })"

section \<open>The wire\<close>

text \<open>
  The wire of \<^verbatim>\<open>sims/net/wire/net_wire.c\<close> moves packets between two interfaces; a packet is dropped when
  the other queue is full.
\<close>

definition move_pkt :: "u64 \<Rightarrow> net_queue \<Rightarrow> net_queue \<Rightarrow> SimbricksBaseIf \<Rightarrow> SimbricksBaseIf \<Rightarrow>
    (net_queue \<times> net_queue \<times> SimbricksBaseIf \<times> SimbricksBaseIf) option" where
  "move_pkt ts qi qo from to = do {
     (r, f1) \<leftarrow> InPoll ts qi from;
     case r of None \<Rightarrow> Some (qi, qo, f1, to)
     | Some i \<Rightarrow>
         if InType (qi ! i) = NET_MSG_PACKET then do {
           (s, q1, t1) \<leftarrow> OutAlloc ts qo to;
           case s of None \<Rightarrow> Some (InDone i qi, q1, f1, t1)
           | Some j \<Rightarrow> do {
               d \<leftarrow> rd (np_data (body (qi ! i))) 0 (unat (np_len (body (qi ! i))));
               q2 \<leftarrow> fill_packet d j q1;
               Some (InDone i qi, OutSend j NET_MSG_PACKET q2, f1, t1) } }
         else if InType (qi ! i) = MSG_TYPE_SYNC then Some (InDone i qi, qo, f1, to)
         else None }"

record Wire =
  w_a :: SimbricksBaseIf
  w_b :: SimbricksBaseIf
  w_sync_a :: bool
  w_sync_b :: bool
  w_ts :: u64

text \<open>The loop of one time step; a view holds the incoming and the outgoing queue of either side.\<close>

fun wire_polls :: "((net_queue \<times> net_queue) \<times> (net_queue \<times> net_queue) \<times> bool) list \<Rightarrow> Wire \<Rightarrow> (bool \<times> Wire) option" where
  "wire_polls [] w = Some (False, w)"
| "wire_polls (((ia, ob), (ib, oa), exiting) # vs) w = do {
     (_, _, a1, b1) \<leftarrow> move_pkt (w_ts w) ia ob (w_a w) (w_b w);
     (_, _, b2, a2) \<leftarrow> move_pkt (w_ts w) ib oa b1 a1;
     let w1 = w\<lparr> w_a := a2, w_b := b2 \<rparr>;
     let ta = in_timestamp a2;
     let tb = in_timestamp b2;
     if \<not> exiting \<and> (w_sync_a w \<and> ta \<le> w_ts w \<or> w_sync_b w \<and> tb \<le> w_ts w) then wire_polls vs w1
     else Some (True, w1\<lparr> w_ts := if w_sync_a w \<and> w_sync_b w then (if ta \<le> tb then ta else tb)
        else if w_sync_a w then ta else if w_sync_b w then tb else w_ts w \<rparr>) }"

text \<open>The synchronization before it aborts when a queue is full.\<close>

definition wire_sync :: "net_queue \<Rightarrow> net_queue \<Rightarrow> Wire \<Rightarrow> (net_queue \<times> net_queue \<times> Wire) option" where
  "wire_sync qa qb w = do {
     (ra, qa1, a1) \<leftarrow> OutSync (w_ts w) qa (w_a w);
     if ra \<noteq> 0 then None
     else do {
       (rb, qb1, b1) \<leftarrow> OutSync (w_ts w) qb (w_b w);
       if rb \<noteq> 0 then None else Some (qa1, qb1, w\<lparr> w_a := a1, w_b := b1 \<rparr>) } }"

end
