(* ===== verification/Net_Mem_Safety.thy ===== *)
theory Net_Mem_Safety
  imports Net_Mem Mem_Safety
begin

text \<open>
  Correctness of the memory over the network: the packets carry a request and its response without
  loss, so that an access through the adapter of a host and the memory server is an access to the
  memory; and the ways in which requests get lost.
\<close>

section \<open>Fields of a packet\<close>

lemma put_Some: "put off d p = Some p' \<longleftrightarrow> off + length d \<le> length p \<and> p' = wr off d p"
  by (auto simp: put_def)

lemma put_enough [simp]: "off + length d \<le> length p \<Longrightarrow> put off d p = Some (wr off d p)"
  by (simp add: put_def)

lemma rd_wr_apart:
  assumes "off + length d \<le> length p" "a + n \<le> off \<or> off + length d \<le> a"
  shows "rd (wr off d p) a n = rd p a n"
  using wr_disjoint[OF assms] assms(1) by (simp add: rd_def)

lemma rd_wr_within:
  assumes "off + length d \<le> length p" "off \<le> a" "a + n \<le> off + length d"
  shows "rd (wr off d p) a n = Some (take n (drop (a - off) d))"
proof -
  have "drop a (wr off d p) = drop (a - off) d @ drop (off + length d) p"
    using assms by (simp add: wr_def)
  then show ?thesis using assms by (simp add: rd_def wr_def)
qed

lemma rdw_wr_apart: "off + length d \<le> length p \<Longrightarrow> a + n \<le> off \<or> off + length d \<le> a \<Longrightarrow> rdw n (wr off d p) a = rdw n p a"
  by (simp add: rdw_def rd_wr_apart)

lemma put_memop_get:
  assumes "put_memop o1 p = Some p'"
  shows "get_memop p' = Some o1"
proof -
  let ?d = "le_bytes 1 (OpType o1) @ le_bytes 8 (mo_req_id o1) @ le_bytes 8 (mo_addr o1) @ le_bytes 2 (mo_len o1) @ le_bytes 8 (mo_as_id o1)"
  have p': "p' = wr 42 ?d p" "69 \<le> length p" using assms by (auto simp: put_memop_def put_Some)
  have "rd p' a n = Some (take n (drop (a - 42) ?d))" if "42 \<le> a" "a + n \<le> 69" for a n
    unfolding p'(1) by (rule rd_wr_within) (use p'(2) that in simp_all)
  then have "rdw 1 p' 42 = Some (OpType o1)" "rdw 8 p' 43 = Some (mo_req_id o1)" "rdw 8 p' 51 = Some (mo_addr o1)"
    "rdw 2 p' 59 = Some (mo_len o1)" "rdw 8 p' 61 = Some (mo_as_id o1)"
    by (simp_all add: rdw_def del: rd_enough)
  then show ?thesis by (simp add: get_memop_def)
qed

lemma get_memop_apart:
  assumes "off + length d \<le> length p" "off + length d \<le> 42 \<or> 69 \<le> off"
  shows "get_memop (wr off d p) = get_memop p"
  using assms(2) by (auto simp: get_memop_def rdw_wr_apart[OF assms(1)])

text \<open>The packet of a request carries it.\<close>

lemma request_packet_carries:
  assumes "request_packet t m mac p0 = Some (n, p)" "length mac = 6"
  shows "get_memop p = Some \<lparr> OpType = t, mo_req_id = hm_req_id m, mo_addr = hm_addr m, mo_len = hm_len m, mo_as_id = hm_as_id m \<rparr>"
    "t = H2M_WRITE \<Longrightarrow> rd p off_data (unat (hm_len m)) = Some (take (unat (hm_len m)) (hm_data m))"
    "length p = length p0"
proof -
  let ?o = "\<lparr> OpType = t, mo_req_id = hm_req_id m, mo_addr = hm_addr m, mo_len = hm_len m, mo_as_id = hm_as_id m \<rparr>"
  obtain p5 p6 where p6: "put_memop ?o p5 = Some p6" "length p5 = length p0" and p: "p = (if t = H2M_WRITE then wr off_data (take (unat (hm_len m)) (hm_data m)) p6 else p6)"
    "t = H2M_WRITE \<Longrightarrow> unat (hm_len m) \<le> length (hm_data m) \<and> off_data + unat (hm_len m) \<le> length p6"
    using assms by (auto simp: request_packet_def put16_def put32_def put_Some rd_def Let_def bind_eq_Some_conv split: if_splits)
  have l: "length p6 = length p5" using p6(1) by (auto simp: put_memop_def put_Some)
  show "get_memop p = Some ?o" using p put_memop_get[OF p6(1)] get_memop_apart[of off_data "take (unat (hm_len m)) (hm_data m)" p6]
    by (auto split: if_splits)
  show "t = H2M_WRITE \<Longrightarrow> rd p off_data (unat (hm_len m)) = Some (take (unat (hm_len m)) (hm_data m))"
    using p rd_wr_same[of off_data "take (unat (hm_len m)) (hm_data m)" p6] by (simp add: min_absorb2)
  show "length p = length p0" using p l p6(2) by (auto split: if_splits)
qed

lemma request_packet_total:
  assumes "length mac = 6" "106 + unat (hm_len m) \<le> length p0" "unat (hm_len m) \<le> length (hm_data m)"
  shows "\<exists>n p. request_packet t m mac p0 = Some (n, p)"
  using assms by (auto simp: request_packet_def put16_def put32_def put_memop_def Let_def)

text \<open>The response carries the completion, and the memory is read or written.\<close>

definition response_type :: "u8 \<Rightarrow> u8" where
  "response_type t = (if t = H2M_READ then M2H_MSG_READCOMP else M2H_MSG_WRITECOMP)"

lemma response_headers_total:
  assumes "106 \<le> length p" "length mac = 6" "106 \<le> length p0"
  obtains p1 where "response_headers p mac e p0 = Some p1" "length p1 = length p0"
proof -
  have "\<exists>p1. response_headers p mac e p0 = Some p1 \<and> length p1 = length p0"
    using assms by (simp add: response_headers_def put16_def put32_def)
  then show thesis using that by blast
qed

lemma response_packet_carries:
  assumes o1: "get_memop p = Some o1" "OpType o1 = H2M_READ \<or> OpType o1 = H2M_WRITE"
    and p: "106 \<le> length p" "OpType o1 = H2M_WRITE \<longrightarrow> rd p off_data (unat (mo_len o1)) = Some d" "length d = unat (mo_len o1)"
    and len: "length mac = 6" "106 + unat (mo_len o1) \<le> length p0" "unat (mo_addr o1) + unat (mo_len o1) \<le> length mem"
  obtains n r where "response_packet p mac mem p0 = Some ((n, r), if OpType o1 = H2M_READ then mem else wr (unat (mo_addr o1)) d mem)"
    "get_memop r = Some (o1\<lparr> OpType := response_type (OpType o1) \<rparr>)" "length r = length p0"
    "OpType o1 = H2M_READ \<Longrightarrow> rd r off_data (unat (mo_len o1)) = Some (take (unat (mo_len o1)) (drop (unat (mo_addr o1)) mem))"
proof -
  let ?n = "unat (mo_len o1)" and ?a = "unat (mo_addr o1)"
  let ?o = "o1\<lparr> OpType := response_type (OpType o1) \<rparr>" and ?s = "take ?n (drop ?a mem)"
  have l: "106 \<le> length p0" using len(2) by simp
  obtain p1 where p1: "response_headers p mac (if OpType o1 = H2M_READ then mo_len o1 else 0) p0 = Some p1" "length p1 = length p0"
    using response_headers_total[OF p(1) len(1) l] by metis
  obtain p2 where p2: "put_memop ?o p1 = Some p2" "length p2 = length p0" using p1(2) l by (auto simp: put_memop_def)
  have ls: "length ?s = ?n" using len(3) by simp
  obtain y where old: "rdw 1 p1 42 = Some (y :: u8)" using p1(2) l by simp
  show thesis
  proof (cases "OpType o1 = H2M_READ")
    case True
    have "response_packet p mac mem p0 = Some ((106 + mo_len o1, wr off_data ?s p2), mem)"
      using True o1(1) p1 p2 len(2,3) ls by (simp add: response_packet_def response_type_def old[simplified])
    moreover have "get_memop (wr off_data ?s p2) = Some ?o" "rd (wr off_data ?s p2) off_data ?n = Some ?s"
      using put_memop_get[OF p2(1)] get_memop_apart[of off_data ?s p2] rd_wr_same[of off_data ?s p2] ls p2(2) len(2) by simp_all
    ultimately show thesis using that[of _ "wr off_data ?s p2"] True p2(2) ls len(2) by simp
  next
    case False
    then have "response_packet p mac mem p0 = Some ((106, p2), wr ?a d mem)"
      using o1 p p1 p2 len(3) by (simp add: response_packet_def response_type_def old[simplified])
    then show thesis using that[of _ p2] put_memop_get[OF p2(1)] False p2(2) by simp
  qed
qed

section \<open>An access through adapter and server\<close>

definition op_of :: "H2MMsg BaseMsg \<Rightarrow> MemOp" where
  "op_of X = \<lparr> OpType = InType X, mo_req_id = hm_req_id (body X), mo_addr = hm_addr (body X), mo_len = hm_len (body X), mo_as_id = hm_as_id (body X) \<rparr>"

lemma memnic_sends:
  assumes cH: "chan_inv N cH" "held cH = None" "consumer cH = mn_mem s" "length (rcvd cH) < length (sent cH)"
    "sync (consumer cH) \<longrightarrow> timestamp (sent cH ! length (rcvd cH)) \<le> mn_ts s"
    and cN: "chan_inv N cN" "pend cN = None" "producer cN = mn_net s" "length (sent cN) < n_done cN + N"
    and X: "X = sent cH ! length (rcvd cH)" "InType X = H2M_READ \<or> InType X = H2M_WRITE"
    and len: "length (mn_mac s) = 6" "unat (hm_len (body X)) \<le> length (hm_data (body X))"
      "106 + unat (hm_len (body X)) \<le> length (np_data (body (cq cN ! (length (sent cN) mod N))))"
  obtains qi j q1 b1 b2 pk where "PollH2M_nic (cq cH) (cq cN) s = Some (qi, put_msg j NET_MSG_PACKET pk q1, s\<lparr> mn_mem := b1, mn_net := b2 \<rparr>)"
    "OutAlloc (mn_ts s) (cq cN) (producer cN) = Some (Some j, q1, b2)" "get_memop (np_data pk) = Some (op_of X)" "106 \<le> length (np_data pk)"
    "InType X = H2M_WRITE \<Longrightarrow> rd (np_data pk) off_data (unat (hm_len (body X))) = Some (take (unat (hm_len (body X))) (hm_data (body X)))"
    "out_pos b1 = out_pos (mn_mem s)" "out_enum b1 = out_enum (mn_mem s)"
proof -
  obtain i b1 where ip: "InPoll (mn_ts s) (cq cH) (mn_mem s) = Some (Some i, b1)" "cq cH ! i = X"
    using chan_take_due[OF cH(1,2,4,5)] cH(3) X(1) by metis
  let ?j = "length (sent cN) mod N"
  obtain q1 b2 where al: "OutAlloc (mn_ts s) (cq cN) (producer cN) = Some (Some ?j, q1, b2)" and b: "body (q1 ! ?j) = body (cq cN ! ?j)"
    using chan_room[OF cN(1,2,4), of "mn_ts s"] by metis
  obtain n p where r: "request_packet (InType X) (body X) (mn_mac s) (np_data (body (q1 ! ?j))) = Some (n, p)"
    using request_packet_total[OF len(1) _ len(2)] len(3) b by metis
  note c = request_packet_carries[OF r len(1)]
  let ?pk = "\<lparr> np_len = n, np_port = np_port (body (q1 ! ?j)), np_data = p \<rparr>"
  show thesis
  proof (rule that)
    show "PollH2M_nic (cq cH) (cq cN) s = Some (InDone i (cq cH), put_msg ?j NET_MSG_PACKET ?pk q1, s\<lparr> mn_mem := b1, mn_net := b2 \<rparr>)"
      using ip X(2) al cN(3) r by (auto simp: PollH2M_nic_def ForwardToETH_def put_msg_def Let_def)
    show "OutAlloc (mn_ts s) (cq cN) (producer cN) = Some (Some ?j, q1, b2)" by (rule al)
    show "get_memop (np_data ?pk) = Some (op_of X)" "106 \<le> length (np_data ?pk)" using c len(3) b by (simp_all add: op_of_def)
    show "InType X = H2M_WRITE \<Longrightarrow> rd (np_data ?pk) off_data (unat (hm_len (body X))) = Some (take (unat (hm_len (body X))) (hm_data (body X)))"
      using c(2) by simp
    show "out_pos b1 = out_pos (mn_mem s)" "out_enum b1 = out_enum (mn_mem s)" by (rule InPoll_frame[OF ip(1)])+
  qed
qed

lemma netmem_answers:
  assumes cN: "chan_inv N cN" "held cN = None" "consumer cN = nm_if s" "length (rcvd cN) < length (sent cN)"
    "sync (consumer cN) \<longrightarrow> timestamp (sent cN ! length (rcvd cN)) \<le> nm_ts s"
    and rN: "chan_inv N rN" "held rN = None" "pend rN = None" "length (rcvd rN) = length (sent rN)" "producer rN = nm_if s"
    and Y: "Y = sent cN ! length (rcvd cN)" "InType Y = NET_MSG_PACKET" "get_memop (np_data (body Y)) = Some o1" "106 \<le> length (np_data (body Y))"
    and o1: "OpType o1 = H2M_READ \<or> OpType o1 = H2M_WRITE" "OpType o1 = H2M_WRITE \<longrightarrow> rd (np_data (body Y)) off_data (unat (mo_len o1)) = Some d"
      "length d = unat (mo_len o1)"
    and len: "length (nm_mac s) = 6" "106 + unat (mo_len o1) \<le> length (np_data (body (cq rN ! (length (sent rN) mod N))))"
      "unat (mo_addr o1) + unat (mo_len o1) \<le> length (nm_array s)"
  obtains qi qo s' Z where "PollN2M (cq cN) (cq rN) s = Some (qi, qo, s')"
    "nm_array s' = (if OpType o1 = H2M_READ then nm_array s else wr (unat (mo_addr o1)) d (nm_array s))"
    "chan_inv N (rN\<lparr> cq := qo, producer := nm_if s', sent := sent rN @ [Z] \<rparr>)" "InType Z = NET_MSG_PACKET"
    "timestamp Z = nm_ts s + link_latency (params (nm_if s))" "get_memop (np_data (body Z)) = Some (o1\<lparr> OpType := response_type (OpType o1) \<rparr>)"
    "OpType o1 = H2M_READ \<Longrightarrow> rd (np_data (body Z)) off_data (unat (mo_len o1)) = Some (take (unat (mo_len o1)) (drop (unat (mo_addr o1)) (nm_array s)))"
proof -
  obtain i b1 where ip: "InPoll (nm_ts s) (cq cN) (nm_if s) = Some (Some i, b1)" "cq cN ! i = Y"
    using chan_take_due[OF cN(1,2,4,5)] cN(3) Y(1) by metis
  let ?j = "length (sent rN) mod N" and ?r = "rN\<lparr> producer := b1 \<rparr>"
  have r: "chan_inv N ?r" by (rule chan_inv_producer[OF rN(1)]) (use InPoll_frame[OF ip(1)] rN(5) in simp_all)
  have pr: "pend ?r = None" using rN(3) by simp
  obtain q1 b2 where al: "OutAlloc (nm_ts s) (cq ?r) (producer ?r) = Some (Some ?j, q1, b2)" and b: "body (q1 ! ?j) = body (cq rN ! ?j)"
    using chan_room[OF r pr, of "nm_ts s"] quiet_room[OF rN(1,2,4)] by (auto simp: n_done_def)
  obtain n p where rp: "response_packet (np_data (body Y)) (nm_mac s) (nm_array s) (np_data (body (q1 ! ?j))) =
      Some ((n, p), if OpType o1 = H2M_READ then nm_array s else wr (unat (mo_addr o1)) d (nm_array s))"
    and p: "get_memop p = Some (o1\<lparr> OpType := response_type (OpType o1) \<rparr>)"
      "OpType o1 = H2M_READ \<Longrightarrow> rd p off_data (unat (mo_len o1)) = Some (take (unat (mo_len o1)) (drop (unat (mo_addr o1)) (nm_array s)))"
    using response_packet_carries[OF Y(3) o1(1) Y(4) o1(2,3) len(1) _ len(3), of "np_data (body (q1 ! ?j))"] len(2) b by metis
  let ?pk = "\<lparr> np_len = n, np_port = np_port (body (q1 ! ?j)), np_data = p \<rparr>"
  note put = chan_put(1,2)[OF r pr al refl, of NET_MSG_PACKET ?pk]
  show thesis
  proof (rule that)
    let ?s = "s\<lparr> nm_if := b2, nm_array := if OpType o1 = H2M_READ then nm_array s else wr (unat (mo_addr o1)) d (nm_array s) \<rparr>"
    show "PollN2M (cq cN) (cq rN) s = Some (InDone i (cq cN), put_msg ?j NET_MSG_PACKET ?pk q1, ?s)"
      using ip Y(2) al rp by (simp add: PollN2M_def HandleRequest_def put_msg_def Let_def)
    show "chan_inv N (rN\<lparr> cq := put_msg ?j NET_MSG_PACKET ?pk q1, producer := nm_if ?s, sent := sent rN @ [put_msg ?j NET_MSG_PACKET ?pk q1 ! ?j] \<rparr>)"
      using put(1) by simp
    show "InType (put_msg ?j NET_MSG_PACKET ?pk q1 ! ?j) = NET_MSG_PACKET" using put(2) msg_types(1) by simp
    show "timestamp (put_msg ?j NET_MSG_PACKET ?pk q1 ! ?j) = nm_ts s + link_latency (params (nm_if s))"
      using put(2) InPoll_frame(3)[OF ip(1)] by simp
  qed (use put(2) p in simp_all)
qed

lemma memnic_completes:
  assumes rN: "chan_inv N rN" "held rN = None" "consumer rN = mn_net s" "length (rcvd rN) < length (sent rN)"
    "sync (consumer rN) \<longrightarrow> timestamp (sent rN ! length (rcvd rN)) \<le> mn_ts s"
    and rH: "chan_inv N rH" "pend rH = None" "producer rH = mn_mem s" "length (sent rH) < n_done rH + N"
    and Z: "Z = sent rN ! length (rcvd rN)" "InType Z = NET_MSG_PACKET" "get_memop (np_data (body Z)) = Some o1"
    and rsp: "(OpType o1 = M2H_MSG_READCOMP \<and> rd (np_data (body Z)) off_data (unat (mo_len o1)) = Some d \<and> rsp = RData (mo_req_id o1) d) \<or>
      (OpType o1 = M2H_MSG_WRITECOMP \<and> rsp = RDone (mo_req_id o1))"
    and len: "unat (mo_len o1) \<le> length (mh_data (body (cq rH ! (length (sent rH) mod N))))"
  shows "\<exists>qi q s'. PollN2M_nic (cq rN) (cq rH) s = Some (qi, q, s') \<and> answers (q ! (length (sent rH) mod N)) rsp"
proof -
  obtain i b1 where ip: "InPoll (mn_ts s) (cq rN) (mn_net s) = Some (Some i, b1)" "cq rN ! i = Z"
    using chan_take_due[OF rN(1,2,4,5)] rN(3) Z(1) by metis
  let ?j = "length (sent rH) mod N"
  obtain q1 b2 where al: "OutAlloc (mn_ts s) (cq rH) (producer rH) = Some (Some ?j, q1, b2)" and b: "body (q1 ! ?j) = body (cq rH ! ?j)"
    using chan_room[OF rH(1,2,4), of "mn_ts s"] by metis
  have f: "fill_readcomp (mo_req_id o1) d ?j q1 = Some (q1[?j := (q1 ! ?j)\<lparr> body := \<lparr> mh_req_id = mo_req_id o1, mh_data = wr 0 d (mh_data (body (q1 ! ?j))) \<rparr> \<rparr>])"
    and ld: "length d \<le> length (mh_data (body (q1 ! ?j)))" if "rd (np_data (body Z)) off_data (unat (mo_len o1)) = Some d"
    using that len b by (auto simp: fill_readcomp_def rd_def split: if_splits)
  note put = chan_put(2)[OF rH(1,2) al refl]
  from rsp show ?thesis
  proof (elim disjE conjE)
    assume r: "OpType o1 = M2H_MSG_READCOMP" "rd (np_data (body Z)) off_data (unat (mo_len o1)) = Some d" "rsp = RData (mo_req_id o1) d"
    then have "PollN2M_nic (cq rN) (cq rH) s = Some (InDone i (cq rN),
        OutSend ?j M2H_MSG_READCOMP (q1[?j := (q1 ! ?j)\<lparr> body := \<lparr> mh_req_id = mo_req_id o1, mh_data = wr 0 d (mh_data (body (q1 ! ?j))) \<rparr> \<rparr>]),
        s\<lparr> mn_net := b1, mn_mem := b2 \<rparr>)"
      using ip Z(2,3) al rH(3) f by (simp add: PollN2M_nic_def ForwardToMEM_def Let_def)
    then show ?thesis unfolding sends_put(1)[OF f[OF r(2)]] using put r(3) ld[OF r(2)] by (auto simp: wr_take)
  next
    assume r: "OpType o1 = M2H_MSG_WRITECOMP" "rsp = RDone (mo_req_id o1)"
    then have "PollN2M_nic (cq rN) (cq rH) s = Some (InDone i (cq rN), OutSend ?j M2H_MSG_WRITECOMP (fill_writecomp (mo_req_id o1) ?j q1),
        s\<lparr> mn_net := b1, mn_mem := b2 \<rparr>)"
      using ip Z(2,3) al rH(3) by (simp add: PollN2M_nic_def ForwardToMEM_def Let_def)
    then show ?thesis unfolding sends_put(2) using put r(2) by auto
  qed
qed

text \<open>
  One access: the adapter polls its host, the server polls the network, the adapter polls the
  network. The network between them delivers the packets as they are.
\<close>

definition remote_access :: "u64 \<Rightarrow> u64 \<Rightarrow> MemNic \<Rightarrow> NetMem \<Rightarrow> h2m_queue \<Rightarrow> net_queue \<Rightarrow> net_queue \<Rightarrow> m2h_queue \<Rightarrow> (m2h_queue \<times> NetMem \<times> MemNic) option" where
  "remote_access t1 t2 s nm qh qn qr qc = do {
     (_, q1, s1) \<leftarrow> PollH2M_nic qh qn s;
     (_, q2, nm1) \<leftarrow> PollN2M q1 qr (nm\<lparr> nm_ts := t1 \<rparr>);
     (_, q3, s2) \<leftarrow> PollN2M_nic q2 qc (s1\<lparr> mn_ts := t2 \<rparr>);
     Some (q3, nm1, s2) }"

definition wired_net :: "nat \<Rightarrow> MemNic \<Rightarrow> NetMem \<Rightarrow> H2MMsg chan \<Rightarrow> NetPacket chan \<Rightarrow> NetPacket chan \<Rightarrow> M2HMsg chan \<Rightarrow> bool" where
  "wired_net N s nm cH cN rN rH = (chan_inv N cH \<and> chan_inv N cN \<and> chan_inv N rN \<and> chan_inv N rH \<and>
     held cH = None \<and> held cN = None \<and> held rN = None \<and> held rH = None \<and> pend cN = None \<and> pend rN = None \<and> pend rH = None \<and>
     consumer cH = mn_mem s \<and> producer cN = mn_net s \<and> consumer cN = nm_if nm \<and> producer rN = nm_if nm \<and> consumer rN = mn_net s \<and>
     producer rH = mn_mem s \<and> length (mn_mac s) = 6 \<and> length (nm_mac nm) = 6 \<and>
     length (rcvd cH) < length (sent cH) \<and> length (rcvd cN) = length (sent cN) \<and> length (rcvd rN) = length (sent rN) \<and>
     length (rcvd rH) = length (sent rH))"

definition net_fits :: "nat \<Rightarrow> nat \<Rightarrow> H2MMsg BaseMsg \<Rightarrow> NetPacket chan \<Rightarrow> NetPacket chan \<Rightarrow> M2HMsg chan \<Rightarrow> bool" where
  "net_fits N n X cN rN rH = (n \<le> length (hm_data (body X)) \<and> 106 + n \<le> length (np_data (body (cq cN ! (length (sent cN) mod N)))) \<and>
     106 + n \<le> length (np_data (body (cq rN ! (length (sent rN) mod N)))) \<and> n \<le> length (mh_data (body (cq rH ! (length (sent rH) mod N)))))"

text \<open>The way of a request to the server, and what the server sends back.\<close>

lemma request_reaches_server:
  assumes w: "wired_net N s nm cH cN rN rH" and X: "X = sent cH ! length (rcvd cH)" "InType X = H2M_READ \<or> InType X = H2M_WRITE"
    and due: "sync (consumer cH) \<longrightarrow> timestamp X \<le> mn_ts s" and fits: "net_fits N (unat (hm_len (body X))) X cN rN rH"
      "unat (hm_addr (body X)) + unat (hm_len (body X)) \<le> length (nm_array nm)"
    and times: "sync (nm_if nm) \<longrightarrow> mn_ts s + link_latency (params (mn_net s)) \<le> t1"
  obtains qi q1 qd qo nm' Z b1 b2 where "PollH2M_nic (cq cH) (cq cN) s = Some (qi, q1, s\<lparr> mn_mem := b1, mn_net := b2 \<rparr>)"
    "PollN2M q1 (cq rN) (nm\<lparr> nm_ts := t1 \<rparr>) = Some (qd, qo, nm')"
    "nm_array nm' = (if InType X = H2M_READ then nm_array nm else wr (unat (hm_addr (body X))) (take (unat (hm_len (body X))) (hm_data (body X))) (nm_array nm))"
    "chan_inv N (rN\<lparr> cq := qo, producer := nm_if nm', sent := sent rN @ [Z] \<rparr>)" "InType Z = NET_MSG_PACKET"
    "timestamp Z = t1 + link_latency (params (nm_if nm))" "get_memop (np_data (body Z)) = Some ((op_of X)\<lparr> OpType := response_type (InType X) \<rparr>)"
    "InType X = H2M_READ \<Longrightarrow> rd (np_data (body Z)) off_data (unat (hm_len (body X))) = Some (take (unat (hm_len (body X))) (drop (unat (hm_addr (body X))) (nm_array nm)))"
    "out_pos b1 = out_pos (mn_mem s)" "out_enum b1 = out_enum (mn_mem s)"
    "in_pos b2 = in_pos (mn_net s)" "in_enum b2 = in_enum (mn_net s)" "sync b2 = sync (mn_net s)"
proof -
  have cH: "chan_inv N cH" "held cH = None" "consumer cH = mn_mem s" "length (rcvd cH) < length (sent cH)"
    and cN: "chan_inv N cN" "held cN = None" "pend cN = None" "length (rcvd cN) = length (sent cN)" "producer cN = mn_net s" "consumer cN = nm_if nm"
    and rN: "chan_inv N rN" "held rN = None" "pend rN = None" "length (rcvd rN) = length (sent rN)" "producer rN = nm_if nm" "consumer rN = mn_net s"
    and rH: "chan_inv N rH" "held rH = None" "pend rH = None" "length (rcvd rH) = length (sent rH)" "producer rH = mn_mem s"
    and mac: "length (mn_mac s) = 6" "length (nm_mac nm) = 6"
    using w unfolding wired_net_def by blast+
  let ?x = "body X" and ?d = "take (unat (hm_len (body X))) (hm_data (body X))" and ?nm = "nm\<lparr> nm_ts := t1 \<rparr>"
  have F: "unat (hm_len ?x) \<le> length (hm_data ?x)" "106 + unat (hm_len ?x) \<le> length (np_data (body (cq cN ! (length (sent cN) mod N))))"
    "106 + unat (hm_len ?x) \<le> length (np_data (body (cq rN ! (length (sent rN) mod N))))" "unat (hm_len ?x) \<le> length (mh_data (body (cq rH ! (length (sent rH) mod N))))"
    using fits(1) unfolding net_fits_def by blast+
  obtain qi j q1 b1 b2 pk where p1: "PollH2M_nic (cq cH) (cq cN) s = Some (qi, put_msg j NET_MSG_PACKET pk q1, s\<lparr> mn_mem := b1, mn_net := b2 \<rparr>)"
    and al: "OutAlloc (mn_ts s) (cq cN) (producer cN) = Some (Some j, q1, b2)" and pk: "get_memop (np_data pk) = Some (op_of X)" "106 \<le> length (np_data pk)"
      "InType X = H2M_WRITE \<Longrightarrow> rd (np_data pk) off_data (unat (hm_len ?x)) = Some ?d"
    and b1: "out_pos b1 = out_pos (mn_mem s)" "out_enum b1 = out_enum (mn_mem s)"
    by (rule memnic_sends[OF cH due[unfolded X(1)] cN(1,3,5) quiet_room[OF cN(1,2,4)] X mac(1) F(1,2)], rule that)
  note put = chan_put(1,2)[OF cN(1,3) al refl, of NET_MSG_PACKET pk]
  let ?cN = "cN\<lparr> cq := put_msg j NET_MSG_PACKET pk q1, producer := b2, sent := sent cN @ [put_msg j NET_MSG_PACKET pk q1 ! j] \<rparr>"
  have Y: "sent ?cN ! length (rcvd ?cN) = put_msg j NET_MSG_PACKET pk q1 ! j" "length (rcvd ?cN) < length (sent ?cN)" using cN(4) by simp_all
  have W: "OpType (op_of X) = H2M_WRITE \<longrightarrow> rd (np_data (body (put_msg j NET_MSG_PACKET pk q1 ! j))) off_data (unat (mo_len (op_of X))) = Some ?d"
    using pk(3) put(2) by (simp add: op_of_def)
  have a: "held ?cN = None" "consumer ?cN = nm_if ?nm" "sync (consumer ?cN) \<longrightarrow> timestamp (sent ?cN ! length (rcvd ?cN)) \<le> nm_ts ?nm"
    "producer rN = nm_if ?nm" "InType (put_msg j NET_MSG_PACKET pk q1 ! j) = NET_MSG_PACKET"
    "get_memop (np_data (body (put_msg j NET_MSG_PACKET pk q1 ! j))) = Some (op_of X)" "106 \<le> length (np_data (body (put_msg j NET_MSG_PACKET pk q1 ! j)))"
    "OpType (op_of X) = H2M_READ \<or> OpType (op_of X) = H2M_WRITE" "length ?d = unat (mo_len (op_of X))" "length (nm_mac ?nm) = 6"
    "106 + unat (mo_len (op_of X)) \<le> length (np_data (body (cq rN ! (length (sent rN) mod N))))"
    "unat (mo_addr (op_of X)) + unat (mo_len (op_of X)) \<le> length (nm_array ?nm)"
    using cN rN put(2) times pk X(2) mac F fits msg_types(1) by (simp_all only: Y(1)) (simp_all add: op_of_def)
  obtain qd qo nm' Z where p2: "PollN2M (cq ?cN) (cq rN) ?nm = Some (qd, qo, nm')"
    and n: "nm_array nm' = (if OpType (op_of X) = H2M_READ then nm_array ?nm else wr (unat (mo_addr (op_of X))) ?d (nm_array ?nm))"
    and Z: "chan_inv N (rN\<lparr> cq := qo, producer := nm_if nm', sent := sent rN @ [Z] \<rparr>)" "InType Z = NET_MSG_PACKET"
      "timestamp Z = nm_ts ?nm + link_latency (params (nm_if ?nm))" "get_memop (np_data (body Z)) = Some ((op_of X)\<lparr> OpType := response_type (OpType (op_of X)) \<rparr>)"
      "OpType (op_of X) = H2M_READ \<Longrightarrow> rd (np_data (body Z)) off_data (unat (mo_len (op_of X))) =
        Some (take (unat (mo_len (op_of X))) (drop (unat (mo_addr (op_of X))) (nm_array ?nm)))"
    by (rule netmem_answers[OF put(1) a(1,2) Y(2) a(3) rN(1-4) a(4) Y(1)[symmetric] a(5-8) W a(9-12)], rule that)
  show thesis
    by (rule that[OF p1 _ _ Z(1,2) _ _ _ b1 OutAlloc_frame(1,2,4)[OF al[unfolded cN(5)]]]) (use p2 n Z in \<open>simp_all add: op_of_def\<close>)
qed

text \<open>
  C11. Memory over the network. One read or write of a host, in range of the server's memory, on
  connections that are wired from host to adapter to server and back, with nothing else in flight,
  with room at every hop and with every message due when it is polled: the adapter and the memory
  server complete it at the host, under its identifier, with the result and the effect of the same
  access to the server's memory. Without room for the response the server loses the request
  (\<open>netmem_request_lost\<close>).
\<close>

theorem remote_memory_access:
  assumes w: "wired_net N s nm cH cN rN rH" and X: "X = sent cH ! length (rcvd cH)" "InType X = H2M_READ \<or> InType X = H2M_WRITE"
    and due: "sync (consumer cH) \<longrightarrow> timestamp X \<le> mn_ts s" and fits: "net_fits N (unat (hm_len (body X))) X cN rN rH"
      "unat (hm_addr (body X)) + unat (hm_len (body X)) \<le> length (nm_array nm)"
    and times: "sync (nm_if nm) \<longrightarrow> mn_ts s + link_latency (params (mn_net s)) \<le> t1"
      "sync (mn_net s) \<longrightarrow> t1 + link_latency (params (nm_if nm)) \<le> t2"
  shows "\<exists>q nm' s' rsp. remote_access t1 t2 s nm (cq cH) (cq cN) (cq rN) (cq rH) = Some (q, nm', s') \<and>
    serve (req_of X) (nm_array nm) = (nm_array nm', [rsp]) \<and> answers (q ! (length (sent rH) mod N)) rsp"
proof -
  let ?x = "body X" and ?d = "take (unat (hm_len (body X))) (hm_data (body X))" and ?o = "(op_of X)\<lparr> OpType := response_type (InType X) \<rparr>"
  obtain qi q1 qd qo nm' Z b1 b2 where p: "PollH2M_nic (cq cH) (cq cN) s = Some (qi, q1, s\<lparr> mn_mem := b1, mn_net := b2 \<rparr>)"
    "PollN2M q1 (cq rN) (nm\<lparr> nm_ts := t1 \<rparr>) = Some (qd, qo, nm')"
    and n: "nm_array nm' = (if InType X = H2M_READ then nm_array nm else wr (unat (hm_addr ?x)) ?d (nm_array nm))"
    and Z: "chan_inv N (rN\<lparr> cq := qo, producer := nm_if nm', sent := sent rN @ [Z] \<rparr>)" "InType Z = NET_MSG_PACKET"
      "timestamp Z = t1 + link_latency (params (nm_if nm))" "get_memop (np_data (body Z)) = Some ?o"
      "InType X = H2M_READ \<Longrightarrow> rd (np_data (body Z)) off_data (unat (hm_len ?x)) = Some (take (unat (hm_len ?x)) (drop (unat (hm_addr ?x)) (nm_array nm)))"
    and b: "out_pos b1 = out_pos (mn_mem s)" "out_enum b1 = out_enum (mn_mem s)" "in_pos b2 = in_pos (mn_net s)" "in_enum b2 = in_enum (mn_net s)"
      "sync b2 = sync (mn_net s)"
    by (rule request_reaches_server[OF w X due fits times(1)], rule that)
  have rN: "held rN = None" "length (rcvd rN) = length (sent rN)" "consumer rN = mn_net s"
    and rH: "chan_inv N rH" "held rH = None" "pend rH = None" "length (rcvd rH) = length (sent rH)" "producer rH = mn_mem s"
    using w unfolding wired_net_def by blast+
  let ?r = "if InType X = H2M_READ then RData (hm_req_id ?x) (take (unat (hm_len ?x)) (drop (unat (hm_addr ?x)) (nm_array nm))) else RDone (hm_req_id ?x)"
  let ?rN = "rN\<lparr> cq := qo, producer := nm_if nm', sent := sent rN @ [Z], consumer := b2 \<rparr>" and ?rH = "rH\<lparr> producer := b1 \<rparr>"
    and ?s = "s\<lparr> mn_mem := b1, mn_net := b2, mn_ts := t2 \<rparr>"
  have cR: "chan_inv N ?rN" using chan_inv_consumer[OF Z(1), of b2] b(3,4) rN(3) by simp
  have cH: "chan_inv N ?rH" by (rule chan_inv_producer[OF rH(1)]) (use b rH(5) in simp_all)
  have Zn: "Z = sent ?rN ! length (rcvd ?rN)" "length (rcvd ?rN) < length (sent ?rN)" using rN(2) by simp_all
  have "\<exists>qi q s'. PollN2M_nic (cq ?rN) (cq ?rH) ?s = Some (qi, q, s') \<and> answers (q ! (length (sent ?rH) mod N)) ?r"
  proof (rule memnic_completes[OF cR _ _ Zn(2) _ cH _ _ _ Zn(1) Z(2,4)])
    show "length (sent ?rH) < n_done ?rH + N" using quiet_room[OF cH] rH by simp
  qed (use rN rH Zn(1)[symmetric] Z(3,5) times(2) b X(2) fits(1) in \<open>auto simp: op_of_def response_type_def net_fits_def\<close>)
  then obtain q3 q s' where "PollN2M_nic qo (cq rH) ?s = Some (q3, q, s')" "answers (q ! (length (sent rH) mod N)) ?r" by auto
  moreover have "serve (req_of X) (nm_array nm) = (nm_array nm', [?r])" using X(2) n by (auto simp: req_of_def Let_def)
  ultimately show ?thesis using p by (auto simp: remote_access_def)
qed

definition demo_memnic :: MemNic where
  "demo_memnic = \<lparr> mn_mem = demo_if, mn_net = demo_if, mn_mac = [1, 2, 3, 4, 5, 6], mn_ts = 500000 \<rparr>"

definition demo_server :: NetMem where
  "demo_server = \<lparr> nm_array = [1, 2, 3, 4], nm_if = demo_if, nm_mac = [6, 5, 4, 3, 2, 1], nm_ts = 0 \<rparr>"

definition demo_lan :: "NetPacket chan" where
  "demo_lan = demo_net_chan\<lparr> cq := replicate 2 \<lparr> body = \<lparr> np_len = 0, np_port = 0, np_data = replicate 110 0 \<rparr>, timestamp = 0, own_type = 0 \<rparr> \<rparr>"

theorem remote_memory_access_witness:
  "\<exists>q nm' s'. remote_access 1000000 1500000 demo_memnic demo_server (cq (demo_cH 1)) (cq demo_lan) (cq demo_lan) (cq (ms_rsp demo_mem0)) =
     Some (q, nm', s') \<and> answers (q ! 0) (RData 5 [2, 3])"
proof -
  have "chan_init 2 demo_lan"
    by (simp add: chan_init_def demo_lan_def demo_net_chan_def demo_if_def pro_def SimbricksBaseIfInit_def demo_params_def DefaultParams_def)
  then have l: "chan_inv 2 demo_lan" by (rule chan_inv_init)
  have s: "length (sent (demo_cH 1)) = 1" by code_simp
  have c: "consumer (demo_cH 1) = demo_if" "held (demo_cH 1) = None" "rcvd (demo_cH 1) = []"
    by (simp_all add: demo_cH_def demo_mem0_def Let_def split: option.splits)
  have w: "wired_net 2 demo_memnic demo_server (demo_cH 1) demo_lan demo_lan (ms_rsp demo_mem0)"
    using l s c demo_chans(1,2) demo_chans(3)[of 1] unfolding wired_net_def
    by (simp add: demo_memnic_def demo_server_def) (simp add: demo_mem0_def demo_lan_def demo_net_chan_def)
  define X where X: "X = sent (demo_cH 1) ! length (rcvd (demo_cH 1))"
  have x: "body X = demo_read 1" "timestamp X = 500000" "InType X = H2M_READ" unfolding X by code_simp+
  have lat: "link_latency (params demo_if) = 500000" by code_simp
  have fits: "net_fits 2 (unat (hm_len (body X))) X demo_lan demo_lan (ms_rsp demo_mem0)"
    unfolding x(1) net_fits_def by (simp add: x(1) demo_read_def demo_lan_def demo_net_chan_def demo_mem0_def)
  have rq: "req_of X = MRead 5 1 2" by (simp add: req_of_def Let_def x demo_read_def)
  from remote_memory_access[OF w X, of 1000000 1500000] x fits lat
  obtain q nm' s' rsp where "remote_access 1000000 1500000 demo_memnic demo_server (cq (demo_cH 1)) (cq demo_lan) (cq demo_lan) (cq (ms_rsp demo_mem0)) =
     Some (q, nm', s')" "serve (req_of X) (nm_array demo_server) = (nm_array nm', [rsp])" "answers (q ! (length (sent (ms_rsp demo_mem0)) mod 2)) rsp"
    by (auto simp: demo_memnic_def demo_server_def demo_read_def)
  then show ?thesis by (auto simp: rq demo_server_def demo_mem0_def)
qed

text \<open>
  How requests get lost. The server takes a request from its queue when no response slot is free and
  neither serves nor releases it. The adapter takes a slot for a response it does not know and never
  sends it, so that its host waits at this slot for ever. A posted write of the host is taken and
  dropped.
\<close>

theorem netmem_request_lost:
  assumes "InPoll (nm_ts s) qi (nm_if s) = Some (Some i, b1)" "InType (qi ! i) = NET_MSG_PACKET" "OutAlloc (nm_ts s) qo b1 = Some (None, qo, b2)"
  shows "PollN2M qi qo s = Some (qi, qo, s\<lparr> nm_if := b2 \<rparr>)"
  using assms by (simp add: PollN2M_def HandleRequest_def)

theorem memnic_slot_leaks:
  assumes "OutAlloc (mn_ts s) q (mn_mem s) = Some (Some j, q1, b1)" "get_memop (np_data pk) = Some o1"
    "OpType o1 \<noteq> M2H_MSG_READCOMP" "OpType o1 \<noteq> M2H_MSG_WRITECOMP"
  shows "ForwardToMEM q pk s = Some (q1, s\<lparr> mn_mem := b1 \<rparr>) \<and> own_type (q1 ! j) = own_type (q ! j)"
  using assms by (auto simp: ForwardToMEM_def OutAlloc_def slot_def bind_eq_Some_conv split: if_splits)

theorem posted_write_dropped:
  assumes "InPoll (mn_ts s) qi (mn_mem s) = Some (Some i, b1)" "InType (qi ! i) = H2M_WRITE_POSTED"
  shows "PollH2M_nic qi qo s = Some (InDone i qi, qo, s\<lparr> mn_mem := b1 \<rparr>)"
  using assms by (simp add: PollH2M_nic_def)

end
