(* ===== verification/Net_Switch_Safety.thy ===== *)
theory Net_Switch_Safety
  imports Net_Switch Net_Mem_Safety
begin

text \<open>
  Correctness of the learning switch while the keys of its table stay intact: it remembers the port
  on which each address was last seen and sends packets accordingly; and what breaks it.
\<close>

section \<open>The table as a map\<close>

lemma mac_map_Cons: "mac_map (e # t) = (mac_map t)(me_mac e \<mapsto> me_port e)"
  by (simp add: mac_map_def)

lemma mac_map_update:
  "mac_map (map (\<lambda>e. if me_mac e = mac then e\<lparr> me_port := k \<rparr> else e) t) x =
     (if x = mac \<and> mac_map t mac \<noteq> None then Some k else mac_map t x)"
  by (induction t) (auto simp: mac_map_Cons mac_map_def)

lemma mac_learn_map:
  assumes "mac_learn qs key mac k t = Some t'"
  shows "mac_map t' = (mac_map t)(mac \<mapsto> k)"
proof (cases "mac_map t mac")
  case None
  with assms have "t' = \<lparr> me_key = key, me_mac = mac, me_port = k \<rparr> # t" by (simp add: mac_learn_def split: if_splits)
  then show ?thesis by (simp add: mac_map_Cons)
next
  case (Some y)
  with assms have "t' = map (\<lambda>e. if me_mac e = mac then e\<lparr> me_port := k \<rparr> else e) t" by (simp add: mac_learn_def split: if_splits)
  with Some mac_map_update[of mac k t] show ?thesis by (auto simp: fun_eq_iff)
qed

section \<open>Forwarding\<close>

lemma forward_pkt_frame:
  assumes "forward_pkt pk k outs s = Some ((k', ok, q), s')"
  shows "k' = k" "mac_tab s' = mac_tab s" "length (sw_ports s') = length (sw_ports s)"
  using assms by (auto simp: forward_pkt_def bind_eq_Some_conv split: if_splits)

lemma forward_all_ports:
  assumes "forward_all pk ks outs s = Some (os, s')"
  shows "map fst os = ks" "mac_tab s' = mac_tab s" "length (sw_ports s') = length (sw_ports s)"
proof -
  have "map fst os = ks \<and> mac_tab s' = mac_tab s \<and> length (sw_ports s') = length (sw_ports s)" using assms
  proof (induction ks arbitrary: s os)
    case (Cons k ks)
    then obtain o1 s1 os1 where o1: "forward_pkt pk k outs s = Some (o1, s1)" "forward_all pk ks outs s1 = Some (os1, s')" "os = o1 # os1"
      by (auto simp: bind_eq_Some_conv)
    from Cons.IH[OF o1(2)] forward_pkt_frame[of pk k outs s "fst o1" "fst (snd o1)" "snd (snd o1)" s1] o1 show ?case by simp
  qed simp
  then show "map fst os = ks" "mac_tab s' = mac_tab s" "length (sw_ports s') = length (sw_ports s)" by blast+
qed

text \<open>The packet that a poll of a port finds.\<close>

definition received :: "nat \<Rightarrow> (nat \<Rightarrow> net_queue) \<Rightarrow> Switch \<Rightarrow> NetPacket option" where
  "received iport qs s = (case InPoll (sw_ts s) (qs iport) (netif (sw_ports s ! iport)) of
       Some (Some i, _) \<Rightarrow> if InType (qs iport ! i) = NET_MSG_PACKET then Some (body (qs iport ! i)) else None
     | _ \<Rightarrow> None)"

definition src_of :: "NetPacket \<Rightarrow> bytes" where "src_of pk = take 6 (drop 6 (np_data pk))"
definition dst_of :: "NetPacket \<Rightarrow> bytes" where "dst_of pk = take 6 (np_data pk)"

lemma switch_pkt_cases:
  assumes "switch_pkt iport qs outs s = Some (q', os, s')"
  shows "length (sw_ports s') = length (sw_ports s) \<and> (case received iport qs s of
      None \<Rightarrow> mac_tab s' = mac_tab s \<and> os = []
    | Some pk \<Rightarrow> mac_map (mac_tab s') = (if src_of pk = bcast_addr then mac_map (mac_tab s) else (mac_map (mac_tab s))(src_of pk \<mapsto> iport)) \<and>
        map fst os = egress (length (sw_ports s)) iport (mac_map (mac_tab s') (dst_of pk)))"
proof -
  obtain r b where ip: "InPoll (sw_ts s) (qs iport) (netif (sw_ports s ! iport)) = Some (r, b)"
    using assms by (auto simp: switch_pkt_def sw_RxPacket_def bind_eq_Some_conv split: if_splits)
  let ?s = "s\<lparr> sw_ports := (sw_ports s)[iport := (sw_ports s ! iport)\<lparr> netif := b, rx := r \<rparr>] \<rparr>"
  show ?thesis
  proof (cases "received iport qs s")
    case None
    then show ?thesis using assms ip
      by (auto simp: received_def switch_pkt_def sw_RxPacket_def bind_eq_Some_conv split: if_splits option.splits)
  next
    case (Some pk)
    then obtain i where i: "r = Some i" "InType (qs iport ! i) = NET_MSG_PACKET" "pk = body (qs iport ! i)"
      using ip by (auto simp: received_def split: option.splits if_splits)
    with assms ip obtain t1 s2 where l: "12 \<le> length (np_data pk)"
      and t1: "(if src_of pk \<noteq> bcast_addr then mac_learn qs (InSlot iport i) (src_of pk) iport (mac_tab s) else Some (mac_tab s)) = Some t1"
      and f: "forward_all pk (egress (length (sw_ports s)) iport (mac_map t1 (dst_of pk))) outs (?s\<lparr> mac_tab := t1 \<rparr>) = Some (os, s2)"
      and s': "mac_tab s' = mac_tab s2" "length (sw_ports s') = length (sw_ports s2)"
      by (cases "src_of pk = bcast_addr")
        (auto simp: switch_pkt_def sw_RxPacket_def mac_find_def rd_def src_of_def dst_of_def Let_def bind_eq_Some_conv split: if_splits)
    have "mac_map t1 = (if src_of pk = bcast_addr then mac_map (mac_tab s) else (mac_map (mac_tab s))(src_of pk \<mapsto> iport))"
      using t1 mac_learn_map by (auto split: if_splits)
    with forward_all_ports[OF f] s' Some show ?thesis by simp
  qed
qed

section \<open>Learning\<close>

text \<open>A run with the addresses seen so far, the most recent first, each with its port.\<close>

record sw_run =
  sw_state :: Switch
  seen :: "(bytes \<times> nat) list"

definition note_packet :: "nat \<Rightarrow> NetPacket option \<Rightarrow> (bytes \<times> nat) list \<Rightarrow> (bytes \<times> nat) list" where
  "note_packet iport pk h = (case pk of Some p \<Rightarrow> if src_of p = bcast_addr then h else (src_of p, iport) # h | None \<Rightarrow> h)"

inductive lan_step :: "sw_run \<Rightarrow> sw_run \<Rightarrow> bool" where
  packet: "switch_pkt iport qs outs (sw_state r) = Some (q', os, s') \<Longrightarrow>
    lan_step r \<lparr> sw_state = s', seen = note_packet iport (received iport qs (sw_state r)) (seen r) \<rparr>"
| time: "lan_step r (r\<lparr> sw_state := (sw_state r)\<lparr> sw_ts := t \<rparr> \<rparr>)"
| synchronize: "length ps = length (sw_ports (sw_state r)) \<Longrightarrow> lan_step r (r\<lparr> sw_state := (sw_state r)\<lparr> sw_ports := ps \<rparr> \<rparr>)"

lemma lan_step_learns:
  assumes "lan_step r r'" "mac_map (mac_tab (sw_state r)) = map_of (seen r)"
  shows "mac_map (mac_tab (sw_state r')) = map_of (seen r') \<and> length (sw_ports (sw_state r')) = length (sw_ports (sw_state r))"
  using assms
proof cases
  case (packet iport qs outs q' os s')
  from switch_pkt_cases[OF packet(2)] assms(2) show ?thesis
    by (auto simp: packet(1) note_packet_def split: option.splits if_splits)
qed auto

lemma sw_run_learns:
  "lan_step\<^sup>*\<^sup>* r r' \<Longrightarrow> mac_map (mac_tab (sw_state r)) = map_of (seen r) \<Longrightarrow>
     mac_map (mac_tab (sw_state r')) = map_of (seen r') \<and> length (sw_ports (sw_state r')) = length (sw_ports (sw_state r))"
  by (induction rule: rtranclp_induct) (auto dest: lan_step_learns)

text \<open>
  C20. The learning switch. In every run from an empty table, a packet leaves on exactly one port,
  the one on which its destination was last seen as a source, and on none if that is the port it
  came from; a packet to an address that was never seen leaves on every port but the one it came
  from. The source of the packet itself counts as seen, unless it is the reserved address.
\<close>

theorem switch_forwards_learned:
  assumes "mac_tab (sw_state r0) = []" "seen r0 = []" "lan_step\<^sup>*\<^sup>* r0 r"
    "switch_pkt iport qs outs (sw_state r) = Some (q', os, s')" "received iport qs (sw_state r) = Some pk"
  shows "map fst os = (case map_of (note_packet iport (Some pk) (seen r)) (dst_of pk) of
      Some e \<Rightarrow> if e \<noteq> iport then [e] else []
    | None \<Rightarrow> filter (\<lambda>e. e \<noteq> iport) [0..<length (sw_ports (sw_state r0))])"
proof -
  have "mac_map (mac_tab (sw_state r0)) = map_of (seen r0)" using assms(1,2) by (simp add: mac_map_def)
  from sw_run_learns[OF assms(3) this] switch_pkt_cases[OF assms(4)] assms(5) show ?thesis
    by (auto simp: note_packet_def egress_def split: option.splits)
qed

definition demo_frame :: "bytes \<Rightarrow> bytes \<Rightarrow> NetPacket BaseMsg" where
  "demo_frame dst src = \<lparr> body = \<lparr> np_len = 12, np_port = 0, np_data = dst @ src \<rparr>, timestamp = 0, own_type = NET_MSG_PACKET OR MSG_OWN_CON \<rparr>"

definition demo_out :: net_queue where
  "demo_out = replicate 2 \<lparr> body = \<lparr> np_len = 0, np_port = 0, np_data = replicate 12 0 \<rparr>, timestamp = 0, own_type = 0 \<rparr>"

definition demo_lan :: Switch where
  "demo_lan = \<lparr> sw_ports = replicate 3 demo_port, mac_tab = [], sw_ts = 0 \<rparr>"

definition demo_A :: bytes where "demo_A = [2, 0, 0, 0, 0, 1]"
definition demo_B :: bytes where "demo_B = [2, 0, 0, 0, 0, 2]"

definition demo_views :: "nat \<Rightarrow> net_queue" where
  "demo_views k = (if k = 0 then [demo_frame demo_B demo_A, demo_frame demo_B demo_A] else [demo_frame demo_A demo_B, demo_frame demo_A demo_B])"

definition demo_learned :: Switch where
  "demo_learned = (case switch_pkt 0 demo_views (\<lambda>_. (demo_out, [])) demo_lan of Some (_, _, s) \<Rightarrow> s | None \<Rightarrow> demo_lan)"

theorem switch_forwards_learned_witness:
  "\<exists>q' os s'. switch_pkt 1 demo_views (\<lambda>_. (demo_out, [])) demo_learned = Some (q', os, s') \<and> map fst os = [0]"
proof -
  let ?start = "\<lparr> sw_state = demo_lan, seen = [] \<rparr>" and ?next = "\<lparr> sw_state = demo_learned, seen = [(demo_A, 0)] \<rparr>"
  have "switch_pkt 0 demo_views (\<lambda>_. (demo_out, [])) demo_lan \<noteq> None" by code_simp
  then obtain q os where p: "switch_pkt 0 demo_views (\<lambda>_. (demo_out, [])) demo_lan = Some (q, os, demo_learned)"
    by (auto simp: demo_learned_def)
  have "note_packet 0 (received 0 demo_views demo_lan) [] = [(demo_A, 0)]" by code_simp
  then have "lan_step ?start ?next" using lan_step.packet[of 0 demo_views "\<lambda>_. (demo_out, [])" ?start] p by simp
  then have run: "lan_step\<^sup>*\<^sup>* ?start ?next" by simp
  have "switch_pkt 1 demo_views (\<lambda>_. (demo_out, [])) demo_learned \<noteq> None" by code_simp
  then obtain q' os' s' where p': "switch_pkt 1 demo_views (\<lambda>_. (demo_out, [])) demo_learned = Some (q', os', s')" by auto
  have rc: "received 1 demo_views demo_learned = Some \<lparr> np_len = 12, np_port = 0, np_data = demo_A @ demo_B \<rparr>" by code_simp
  have f: "map_of (note_packet 1 (Some \<lparr> np_len = 12, np_port = 0, np_data = demo_A @ demo_B \<rparr>) [(demo_A, 0)])
      (dst_of \<lparr> np_len = 12, np_port = 0, np_data = demo_A @ demo_B \<rparr>) = Some 0" by code_simp
  from switch_forwards_learned[of ?start ?next 1 demo_views "\<lambda>_. (demo_out, [])" q' os' s'] run p' rc f show ?thesis
    by (auto simp: demo_lan_def)
qed

section \<open>What breaks the switch\<close>

text \<open>
  A learned key lies in the slot of the packet it was learned from. Once another packet with another
  source is in this slot, the next packet that is received makes the switch use a table whose key
  has changed.
\<close>

theorem learned_key_changes:
  assumes "e \<in> set (mac_tab s)" "me_key e = InSlot k i" "i < length (qs k)" "rd (np_data (body (qs k ! i))) 6 6 \<noteq> Some (me_mac e)"
    "received iport qs s = Some pk" "src_of pk \<noteq> bcast_addr"
  shows "switch_pkt iport qs outs s = None"
proof -
  have "\<not> keys_intact qs (mac_tab s)" using assms(1-4) by (auto simp: keys_intact_def key_bytes_at_def list_all_iff intro!: bexI[OF _ assms(1)])
  then have "mac_learn qs key mac iport (mac_tab s) = None" for key mac by (simp add: mac_learn_def)
  with assms(5,6) show ?thesis
    by (auto simp: switch_pkt_def sw_RxPacket_def received_def src_of_def rd_def Let_def split: option.splits if_splits)
qed

text \<open>
  The switch never asks its ports whether their connection is synchronized. A port whose peer does
  not synchronize keeps the timestamp zero, so that a round never ends after the present time.
\<close>

theorem unsynchronized_port_stalls:
  assumes "InPoll (sw_ts s) (qs k) (netif (sw_ports s ! k)) = Some (None, b)" "rx (sw_ports s ! k) = None" "in_timestamp b = 0"
    "port_sync (sw_ports s ! k)" "k < length (sw_ports s)"
  shows "\<exists>s'. switch_ports [(qs, outs)] k UINT64_MAX s = Some (0, s') \<and> sw_ts s' = sw_ts s"
  using assms by (simp add: switch_pkt_def sw_RxPacket_def NextTimestamp_def)

text \<open>The flag of a port is that of the command line, whatever the connection negotiated.\<close>

lemma Prepare_port_sync: "Prepare ps e p = Some (ok, p1) \<Longrightarrow> port_sync p1 = port_sync p"
  by (auto simp: Prepare_def NetPort_init_def bind_eq_Some_conv split: option.splits if_splits prod.splits)

lemma Prepare_listen_port_sync: "Prepare_listen ps a b c e pool p = Some (ok, pool1, p1) \<Longrightarrow> port_sync p1 = port_sync p"
  by (auto simp: Prepare_listen_def NetPort_init_def bind_eq_Some_conv split: option.splits if_splits prod.splits)

lemma prepare_ports_sync: "prepare_ports ps xs = Some (ok, qs) \<Longrightarrow> map port_sync qs = map (\<lambda>x. port_sync (snd (snd x))) xs"
proof (induction xs arbitrary: ok qs)
  case (Cons x xs)
  obtain e l p where x: "x = (e, l, p)" by (cases x)
  obtain ok1 p1 where p1: "port_sync p1 = port_sync p" and
    r: "qs = p1 # map (\<lambda>x. snd (snd x)) xs \<or> (\<exists>ok2 qs2. prepare_ports ps xs = Some (ok2, qs2) \<and> qs = p1 # qs2)"
    using Cons.prems by (auto simp: x bind_eq_Some_conv dest: Prepare_port_sync Prepare_listen_port_sync split: if_splits)
  from r show ?case
  proof
    assume "qs = p1 # map (\<lambda>x. snd (snd x)) xs"
    with p1 show ?thesis by (simp add: x)
  next
    assume "\<exists>ok2 qs2. prepare_ports ps xs = Some (ok2, qs2) \<and> qs = p1 # qs2"
    then obtain ok2 qs2 where "prepare_ports ps xs = Some (ok2, qs2)" "qs = p1 # qs2" by blast
    with Cons.IH p1 show ?thesis by (simp add: x)
  qed
qed simp

theorem ConnectAll_ignores_negotiation:
  assumes "sw_ConnectAll ps intro rounds xs = Some (ok, qs)" "k < length qs"
  shows "port_sync (qs ! k) = port_sync (snd (snd (xs ! k)))"
proof -
  obtain ok1 ys where y: "prepare_ports ps xs = Some (ok1, ys)" and
    q: "port_sync (qs ! k) = port_sync (ys ! k)" "k < length ys"
    using assms by (auto simp: sw_ConnectAll_def bind_eq_Some_conv split: if_splits)
  from prepare_ports_sync[OF y] have "map port_sync ys ! k = map (\<lambda>x. port_sync (snd (snd x))) xs ! k" "length ys = length xs"
    using map_eq_imp_length_eq by auto
  with q show ?thesis by simp
qed

section \<open>The wire\<close>

text \<open>A packet that is due crosses the wire: it is taken from one channel and put into the other.\<close>

lemma move_pkt_forwards:
  assumes ci: "chan_inv N ci" "held ci = None" "length (rcvd ci) < length (sent ci)" "sync (consumer ci) \<longrightarrow> timestamp (sent ci ! length (rcvd ci)) \<le> ts"
    and co: "chan_inv M co" "pend co = None" "length (sent co) < n_done co + M"
    and X: "X = sent ci ! length (rcvd ci)" "InType X = NET_MSG_PACKET" "rd (np_data (body X)) 0 (unat (np_len (body X))) = Some d"
    and fits: "length d \<le> length (np_data (body (cq co ! (length (sent co) mod M))))"
  shows "\<exists>qi qo f t Y. move_pkt ts (cq ci) (cq co) (consumer ci) (producer co) = Some (qi, qo, f, t) \<and>
    chan_inv N (ci\<lparr> cq := qi, consumer := f, rcvd := rcvd ci @ [X] \<rparr>) \<and> chan_inv M (co\<lparr> cq := qo, producer := t, sent := sent co @ [Y] \<rparr>) \<and>
    InType Y = NET_MSG_PACKET \<and> take (length d) (np_data (body Y)) = d \<and> np_len (body Y) = np_len (body X)"
proof -
  obtain i f where ip: "InPoll ts (cq ci) (consumer ci) = Some (Some i, f)" "cq ci ! i = X"
    using chan_take_due[OF ci(1-4)] X(1) by metis
  let ?j = "length (sent co) mod M"
  obtain q1 t where al: "OutAlloc ts (cq co) (producer co) = Some (Some ?j, q1, t)" and b: "body (q1 ! ?j) = body (cq co ! ?j)"
    using chan_room[OF co(1,2,3), of ts] by metis
  let ?y = "\<lparr> np_len = of_nat (length d), np_port = 0, np_data = wr 0 d (np_data (body (q1 ! ?j))) \<rparr>"
  note put = chan_put(1,2)[OF co(1,2) al refl, of NET_MSG_PACKET ?y]
  have l: "of_nat (length d) = np_len (body X)" using X(3) by (auto simp: rd_def split: if_splits)
  have "move_pkt ts (cq ci) (cq co) (consumer ci) (producer co) = Some (InDone i (cq ci), put_msg ?j NET_MSG_PACKET ?y q1, f, t)"
    using ip al X(2,3) fits b by (simp add: move_pkt_def fill_packet_def put_msg_def)
  moreover have "InType (put_msg ?j NET_MSG_PACKET ?y q1 ! ?j) = NET_MSG_PACKET" using put(2) put_type[of NET_MSG_PACKET] by simp
  ultimately show ?thesis using chan_take(1)[OF ci(1,2) ip(1)] put ip(2) fits b l by (auto simp: wr_take)
qed

section \<open>Address translation by the memory switch\<close>

text \<open>
  The rewritten packet carries the same operation at the translated address and goes to the memory
  server of the route.
\<close>

lemma rewrite_memop_translates:
  assumes "get_memop p = Some o1" "rewrite_memop e o1 p = Some p'" "length (tb_node_mac e) = 6"
  shows "get_memop p' = Some (o1\<lparr> mo_addr := tb_phys_start e + (mo_addr o1 - tb_vaddr_start e) \<rparr>)" "take 6 p' = tb_node_mac e"
    "length p' = length p"
proof -
  let ?a = "tb_phys_start e + (mo_addr o1 - tb_vaddr_start e)" let ?p = "wr 51 (le_bytes 8 ?a) p"
  from assms(2,3) have l: "59 \<le> length p" and p': "p' = wr 0 (tb_node_mac e) ?p" by (auto simp: rewrite_memop_def put_Some bind_eq_Some_conv)
  have "get_memop ?p = Some (o1\<lparr> mo_addr := ?a \<rparr>)"
  proof -
    have "rd8 ?p 42 = rd8 p 42" "rd64 ?p 43 = rd64 p 43" "rd16 ?p 59 = rd16 p 59" "rd64 ?p 61 = rd64 p 61"
      using l by (intro rdw_wr_apart; simp)+
    moreover have "rd64 ?p 51 = Some ?a" using l rd_wr_within[of 51 "le_bytes 8 ?a" p 51 8] by (simp add: rdw_def del: rd_enough)
    ultimately show ?thesis using assms(1) by (auto simp: get_memop_def bind_eq_Some_conv)
  qed
  moreover have "get_memop p' = get_memop ?p" unfolding p' by (rule get_memop_apart) (use l assms(3) in simp_all)
  ultimately show "get_memop p' = Some (o1\<lparr> mo_addr := ?a \<rparr>)" by simp
  show "take 6 p' = tb_node_mac e" "length p' = length p" using p' l assms(3) by (simp_all add: wr_def)
qed

end
