(* ===== verification/Dist_Proxy.thy ===== *)
theory Dist_Proxy
  imports Base_If
begin

text \<open>
  The proxies that connect simulators on different machines (\<^verbatim>\<open>dist/common/base.c\<close>, \<^verbatim>\<open>base.h\<close>,
  \<^verbatim>\<open>utils.c\<close>) and their implementation over a TCP connection (\<^verbatim>\<open>dist/sockets/net_sockets.c\<close>). A proxy
  has a peer per simulator: it forwards the entries that the simulator puts into its queue, writes
  the entries that arrive from the remote proxy into the other queue, and reports to the remote
  proxy how far it has written and how far the simulator has released its entries.

  The queues are lists of slots as in the base interface; operations take the queues of a peer, or a
  function from the number of a peer to its queue. What is written to the socket is returned as a
  list of messages. The receive buffer holds a prefix of the bytes of the messages under way, in
  order, as TCP delivers them: the model keeps the messages and the number of bytes received. The
  results of \<^verbatim>\<open>write\<close> for a message are given by its number. \<open>None\<close> is an abort, a failed assertion, an
  access outside of a queue, or an operation that never returns.
\<close>

section \<open>State\<close>

record Peer =
  local_offset :: u64
  local_elen :: u32
  local_enum :: u32
  local_pos :: u32
  local_pos_reported :: u32
  local_pos_cleaned :: u32
  last_sent_pos :: u32
  cleanup_offset :: u64
  cleanup_elen :: u32
  cleanup_enum :: u32
  cleanup_pos_next :: u32
  cleanup_pos_last :: u32
  cleanup_pos_reported :: u32
  peer_path :: string
  peer_listen_fd :: int
  peer_sock_fd :: int
  peer_shm_fd :: int
  is_listener :: bool
  ready :: bool
  intro_valid_local :: bool
  intro_local :: bytes
  intro_local_len :: nat
  intro_valid_remote :: bool
  intro_remote :: bytes
  intro_remote_len :: nat

datatype 'b sock_body =
    kMsgIntro u32 bytes
  | kMsgReport "(u32 \<times> u32 \<times> bool) list"
  | kMsgEntries u32 u32 "'b BaseMsg list"
  | OtherType u32

record 'b SockMsg =
  msg_len :: u32
  msg_num :: u32
  peer_id :: u32
  sock_body :: "'b sock_body"

record Proxy =
  peers :: "Peer list"
  proxy_shm_size :: u64
  proxy_shm_fd :: int
  shm_alloc_off :: u64
  rx_buf_pos :: nat
  tx_msgs_free :: "nat list"
  next_msg_id :: u32

definition MAX_PEERS :: nat where [simp]: "MAX_PEERS = 32"
definition TXBUF_SIZE :: u32 where [simp]: "TXBUF_SIZE = 128 * 1024"
definition sizeof_SockMsg :: nat where [simp]: "sizeof_SockMsg = 304"
definition off_intro_data :: nat where [simp]: "off_intro_data = 20"
definition off_entries_data :: nat where [simp]: "off_entries_data = 24"
definition kPollReportThreshold :: u64 where [simp]: "kPollReportThreshold = 128"
definition kCleanReportThreshold :: u64 where [simp]: "kCleanReportThreshold = 128"
definition kPollMax :: nat where [simp]: "kPollMax = 8"
definition kCleanupMax :: nat where [simp]: "kCleanupMax = 16"

definition set_peer :: "nat \<Rightarrow> Peer \<Rightarrow> Proxy \<Rightarrow> Proxy" where
  "set_peer i p s = s\<lparr> peers := (peers s)[i := p] \<rparr>"

section \<open>Peers and their set-up\<close>

definition ShmAlloc :: "u64 \<Rightarrow> Proxy \<Rightarrow> u64 option \<times> Proxy" where
  "ShmAlloc sz s = (if shm_alloc_off s + sz > proxy_shm_size s then (None, s)
     else (Some (shm_alloc_off s), s\<lparr> shm_alloc_off := shm_alloc_off s + sz \<rparr>))"

definition Peer_zero :: Peer where
  "Peer_zero = \<lparr> local_offset = 0, local_elen = 0, local_enum = 0, local_pos = 0, local_pos_reported = 0,
     local_pos_cleaned = 0, last_sent_pos = 0, cleanup_offset = 0, cleanup_elen = 0, cleanup_enum = 0,
     cleanup_pos_next = 0, cleanup_pos_last = 0, cleanup_pos_reported = 0, peer_path = '''', peer_listen_fd = 0,
     peer_sock_fd = 0, peer_shm_fd = 0, is_listener = False, ready = False, intro_valid_local = False,
     intro_local = replicate 2048 0, intro_local_len = 0, intro_valid_remote = False,
     intro_remote = replicate 2048 0, intro_remote_len = 0 \<rparr>"

text \<open>Allocations of the proxy itself succeed.\<close>

definition BasePeerAdd :: "string \<Rightarrow> bool \<Rightarrow> Proxy \<Rightarrow> Proxy" where
  "BasePeerAdd path l s = s\<lparr> peers := peers s @ [Peer_zero\<lparr> peer_path := path, is_listener := l,
     peer_sock_fd := -1, peer_shm_fd := -1, last_sent_pos := -1 \<rparr>] \<rparr>"

text \<open>
  Opening the Unix sockets: the answers are the descriptor of \<^verbatim>\<open>socket\<close>, whether the calls on it
  succeed, and whether it could be added to the poll set. A path that does not fit the address is
  copied beyond its end.
\<close>

definition UxsocketInit :: "string \<Rightarrow> int \<Rightarrow> bool \<Rightarrow> int option" where
  "UxsocketInit path fd ok = (if fd = -1 then Some (-1) else if length path > 108 then None else Some (if ok then fd else -1))"

definition UxsocketConnect :: "string \<Rightarrow> int \<Rightarrow> bool \<Rightarrow> int option" where
  "UxsocketConnect path fd ok = (if length path \<ge> 108 then None else Some (if fd \<noteq> -1 \<and> ok then fd else -1))"

fun BaseListen :: "(nat \<Rightarrow> int \<times> bool \<times> bool) \<Rightarrow> nat list \<Rightarrow> Proxy \<Rightarrow> (int \<times> Proxy) option" where
  "BaseListen ans [] s = Some (0, s)"
| "BaseListen ans (i # is) s =
     (if \<not> is_listener (peers s ! i) then BaseListen ans is s
      else do {
        fd \<leftarrow> UxsocketInit (peer_path (peers s ! i)) (fst (ans i)) (fst (snd (ans i)));
        let s1 = set_peer i ((peers s ! i)\<lparr> peer_listen_fd := fd \<rparr>) s;
        if fd < 0 \<or> \<not> snd (snd (ans i)) then Some (1, s1) else BaseListen ans is s1 })"

fun BaseConnect :: "(nat \<Rightarrow> int \<times> bool \<times> bool) \<Rightarrow> nat list \<Rightarrow> Proxy \<Rightarrow> (int \<times> Proxy) option" where
  "BaseConnect ans [] s = Some (0, s)"
| "BaseConnect ans (i # is) s =
     (if is_listener (peers s ! i) then BaseConnect ans is s
      else do {
        fd \<leftarrow> UxsocketConnect (peer_path (peers s ! i)) (fst (ans i)) (fst (snd (ans i)));
        let s1 = set_peer i ((peers s ! i)\<lparr> peer_sock_fd := fd \<rparr>) s;
        if fd < 0 \<or> \<not> snd (snd (ans i)) then Some (1, s1) else BaseConnect ans is s1 })"

text \<open>The queues of a listening peer, in the shared memory of the proxy, as the remote introduction asks.\<close>

definition BasePeerSetupQueues :: "nat \<Rightarrow> Proxy \<Rightarrow> (int \<times> Proxy) option" where
  "BasePeerSetupQueues i s = (let p = peers s ! i in
     if \<not> is_listener p then Some (0, s)
     else do {
       li \<leftarrow> dec_ListenerIntro (intro_remote p);
       case ShmAlloc (l2c_elen li * l2c_nentries li) s of
         (None, s1) \<Rightarrow> Some (1, s1)
       | (Some lo, s1) \<Rightarrow>
           (let p1 = p\<lparr> intro_remote := wr 16 (le_bytes 8 lo) (intro_remote p) \<rparr>; s2 = set_peer i p1 s1 in
            case ShmAlloc (c2l_elen li * c2l_nentries li) s2 of
              (None, s3) \<Rightarrow> Some (1, s3)
            | (Some co, s3) \<Rightarrow> Some (0, set_peer i (p1\<lparr> intro_remote := wr 40 (le_bytes 8 co) (intro_remote p1),
                peer_shm_fd := proxy_shm_fd s3,
                local_offset := co, local_elen := ucast (c2l_elen li), local_enum := ucast (c2l_nentries li),
                cleanup_offset := lo, cleanup_elen := ucast (l2c_elen li), cleanup_enum := ucast (l2c_nentries li) \<rparr>) s3)) })"

text \<open>Sending the remote introduction to the local simulator; the result has what was sent, with the descriptor.\<close>

definition BasePeerSendIntro :: "bool \<Rightarrow> Peer \<Rightarrow> int \<times> (bytes \<times> int) option" where
  "BasePeerSendIntro ok p =
     (if peer_sock_fd p = -1 then (0, None)
      else if ok then (0, Some (take (intro_remote_len p) (intro_remote p), if is_listener p then peer_shm_fd p else -1))
      else (1, None))"

section \<open>Sending messages\<close>

datatype write_result = Wrote nat | WouldBlock | WriteFailed

text \<open>
  The loop around \<^verbatim>\<open>write\<close>: whether all bytes were written. When a write fails after part of
  a message, that part is never completed, so no message arrives; the stream behind it is not
  modelled.
\<close>

fun write_loop :: "write_result list \<Rightarrow> nat \<Rightarrow> nat \<Rightarrow> bool option" where
  "write_loop [] len pos = None"
| "write_loop (Wrote n # rs) len pos =
     (if n = 0 then Some False else if pos + n < len then write_loop rs len (pos + n) else Some True)"
| "write_loop (WouldBlock # rs) len pos = (if pos < len then write_loop rs len pos else Some True)"
| "write_loop (WriteFailed # rs) len pos = Some False"

definition SockSend :: "(u32 \<Rightarrow> write_result list) \<Rightarrow> 'b SockMsg \<Rightarrow> Proxy \<Rightarrow> (int \<times> 'b SockMsg list \<times> Proxy) option" where
  "SockSend w m s = do {
     let s1 = s\<lparr> next_msg_id := next_msg_id s + 1 \<rparr>;
     ok \<leftarrow> write_loop (w (next_msg_id s)) (unat (msg_len m)) 0;
     Some (if ok then (0, [m\<lparr> msg_num := next_msg_id s \<rparr>], s1) else (1, [], s1)) }"

definition SockMsgAlloc :: "Proxy \<Rightarrow> (nat \<times> Proxy) option" where
  "SockMsgAlloc s = (case tx_msgs_free s of [] \<Rightarrow> None | m # ms \<Rightarrow> Some (m, s\<lparr> tx_msgs_free := ms \<rparr>))"

definition SockMsgFree :: "nat \<Rightarrow> Proxy \<Rightarrow> Proxy" where
  "SockMsgFree m s = s\<lparr> tx_msgs_free := m # tx_msgs_free s \<rparr>"

text \<open>Building a message in a free buffer, sending it and freeing the buffer.\<close>

definition send_msg :: "(u32 \<Rightarrow> write_result list) \<Rightarrow> 'b SockMsg \<Rightarrow> Proxy \<Rightarrow> (int \<times> 'b SockMsg list \<times> Proxy) option" where
  "send_msg w m s = (case SockMsgAlloc s of None \<Rightarrow> Some (1, [], s)
     | Some (b, s1) \<Rightarrow> do { (r, ms, s2) \<leftarrow> SockSend w m s1; Some (r, ms, SockMsgFree b s2) })"

definition BaseOpPassIntro :: "(u32 \<Rightarrow> write_result list) \<Rightarrow> nat \<Rightarrow> Proxy \<Rightarrow> (int \<times> 'b SockMsg list \<times> Proxy) option" where
  "BaseOpPassIntro w i s = (let p = peers s ! i; n = off_intro_data + intro_local_len p in
     send_msg w \<lparr> msg_len = of_nat (if n < sizeof_SockMsg then sizeof_SockMsg else n), msg_num = 0, peer_id = of_nat i,
       sock_body = kMsgIntro (of_nat (intro_local_len p)) (take (intro_local_len p) (intro_local p)) \<rparr> s)"

text \<open>
  The address of an entry is computed with 32 bits; an entry whose offset does not fit is not an
  entry of the queue.
\<close>

definition entry :: "'b BaseMsg list \<Rightarrow> u32 \<Rightarrow> u32 \<Rightarrow> 'b BaseMsg option" where
  "entry q pos elen = (if unat pos * unat elen < 2 ^ 32 then slot q (unat pos) else None)"

definition entries :: "'b BaseMsg list \<Rightarrow> u32 \<Rightarrow> u32 \<Rightarrow> u32 \<Rightarrow> 'b BaseMsg list option" where
  "entries q pos n elen = (if unat pos * unat elen < 2 ^ 32 \<and> unat pos + unat n \<le> length q
     then Some (take (unat n) (drop (unat pos) q)) else None)"

definition BaseOpPassEntries :: "(u32 \<Rightarrow> write_result list) \<Rightarrow> nat \<Rightarrow> u32 \<Rightarrow> u32 \<Rightarrow> 'b BaseMsg list \<Rightarrow> Proxy \<Rightarrow>
    (int \<times> 'b SockMsg list \<times> Proxy) option" where
  "BaseOpPassEntries w i pos n q s = (let p = peers s ! i in
     if n * local_elen p > TXBUF_SIZE \<or> local_enum p = 0 \<or> (last_sent_pos p + 1) mod local_enum p \<noteq> pos then None
     else (let s1 = set_peer i (p\<lparr> last_sent_pos := pos + n - 1 \<rparr>) s in
       if tx_msgs_free s1 = [] then Some (1, [], s1)
       else do {
         data \<leftarrow> entries q pos n (local_elen p);
         send_msg w \<lparr> msg_len = of_nat off_entries_data + n * local_elen p, msg_num = 0, peer_id = of_nat i,
           sock_body = kMsgEntries n pos data \<rparr> s1 }))"

text \<open>Reports for all ready peers; the buffer keeps what it held for the others, which nobody reads.\<close>

definition report_of :: "Peer \<Rightarrow> u32 \<times> u32 \<times> bool" where
  "report_of p = (if ready p then (local_pos p, cleanup_pos_next p, True) else (0, 0, False))"

definition mark_reported :: "Peer \<Rightarrow> Peer" where
  "mark_reported p = (if ready p
     then p\<lparr> cleanup_pos_reported := cleanup_pos_next p, local_pos_reported := local_pos p \<rparr> else p)"

definition BaseOpPassReport :: "(u32 \<Rightarrow> write_result list) \<Rightarrow> Proxy \<Rightarrow> (int \<times> 'b SockMsg list \<times> Proxy) option" where
  "BaseOpPassReport w s =
     (if length (peers s) > MAX_PEERS then None
      else if tx_msgs_free s = [] then Some (1, [], s)
      else send_msg w \<lparr> msg_len = of_nat sizeof_SockMsg, msg_num = 0, peer_id = 0,
          sock_body = kMsgReport (map report_of (peers s) @ replicate (MAX_PEERS - length (peers s)) (0, 0, False)) \<rparr>
        (s\<lparr> peers := map mark_reported (peers s) \<rparr>))"

section \<open>Polling\<close>

fun transfer_count :: "nat \<Rightarrow> 'b BaseMsg list \<Rightarrow> Peer \<Rightarrow> u32 \<Rightarrow> u32 option" where
  "transfer_count 0 q p n = Some n"
| "transfer_count (Suc k) q p n =
     (if \<not> local_pos p + n < local_enum p then Some n
      else if (local_pos p + n + 1) mod local_enum p = local_pos_cleaned p then Some n
      else do {
        m \<leftarrow> entry q (local_pos p + n) (local_elen p);
        if own_type m AND MSG_OWN_MASK \<noteq> MSG_OWN_CON then Some n else transfer_count k q p (n + 1) })"

text \<open>The result says whether a report is due; the result of sending is ignored as in the code.\<close>

definition PollPeerTransfer :: "(u32 \<Rightarrow> write_result list) \<Rightarrow> nat \<Rightarrow> 'b BaseMsg list \<Rightarrow> Proxy \<Rightarrow>
    (bool \<times> 'b SockMsg list \<times> Proxy) option" where
  "PollPeerTransfer w i q s = do {
     n \<leftarrow> transfer_count kPollMax q (peers s ! i) 0;
     if n = 0 then Some (False, [], s)
     else do {
       (r, ms, s1) \<leftarrow> BaseOpPassEntries w i (local_pos (peers s ! i)) n q s;
       let p = peers s1 ! i;
       let new = local_pos p + n;
       let p1 = p\<lparr> local_pos := if new < local_enum p then new else new - local_enum p \<rparr>;
       let unreported = (local_pos p1 - local_pos_reported p1) mod local_enum p1;
       Some (ucast unreported \<ge> kPollReportThreshold, ms, set_peer i p1 s1) } }"

text \<open>The loop of the cleanup; the number of entries passed is counted before it is compared.\<close>

fun cleanup_loop :: "nat \<Rightarrow> 'b BaseMsg list \<Rightarrow> Peer \<Rightarrow> (bool \<times> Peer) option" where
  "cleanup_loop 0 q p = Some (False, p)"
| "cleanup_loop (Suc k) q p = do {
     m \<leftarrow> entry q (cleanup_pos_next p) (cleanup_elen p);
     if own_type m AND MSG_OWN_MASK \<noteq> MSG_OWN_PRO then Some (False, p)
     else do {
       let new = cleanup_pos_next p + 1;
       let p1 = p\<lparr> cleanup_pos_next := if new \<ge> cleanup_enum p then new - cleanup_enum p else new \<rparr>;
       if cleanup_pos_next p1 \<noteq> cleanup_pos_last p1
       then do { (_, p2) \<leftarrow> cleanup_loop k q p1; Some (True, p2) } else Some (True, p1) } }"

definition PollPeerCleanup :: "nat \<Rightarrow> 'b BaseMsg list \<Rightarrow> Proxy \<Rightarrow> (bool \<times> Proxy) option" where
  "PollPeerCleanup i q s = (let p = peers s ! i in
     if cleanup_pos_next p = cleanup_pos_last p then Some (False, s)
     else do {
       (c, p1) \<leftarrow> cleanup_loop (kCleanupMax + 1) q p;
       if c \<and> cleanup_enum p1 = 0 then None
       else Some (c \<and> ucast ((cleanup_pos_next p1 - cleanup_pos_reported p1) mod cleanup_enum p1) \<ge> kCleanReportThreshold,
                  set_peer i p1 s) })"

text \<open>One round over the peers; \<open>lq\<close> and \<open>cq\<close> are the two queues of each.\<close>

fun poll_peers :: "(u32 \<Rightarrow> write_result list) \<Rightarrow> (nat \<Rightarrow> 'b BaseMsg list) \<Rightarrow> (nat \<Rightarrow> 'b BaseMsg list) \<Rightarrow> nat list \<Rightarrow> bool \<Rightarrow> Proxy \<Rightarrow>
    (bool \<times> 'b SockMsg list \<times> Proxy) option" where
  "poll_peers w lq cq [] report s = Some (report, [], s)"
| "poll_peers w lq cq (i # is) report s =
     (if \<not> ready (peers s ! i) then poll_peers w lq cq is report s
      else do {
        (r1, ms, s1) \<leftarrow> PollPeerTransfer w i (lq i) s;
        (r2, s2) \<leftarrow> PollPeerCleanup i (cq i) s1;
        (r, ms', s3) \<leftarrow> poll_peers w lq cq is (report \<or> r1 \<or> r2) s2;
        Some (r, ms @ ms', s3) })"

definition BasePoll :: "(u32 \<Rightarrow> write_result list) \<Rightarrow> (nat \<Rightarrow> 'b BaseMsg list) \<Rightarrow> (nat \<Rightarrow> 'b BaseMsg list) \<Rightarrow> Proxy \<Rightarrow>
    ('b SockMsg list \<times> Proxy) option" where
  "BasePoll w lq cq s = do {
     (report, ms, s1) \<leftarrow> poll_peers w lq cq [0..<length (peers s)] False s;
     if report then do { (_, ms', s2) \<leftarrow> BaseOpPassReport w s1; Some (ms @ ms', s2) } else Some (ms, s1) }"

section \<open>Receiving messages\<close>

text \<open>Giving the entries between two positions back to the simulator; it never ends when the position is not met.\<close>

partial_function (option) mark_clean :: "u32 \<Rightarrow> u32 \<Rightarrow> u32 \<Rightarrow> u32 \<Rightarrow> 'b BaseMsg list \<Rightarrow> 'b BaseMsg list option" where
  "mark_clean elen num pos clean q =
     (if pos = clean then Some q
      else Option.bind (entry q pos elen) (\<lambda>m.
        mark_clean elen num (if pos + 1 \<ge> num then pos + 1 - num else pos + 1) clean (InDone (unat pos) q)))"

definition BasePeerReport :: "u32 \<Rightarrow> u32 \<Rightarrow> 'b BaseMsg list \<Rightarrow> Peer \<Rightarrow> ('b BaseMsg list \<times> Peer) option" where
  "BasePeerReport written clean q p =
     (if written = cleanup_pos_last p \<and> clean = local_pos_cleaned p then Some (q, p)
      else do {
        q1 \<leftarrow> mark_clean (local_elen p) (local_enum p) (local_pos_cleaned p) clean q;
        Some (q1, p\<lparr> cleanup_pos_last := written, local_pos_cleaned := clean \<rparr>) })"

definition BaseEntryReceived :: "Peer \<Rightarrow> u32 \<Rightarrow> 'b BaseMsg \<Rightarrow> 'b BaseMsg list \<Rightarrow> 'b BaseMsg list option" where
  "BaseEntryReceived p pos m q = (if unat pos < length q then Some (q[unat pos := m]) else None)"

text \<open>The introduction of the remote simulator; the result has what was sent to the local one.\<close>

definition SockMsgRxIntro :: "bool \<Rightarrow> 'b SockMsg \<Rightarrow> u32 \<Rightarrow> bytes \<Rightarrow> Proxy \<Rightarrow> (int \<times> (bytes \<times> int) option \<times> Proxy) option" where
  "SockMsgRxIntro ok m n data s = (let i = unat (peer_id m) in
     if i \<ge> length (peers s) \<or> unat (msg_len m) < off_intro_data + unat n then None
     else if intro_valid_remote (peers s ! i) \<or> unat n > 2048 then None
     else do {
       buf \<leftarrow> memcpy (intro_remote (peers s ! i)) data (unat n);
       let s1 = set_peer i ((peers s ! i)\<lparr> intro_valid_remote := True, intro_remote_len := unat n, intro_remote := buf \<rparr>) s;
       (r, s2) \<leftarrow> BasePeerSetupQueues i s1;
       if r \<noteq> 0 then None
       else (case BasePeerSendIntro ok (peers s2 ! i) of (r2, out) \<Rightarrow>
         if r2 \<noteq> 0 then Some (1, out, s2)
         else Some (0, out, if intro_valid_local (peers s2 ! i) then set_peer i ((peers s2 ! i)\<lparr> ready := True \<rparr>) s2 else s2)) })"

fun rx_reports :: "nat \<Rightarrow> (u32 \<times> u32 \<times> bool) list \<Rightarrow> (nat \<Rightarrow> 'b BaseMsg list) \<Rightarrow> Peer list \<Rightarrow>
    ((nat \<Rightarrow> 'b BaseMsg list) \<times> Peer list) option" where
  "rx_reports i ((written, clean, valid) # rs) lq (p # ps) =
     (if \<not> valid then map_option (\<lambda>(l, ps'). (l, p # ps')) (rx_reports (Suc i) rs lq ps)
      else do {
        (q, p1) \<leftarrow> BasePeerReport written clean (lq i) p;
        (l, ps') \<leftarrow> rx_reports (Suc i) rs (lq(i := q)) ps;
        Some (l, p1 # ps') })"
| "rx_reports i rs lq ps = Some (lq, ps)"

definition SockMsgRxReport :: "(u32 \<times> u32 \<times> bool) list \<Rightarrow> (nat \<Rightarrow> 'b BaseMsg list) \<Rightarrow> Proxy \<Rightarrow>
    ((nat \<Rightarrow> 'b BaseMsg list) \<times> Proxy) option" where
  "SockMsgRxReport rs lq s = do {
     (lq1, ps) \<leftarrow> rx_reports 0 (take MAX_PEERS rs) lq (peers s);
     Some (lq1, s\<lparr> peers := ps \<rparr>) }"

fun rx_entries :: "Peer \<Rightarrow> u32 \<Rightarrow> 'b BaseMsg list \<Rightarrow> 'b BaseMsg list \<Rightarrow> 'b BaseMsg list option" where
  "rx_entries p pos [] q = Some q"
| "rx_entries p pos (m # ms) q = do { q1 \<leftarrow> BaseEntryReceived p pos m q; rx_entries p (pos + 1) ms q1 }"

definition SockMsgRxEntries :: "'b SockMsg \<Rightarrow> u32 \<Rightarrow> u32 \<Rightarrow> 'b BaseMsg list \<Rightarrow> (nat \<Rightarrow> 'b BaseMsg list) \<Rightarrow> Proxy \<Rightarrow>
    (nat \<Rightarrow> 'b BaseMsg list) option" where
  "SockMsgRxEntries m n pos data cq s = (let i = unat (peer_id m) in
     if i \<ge> length (peers s) then None
     else (let len = n * cleanup_elen (peers s ! i) in
       if unat len + off_entries_data \<noteq> unat (msg_len m) \<or> length data < unat n then None
       else map_option (\<lambda>q. cq(i := q)) (rx_entries (peers s ! i) pos (take (unat n) data) (cq i))))"

record 'b rx_result =
  rx_ret :: int
  rx_out :: "(bytes \<times> int) option"
  rx_lq :: "nat \<Rightarrow> 'b BaseMsg list"
  rx_cq :: "nat \<Rightarrow> 'b BaseMsg list"
  rx_proxy :: Proxy

definition SockMsgRx :: "bool \<Rightarrow> 'b SockMsg \<Rightarrow> (nat \<Rightarrow> 'b BaseMsg list) \<Rightarrow> (nat \<Rightarrow> 'b BaseMsg list) \<Rightarrow> Proxy \<Rightarrow>
    'b rx_result option" where
  "SockMsgRx ok m lq cq s = (case sock_body m of
       kMsgIntro n data \<Rightarrow> do { (r, out, s1) \<leftarrow> SockMsgRxIntro ok m n data s;
         Some \<lparr> rx_ret = r, rx_out = out, rx_lq = lq, rx_cq = cq, rx_proxy = s1 \<rparr> }
     | kMsgReport rs \<Rightarrow> do { (lq1, s1) \<leftarrow> SockMsgRxReport rs lq s;
         Some \<lparr> rx_ret = 0, rx_out = None, rx_lq = lq1, rx_cq = cq, rx_proxy = s1 \<rparr> }
     | kMsgEntries n pos data \<Rightarrow> do { cq1 \<leftarrow> SockMsgRxEntries m n pos data cq s;
         Some \<lparr> rx_ret = 0, rx_out = None, rx_lq = lq, rx_cq = cq1, rx_proxy = s \<rparr> }
     | OtherType t \<Rightarrow> None)"

text \<open>
  The loop over the receive buffer: the messages that begin in it are processed while a complete
  one is there. The result has the messages that are left, and what was sent to the simulators.
\<close>

fun rx_loop :: "bool \<Rightarrow> 'b SockMsg list \<Rightarrow> (nat \<Rightarrow> 'b BaseMsg list) \<Rightarrow> (nat \<Rightarrow> 'b BaseMsg list) \<Rightarrow> Proxy \<Rightarrow>
    ('b SockMsg list \<times> (bytes \<times> int) list \<times> 'b rx_result) option" where
  "rx_loop ok [] lq cq s = Some ([], [], \<lparr> rx_ret = 0, rx_out = None, rx_lq = lq, rx_cq = cq, rx_proxy = s \<rparr>)"
| "rx_loop ok (m # ms) lq cq s =
     (if rx_buf_pos s \<ge> sizeof_SockMsg \<and> rx_buf_pos s \<ge> unat (msg_len m) then do {
        r \<leftarrow> SockMsgRx ok m lq cq s;
        let o1 = (case rx_out r of None \<Rightarrow> [] | Some x \<Rightarrow> [x]);
        if rx_ret r \<noteq> 0 then Some (m # ms, o1, r)
        else do {
          (ms', os, r') \<leftarrow> rx_loop ok ms (rx_lq r) (rx_cq r)
            ((rx_proxy r)\<lparr> rx_buf_pos := rx_buf_pos s - unat (msg_len m) \<rparr>);
          Some (ms', o1 @ os, r') } }
      else Some (m # ms, [], \<lparr> rx_ret = 0, rx_out = None, rx_lq = lq, rx_cq = cq, rx_proxy = s \<rparr>))"

text \<open>\<open>n\<close> is the result of \<^verbatim>\<open>read\<close>.\<close>

definition SockEvent :: "int \<Rightarrow> bool \<Rightarrow> 'b SockMsg list \<Rightarrow> (nat \<Rightarrow> 'b BaseMsg list) \<Rightarrow> (nat \<Rightarrow> 'b BaseMsg list) \<Rightarrow> Proxy \<Rightarrow>
    ('b SockMsg list \<times> (bytes \<times> int) list \<times> 'b rx_result) option" where
  "SockEvent n ok ms lq cq s =
     (if n \<le> 0 then Some (ms, [], \<lparr> rx_ret = 1, rx_out = None, rx_lq = lq, rx_cq = cq, rx_proxy = s \<rparr>)
      else rx_loop ok ms lq cq (s\<lparr> rx_buf_pos := rx_buf_pos s + nat n \<rparr>))"

section \<open>Events of the local sockets\<close>

record peer_env =
  ev_input :: bool
  ev_accept :: int
  ev_epoll :: bool
  ev_send :: bool
  ev_recv :: "int \<times> bytes"
  ev_fd :: int
  ev_map :: bool

definition PeerAcceptEvent :: "peer_env \<Rightarrow> nat \<Rightarrow> Proxy \<Rightarrow> (int \<times> (bytes \<times> int) option \<times> Proxy) option" where
  "PeerAcceptEvent e i s =
     (if \<not> is_listener (peers s ! i) then None
      else (let s1 = set_peer i ((peers s ! i)\<lparr> peer_sock_fd := ev_accept e \<rparr>) s in
        if ev_accept e < 0 \<or> \<not> ev_epoll e then Some (1, None, s1)
        else if intro_valid_remote (peers s1 ! i)
        then (case BasePeerSendIntro (ev_send e) (peers s1 ! i) of (r, out) \<Rightarrow> Some (r, out, s1))
        else Some (0, None, s1)))"

text \<open>A received introduction is written over the beginning of the buffer.\<close>

definition receive_intro :: "peer_env \<Rightarrow> Peer \<Rightarrow> Peer option" where
  "receive_intro e p = do {
     buf \<leftarrow> memcpy (intro_local p) (snd (ev_recv e)) (nat (fst (ev_recv e)));
     Some (p\<lparr> intro_local := buf, peer_shm_fd := if is_listener p then peer_shm_fd p else ev_fd e \<rparr>) }"

definition connecter_queues :: "Peer \<Rightarrow> Peer option" where
  "connecter_queues p = (if is_listener p then Some p else do {
     li \<leftarrow> dec_ListenerIntro (intro_local p);
     Some (p\<lparr> local_offset := l2c_offset li, local_elen := ucast (l2c_elen li), local_enum := ucast (l2c_nentries li),
       cleanup_offset := c2l_offset li, cleanup_elen := ucast (c2l_elen li), cleanup_enum := ucast (c2l_nentries li) \<rparr>) })"

definition BasePeerEvent :: "(u32 \<Rightarrow> write_result list) \<Rightarrow> peer_env \<Rightarrow> nat \<Rightarrow> Proxy \<Rightarrow>
    (int \<times> (bytes \<times> int) option \<times> 'b SockMsg list \<times> Proxy) option" where
  "BasePeerEvent w e i s = (let p = peers s ! i in
     if \<not> ev_input e then Some (1, None, [], set_peer i (p\<lparr> ready := False \<rparr>) s)
     else if is_listener p \<and> peer_sock_fd p = -1
     then map_option (\<lambda>(r, out, s1). (r, out, [], s1)) (PeerAcceptEvent e i s)
     else if intro_valid_local p then Some (1, None, [], s)
     else if fst (ev_recv e) \<le> 0 then Some (1, None, [], s)
     else do {
       p1 \<leftarrow> receive_intro e p;
       if \<not> is_listener p \<and> \<not> ev_map e then Some (1, None, [], set_peer i p1 s)
       else do {
       p2 \<leftarrow> connecter_queues p1;
       (r, ms, s1) \<leftarrow> BaseOpPassIntro w i
         (set_peer i (p2\<lparr> intro_local_len := nat (fst (ev_recv e)), intro_valid_local := True \<rparr>) s);
       if r \<noteq> 0 then Some (1, None, ms, s1)
       else Some (0, None, ms, if intro_valid_remote (peers s1 ! i) then set_peer i ((peers s1 ! i)\<lparr> ready := True \<rparr>) s1 else s1) } })"

section \<open>Command line\<close>

text \<open>
  The options, in order, as \<^verbatim>\<open>getopt\<close> reports them; an unknown one ends the parsing. \<open>rest\<close> are the
  remaining arguments and \<open>inet\<close> whether the first of them is an address.
\<close>

datatype sock_option = Opt_l | Opt_L string | Opt_C string | Opt_s string | Opt_S u64 | Opt_unknown

record sock_args =
  mode_listen :: bool
  arg_shm_path :: "string option"

fun ParseOpts :: "sock_option list \<Rightarrow> sock_args \<Rightarrow> Proxy \<Rightarrow> (sock_args \<times> Proxy) option" where
  "ParseOpts [] a s = Some (a, s)"
| "ParseOpts (Opt_l # os) a s = ParseOpts os (a\<lparr> mode_listen := True \<rparr>) s"
| "ParseOpts (Opt_L p # os) a s = ParseOpts os a (BasePeerAdd p True s)"
| "ParseOpts (Opt_C p # os) a s = ParseOpts os a (BasePeerAdd p False s)"
| "ParseOpts (Opt_s p # os) a s = ParseOpts os (a\<lparr> arg_shm_path := Some p \<rparr>) s"
| "ParseOpts (Opt_S n # os) a s = ParseOpts os a (s\<lparr> proxy_shm_size := n * 1024 * 1024 \<rparr>)"
| "ParseOpts (Opt_unknown # os) a s = None"

definition Proxy_init :: Proxy where
  "Proxy_init = \<lparr> peers = [], proxy_shm_size = 256 * 1024 * 1024, proxy_shm_fd = -1, shm_alloc_off = 0, rx_buf_pos = 0,
     tx_msgs_free = rev [0..<16], next_msg_id = 0 \<rparr>"

definition ParseArgs :: "sock_option list \<Rightarrow> string list \<Rightarrow> bool \<Rightarrow> (sock_args \<times> Proxy) option" where
  "ParseArgs os rest inet = do {
     (a, s) \<leftarrow> ParseOpts os \<lparr> mode_listen = False, arg_shm_path = None \<rparr> Proxy_init;
     if length rest \<noteq> 4 \<or> \<not> inet then None else Some (a, s) }"

definition BaseInit :: "int \<Rightarrow> Proxy \<Rightarrow> int \<times> Proxy" where
  "BaseInit fd s = (if fd < 0 then 1 else 0, s\<lparr> proxy_shm_fd := fd \<rparr>)"

end
