(* ===== verification/Dist_Link.thy ===== *)
theory Dist_Link
  imports Dist_Proxy Base_Safety
begin

text \<open>
  The operations of the proxies on one forwarded queue: its two ends as channels, what a poll
  forwards, what is found released, what a received message changes, and what the messages under way
  amount to.
\<close>

section \<open>Positions\<close>

lemma pos_next:
  assumes "unat (p :: u32) = k mod N" "unat n = N" "0 < N"
  shows "unat (if p + 1 \<ge> n then p + 1 - n else p + 1) = Suc k mod N"
proof -
  have lt: "k mod N < N" using assms(3) by simp
  have "unat p + 1 < 2 ^ 32" using lt assms(1,2) unat_width(3)[of n] by simp
  then have u: "unat (p + 1) = Suc (k mod N)" by (simp add: unat_word_ariths assms(1))
  show ?thesis
  proof (cases "p + 1 \<ge> n")
    case True
    then have "Suc (k mod N) = N" using lt u assms(2) by (simp add: word_le_nat_alt)
    moreover have "unat (p + 1 - n) = unat (p + 1) - N" using True assms(2) by (simp add: unat_sub)
    ultimately show ?thesis using True u by (simp add: mod_Suc)
  next
    case False
    then have "Suc (k mod N) < N" using u assms(2) by (simp add: word_le_nat_alt not_le)
    with False u show ?thesis by (simp add: mod_Suc)
  qed
qed

lemma pos_add:
  assumes "unat (p :: u32) = k mod N" "unat e = N" "k mod N + unat n \<le> N" "0 < N"
  shows "unat (if p + n < e then p + n else p + n - e) = (k + unat n) mod N"
proof -
  have "k mod N + unat n < 2 ^ 32" using assms(2,3) unat_width(3)[of e] by simp
  then have u: "unat (p + n) = k mod N + unat n" by (simp add: unat_word_ariths assms(1))
  have m: "(k mod N + unat n) mod N = (k + unat n) mod N" by (simp add: mod_add_left_eq)
  show ?thesis
  proof (cases "p + n < e")
    case True
    then have "k mod N + unat n < N" using u assms(2) by (simp add: word_less_nat_alt)
    with True u m show ?thesis by simp
  next
    case False
    then have eq: "k mod N + unat n = N" using u assms(2,3) by (simp add: word_less_nat_alt)
    with False u assms(2) m show ?thesis by (simp add: unat_sub word_le_nat_alt)
  qed
qed

lemma entry_spec:
  assumes "unat p = k mod N" "length q = N" "0 < N" "N * unat e \<le> 2 ^ 32"
  shows "entry q p e = Some (q ! (k mod N))"
proof -
  have lt: "k mod N < N" using assms(3) by simp
  have "k mod N * unat e < 2 ^ 32"
  proof (cases "unat e = 0")
    case False
    then have "k mod N * unat e < N * unat e" using lt by simp
    with assms(4) show ?thesis by linarith
  qed (simp del: unat_eq_zero)
  then show ?thesis using lt by (simp add: entry_def slot_def assms(1,2))
qed

section \<open>Both ends of a forwarded queue\<close>

text \<open>
  The queue on either side is a channel, whose other end is the proxy: on the side of the sender the
  proxy is a consumer that has released \<open>g\<close> entries, on the side of the receiver it is a producer
  that has sent \<open>r\<close> entries.
\<close>

record 'b dist =
  src_queue :: "'b BaseMsg list"
  src_if :: SimbricksBaseIf
  src_pend :: "nat option"
  src_sent :: "'b BaseMsg list"
  prx1 :: Proxy
  to2 :: "'b SockMsg list"
  to1 :: "'b SockMsg list"
  prx2 :: Proxy
  dst_queue :: "'b BaseMsg list"
  dst_if :: SimbricksBaseIf
  dst_held :: "nat option"
  dst_rcvd :: "'b BaseMsg list"

definition proxy_if :: "nat \<Rightarrow> nat \<Rightarrow> SimbricksBaseIf" where
  "proxy_if N k = \<lparr> in_queue = 0, in_pos = of_nat (k mod N), in_elen = 0, in_enum = of_nat N, in_timestamp = 0, out_queue = 0,
     out_pos = of_nat (k mod N), out_elen = 0, out_enum = of_nat N, out_timestamp = 0, in_terminated = False,
     conn_state = kConnOpen, sync = False, params = DefaultParams, shm = None, listen_fd = 0, conn_fd = 0, listener = False \<rparr>"

definition src_chan :: "nat \<Rightarrow> nat \<Rightarrow> 'b dist \<Rightarrow> 'b chan" where
  "src_chan N g d = \<lparr> cq = src_queue d, producer = src_if d, consumer = proxy_if N g, pend = src_pend d, held = None,
     sent = src_sent d, rcvd = take g (src_sent d) \<rparr>"

definition dst_chan :: "nat \<Rightarrow> nat \<Rightarrow> 'b dist \<Rightarrow> 'b chan" where
  "dst_chan N r d = \<lparr> cq = dst_queue d, producer = proxy_if N r, consumer = dst_if d, pend = None, held = dst_held d,
     sent = take r (src_sent d), rcvd = dst_rcvd d \<rparr>"

lemma src_chan_sel [simp]:
  "cq (src_chan N g d) = src_queue d" "producer (src_chan N g d) = src_if d" "consumer (src_chan N g d) = proxy_if N g"
  "pend (src_chan N g d) = src_pend d" "held (src_chan N g d) = None" "sent (src_chan N g d) = src_sent d"
  "rcvd (src_chan N g d) = take g (src_sent d)"
  by (simp_all add: src_chan_def)

lemma dst_chan_sel [simp]:
  "cq (dst_chan N r d) = dst_queue d" "producer (dst_chan N r d) = proxy_if N r" "consumer (dst_chan N r d) = dst_if d"
  "pend (dst_chan N r d) = None" "held (dst_chan N r d) = dst_held d" "sent (dst_chan N r d) = take r (src_sent d)"
  "rcvd (dst_chan N r d) = dst_rcvd d"
  by (simp_all add: dst_chan_def)

lemma proxy_if_sel:
  assumes "0 < N" "N < 2 ^ 32"
  shows "unat (in_pos (proxy_if N k)) = k mod N" "unat (in_enum (proxy_if N k)) = N"
    "unat (out_pos (proxy_if N k)) = k mod N" "unat (out_enum (proxy_if N k)) = N"
proof -
  have 1: "unat (of_nat x :: u64) = x" if "x < 2 ^ 32" for x using that by (simp add: unat_of_nat)
  have 2: "k mod N < 2 ^ 32" using mod_less_divisor[OF assms(1), of k] assms(2) by linarith
  show "unat (in_pos (proxy_if N k)) = k mod N" "unat (in_enum (proxy_if N k)) = N"
    "unat (out_pos (proxy_if N k)) = k mod N" "unat (out_enum (proxy_if N k)) = N"
    using 1[OF assms(2)] 1[OF 2] by (simp_all add: proxy_if_def)
qed

text \<open>The next entry is released by the proxy of the sender, and put by the proxy of the receiver.\<close>

lemma chan_release_one:
  assumes "chan_inv N c" "held c = None" "length (rcvd c) < length (sent c)"
    "unat (in_pos b) = Suc (length (rcvd c)) mod N" "unat (in_enum b) = N"
  shows "chan_inv N (c\<lparr> cq := InDone (length (rcvd c) mod N) (cq c), consumer := b, rcvd := take (Suc (length (rcvd c))) (sent c) \<rparr>)"
proof -
  let ?r = "length (rcvd c)"
  let ?c = "c\<lparr> consumer := b, held := Some (?r mod N), rcvd := take (Suc ?r) (sent c) \<rparr>"
  note d = chan_invD[OF assms(1)]
  have n: "n_sent ?c = n_sent c" "n_done ?c = n_done c" "n_done c = ?r" using assms(2,3) by (auto simp: n_sent_def n_done_def)
  have "chan_inv N ?c" unfolding chan_inv_def n using d assms n(3) by (auto simp: n_sent_def)
  from chan_release_inv[OF this, of "?r mod N"] assms(2) show ?thesis by (cases c) simp
qed

lemma chan_put_one:
  assumes "chan_inv N c" "pend c = None" "length (sent c) < n_done c + N" "con m"
    "unat (out_pos b) = Suc (length (sent c)) mod N" "unat (out_enum b) = N"
  shows "chan_inv N (c\<lparr> cq := (cq c)[length (sent c) mod N := m], producer := b, sent := sent c @ [m] \<rparr>)" (is "chan_inv N ?c")
proof -
  note d = chan_invD[OF assms(1)]
  let ?i = "length (sent c) mod N"
  have n: "n_sent ?c = Suc (n_sent c)" "n_done ?c = n_done c" by (simp_all add: n_sent_def n_done_def)
  have i: "?i < N" using d(1) by simp
  have old: "cq ?c ! (k mod N) = cq c ! (k mod N)" if "n_done c \<le> k" "k < n_done c + N" "k \<noteq> n_sent c" for k
  proof -
    have "k mod N \<noteq> ?i"
      using window_inj[of "n_done c" k N "n_sent c"] that assms(3) d(7) n_done_le[of c] by (auto simp: n_sent_def)
    then show ?thesis by simp
  qed
  have con: "cq ?c ! (k mod N) = sent ?c ! k \<and> con (sent ?c ! k)" if k: "n_done c \<le> k" "k < Suc (n_sent c)" for k
  proof (cases "k = n_sent c")
    case True
    then show ?thesis using assms(4) i d(2) by (simp add: n_sent_def)
  next
    case False
    then have "k < n_sent c" using k by simp
    then show ?thesis using d(13)[OF k(1)] old[OF k(1)] assms(3) by (simp add: n_sent_def nth_append)
  qed
  have pr: "pro (cq ?c ! (k mod N))" if "Suc (n_sent c) \<le> k" "k < n_done c + N" for k
    using d(14)[of k] old[of k] that d(7) n_done_le[of c] by simp
  have "rcvd c = take (length (rcvd c)) (sent c @ [m])" using d(7,12) by (simp add: n_sent_def)
  then show ?thesis unfolding chan_inv_def n
    using con pr d(1,2,4,6,7,9,11) assms(2,3,5,6) by (simp add: n_sent_def)
qed

lemma src_chan_release:
  assumes "chan_inv N (src_chan N g d)" "g < length (src_sent d)" "N < 2 ^ 32"
  shows "chan_inv N (src_chan N (Suc g) (d\<lparr> src_queue := InDone (g mod N) (src_queue d) \<rparr>))"
proof -
  have N: "0 < N" using chan_invD(1)[OF assms(1)] .
  have g: "length (take g (src_sent d)) = g" using assms(2) by simp
  show ?thesis
    using chan_release_one[OF assms(1), of "proxy_if N (Suc g)"] proxy_if_sel[OF N assms(3)] g assms(2)
    by (simp add: src_chan_def)
qed

lemma dst_chan_put:
  assumes "chan_inv N (dst_chan N r d)" "r < n_done (dst_chan N r d) + N" "r < length (src_sent d)" "con (src_sent d ! r)" "N < 2 ^ 32"
  shows "chan_inv N (dst_chan N (Suc r) (d\<lparr> dst_queue := (dst_queue d)[r mod N := src_sent d ! r] \<rparr>))"
proof -
  have N: "0 < N" using chan_invD(1)[OF assms(1)] .
  have r: "length (take r (src_sent d)) = r" using assms(3) by simp
  show ?thesis
    using chan_put_one[OF assms(1), of "src_sent d ! r" "proxy_if N (Suc r)"] proxy_if_sel[OF N assms(5)] r assms(2-4)
    by (simp add: dst_chan_def take_Suc_conv_app_nth)
qed

text \<open>Giving entries back to the sender ends at the reported position.\<close>

lemma mark_clean_spec:
  assumes "chan_inv N (src_chan N g (d\<lparr> src_queue := q \<rparr>))" "g \<le> c" "c \<le> length (src_sent d)" "c < g + N"
    "N < 2 ^ 32" "N * unat elen \<le> 2 ^ 32" "unat num = N" "unat pos = g mod N" "unat clean = c mod N"
  shows "\<exists>q'. mark_clean elen num pos clean q = Some q' \<and> chan_inv N (src_chan N c (d\<lparr> src_queue := q' \<rparr>))"
  using assms
proof (induction "c - g" arbitrary: g pos q)
  case 0
  then have "pos = clean" "c = g" by (simp_all add: word_unat_eq_iff)
  with "0.prems"(1) show ?case by (simp add: mark_clean.simps)
next
  case (Suc n)
  note i = chan_invD[OF Suc.prems(1)]
  have g: "g < c" using Suc.hyps(2) by simp
  have "pos \<noteq> clean" using window_inj[of g g N c] Suc.prems g i(1) by auto
  moreover have "entry q pos elen = Some (q ! (g mod N))"
    using entry_spec[OF Suc.prems(8) _ i(1) Suc.prems(6), of q] i(2) by simp
  moreover have "chan_inv N (src_chan N (Suc g) (d\<lparr> src_queue := InDone (g mod N) q \<rparr>))"
    using src_chan_release[OF Suc.prems(1) _ Suc.prems(5)] g Suc.prems(3) by simp
  then have "\<exists>q'. mark_clean elen num (if pos + 1 \<ge> num then pos + 1 - num else pos + 1) clean (InDone (g mod N) q) = Some q' \<and>
      chan_inv N (src_chan N c (d\<lparr> src_queue := q' \<rparr>))"
    using Suc.hyps Suc.prems g pos_next[OF Suc.prems(8,7) i(1)] by (intro Suc.hyps(1)) auto
  ultimately show ?case by (subst mark_clean.simps) (simp add: Suc.prems(8) del: word_of_nat_eq_0_iff)
qed

text \<open>Entries that arrive are put in order.\<close>

lemma rx_entries_spec:
  assumes "chan_inv N (dst_chan N r (d\<lparr> dst_queue := q \<rparr>))" "N < 2 ^ 32" "unat pos = r mod N" "r mod N + length ms \<le> N"
    "r + length ms \<le> n_done (dst_chan N r d) + N" "ms = take (length ms) (drop r (src_sent d))" "\<forall>m\<in>set ms. con m"
    "dst_held d = h" "dst_rcvd d = rc"
  shows "\<exists>q'. rx_entries p pos ms q = Some q' \<and> chan_inv N (dst_chan N (r + length ms) (d\<lparr> dst_queue := q' \<rparr>))"
  using assms
proof (induction ms arbitrary: r pos q)
  case Nil
  then show ?case by simp
next
  case (Cons m ms)
  note i = chan_invD[OF Cons.prems(1)]
  have N: "r mod N < N" using i(1) by simp
  have m: "r < length (src_sent d)" "m = src_sent d ! r" "ms = take (length ms) (drop (Suc r) (src_sent d))"
  proof -
    have ne: "drop r (src_sent d) \<noteq> []" using Cons.prems(6) by (cases "drop r (src_sent d)") auto
    then show 1: "r < length (src_sent d)" by simp
    then have "drop r (src_sent d) = src_sent d ! r # drop (Suc r) (src_sent d)" by (rule Cons_nth_drop_Suc[symmetric])
    with Cons.prems(6) show "m = src_sent d ! r" "ms = take (length ms) (drop (Suc r) (src_sent d))" by simp_all
  qed
  have nd: "n_done (dst_chan N r' d') = n_done (dst_chan N r d)" if "dst_held d' = h" "dst_rcvd d' = rc" for r' d'
    using that Cons.prems(8,9) by (simp add: n_done_def)
  let ?q = "q[r mod N := m]"
  have e: "BaseEntryReceived p pos m q = Some ?q" using N i(2) by (simp add: BaseEntryReceived_def Cons.prems(3))
  have c: "chan_inv N (dst_chan N (Suc r) (d\<lparr> dst_queue := ?q \<rparr>))"
    using dst_chan_put[OF Cons.prems(1)] m(1,2) Cons.prems(2,5,7) nd[of "d\<lparr> dst_queue := q \<rparr>" r] Cons.prems(8,9) by simp
  show ?case
  proof (cases ms)
    case Nil
    with e c show ?thesis by simp
  next
    case (Cons m' ms')
    then have lt: "Suc (r mod N) < N" using Cons.prems(4) by simp
    then have "unat (pos + 1) = Suc r mod N"
      using Cons.prems(2,3) by (simp add: unat_word_ariths mod_Suc)
    moreover have "Suc r mod N + length ms \<le> N" using lt Cons.prems(4) by (simp add: mod_Suc)
    moreover have "Suc r + length ms \<le> n_done (dst_chan N (Suc r) d) + N" "\<forall>m\<in>set ms. con m"
      using Cons.prems(5,7) nd[OF Cons.prems(8,9), of "Suc r"] by simp_all
    ultimately have "\<exists>q'. rx_entries p (pos + 1) ms ?q = Some q' \<and> chan_inv N (dst_chan N (Suc r + length ms) (d\<lparr> dst_queue := q' \<rparr>))"
      using Cons.IH[OF c Cons.prems(2) _ _ _ m(3) _ Cons.prems(8,9)] by blast
    with e show ?thesis by simp
  qed
qed

section \<open>Forwarding\<close>

definition connection_up :: "(u32 \<Rightarrow> write_result list) \<Rightarrow> bool" where
  "connection_up w \<longleftrightarrow> (\<forall>i n. n < 2 ^ 32 \<longrightarrow> write_loop (w i) n 0 = Some True)"

lemma send_msg_up:
  assumes "connection_up w" "tx_msgs_free s \<noteq> []"
  shows "send_msg w m s = Some (0, [m\<lparr> msg_num := next_msg_id s \<rparr>], s\<lparr> next_msg_id := next_msg_id s + 1 \<rparr>)"
  using assms unat_width(3)[of "msg_len m"] by (cases "tx_msgs_free s") (simp_all add: send_msg_def SockMsgAlloc_def SockSend_def SockMsgFree_def connection_up_def)

lemma transfer_count_spec:
  assumes "chan_inv N (src_chan N g d)" "N * unat (local_elen p) \<le> 2 ^ 32" "unat (local_enum p) = N"
    "unat (local_pos p) = t mod N" "unat (local_pos_cleaned p) = g mod N" "g \<le> t"
    "t mod N + unat n \<le> N" "t + unat n \<le> length (src_sent d)" "t + unat n < g + N"
  shows "\<exists>n'. transfer_count f (src_queue d) p n = Some n' \<and> unat n' \<le> unat n + f \<and> t mod N + unat n' \<le> N \<and>
    t + unat n' \<le> length (src_sent d) \<and> t + unat n' < g + N"
  using assms(7-9)
proof (induction f arbitrary: n)
  case 0
  then show ?case by simp
next
  case (Suc f)
  note i = chan_invD[OF assms(1)]
  have N32: "N < 2 ^ 32" using unat_width(3)[of "local_enum p"] assms(3) by simp
  have u: "unat (local_pos p + n) = t mod N + unat n" using Suc.prems(1) N32 assms(4) by (simp add: unat_word_ariths)
  show ?case
  proof (cases "local_pos p + n < local_enum p \<and> (local_pos p + n + 1) mod local_enum p \<noteq> local_pos_cleaned p")
    case False
    then have "transfer_count (Suc f) (src_queue d) p n = Some n" by auto
    with Suc.prems show ?thesis by simp
  next
    case True
    then have lt: "t mod N + unat n < N" using u assms(3) by (simp add: word_less_nat_alt)
    then have m: "(t + unat n) mod N = t mod N + unat n" using mod_add_left_eq[of t N "unat n"] by simp
    have u1: "unat (local_pos p + n + 1) = t mod N + unat n + 1" using lt u N32 by (simp add: unat_word_ariths)
    have "unat ((local_pos p + n + 1) mod local_enum p) = Suc (t + unat n) mod N"
      using u1 m mod_Suc_eq[of "t + unat n" N] by (simp add: unat_mod assms(3))
    then have "Suc (t + unat n) mod N \<noteq> g mod N" using True assms(5) by (auto simp: word_unat_eq_iff)
    then have lt2: "Suc (t + unat n) < g + N" using Suc.prems(3) by (cases "Suc (t + unat n) = g + N") auto
    have en: "entry (src_queue d) (local_pos p + n) (local_elen p) = Some (src_queue d ! ((t + unat n) mod N))"
      using entry_spec[of "local_pos p + n" "t + unat n" N "src_queue d"] u m i(1,2) assms(2) by simp
    show ?thesis
    proof (cases "con (src_queue d ! ((t + unat n) mod N))")
      case False
      then have "transfer_count (Suc f) (src_queue d) p n = Some n" using True en by (simp add: con_def)
      with Suc.prems show ?thesis by simp
    next
      case con: True
      have nd: "n_done (src_chan N g d) = g" "n_sent (src_chan N g d) = length (src_sent d)"
        using assms(6) Suc.prems(2) by (simp_all add: n_done_def n_sent_def)
      have s: "t + unat n < length (src_sent d)"
        using i(14)[of "t + unat n"] con Suc.prems(3) nd own_excl[OF con] by (cases "t + unat n < length (src_sent d)") auto
      have n1: "unat (n + 1) = unat n + 1" using lt N32 by (simp add: unat_word_ariths)
      have "transfer_count (Suc f) (src_queue d) p n = transfer_count f (src_queue d) p (n + 1)"
        using True en con by (simp add: con_def)
      with Suc.IH[of "n + 1"] n1 lt s lt2 show ?thesis by auto
    qed
  qed
qed

text \<open>What the two directions of a peer consist of.\<close>

definition lview :: "Peer \<Rightarrow> u32 \<times> u32 \<times> u32 \<times> u32 \<times> u32 \<times> bool" where
  "lview p = (local_elen p, local_enum p, local_pos p, local_pos_cleaned p, last_sent_pos p, intro_valid_remote p)"

definition cview :: "Peer \<Rightarrow> u32 \<times> u32 \<times> u32 \<times> u32 \<times> bool" where
  "cview p = (cleanup_elen p, cleanup_enum p, cleanup_pos_next p, cleanup_pos_last p, intro_valid_remote p)"

lemma send_msg_frame:
  assumes "send_msg w m s = Some (r, ms, s')"
  shows "peers s' = peers s \<and> tx_msgs_free s' = tx_msgs_free s \<and>
    (\<forall>m'\<in>set ms. sock_body m' = sock_body m \<and> peer_id m' = peer_id m \<and> msg_len m' = msg_len m)"
  using assms by (cases "tx_msgs_free s")
    (auto simp: send_msg_def SockMsgAlloc_def SockSend_def SockMsgFree_def Let_def bind_eq_Some_conv split: if_splits)

lemma PassEntries_frame:
  assumes "BaseOpPassEntries w i pos n q s = Some (r, ms, s')"
  shows "peers s' = (peers s)[i := (peers s ! i)\<lparr> last_sent_pos := pos + n - 1 \<rparr>] \<and> tx_msgs_free s' = tx_msgs_free s \<and>
    (\<forall>m\<in>set ms. peer_id m = of_nat i \<and> (\<exists>data. sock_body m = kMsgEntries n pos data))"
  using assms by (auto simp: BaseOpPassEntries_def Let_def bind_eq_Some_conv set_peer_def dest!: send_msg_frame split: if_splits)

lemma transfer_frame:
  assumes "PollPeerTransfer w i q x = Some (r, ms, x')" "i < length (peers x)"
  shows "length (peers x') = length (peers x) \<and> tx_msgs_free x' = tx_msgs_free x \<and>
    (\<forall>j. cview (peers x' ! j) = cview (peers x ! j)) \<and> (\<forall>j. j \<noteq> i \<longrightarrow> peers x' ! j = peers x ! j) \<and>
    (\<forall>m\<in>set ms. peer_id m = of_nat i \<and> (\<exists>n pos data. sock_body m = kMsgEntries n pos data))"
proof -
  obtain n where n: "transfer_count kPollMax q (peers x ! i) 0 = Some n"
    using assms(1) by (auto simp: PollPeerTransfer_def bind_eq_Some_conv)
  show ?thesis
  proof (cases "n = 0")
    case True
    with assms(1) n show ?thesis by (simp add: PollPeerTransfer_def)
  next
    case False
    obtain r' x1 where p: "BaseOpPassEntries w i (local_pos (peers x ! i)) n q x = Some (r', ms, x1)"
      "\<exists>v. x' = set_peer i ((peers x1 ! i)\<lparr> local_pos := v \<rparr>) x1"
      using assms(1) n False by (auto simp: PollPeerTransfer_def bind_eq_Some_conv Let_def)
    from PassEntries_frame[OF p(1)] p(2) assms(2) show ?thesis
      by (auto simp: set_peer_def cview_def nth_list_update split: if_splits)
  qed
qed

lemma cleanup_loop_frame:
  "cleanup_loop f q p = Some (c, p') \<Longrightarrow> \<exists>v. p' = p\<lparr> cleanup_pos_next := v \<rparr>"
proof (induction f arbitrary: p c p')
  case 0
  then have "p' = p\<lparr> cleanup_pos_next := cleanup_pos_next p \<rparr>" by simp
  then show ?case by blast
next
  case (Suc f)
  show ?case
  proof (cases "p' = p")
    case True
    then have "p' = p\<lparr> cleanup_pos_next := cleanup_pos_next p \<rparr>" by simp
    then show ?thesis by blast
  next
    case False
    with Suc.prems show ?thesis
      by (auto simp: Let_def bind_eq_Some_conv split: if_splits dest!: Suc.IH)
  qed
qed

lemma cleanup_frame:
  assumes "PollPeerCleanup i q x = Some (r, x')" "i < length (peers x)"
  shows "length (peers x') = length (peers x) \<and> tx_msgs_free x' = tx_msgs_free x \<and>
    (\<forall>j. lview (peers x' ! j) = lview (peers x ! j)) \<and> (\<forall>j. j \<noteq> i \<longrightarrow> peers x' ! j = peers x ! j)"
  using assms by (auto simp: PollPeerCleanup_def Let_def bind_eq_Some_conv set_peer_def lview_def nth_list_update
      dest!: cleanup_loop_frame split: if_splits)

definition rep_at :: "nat \<Rightarrow> (u32 \<times> u32 \<times> bool) list \<Rightarrow> u32 \<times> u32 \<times> bool" where
  "rep_at k rs = (if k < length rs then rs ! k else (0, 0, False))"

lemma report_frame:
  assumes "BaseOpPassReport w x = Some (r, ms, x')"
  shows "length (peers x') = length (peers x) \<and> tx_msgs_free x' = tx_msgs_free x \<and>
    (\<forall>j < length (peers x). lview (peers x' ! j) = lview (peers x ! j) \<and> cview (peers x' ! j) = cview (peers x ! j)) \<and>
    (\<forall>m\<in>set ms. \<exists>rs. sock_body m = kMsgReport rs \<and> (\<forall>k < length (peers x). rep_at k rs = report_of (peers x ! k)))"
proof (cases "tx_msgs_free x = []")
  case True
  with assms show ?thesis by (auto simp: BaseOpPassReport_def split: if_splits)
next
  case False
  let ?rs = "map report_of (peers x) @ replicate (MAX_PEERS - length (peers x)) (0, 0, False)"
  have rs: "rep_at k ?rs = report_of (peers x ! k)" if "k < length (peers x)" for k
    using that by (simp add: rep_at_def nth_append)
  obtain m where m: "send_msg w m (x\<lparr> peers := map mark_reported (peers x) \<rparr>) = Some (r, ms, x')" "sock_body m = kMsgReport ?rs"
    using assms False by (auto simp: BaseOpPassReport_def split: if_splits)
  have v: "lview (mark_reported p) = lview p" "cview (mark_reported p) = cview p" for p
    by (simp_all add: mark_reported_def lview_def cview_def)
  from send_msg_frame[OF m(1)] m(2) rs v show ?thesis by auto
qed

text \<open>
  The peer of the sender after \<open>t\<close> entries were forwarded and \<open>g\<close> given back, and the peer of the
  receiver that has found \<open>e\<close> entries released and knows of \<open>l\<close> entries written.
\<close>

definition sender_peer :: "nat \<Rightarrow> nat \<Rightarrow> nat \<Rightarrow> nat \<Rightarrow> Peer \<Rightarrow> bool" where
  "sender_peer N E g t p \<longleftrightarrow> unat (local_elen p) = E \<and> unat (local_enum p) = N \<and> unat (local_pos p) = t mod N \<and>
     unat (local_pos_cleaned p) = g mod N \<and> unat ((last_sent_pos p + 1) mod local_enum p) = t mod N \<and> intro_valid_remote p"

definition receiver_peer :: "nat \<Rightarrow> nat \<Rightarrow> nat \<Rightarrow> nat \<Rightarrow> Peer \<Rightarrow> bool" where
  "receiver_peer N E e l p \<longleftrightarrow> unat (cleanup_elen p) = E \<and> unat (cleanup_enum p) = N \<and> unat (cleanup_pos_next p) = e mod N \<and>
     unat (cleanup_pos_last p) = l mod N \<and> intro_valid_remote p"

lemma sender_peer_view: "lview p = lview p' \<Longrightarrow> sender_peer N E g t p = sender_peer N E g t p'"
  by (simp add: sender_peer_def lview_def)

lemma receiver_peer_view: "cview p = cview p' \<Longrightarrow> receiver_peer N E e l p = receiver_peer N E e l p'"
  by (simp add: receiver_peer_def cview_def)

text \<open>The bounds under which the proxies compute: batches fit the buffers and offsets fit 32 bits.\<close>

definition sizes_ok :: "nat \<Rightarrow> nat \<Rightarrow> bool" where
  "sizes_ok N E \<longleftrightarrow> 0 < N \<and> N < 2 ^ 32 \<and> N * E \<le> 2 ^ 32 \<and> 8 * E \<le> 131072"

lemma entries_spec:
  assumes "chan_inv N (src_chan N g d)" "sizes_ok N (unat e)" "unat pos = t mod N" "t mod N + unat n \<le> N" "g \<le> t"
    "t + unat n \<le> length (src_sent d)" "0 < unat n"
  shows "entries (src_queue d) pos n e = Some (take (unat n) (drop t (src_sent d)))"
proof -
  note i = chan_invD[OF assms(1)]
  have nd: "n_done (src_chan N g d) = g" "n_sent (src_chan N g d) = length (src_sent d)"
    using assms(5,6) by (simp_all add: n_done_def n_sent_def)
  have lt: "t mod N < N" using i(1) by simp
  have "entry (src_queue d) pos e = Some (src_queue d ! (t mod N))"
    using entry_spec[OF assms(3) _ i(1), of "src_queue d" e] i(2) assms(2) by (simp add: sizes_ok_def)
  then have fit: "unat pos * unat e < 2 ^ 32" by (simp add: entry_def split: if_splits)
  have "take (unat n) (drop (t mod N) (src_queue d)) = take (unat n) (drop t (src_sent d))"
  proof (rule nth_equalityI)
    show "length (take (unat n) (drop (t mod N) (src_queue d))) = length (take (unat n) (drop t (src_sent d)))"
      using i(2) assms(4,6) by simp
  next
    fix j assume "j < length (take (unat n) (drop (t mod N) (src_queue d)))"
    then have j: "j < unat n" by simp
    then have "(t + j) mod N = t mod N + j" using mod_add_left_eq[of t N j] assms(4) by simp
    then have "src_queue d ! (t mod N + j) = src_sent d ! (t + j)" using i(13)[of "t + j"] nd assms(5,6) j by simp
    then show "take (unat n) (drop (t mod N) (src_queue d)) ! j = take (unat n) (drop t (src_sent d)) ! j"
      using j i(2) assms(4,6) by simp
  qed
  then show ?thesis using fit i(2) assms(3,4) by (simp add: entries_def)
qed

text \<open>One poll forwards the next entries, in one message.\<close>

lemma PassEntries_up:
  assumes "connection_up w" "tx_msgs_free x \<noteq> []" "chan_inv N (src_chan N g d)" "sizes_ok N E" "sender_peer N E g t (peers x ! k)"
    "k < length (peers x)" "t mod N + unat n \<le> N" "g \<le> t" "t + unat n \<le> length (src_sent d)" "0 < unat n" "unat n \<le> 8"
  shows "\<exists>m x1. BaseOpPassEntries w k (local_pos (peers x ! k)) n (src_queue d) x = Some (0, [m], x1) \<and> peer_id m = of_nat k \<and>
    unat (msg_len m) = 24 + unat n * E \<and> sock_body m = kMsgEntries n (local_pos (peers x ! k)) (take (unat n) (drop t (src_sent d)))"
proof -
  let ?p = "peers x ! k"
  have p: "unat (local_elen ?p) = E" "unat (local_enum ?p) = N" "unat (local_pos ?p) = t mod N"
    "unat ((last_sent_pos ?p + 1) mod local_enum ?p) = t mod N" using assms(5) by (simp_all add: sender_peer_def)
  have b: "unat n * E \<le> 131072"
    by (rule order_trans[OF mult_le_mono1[OF assms(11)]]) (use assms(4) in \<open>simp add: sizes_ok_def\<close>)
  then have u: "unat (n * local_elen ?p) = unat n * E" using p(1) by (simp add: unat_word_ariths)
  have "unat (of_nat off_entries_data + n * local_elen ?p) = 24 + unat n * E" using u b by (simp add: unat_word_ariths)
  moreover have "\<not> n * local_elen ?p > TXBUF_SIZE" using u b by (simp add: word_less_nat_alt)
  moreover have "local_enum ?p \<noteq> 0" using p(2) assms(4) by (auto simp: sizes_ok_def)
  moreover have "(last_sent_pos ?p + 1) mod local_enum ?p = local_pos ?p" using p(3,4) by (simp add: word_unat_eq_iff)
  moreover have "entries (src_queue d) (local_pos ?p) n (local_elen ?p) = Some (take (unat n) (drop t (src_sent d)))"
    using entries_spec[OF assms(3) _ p(3) assms(7-10)] p(1) assms(4) by simp
  ultimately show ?thesis
    using assms(2) by (simp add: BaseOpPassEntries_def Let_def set_peer_def send_msg_up[OF assms(1)])
qed

definition forwards :: "nat \<Rightarrow> nat \<Rightarrow> nat \<Rightarrow> 'b BaseMsg list \<Rightarrow> nat \<Rightarrow> nat \<Rightarrow> 'b SockMsg \<Rightarrow> bool" where
  "forwards N E k S t n m \<longleftrightarrow> peer_id m = of_nat k \<and> unat (msg_len m) = 24 + n * E \<and> t mod N + n \<le> N \<and> t + n \<le> length S \<and>
     (\<exists>c pos. sock_body m = kMsgEntries c pos (take n (drop t S)) \<and> unat c = n \<and> unat pos = t mod N)"

lemma transfer_spec:
  assumes "connection_up w" "tx_msgs_free x \<noteq> []" "chan_inv N (src_chan N g d)" "sizes_ok N E" "sender_peer N E g t (peers x ! k)"
    "k < length (peers x)" "g \<le> t" "t \<le> length (src_sent d)" "t < g + N"
  shows "\<exists>r ms x' n. PollPeerTransfer w k (src_queue d) x = Some (r, ms, x') \<and> sender_peer N E g (t + n) (peers x' ! k) \<and>
    t + n \<le> length (src_sent d) \<and> t + n < g + N \<and> (n = 0 \<and> ms = [] \<or> (\<exists>m. ms = [m] \<and> forwards N E k (src_sent d) t n m))"
proof -
  let ?p = "peers x ! k"
  have p: "unat (local_elen ?p) = E" "unat (local_enum ?p) = N" "unat (local_pos ?p) = t mod N" "unat (local_pos_cleaned ?p) = g mod N"
    using assms(5) by (simp_all add: sender_peer_def)
  have N: "0 < N" "N < 2 ^ 32" "N * E \<le> 2 ^ 32" using assms(4) by (simp_all add: sizes_ok_def)
  obtain n where n: "transfer_count kPollMax (src_queue d) ?p 0 = Some n" "unat n \<le> 8" "t mod N + unat n \<le> N"
    "t + unat n \<le> length (src_sent d)" "t + unat n < g + N"
    using transfer_count_spec[OF assms(3) _ p(2-4) assms(7), where n = 0 and f = kPollMax] p(1) N assms(8,9) by (auto simp: less_imp_le)
  show ?thesis
  proof (cases "n = 0")
    case True
    then show ?thesis using n(1) assms(5,8,9) by (auto simp: PollPeerTransfer_def)
  next
    case False
    then have n0: "0 < unat n" by (simp add: unat_gt_0)
    obtain m x1 where m: "BaseOpPassEntries w k (local_pos ?p) n (src_queue d) x = Some (0, [m], x1)" "peer_id m = of_nat k"
      "unat (msg_len m) = 24 + unat n * E" "sock_body m = kMsgEntries n (local_pos ?p) (take (unat n) (drop t (src_sent d)))"
      using PassEntries_up[OF assms(1-6) n(3) assms(7) n(4) n0 n(2)] by blast
    have p1: "peers x1 ! k = ?p\<lparr> last_sent_pos := local_pos ?p + n - 1 \<rparr>" "length (peers x1) = length (peers x)"
      using PassEntries_frame[OF m(1)] assms(6) by simp_all
    let ?v = "if local_pos ?p + n < local_enum ?p then local_pos ?p + n else local_pos ?p + n - local_enum ?p"
    let ?x = "set_peer k ((peers x1 ! k)\<lparr> local_pos := ?v \<rparr>) x1"
    have e: "\<exists>r. PollPeerTransfer w k (src_queue d) x = Some (r, [m], ?x)"
      using n(1) False m(1) p1 by (simp add: PollPeerTransfer_def Let_def)
    have "unat (local_pos ?p + n) = t mod N + unat n" using n(3) N(2) p(3) by (simp add: unat_word_ariths)
    then have "unat ((local_pos ?p + n) mod local_enum ?p) = (t + unat n) mod N" by (simp add: unat_mod p(2) mod_add_left_eq)
    then have "sender_peer N E g (t + unat n) (peers ?x ! k)"
      using pos_add[OF p(3,2) n(3) N(1)] p assms(5,6) p1 by (simp add: sender_peer_def set_peer_def)
    moreover have "forwards N E k (src_sent d) t (unat n) m" using m(2-4) n p(3) by (simp add: forwards_def)
    ultimately show ?thesis using e n(4,5) by blast
  qed
qed

text \<open>The receiver finds entries released only when the simulator has released them.\<close>

lemma cleanup_loop_spec:
  assumes "chan_inv N (dst_chan N r d)" "sizes_ok N E" "receiver_peer N E e l p" "e < l" "l \<le> r" "r < e + N" "r \<le> length (src_sent d)"
    "e \<le> n_done (dst_chan N r d)"
  shows "\<exists>c p' e'. cleanup_loop f (dst_queue d) p = Some (c, p') \<and> receiver_peer N E e' l p' \<and> e \<le> e' \<and> e' \<le> l \<and>
    e' \<le> n_done (dst_chan N r d)"
  using assms(3,4,6,8)
proof (induction f arbitrary: p e)
  case 0
  then show ?case by auto
next
  case (Suc f)
  note i = chan_invD[OF assms(1)]
  have p: "unat (cleanup_elen p) = E" "unat (cleanup_enum p) = N" "unat (cleanup_pos_next p) = e mod N" "unat (cleanup_pos_last p) = l mod N"
    using Suc.prems(1) by (simp_all add: receiver_peer_def)
  have en: "entry (dst_queue d) (cleanup_pos_next p) (cleanup_elen p) = Some (dst_queue d ! (e mod N))"
    using entry_spec[OF p(3) _ i(1), of "dst_queue d" "cleanup_elen p"] i(2) p(1) assms(2) by (simp add: sizes_ok_def)
  show ?case
  proof (cases "pro (dst_queue d ! (e mod N))")
    case False
    then have "cleanup_loop (Suc f) (dst_queue d) p = Some (False, p)" using en by (simp add: pro_def)
    with Suc.prems show ?thesis by (meson less_imp_le order_refl)
  next
    case True
    have "e < n_done (dst_chan N r d)"
    proof (rule ccontr)
      assume "\<not> ?thesis"
      then have "con (dst_queue d ! (e mod N))" using i(13)[of e] Suc.prems(2) assms(5,7) by (simp add: n_sent_def)
      with True show False using own_excl by blast
    qed
    then have le: "Suc e \<le> n_done (dst_chan N r d)" by simp
    let ?v = "if cleanup_pos_next p + 1 \<ge> cleanup_enum p then cleanup_pos_next p + 1 - cleanup_enum p else cleanup_pos_next p + 1"
    let ?p = "p\<lparr> cleanup_pos_next := ?v \<rparr>"
    have rp: "receiver_peer N E (Suc e) l ?p" using Suc.prems(1) pos_next[OF p(3,2) i(1)] by (simp add: receiver_peer_def)
    show ?thesis
    proof (cases "?v = cleanup_pos_last p")
      case eq: True
      then have "cleanup_loop (Suc f) (dst_queue d) p = Some (True, ?p)" using en True by (simp add: pro_def Let_def)
      moreover have "Suc e \<le> l" using Suc.prems(2) by simp
      ultimately show ?thesis using rp le by (meson Suc_leD order_refl)
    next
      case ne: False
      have "Suc e \<noteq> l" using ne p(4) rp by (auto simp: receiver_peer_def word_unat_eq_iff)
      then have lt: "Suc e < l" "r < Suc e + N" using Suc.prems(2,3) by simp_all
      obtain c p' e' where r: "cleanup_loop f (dst_queue d) ?p = Some (c, p')" "receiver_peer N E e' l p'" "Suc e \<le> e'" "e' \<le> l"
        "e' \<le> n_done (dst_chan N r d)" using Suc.IH[OF rp lt le] by blast
      have "cleanup_loop (Suc f) (dst_queue d) p = Some (True, p')" using en True ne r(1) by (simp add: pro_def Let_def)
      with r(2-5) show ?thesis by (meson Suc_leD)
    qed
  qed
qed

lemma cleanup_spec:
  assumes "chan_inv N (dst_chan N r d)" "sizes_ok N E" "receiver_peer N E e l (peers x ! k)" "e \<le> l" "l \<le> r" "r < e + N"
    "r \<le> length (src_sent d)" "e \<le> n_done (dst_chan N r d)" "k < length (peers x)"
  shows "\<exists>b x' e'. PollPeerCleanup k (dst_queue d) x = Some (b, x') \<and> receiver_peer N E e' l (peers x' ! k) \<and> e \<le> e' \<and> e' \<le> l \<and>
    e' \<le> n_done (dst_chan N r d)"
proof (cases "e = l")
  case True
  then have "cleanup_pos_next (peers x ! k) = cleanup_pos_last (peers x ! k)"
    using assms(3) by (simp add: receiver_peer_def word_unat_eq_iff)
  then have "PollPeerCleanup k (dst_queue d) x = Some (False, x)" by (simp add: PollPeerCleanup_def)
  with assms(3,4,8) show ?thesis by blast
next
  case False
  then have lt: "e < l" using assms(4) by simp
  have "e mod N \<noteq> l mod N" using window_inj[of e e N l] lt assms(5,6) by auto
  then have ne: "cleanup_pos_next (peers x ! k) \<noteq> cleanup_pos_last (peers x ! k)"
    using assms(3) by (auto simp: receiver_peer_def)
  obtain c p' e' where r: "cleanup_loop (kCleanupMax + 1) (dst_queue d) (peers x ! k) = Some (c, p')" "receiver_peer N E e' l p'"
    "e \<le> e'" "e' \<le> l" "e' \<le> n_done (dst_chan N r d)"
    using cleanup_loop_spec[OF assms(1-3) lt assms(5-8)] by blast
  have "cleanup_enum p' \<noteq> 0" using r(2) assms(2) by (auto simp: receiver_peer_def sizes_ok_def)
  then have "\<exists>b. PollPeerCleanup k (dst_queue d) x = Some (b, set_peer k p' x)"
    using ne r(1) by (simp add: PollPeerCleanup_def Let_def del: kCleanupMax_def)
  moreover have "peers (set_peer k p' x) ! k = p'" using assms(9) by (simp add: set_peer_def)
  ultimately show ?thesis using r(2-5) by metis
qed

section \<open>Messages under way\<close>

text \<open>
  The messages to the receiver: the entries follow each other from \<open>r\<close> to \<open>t\<close>, and a report gives the
  position of the entries before it. The messages to the sender: reports of released entries, in
  order, between \<open>g\<close> and \<open>e\<close>. Messages of other peers do not matter.
\<close>

fun down :: "nat \<Rightarrow> nat \<Rightarrow> nat \<Rightarrow> 'b BaseMsg list \<Rightarrow> nat \<Rightarrow> 'b SockMsg list \<Rightarrow> nat \<Rightarrow> bool" where
  "down N E k S r [] t = (r = t)"
| "down N E k S r (m # ms) t = (case sock_body m of
       kMsgEntries c pos data \<Rightarrow>
         if peer_id m = of_nat k then forwards N E k S r (unat c) m \<and> down N E k S (r + unat c) ms t else down N E k S r ms t
     | kMsgReport rs \<Rightarrow> (snd (snd (rep_at k rs)) \<longrightarrow> unat (fst (rep_at k rs)) = r mod N) \<and> down N E k S r ms t
     | _ \<Rightarrow> down N E k S r ms t)"

fun up :: "nat \<Rightarrow> nat \<Rightarrow> nat \<Rightarrow> 'b SockMsg list \<Rightarrow> nat \<Rightarrow> bool" where
  "up N k g [] e = (g \<le> e)"
| "up N k g (m # ms) e = (case sock_body m of
       kMsgReport rs \<Rightarrow> if snd (snd (rep_at k rs)) then \<exists>c\<ge>g. unat (fst (snd (rep_at k rs))) = c mod N \<and> up N k c ms e else up N k g ms e
     | _ \<Rightarrow> up N k g ms e)"

lemma forwards_mono: "forwards N E k S t n m \<Longrightarrow> forwards N E k (S @ xs) t n m"
  by (auto simp: forwards_def)

lemma down_mono: "down N E k S r ms t \<Longrightarrow> down N E k (S @ xs) r ms t"
  by (induction N E k S r ms t rule: down.induct) (auto intro: forwards_mono split: sock_body.splits)

lemma down_le: "down N E k S r ms t \<Longrightarrow> r \<le> t"
  by (induction N E k S r ms t rule: down.induct) (auto split: sock_body.splits if_splits)

lemma down_append: "down N E k S r (ms @ ms') t = (\<exists>t'. down N E k S r ms t' \<and> down N E k S t' ms' t)"
  by (induction N E k S r ms t rule: down.induct) (auto split: sock_body.splits)

lemma down_foreign:
  "down N E k S r ms t \<Longrightarrow> \<forall>m\<in>set ms'. peer_id m \<noteq> of_nat k \<and> (\<exists>c pos data. sock_body m = kMsgEntries c pos data) \<Longrightarrow>
   down N E k S r (ms @ ms') t"
proof -
  assume a: "down N E k S r ms t" "\<forall>m\<in>set ms'. peer_id m \<noteq> of_nat k \<and> (\<exists>c pos data. sock_body m = kMsgEntries c pos data)"
  have "down N E k S t ms' t" using a(2) by (induction ms') auto
  with a(1) show ?thesis by (auto simp: down_append)
qed

lemma up_le: "up N k g ms e \<Longrightarrow> g \<le> e"
  by (induction N k g ms e rule: up.induct) (auto split: sock_body.splits if_splits intro: order_trans)

lemma up_mono: "up N k g ms e \<Longrightarrow> e \<le> e' \<Longrightarrow> up N k g ms e'"
  by (induction N k g ms e rule: up.induct) (auto split: sock_body.splits if_splits)

lemma up_append: "up N k g ms e \<Longrightarrow> \<forall>m\<in>set ms'. \<forall>rs. sock_body m = kMsgReport rs \<longrightarrow> snd (snd (rep_at k rs)) \<longrightarrow>
    unat (fst (snd (rep_at k rs))) = e mod N \<Longrightarrow> up N k g (ms @ ms') e"
proof (induction N k g ms e rule: up.induct)
  case (1 N k g e)
  then have "g \<le> e" by simp
  then show ?case using 1(2)
  proof (induction ms' arbitrary: g)
    case (Cons m ms')
    then have "up N k e ms' e" "up N k g ms' e" by simp_all
    with Cons.prems show ?case by (auto split: sock_body.splits)
  qed simp
qed (auto split: sock_body.splits if_splits)

section \<open>Receiving\<close>

lemma rep_at_Cons [simp]: "rep_at 0 (x # rs) = x" "rep_at (Suc k) (x # rs) = rep_at k rs" "rep_at k [] = (0, 0, False)"
  by (simp_all add: rep_at_def)

lemma rep_at_take: "k < n \<Longrightarrow> rep_at k (take n rs) = rep_at k rs"
  by (simp add: rep_at_def)

definition report_at :: "nat \<Rightarrow> u32 \<times> u32 \<times> bool \<Rightarrow> 'b BaseMsg list \<Rightarrow> Peer \<Rightarrow> 'b BaseMsg list \<Rightarrow> Peer \<Rightarrow> bool" where
  "report_at k x q p q' p' \<longleftrightarrow> (if snd (snd x) then BasePeerReport (fst x) (fst (snd x)) q p = Some (q', p') else q' = q \<and> p' = p)"

lemma rx_reports_nth:
  "rx_reports i rs lq ps = Some (lq', ps') \<Longrightarrow> length ps' = length ps \<and> (\<forall>j < i. lq' j = lq j) \<and>
     (\<forall>k < length ps. report_at k (rep_at k rs) (lq (i + k)) (ps ! k) (lq' (i + k)) (ps' ! k))"
proof (induction i rs lq ps arbitrary: lq' ps' rule: rx_reports.induct)
  case (1 i written clean valid rs lq p ps)
  show ?case
  proof (cases valid)
    case False
    then obtain ps1 where r: "rx_reports (Suc i) rs lq ps = Some (lq', ps1)" "ps' = p # ps1" using "1.prems" by auto
    note ih = "1.IH"(1)[OF False r(1)]
    show ?thesis unfolding r(2) using ih False
      by (auto simp: report_at_def nth_Cons split: nat.splits)
  next
    case True
    then obtain q p1 ps1 where r: "BasePeerReport written clean (lq i) p = Some (q, p1)" "rx_reports (Suc i) rs (lq(i := q)) ps = Some (lq', ps1)"
      "ps' = p1 # ps1" using "1.prems" by (auto simp: bind_eq_Some_conv)
    have ih: "length ps1 = length ps \<and> (\<forall>j < Suc i. lq' j = (lq(i := q)) j) \<and>
        (\<forall>k < length ps. report_at k (rep_at k rs) ((lq(i := q)) (Suc i + k)) (ps ! k) (lq' (Suc i + k)) (ps1 ! k))"
      using "1.IH"(2) True r by blast
    show ?thesis unfolding r(3) using ih True r(1)
      by (auto simp: report_at_def nth_Cons split: nat.splits)
  qed
qed (auto simp: report_at_def rep_at_def)

lemma SetupQueues_frame:
  assumes "BasePeerSetupQueues i s = Some (r, s')"
  shows "length (peers s') = length (peers s) \<and> tx_msgs_free s' = tx_msgs_free s \<and> (\<forall>j. j \<noteq> i \<longrightarrow> peers s' ! j = peers s ! j)"
  using assms by (auto simp: BasePeerSetupQueues_def Let_def bind_eq_Some_conv ShmAlloc_def set_peer_def split: if_splits)

lemma RxIntro_frame:
  assumes "SockMsgRxIntro ok m n data s = Some (r, out, s')" "intro_valid_remote (peers s ! k)"
  shows "length (peers s') = length (peers s) \<and> tx_msgs_free s' = tx_msgs_free s \<and> peers s' ! k = peers s ! k"
proof -
  let ?i = "unat (peer_id m)"
  have k: "?i \<noteq> k" using assms by (auto simp: SockMsgRxIntro_def Let_def split: if_splits)
  obtain p1 r2 s2 where s2: "BasePeerSetupQueues ?i (set_peer ?i p1 s) = Some (r2, s2)" "s' = s2 \<or> (\<exists>p2. s' = set_peer ?i p2 s2)"
    using assms(1) by (auto simp: SockMsgRxIntro_def Let_def bind_eq_Some_conv split: if_splits prod.splits)
  from SetupQueues_frame[OF s2(1)] s2(2) k show ?thesis by (auto simp: set_peer_def)
qed

text \<open>A report gives entries back to the sender, and tells the receiver how far entries were written.\<close>

lemma BasePeerReport_sender:
  assumes "chan_inv N (src_chan N g d)" "sizes_ok N E" "sender_peer N E g t p" "g \<le> c" "c \<le> length (src_sent d)" "c < g + N"
    "unat clean = c mod N"
  shows "\<exists>q' p'. BasePeerReport written clean (src_queue d) p = Some (q', p') \<and> chan_inv N (src_chan N c (d\<lparr> src_queue := q' \<rparr>)) \<and>
    sender_peer N E c t p'"
proof (cases "written = cleanup_pos_last p \<and> clean = local_pos_cleaned p")
  case True
  then have "c mod N = g mod N" using assms(3,7) by (simp add: sender_peer_def)
  then have "c = g" using window_inj[of g c N g] assms(2,4,6) by (simp add: sizes_ok_def)
  with True assms(1,3) show ?thesis by (simp add: BasePeerReport_def)
next
  case False
  have p: "unat (local_elen p) = E" "unat (local_enum p) = N" "unat (local_pos_cleaned p) = g mod N"
    using assms(3) by (simp_all add: sender_peer_def)
  have N: "N < 2 ^ 32" "N * unat (local_elen p) \<le> 2 ^ 32" using assms(2) p(1) by (simp_all add: sizes_ok_def)
  obtain q' where "mark_clean (local_elen p) (local_enum p) (local_pos_cleaned p) clean (src_queue d) = Some q'"
    "chan_inv N (src_chan N c (d\<lparr> src_queue := q' \<rparr>))"
    using mark_clean_spec[where d = d and q = "src_queue d" and g = g, OF _ assms(4-6) N p(2,3) assms(7)] assms(1) by auto
  with False assms(3,7) show ?thesis by (auto simp: BasePeerReport_def sender_peer_def)
qed

lemma BasePeerReport_receiver:
  assumes "BasePeerReport written clean q p = Some (q', p')" "receiver_peer N E e l p" "unat written = r mod N"
  shows "receiver_peer N E e r p'"
  using assms by (auto simp: BasePeerReport_def receiver_peer_def bind_eq_Some_conv split: if_splits)

lemma RxEntries_spec:
  assumes "chan_inv N (dst_chan N r d)" "sizes_ok N E" "receiver_peer N E e l (peers s ! k)" "k < length (peers s)" "length (peers s) \<le> 32"
    "forwards N E k (src_sent d) r n m" "sock_body m = kMsgEntries c pos data" "r + n \<le> n_done (dst_chan N r d) + N"
    "\<forall>x\<in>set (take n (drop r (src_sent d))). con x" "cqs k = dst_queue d"
  shows "\<exists>q'. SockMsgRxEntries m c pos data cqs s = Some (cqs(k := q')) \<and> chan_inv N (dst_chan N (r + n) (d\<lparr> dst_queue := q' \<rparr>))"
proof -
  have f: "peer_id m = of_nat k" "unat (msg_len m) = 24 + n * E" "r mod N + n \<le> N" "r + n \<le> length (src_sent d)"
    "data = take n (drop r (src_sent d))" "unat c = n" "unat pos = r mod N"
    using assms(6,7) by (auto simp: forwards_def)
  have k: "unat (peer_id m) = k" using assms(4,5) f(1) by (simp add: unat_of_nat)
  have el: "unat (cleanup_elen (peers s ! k)) = E" using assms(3) by (simp add: receiver_peer_def)
  have "unat (msg_len m) < 2 ^ 32" by (rule unat_width)
  then have "unat (c * cleanup_elen (peers s ! k)) = n * E" using f(2,6) el by (simp add: unat_word_ariths)
  then have e: "SockMsgRxEntries m c pos data cqs s = map_option (\<lambda>q. cqs(k := q)) (rx_entries (peers s ! k) pos data (dst_queue d))"
    using assms(4,10) f k by (simp add: SockMsgRxEntries_def Let_def)
  have len: "length data = n" using f(4,5) by simp
  have "\<exists>q'. rx_entries (peers s ! k) pos data (dst_queue d) = Some q' \<and> chan_inv N (dst_chan N (r + length data) (d\<lparr> dst_queue := q' \<rparr>))"
    using assms(1,2,8,9) f len by (intro rx_entries_spec[OF _ _ f(7)]) (simp_all add: sizes_ok_def)
  with e len show ?thesis by auto
qed

end
