(* ===== verification/Dist_Safety.thy ===== *)
theory Dist_Safety
  imports Dist_Link
begin

text \<open>
  Correctness of the proxies: two simulators that are connected through a pair of proxies see a
  queue of the same capacity as on one machine. The forwarding never overwrites an entry that was
  not released, and the checks of the proxies that end the program never fail. Two defects: a
  message that is shorter than the largest one waits in the receive buffer, and queues of up to 128
  entries are never reported.
\<close>

section \<open>Two proxies\<close>

text \<open>
  The steps of a connection through two proxies, as peer number \<open>k\<close> of both. The simulators allocate,
  send, poll and release as on one machine. Each proxy polls any of its peers, sends reports, and
  processes the next message that it received; the queues of other peers and of the opposite
  direction have any contents. The connection between the proxies stays up and both ends have
  exchanged their introductions; a step processes one complete message at a time.
\<close>

inductive dist_step :: "nat \<Rightarrow> 'b dist \<Rightarrow> 'b dist \<Rightarrow> bool" for k where
  src_alloc: "src_pend d = None \<Longrightarrow> OutAlloc ts (src_queue d) (src_if d) = Some (r, q', b') \<Longrightarrow>
    dist_step k d (d\<lparr> src_queue := q', src_if := b', src_pend := r \<rparr>)"
| src_send: "src_pend d = Some i \<Longrightarrow> q' = OutSend i ty ((src_queue d)[i := (src_queue d ! i)\<lparr> body := x \<rparr>]) \<Longrightarrow>
    dist_step k d (d\<lparr> src_queue := q', src_pend := None, src_sent := src_sent d @ [q' ! i] \<rparr>)"
| dst_poll: "dst_held d = None \<Longrightarrow> InPoll ts (dst_queue d) (dst_if d) = Some (r, b') \<Longrightarrow>
    dist_step k d (d\<lparr> dst_if := b', dst_held := r,
      dst_rcvd := dst_rcvd d @ (case r of None \<Rightarrow> [] | Some i \<Rightarrow> [dst_queue d ! i]) \<rparr>)"
| dst_release: "dst_held d = Some i \<Longrightarrow> dist_step k d (d\<lparr> dst_queue := InDone i (dst_queue d), dst_held := None \<rparr>)"
| transfer1: "connection_up w \<Longrightarrow> i < length (peers (prx1 d)) \<Longrightarrow> (i = k \<longrightarrow> q = src_queue d) \<Longrightarrow>
    PollPeerTransfer w i q (prx1 d) = Some (b, ms, x) \<Longrightarrow> dist_step k d (d\<lparr> prx1 := x, to2 := to2 d @ ms \<rparr>)"
| transfer2: "connection_up w \<Longrightarrow> i < length (peers (prx2 d)) \<Longrightarrow>
    PollPeerTransfer w i q (prx2 d) = Some (b, ms, x) \<Longrightarrow> dist_step k d (d\<lparr> prx2 := x, to1 := to1 d @ ms \<rparr>)"
| cleanup1: "i < length (peers (prx1 d)) \<Longrightarrow> PollPeerCleanup i (q :: 'b BaseMsg list) (prx1 d) = Some (b, x) \<Longrightarrow> dist_step k d (d\<lparr> prx1 := x \<rparr>)"
| cleanup2: "i < length (peers (prx2 d)) \<Longrightarrow> (i = k \<longrightarrow> q = dst_queue d) \<Longrightarrow>
    PollPeerCleanup i q (prx2 d) = Some (b, x) \<Longrightarrow> dist_step k d (d\<lparr> prx2 := x \<rparr>)"
| report1: "connection_up w \<Longrightarrow> BaseOpPassReport w (prx1 d) = Some (a, ms, x) \<Longrightarrow> dist_step k d (d\<lparr> prx1 := x, to2 := to2 d @ ms \<rparr>)"
| report2: "connection_up w \<Longrightarrow> BaseOpPassReport w (prx2 d) = Some (a, ms, x) \<Longrightarrow> dist_step k d (d\<lparr> prx2 := x, to1 := to1 d @ ms \<rparr>)"
| receive1: "to1 d = m # ms \<Longrightarrow> lqs k = src_queue d \<Longrightarrow> SockMsgRx ok m lqs cqs (prx1 d) = Some r \<Longrightarrow>
    dist_step k d (d\<lparr> to1 := ms, prx1 := rx_proxy r, src_queue := rx_lq r k \<rparr>)"
| receive2: "to2 d = m # ms \<Longrightarrow> cqs k = dst_queue d \<Longrightarrow> SockMsgRx ok m lqs cqs (prx2 d) = Some r \<Longrightarrow>
    dist_step k d (d\<lparr> to2 := ms, prx2 := rx_proxy r, dst_queue := rx_cq r k \<rparr>)"

definition proxy_ok :: "nat \<Rightarrow> Proxy \<Rightarrow> bool" where
  "proxy_ok k x \<longleftrightarrow> k < length (peers x) \<and> length (peers x) \<le> 32 \<and> tx_msgs_free x \<noteq> []"

definition dist_inv :: "nat \<Rightarrow> nat \<Rightarrow> nat \<Rightarrow> nat \<Rightarrow> nat \<Rightarrow> nat \<Rightarrow> nat \<Rightarrow> nat \<Rightarrow> 'b dist \<Rightarrow> bool" where
  "dist_inv N E k g e l r t d \<longleftrightarrow> sizes_ok N E \<and> chan_inv N (src_chan N g d) \<and> chan_inv N (dst_chan N r d) \<and>
     proxy_ok k (prx1 d) \<and> proxy_ok k (prx2 d) \<and> sender_peer N E g t (peers (prx1 d) ! k) \<and> receiver_peer N E e l (peers (prx2 d) ! k) \<and>
     e \<le> l \<and> l \<le> r \<and> e \<le> n_done (dst_chan N r d) \<and> t \<le> length (src_sent d) \<and> t < g + N \<and>
     down N E k (src_sent d) r (to2 d) t \<and> up N k g (to1 d) e"

lemma dist_invD:
  assumes "dist_inv N E k g e l r t d"
  shows "sizes_ok N E" "chan_inv N (src_chan N g d)" "chan_inv N (dst_chan N r d)" "proxy_ok k (prx1 d)" "proxy_ok k (prx2 d)"
    "sender_peer N E g t (peers (prx1 d) ! k)" "receiver_peer N E e l (peers (prx2 d) ! k)" "e \<le> l" "l \<le> r"
    "e \<le> n_done (dst_chan N r d)" "t \<le> length (src_sent d)" "t < g + N" "down N E k (src_sent d) r (to2 d) t" "up N k g (to1 d) e"
    "g \<le> e" "r \<le> t"
  using assms up_le[of N k g "to1 d" e] down_le[of N E k "src_sent d" r "to2 d" t] unfolding dist_inv_def by blast+

text \<open>The steps of the simulators.\<close>

lemma src_step:
  assumes "dist_inv N E k g e l r t d" "chan_step (src_chan N g d) (src_chan N g d')" "src_sent d' = src_sent d @ xs"
    "prx1 d' = prx1 d" "prx2 d' = prx2 d" "to1 d' = to1 d" "to2 d' = to2 d" "dst_queue d' = dst_queue d" "dst_if d' = dst_if d"
    "dst_held d' = dst_held d" "dst_rcvd d' = dst_rcvd d"
  shows "dist_inv N E k g e l r t d'"
proof -
  note i = dist_invD[OF assms(1)]
  have c: "dst_chan N r d' = dst_chan N r d" using i(11,16) assms(3,8-11) by (simp add: dst_chan_def)
  have s: "chan_inv N (src_chan N g d')" by (rule chan_step_inv[OF i(2) assms(2)])
  show ?thesis unfolding dist_inv_def c assms(4-7) using i s down_mono[OF i(13)] by (simp add: assms(3))
qed

lemma dst_step:
  assumes "dist_inv N E k g e l r t d" "chan_step (dst_chan N r d) (dst_chan N r d')" "n_done (dst_chan N r d) \<le> n_done (dst_chan N r d')"
    "src_sent d' = src_sent d" "src_queue d' = src_queue d" "src_if d' = src_if d" "src_pend d' = src_pend d"
    "prx1 d' = prx1 d" "prx2 d' = prx2 d" "to1 d' = to1 d" "to2 d' = to2 d"
  shows "dist_inv N E k g e l r t d'"
proof -
  note i = dist_invD[OF assms(1)]
  have c: "src_chan N g d' = src_chan N g d" using assms(4-7) by (simp add: src_chan_def)
  have s: "chan_inv N (dst_chan N r d')" by (rule chan_step_inv[OF i(3) assms(2)])
  show ?thesis unfolding dist_inv_def c assms(4,8-11) using i s assms(3) by simp
qed

lemma simulator_steps:
  assumes "dist_inv N E k g e l r t d"
  shows "src_pend d = None \<Longrightarrow> OutAlloc ts (src_queue d) (src_if d) = Some (a, q', b') \<Longrightarrow>
      dist_inv N E k g e l r t (d\<lparr> src_queue := q', src_if := b', src_pend := a \<rparr>)"
    "src_pend d = Some i \<Longrightarrow> q' = OutSend i ty ((src_queue d)[i := (src_queue d ! i)\<lparr> body := x \<rparr>]) \<Longrightarrow>
      dist_inv N E k g e l r t (d\<lparr> src_queue := q', src_pend := None, src_sent := src_sent d @ [q' ! i] \<rparr>)"
    "dst_held d = None \<Longrightarrow> InPoll ts (dst_queue d) (dst_if d) = Some (a, b') \<Longrightarrow>
      dist_inv N E k g e l r t (d\<lparr> dst_if := b', dst_held := a, dst_rcvd := dst_rcvd d @ (case a of None \<Rightarrow> [] | Some i \<Rightarrow> [dst_queue d ! i]) \<rparr>)"
    "dst_held d = Some i \<Longrightarrow> dist_inv N E k g e l r t (d\<lparr> dst_queue := InDone i (dst_queue d), dst_held := None \<rparr>)"
proof -
  have g: "g \<le> length (src_sent d)" using dist_invD(8-11,15,16)[OF assms] by linarith
  show "src_pend d = None \<Longrightarrow> OutAlloc ts (src_queue d) (src_if d) = Some (a, q', b') \<Longrightarrow>
      dist_inv N E k g e l r t (d\<lparr> src_queue := q', src_if := b', src_pend := a \<rparr>)"
    using chan_step.alloc[of "src_chan N g d" ts a q' b']
    by (intro src_step[OF assms, where xs = "[]"]) (simp_all add: src_chan_def)
  show "src_pend d = Some i \<Longrightarrow> q' = OutSend i ty ((src_queue d)[i := (src_queue d ! i)\<lparr> body := x \<rparr>]) \<Longrightarrow>
      dist_inv N E k g e l r t (d\<lparr> src_queue := q', src_pend := None, src_sent := src_sent d @ [q' ! i] \<rparr>)"
    using chan_step.send[of "src_chan N g d" i q' ty x] g
    by (intro src_step[OF assms, where xs = "[q' ! i]"]) (simp_all add: src_chan_def)
  show "dst_held d = None \<Longrightarrow> InPoll ts (dst_queue d) (dst_if d) = Some (a, b') \<Longrightarrow>
      dist_inv N E k g e l r t (d\<lparr> dst_if := b', dst_held := a, dst_rcvd := dst_rcvd d @ (case a of None \<Rightarrow> [] | Some i \<Rightarrow> [dst_queue d ! i]) \<rparr>)"
    using chan_step.poll[of "dst_chan N r d" ts a b']
    by (intro dst_step[OF assms]) (auto simp: dst_chan_def n_done_def split: option.splits)
  show "dst_held d = Some i \<Longrightarrow> dist_inv N E k g e l r t (d\<lparr> dst_queue := InDone i (dst_queue d), dst_held := None \<rparr>)"
    using chan_step.release[of "dst_chan N r d" i]
    by (intro dst_step[OF assms]) (simp_all add: dst_chan_def n_done_def)
qed

text \<open>The two channels do not depend on the proxies and the messages.\<close>

lemma chan_frame [simp]:
  "src_chan N g (d\<lparr> prx1 := x, to2 := w \<rparr>) = src_chan N g d" "dst_chan N r (d\<lparr> prx1 := x, to2 := w \<rparr>) = dst_chan N r d"
  "src_chan N g (d\<lparr> prx2 := x, to1 := w \<rparr>) = src_chan N g d" "dst_chan N r (d\<lparr> prx2 := x, to1 := w \<rparr>) = dst_chan N r d"
  "src_chan N g (d\<lparr> prx1 := x \<rparr>) = src_chan N g d" "dst_chan N r (d\<lparr> prx1 := x \<rparr>) = dst_chan N r d"
  "src_chan N g (d\<lparr> prx2 := x \<rparr>) = src_chan N g d" "dst_chan N r (d\<lparr> prx2 := x \<rparr>) = dst_chan N r d"
  "src_chan N g (d\<lparr> to1 := w \<rparr>) = src_chan N g d" "dst_chan N r (d\<lparr> to1 := w \<rparr>) = dst_chan N r d"
  "src_chan N g (d\<lparr> to2 := w \<rparr>) = src_chan N g d" "dst_chan N r (d\<lparr> to2 := w \<rparr>) = dst_chan N r d"
  "dst_chan N r (d\<lparr> to1 := w, prx1 := x, src_queue := q \<rparr>) = dst_chan N r d"
  "src_chan N g (d\<lparr> to2 := w, prx2 := x, dst_queue := q \<rparr>) = src_chan N g d"
  "src_chan N g (d\<lparr> to2 := w, dst_queue := q \<rparr>) = src_chan N g d"
  "dst_chan N r (d\<lparr> to2 := w, dst_queue := q \<rparr>) = dst_chan N r (d\<lparr> dst_queue := q \<rparr>)"
  "src_chan N g (d\<lparr> to1 := w, prx1 := x, src_queue := q \<rparr>) = src_chan N g (d\<lparr> src_queue := q \<rparr>)"
  "dst_chan N r (d\<lparr> to2 := w, prx2 := x, dst_queue := q \<rparr>) = dst_chan N r (d\<lparr> dst_queue := q \<rparr>)"
  by (simp_all add: src_chan_def dst_chan_def)

text \<open>The steps of the proxies.\<close>

lemma of_nat_peer: "i < 32 \<Longrightarrow> k < 32 \<Longrightarrow> (of_nat i :: u32) = of_nat k \<Longrightarrow> i = k"
  by (drule arg_cong[of _ _ unat]) (simp add: unat_of_nat)

lemma transfer1_inv:
  assumes "dist_inv N E k g e l r t d" "connection_up w" "i < length (peers (prx1 d))" "i = k \<longrightarrow> q = src_queue d"
    "PollPeerTransfer w i q (prx1 d) = Some (b, ms, x)"
  shows "\<exists>t'. dist_inv N E k g e l r t' (d\<lparr> prx1 := x, to2 := to2 d @ ms \<rparr>)"
proof -
  note i = dist_invD[OF assms(1)]
  note f = transfer_frame[OF assms(5,3)]
  have ok: "proxy_ok k x" using i(4) f by (simp add: proxy_ok_def)
  show ?thesis
  proof (cases "i = k")
    case True
    have gt: "g \<le> t" using i(8,9,15,16) by linarith
    obtain n where n: "sender_peer N E g (t + n) (peers x ! k)" "t + n \<le> length (src_sent d)" "t + n < g + N"
      "n = 0 \<and> ms = [] \<or> (\<exists>m. ms = [m] \<and> forwards N E k (src_sent d) t n m)"
      using transfer_spec[OF assms(2) _ i(2,1,6) _ gt i(11,12)] i(4) assms(4,5) True by (auto simp: proxy_ok_def)
    have "down N E k (src_sent d) t ms (t + n)" using n(4) by (auto simp: forwards_def)
    then have "down N E k (src_sent d) r (to2 d @ ms) (t + n)" using i(13) by (auto simp: down_append)
    with i ok n show ?thesis unfolding dist_inv_def by (intro exI[of _ "t + n"]) simp
  next
    case False
    have "\<forall>m\<in>set ms. peer_id m \<noteq> of_nat k \<and> (\<exists>c pos data. sock_body m = kMsgEntries c pos data)"
      using f of_nat_peer[of i k] i(4) assms(3) False by (fastforce simp: proxy_ok_def)
    with down_foreign[OF i(13)] f False i ok show ?thesis unfolding dist_inv_def by (intro exI[of _ t]) auto
  qed
qed

lemma transfer2_inv:
  assumes "dist_inv N E k g e l r t d" "i < length (peers (prx2 d))" "PollPeerTransfer w i q (prx2 d) = Some (b, ms, x)"
  shows "dist_inv N E k g e l r t (d\<lparr> prx2 := x, to1 := to1 d @ ms \<rparr>)"
proof -
  note i = dist_invD[OF assms(1)]
  note f = transfer_frame[OF assms(3,2)]
  have "receiver_peer N E e l (peers x ! k)" using i(7) f receiver_peer_view[of "peers x ! k"] by blast
  moreover have "up N k g (to1 d @ ms) e" using f by (intro up_append[OF i(14)]) fastforce
  moreover have "proxy_ok k x" using i(5) f by (simp add: proxy_ok_def)
  ultimately show ?thesis unfolding dist_inv_def using i by simp
qed

lemma cleanup1_inv:
  assumes "dist_inv N E k g e l r t d" "i < length (peers (prx1 d))" "PollPeerCleanup i q (prx1 d) = Some (b, x)"
  shows "dist_inv N E k g e l r t (d\<lparr> prx1 := x \<rparr>)"
proof -
  note i = dist_invD[OF assms(1)]
  note f = cleanup_frame[OF assms(3,2)]
  have "sender_peer N E g t (peers x ! k)" using i(6) f sender_peer_view[of "peers x ! k"] by blast
  moreover have "proxy_ok k x" using i(4) f by (simp add: proxy_ok_def)
  ultimately show ?thesis unfolding dist_inv_def using i by simp
qed

lemma cleanup2_inv:
  assumes "dist_inv N E k g e l r t d" "i < length (peers (prx2 d))" "i = k \<longrightarrow> q = dst_queue d" "PollPeerCleanup i q (prx2 d) = Some (b, x)"
  shows "\<exists>e'. dist_inv N E k g e' l r t (d\<lparr> prx2 := x \<rparr>)"
proof -
  note i = dist_invD[OF assms(1)]
  note f = cleanup_frame[OF assms(4,2)]
  have ok: "proxy_ok k x" using i(5) f by (simp add: proxy_ok_def)
  show ?thesis
  proof (cases "i = k")
    case True
    have b: "r < e + N" "r \<le> length (src_sent d)" using i(11,12,15,16) by linarith+
    obtain e' where e': "receiver_peer N E e' l (peers x ! k)" "e \<le> e'" "e' \<le> l" "e' \<le> n_done (dst_chan N r d)"
      using cleanup_spec[OF i(3,1,7,8,9) b i(10)] i(5) assms(3,4) True by (auto simp: proxy_ok_def)
    with i ok up_mono[OF i(14) e'(2)] show ?thesis unfolding dist_inv_def by (intro exI[of _ e']) simp
  next
    case False
    with f i ok show ?thesis unfolding dist_inv_def by (intro exI[of _ e]) simp
  qed
qed

lemma report1_inv:
  assumes "dist_inv N E k g e l r t d" "BaseOpPassReport w (prx1 d) = Some (a, ms, x)"
  shows "dist_inv N E k g e l r t (d\<lparr> prx1 := x, to2 := to2 d @ ms \<rparr>)"
proof -
  note i = dist_invD[OF assms(1)]
  note f = report_frame[OF assms(2)]
  have k: "k < length (peers (prx1 d))" using i(4) by (simp add: proxy_ok_def)
  have p: "unat (local_pos (peers (prx1 d) ! k)) = t mod N" using i(6) by (simp add: sender_peer_def)
  have "\<forall>m\<in>set ms. \<exists>rs. sock_body m = kMsgReport rs \<and> rep_at k rs = report_of (peers (prx1 d) ! k)" using f k by blast
  then have "down N E k (src_sent d) t ms t" using p by (induction ms) (auto simp: report_of_def)
  then have "down N E k (src_sent d) r (to2 d @ ms) t" using i(13) by (auto simp: down_append)
  moreover have "sender_peer N E g t (peers x ! k)" using i(6) f k sender_peer_view[of "peers x ! k"] by blast
  moreover have "proxy_ok k x" using i(4) f by (simp add: proxy_ok_def)
  ultimately show ?thesis unfolding dist_inv_def using i by simp
qed

lemma report2_inv:
  assumes "dist_inv N E k g e l r t d" "BaseOpPassReport w (prx2 d) = Some (a, ms, x)"
  shows "dist_inv N E k g e l r t (d\<lparr> prx2 := x, to1 := to1 d @ ms \<rparr>)"
proof -
  note i = dist_invD[OF assms(1)]
  note f = report_frame[OF assms(2)]
  have k: "k < length (peers (prx2 d))" using i(5) by (simp add: proxy_ok_def)
  have p: "unat (cleanup_pos_next (peers (prx2 d) ! k)) = e mod N" using i(7) by (simp add: receiver_peer_def)
  have "\<forall>m\<in>set ms. \<exists>rs. sock_body m = kMsgReport rs \<and> rep_at k rs = report_of (peers (prx2 d) ! k)" using f k by blast
  then have "up N k g (to1 d @ ms) e" using p by (intro up_append[OF i(14)]) (fastforce simp: report_of_def)
  moreover have "receiver_peer N E e l (peers x ! k)" using i(7) f k receiver_peer_view[of "peers x ! k"] by blast
  moreover have "proxy_ok k x" using i(5) f by (simp add: proxy_ok_def)
  ultimately show ?thesis unfolding dist_inv_def using i by simp
qed

lemma receive1_inv:
  assumes "dist_inv N E k g e l r t d" "to1 d = m # ms" "lqs k = src_queue d" "SockMsgRx ok m lqs cqs (prx1 d) = Some a"
  shows "\<exists>g'. dist_inv N E k g' e l r t (d\<lparr> to1 := ms, prx1 := rx_proxy a, src_queue := rx_lq a k \<rparr>)"
proof -
  note i = dist_invD[OF assms(1)]
  have k: "k < length (peers (prx1 d))" "length (peers (prx1 d)) \<le> 32" using i(4) by (simp_all add: proxy_ok_def)
  have iv: "intro_valid_remote (peers (prx1 d) ! k)" using i(6) by (simp add: sender_peer_def)
  have same: "\<exists>g'. dist_inv N E k g' e l r t (d\<lparr> to1 := ms, prx1 := x, src_queue := src_queue d \<rparr>)"
    if "up N k g ms e" "proxy_ok k x" "peers x ! k = peers (prx1 d) ! k" for x
    using that i unfolding dist_inv_def by (intro exI[of _ g]) simp
  show ?thesis
  proof (cases "sock_body m")
    case (kMsgIntro n data)
    then obtain out where r: "SockMsgRxIntro ok m n data (prx1 d) = Some (rx_ret a, out, rx_proxy a)" "rx_lq a = lqs"
      using assms(4) by (auto simp: SockMsgRx_def bind_eq_Some_conv)
    have "up N k g ms e" using i(14) assms(2) kMsgIntro by simp
    then show ?thesis using RxIntro_frame[OF r(1) iv] same[of "rx_proxy a"] i(4) assms(3) r(2) by (simp add: proxy_ok_def)
  next
    case (kMsgReport rs)
    then obtain ps where r: "rx_reports 0 (take MAX_PEERS rs) lqs (peers (prx1 d)) = Some (rx_lq a, ps)" "rx_proxy a = (prx1 d)\<lparr> peers := ps \<rparr>"
      using assms(4) by (auto simp: SockMsgRx_def SockMsgRxReport_def bind_eq_Some_conv)
    have at: "report_at k (rep_at k rs) (src_queue d) (peers (prx1 d) ! k) (rx_lq a k) (ps ! k)" and len: "length ps = length (peers (prx1 d))"
      using rx_reports_nth[OF r(1)] k rep_at_take[of k 32 rs] assms(3) by auto
    have ok: "proxy_ok k (rx_proxy a)" using i(4) len r(2) by (simp add: proxy_ok_def)
    show ?thesis
    proof (cases "snd (snd (rep_at k rs))")
      case False
      then show ?thesis using at same[of "rx_proxy a"] ok i(14) assms(2) kMsgReport r(2) by (simp add: report_at_def)
    next
      case True
      then obtain c where c: "g \<le> c" "unat (fst (snd (rep_at k rs))) = c mod N" "up N k c ms e" using i(14) assms(2) kMsgReport by auto
      have b: "c \<le> e" "c \<le> length (src_sent d)" "c < g + N" "t < c + N" using up_le[OF c(3)] c(1) i(8,9,11,12,16) by linarith+
      have "chan_inv N (src_chan N c (d\<lparr> src_queue := rx_lq a k \<rparr>))" "sender_peer N E c t (ps ! k)"
        using BasePeerReport_sender[OF i(2,1,6) c(1) b(2,3) c(2), of "fst (rep_at k rs)"] at True by (auto simp: report_at_def)
      with i b c(3) ok r(2) show ?thesis unfolding dist_inv_def by (intro exI[of _ c]) simp
    qed
  next
    case (kMsgEntries n pos data)
    then have "rx_proxy a = prx1 d" "rx_lq a = lqs" using assms(4) by (auto simp: SockMsgRx_def bind_eq_Some_conv)
    then show ?thesis using same[of "prx1 d"] i(4,14) assms(2,3) kMsgEntries by simp
  next
    case (OtherType n)
    then show ?thesis using assms(4) by (simp add: SockMsgRx_def)
  qed
qed

lemma receive2_entries:
  assumes "dist_inv N E k g e l r t d" "to2 d = m # ms" "sock_body m = kMsgEntries c pos data" "peer_id m = of_nat k" "cqs k = dst_queue d"
  shows "\<exists>q'. SockMsgRxEntries m c pos data cqs (prx2 d) = Some (cqs(k := q')) \<and>
    dist_inv N E k g e l (r + unat c) t (d\<lparr> to2 := ms, prx2 := prx2 d, dst_queue := q' \<rparr>)"
proof -
  note i = dist_invD[OF assms(1)]
  have f: "forwards N E k (src_sent d) r (unat c) m" "down N E k (src_sent d) (r + unat c) ms t" using i(13) assms(2-4) by simp_all
  have k: "k < length (peers (prx2 d))" "length (peers (prx2 d)) \<le> 32" using i(5) by (simp_all add: proxy_ok_def)
  have b: "r + unat c \<le> t" using down_le[OF f(2)] .
  have room: "r + unat c \<le> n_done (dst_chan N r d) + N" using b i(10,12,15) by linarith
  have g: "g \<le> r" using i(8,9,15) by linarith
  have nd: "n_done (src_chan N g d) = g" "n_sent (src_chan N g d) = length (src_sent d)"
    using i(8,9,11,15,16) by (simp_all add: n_done_def n_sent_def)
  have con: "\<forall>x\<in>set (take (unat c) (drop r (src_sent d))). con x"
  proof
    fix x assume "x \<in> set (take (unat c) (drop r (src_sent d)))"
    then obtain j where "j < unat c" "r + j < length (src_sent d)" "x = src_sent d ! (r + j)" by (auto simp: in_set_conv_nth)
    then show "con x" using chan_invD(13)[OF i(2), of "r + j"] g nd by simp
  qed
  obtain q' where q': "SockMsgRxEntries m c pos data cqs (prx2 d) = Some (cqs(k := q'))"
    "chan_inv N (dst_chan N (r + unat c) (d\<lparr> dst_queue := q' \<rparr>))"
    using RxEntries_spec[where k = k and cqs = cqs, OF i(3,1,7) k f(1) assms(3) room con assms(5)] by blast
  have "n_done (dst_chan N (r + unat c) (d\<lparr> dst_queue := q' \<rparr>)) = n_done (dst_chan N r d)" by (simp add: n_done_def)
  then have "dist_inv N E k g e l (r + unat c) t (d\<lparr> to2 := ms, prx2 := prx2 d, dst_queue := q' \<rparr>)"
    unfolding dist_inv_def using i f(2) q'(2) by simp
  with q'(1) show ?thesis by blast
qed

lemma receive2_inv:
  assumes "dist_inv N E k g e l r t d" "to2 d = m # ms" "cqs k = dst_queue d" "SockMsgRx ok m lqs cqs (prx2 d) = Some a"
  shows "\<exists>l' r'. dist_inv N E k g e l' r' t (d\<lparr> to2 := ms, prx2 := rx_proxy a, dst_queue := rx_cq a k \<rparr>)"
proof -
  note i = dist_invD[OF assms(1)]
  have k: "k < length (peers (prx2 d))" "length (peers (prx2 d)) \<le> 32" using i(5) by (simp_all add: proxy_ok_def)
  have iv: "intro_valid_remote (peers (prx2 d) ! k)" using i(7) by (simp add: receiver_peer_def)
  have same: "\<exists>l' r'. dist_inv N E k g e l' r' t (d\<lparr> to2 := ms, prx2 := x, dst_queue := dst_queue d \<rparr>)"
    if "down N E k (src_sent d) r ms t" "proxy_ok k x" "receiver_peer N E e l' (peers x ! k)" "e \<le> l'" "l' \<le> r" for x l'
    by (rule exI[of _ l'], rule exI[of _ r]) (use that i in \<open>simp add: dist_inv_def\<close>)
  show ?thesis
  proof (cases "sock_body m")
    case (kMsgIntro n data)
    then obtain out where r: "SockMsgRxIntro ok m n data (prx2 d) = Some (rx_ret a, out, rx_proxy a)" "rx_cq a = cqs"
      using assms(4) by (auto simp: SockMsgRx_def bind_eq_Some_conv)
    have "down N E k (src_sent d) r ms t" using i(13) assms(2) kMsgIntro by simp
    then show ?thesis using RxIntro_frame[OF r(1) iv] same[of "rx_proxy a" l] i(5,7-9) assms(3) r(2) by (simp add: proxy_ok_def)
  next
    case (kMsgReport rs)
    then obtain lq1 ps where r: "rx_reports 0 (take MAX_PEERS rs) lqs (peers (prx2 d)) = Some (lq1, ps)"
      "rx_proxy a = (prx2 d)\<lparr> peers := ps \<rparr>" "rx_cq a = cqs"
      using assms(4) by (auto simp: SockMsgRx_def SockMsgRxReport_def bind_eq_Some_conv)
    have at: "report_at k (rep_at k rs) (lqs k) (peers (prx2 d) ! k) (lq1 k) (ps ! k)" and len: "length ps = length (peers (prx2 d))"
      using rx_reports_nth[OF r(1)] k rep_at_take[of k 32 rs] by auto
    have ok: "proxy_ok k (rx_proxy a)" using i(5) len r(2) by (simp add: proxy_ok_def)
    have d: "down N E k (src_sent d) r ms t" using i(13) assms(2) kMsgReport by simp
    have er: "e \<le> r" using i(8,9) by linarith
    have "receiver_peer N E e (if snd (snd (rep_at k rs)) then r else l) (ps ! k)"
      using at i(7,13) assms(2) kMsgReport BasePeerReport_receiver by (auto simp: report_at_def)
    then show ?thesis using same[OF d ok, of "if snd (snd (rep_at k rs)) then r else l"] r(2,3) er i(8,9) assms(3) by simp
  next
    case (kMsgEntries c pos data)
    then obtain cq1 where e: "SockMsgRxEntries m c pos data cqs (prx2 d) = Some cq1" "rx_proxy a = prx2 d" "rx_cq a = cq1"
      using assms(4) by (auto simp: SockMsgRx_def bind_eq_Some_conv)
    show ?thesis
    proof (cases "peer_id m = of_nat k")
      case True
      from receive2_entries[where cqs = cqs and k = k, OF assms(1,2) kMsgEntries True assms(3)] e
      have "dist_inv N E k g e l (r + unat c) t (d\<lparr> to2 := ms, prx2 := rx_proxy a, dst_queue := rx_cq a k \<rparr>)" by auto
      then show ?thesis by blast
    next
      case False
      then have "unat (peer_id m) \<noteq> k" by auto
      then have "cq1 k = cqs k" using e(1) by (auto simp: SockMsgRxEntries_def Let_def split: if_splits)
      then show ?thesis using same[of "prx2 d" l] e(2,3) i assms(2,3) kMsgEntries False by simp
    qed
  next
    case (OtherType n)
    then show ?thesis using assms(4) by (simp add: SockMsgRx_def)
  qed
qed

definition dist_ok :: "nat \<Rightarrow> nat \<Rightarrow> nat \<Rightarrow> 'b dist \<Rightarrow> bool" where
  "dist_ok N E k d \<longleftrightarrow> (\<exists>g e l r t. dist_inv N E k g e l r t d)"

lemma dist_step_ok:
  assumes "dist_step k d d'" "dist_ok N E k d"
  shows "dist_ok N E k d'"
proof -
  obtain g e l r t where i: "dist_inv N E k g e l r t d" using assms(2) by (auto simp: dist_ok_def)
  from assms(1) show ?thesis
    unfolding dist_ok_def
  proof cases
    case src_alloc
    then show "\<exists>g e l r t. dist_inv N E k g e l r t d'" using simulator_steps(1)[OF i] by blast
  next
    case src_send
    then show "\<exists>g e l r t. dist_inv N E k g e l r t d'" using simulator_steps(2)[OF i] by blast
  next
    case dst_poll
    then show "\<exists>g e l r t. dist_inv N E k g e l r t d'" using simulator_steps(3)[OF i] by blast
  next
    case dst_release
    then show "\<exists>g e l r t. dist_inv N E k g e l r t d'" using simulator_steps(4)[OF i] by blast
  next
    case transfer1
    then show "\<exists>g e l r t. dist_inv N E k g e l r t d'" using transfer1_inv[OF i] by blast
  next
    case transfer2
    then show "\<exists>g e l r t. dist_inv N E k g e l r t d'" using transfer2_inv[OF i] by blast
  next
    case cleanup1
    then show "\<exists>g e l r t. dist_inv N E k g e l r t d'" using cleanup1_inv[OF i] by blast
  next
    case cleanup2
    then show "\<exists>g e l r t. dist_inv N E k g e l r t d'" using cleanup2_inv[OF i] by blast
  next
    case report1
    then show "\<exists>g e l r t. dist_inv N E k g e l r t d'" using report1_inv[OF i] by blast
  next
    case report2
    then show "\<exists>g e l r t. dist_inv N E k g e l r t d'" using report2_inv[OF i] by blast
  next
    case receive1
    then show "\<exists>g e l r t. dist_inv N E k g e l r t d'" using receive1_inv[OF i] by blast
  next
    case receive2
    then show "\<exists>g e l r t. dist_inv N E k g e l r t d'" using receive2_inv[OF i] by blast
  qed
qed

section \<open>Properties of a forwarded connection\<close>

text \<open>
  A connection that was just set up: both queues empty, the peers ready with the same geometry, and
  no message under way.
\<close>

definition dist_init :: "nat \<Rightarrow> nat \<Rightarrow> nat \<Rightarrow> 'b dist \<Rightarrow> bool" where
  "dist_init N E k d \<longleftrightarrow> sizes_ok N E \<and> length (src_queue d) = N \<and> (\<forall>m\<in>set (src_queue d). pro m) \<and>
     length (dst_queue d) = N \<and> (\<forall>m\<in>set (dst_queue d). pro m) \<and>
     unat (out_enum (src_if d)) = N \<and> out_pos (src_if d) = 0 \<and> src_pend d = None \<and> src_sent d = [] \<and>
     unat (in_enum (dst_if d)) = N \<and> in_pos (dst_if d) = 0 \<and> dst_held d = None \<and> dst_rcvd d = [] \<and>
     proxy_ok k (prx1 d) \<and> proxy_ok k (prx2 d) \<and>
     sender_peer N E 0 0 (peers (prx1 d) ! k) \<and> receiver_peer N E 0 0 (peers (prx2 d) ! k) \<and> to1 d = [] \<and> to2 d = []"

lemma dist_init_ok:
  assumes "dist_init N E k d"
  shows "dist_ok N E k d"
proof -
  have N: "0 < N" "N < 2 ^ 32" using assms by (simp_all add: dist_init_def sizes_ok_def)
  note p = proxy_if_sel[OF N, of 0]
  have "chan_init N (src_chan N 0 d)" "chan_init N (dst_chan N 0 d)"
    using assms p N by (simp_all add: dist_init_def chan_init_def word_unat_eq_iff)
  note chan_inv_init[OF this(1)] chan_inv_init[OF this(2)]
  with assms N have "dist_inv N E k 0 0 0 0 0 d" by (simp add: dist_init_def dist_inv_def)
  then show ?thesis unfolding dist_ok_def by blast
qed

lemma dist_reachable_ok: "(dist_step k)\<^sup>*\<^sup>* d0 d \<Longrightarrow> dist_init N E k d0 \<Longrightarrow> dist_ok N E k d"
  by (induction rule: rtranclp_induct) (auto intro: dist_init_ok dist_step_ok)

text \<open>
  C4. A connection through two proxies is a FIFO channel of the capacity of its queues. In every
  interleaving of the simulators, of the polling and receiving threads of both proxies and of
  whatever their other peers do, the entries received on the far machine are a prefix of the
  entries sent, complete with type, timestamp and contents, and no more entries than one queue has
  slots are sent and not yet received. Eight entries fit the send buffer, the queue's offsets fit
  32 bits, and the connection between the proxies stays up.
\<close>

theorem proxied_fifo:
  assumes "dist_init N E k d0" "(dist_step k)\<^sup>*\<^sup>* d0 d"
  shows "dst_rcvd d = take (length (dst_rcvd d)) (src_sent d) \<and> length (src_sent d) \<le> length (dst_rcvd d) + N"
proof -
  obtain g e l r t where "dist_inv N E k g e l r t d" using dist_reachable_ok[OF assms(2,1)] by (auto simp: dist_ok_def)
  note i = dist_invD[OF this]
  note s = chan_invD[OF i(2)] and c = chan_invD[OF i(3)]
  have "g \<le> length (dst_rcvd d)" using i(10,15) n_done_le[of "dst_chan N r d"] by simp
  moreover have "length (src_sent d) \<le> g + N" using s(8) by (simp add: n_sent_def n_done_def split: if_splits)
  moreover have "dst_rcvd d = take (length (dst_rcvd d)) (take r (src_sent d))" "length (dst_rcvd d) \<le> r"
    using c(7,12) by (simp_all add: n_sent_def)
  ultimately show ?thesis by (simp add: min_absorb1)
qed

text \<open>
  C13. Forwarding one direction of a connection never ends the program. The connection between the
  proxies is up, eight entries fit the send buffer (a batch that does not fit ends the program) and
  the queue's offsets fit 32 bits. In every
  reachable state the poll of the forwarded queue and the poll for released entries return; when
  the receive loop of the far proxy takes up a message with entries of this queue it stores them,
  and when the receive loop of the near proxy takes up a report about this queue it gives the
  entries back. When a received message is taken up is not claimed (\<open>short_message_waits\<close>).
\<close>

theorem proxied_never_aborts:
  assumes "dist_init N E k d0" "(dist_step k)\<^sup>*\<^sup>* d0 d" "connection_up w" "cqs k = dst_queue d"
  shows "PollPeerTransfer w k (src_queue d) (prx1 d) \<noteq> None \<and> PollPeerCleanup k (dst_queue d) (prx2 d) \<noteq> None \<and>
    (\<forall>m ms c pos data. to2 d = m # ms \<and> sock_body m = kMsgEntries c pos data \<and> peer_id m = of_nat k \<longrightarrow>
      SockMsgRxEntries m c pos data cqs (prx2 d) \<noteq> None) \<and>
    (\<forall>m ms rs written clean. to1 d = m # ms \<and> sock_body m = kMsgReport rs \<and> rep_at k rs = (written, clean, True) \<longrightarrow>
      BasePeerReport written clean (src_queue d) (peers (prx1 d) ! k) \<noteq> None)"
proof -
  obtain g e l r t where inv: "dist_inv N E k g e l r t d" using dist_reachable_ok[OF assms(2,1)] by (auto simp: dist_ok_def)
  note i = dist_invD[OF inv]
  have k: "k < length (peers (prx1 d))" "k < length (peers (prx2 d))" "tx_msgs_free (prx1 d) \<noteq> []" using i(4,5) by (simp_all add: proxy_ok_def)
  have b: "g \<le> t" "r < e + N" "r \<le> length (src_sent d)" using i(8,9,11,12,15,16) by linarith+
  have 1: "PollPeerTransfer w k (src_queue d) (prx1 d) \<noteq> None"
    using transfer_spec[OF assms(3) k(3) i(2,1,6) k(1) b(1) i(11,12)] by auto
  have 2: "PollPeerCleanup k (dst_queue d) (prx2 d) \<noteq> None"
    using cleanup_spec[OF i(3,1,7,8,9) b(2,3) i(10) k(2)] by auto
  have 3: "SockMsgRxEntries m c pos data cqs (prx2 d) \<noteq> None"
    if "to2 d = m # ms" "sock_body m = kMsgEntries c pos data" "peer_id m = of_nat k" for m ms c pos data
    using receive2_entries[where cqs = cqs and k = k, OF inv that assms(4)] by auto
  have 4: "BasePeerReport written clean (src_queue d) (peers (prx1 d) ! k) \<noteq> None"
    if a: "to1 d = m # ms" "sock_body m = kMsgReport rs" "rep_at k rs = (written, clean, True)" for m ms rs written clean
  proof -
    obtain c where c: "g \<le> c" "unat clean = c mod N" "up N k c ms e" using i(14) a by auto
    have "c \<le> length (src_sent d)" "c < g + N" using up_le[OF c(3)] i(8,9,11,12,16) by linarith+
    from BasePeerReport_sender[OF i(2,1,6) c(1) this c(2), of written] show ?thesis by auto
  qed
  from 1 2 3 4 show ?thesis by blast
qed

definition demo_writes :: "u32 \<Rightarrow> write_result list" where
  "demo_writes i = [WouldBlock, Wrote (2 ^ 32)]"

lemma demo_writes_up: "connection_up demo_writes"
  by (simp add: connection_up_def demo_writes_def)

definition demo_proxy :: Proxy where
  "demo_proxy = Proxy_init\<lparr> peers := [Peer_zero\<lparr> local_elen := 64, local_enum := 2, last_sent_pos := -1, cleanup_elen := 64, cleanup_enum := 2,
     ready := True, intro_valid_local := True, intro_local := [], intro_valid_remote := True, intro_remote := [] \<rparr>] \<rparr>"

definition demo_dist :: "nat dist" where
  "demo_dist = \<lparr> src_queue = cq demo_chan, src_if = demo_if, src_pend = None, src_sent = [], prx1 = demo_proxy, to2 = [], to1 = [],
     prx2 = demo_proxy, dst_queue = cq demo_chan, dst_if = demo_if, dst_held = None, dst_rcvd = [] \<rparr>"

text \<open>One entry on its way: sent by the simulator, forwarded, received, polled.\<close>

definition demo_dist1 :: "nat dist" where
  "demo_dist1 = (case OutAlloc 10 (src_queue demo_dist) (src_if demo_dist) of Some (r, q, b) \<Rightarrow>
     demo_dist\<lparr> src_queue := q, src_if := b, src_pend := r \<rparr> | None \<Rightarrow> demo_dist)"

definition demo_dist2 :: "nat dist" where
  "demo_dist2 = (let q = OutSend 0 0x40 ((src_queue demo_dist1)[0 := (src_queue demo_dist1 ! 0)\<lparr> body := 7 \<rparr>]) in
     demo_dist1\<lparr> src_queue := q, src_pend := None, src_sent := src_sent demo_dist1 @ [q ! 0] \<rparr>)"

definition demo_dist3 :: "nat dist" where
  "demo_dist3 = (case PollPeerTransfer demo_writes 0 (src_queue demo_dist2) (prx1 demo_dist2) of Some (b, ms, x) \<Rightarrow>
     demo_dist2\<lparr> prx1 := x, to2 := to2 demo_dist2 @ ms \<rparr> | None \<Rightarrow> demo_dist2)"

definition demo_dist4 :: "nat dist" where
  "demo_dist4 = (case SockMsgRx True (hd (to2 demo_dist3)) (\<lambda>_. []) (\<lambda>_. dst_queue demo_dist3) (prx2 demo_dist3) of Some r \<Rightarrow>
     demo_dist3\<lparr> to2 := [], prx2 := rx_proxy r, dst_queue := rx_cq r 0 \<rparr> | None \<Rightarrow> demo_dist3)"

definition demo_dist5 :: "nat dist" where
  "demo_dist5 = (case InPoll 600000 (dst_queue demo_dist4) (dst_if demo_dist4) of Some (r, b) \<Rightarrow>
     demo_dist4\<lparr> dst_if := b, dst_held := r, dst_rcvd := dst_rcvd demo_dist4 @ (case r of None \<Rightarrow> [] | Some i \<Rightarrow> [dst_queue demo_dist4 ! i]) \<rparr>
     | None \<Rightarrow> demo_dist4)"

lemma demo_dist_init: "dist_init 2 64 0 demo_dist"
  by (simp add: dist_init_def sizes_ok_def demo_dist_def demo_chan_def demo_if_def pro_def SimbricksBaseIfInit_def demo_params_def
      DefaultParams_def proxy_ok_def demo_proxy_def Proxy_init_def sender_peer_def receiver_peer_def Peer_zero_def)

definition demo_entry :: "nat BaseMsg" where
  "demo_entry = \<lparr> body = 7, timestamp = 500010, own_type = 0xC0 \<rparr>"

lemma demo_sent: "src_queue demo_dist2 = [demo_entry, \<lparr> body = 0, timestamp = 0, own_type = 0 \<rparr>]" "src_sent demo_dist2 = [demo_entry]"
  by code_simp+

lemma demo_same: "prx1 demo_dist2 = demo_proxy" "prx2 demo_dist2 = demo_proxy" "to2 demo_dist2 = []" "dst_queue demo_dist2 = cq demo_chan"
  "dst_if demo_dist2 = demo_if" "dst_held demo_dist2 = None" "dst_rcvd demo_dist2 = []"
  by (simp_all add: demo_dist2_def demo_dist1_def demo_dist_def Let_def split: option.split)

definition demo_msg :: "nat SockMsg" where
  "demo_msg = \<lparr> msg_len = 88, msg_num = 0, peer_id = 0, sock_body = kMsgEntries 1 0 [demo_entry] \<rparr>"

lemma demo_transfer: "\<exists>b x. PollPeerTransfer demo_writes 0 (src_queue demo_dist2) (prx1 demo_dist2) = Some (b, [demo_msg], x)"
proof -
  let ?p = "peers demo_proxy ! 0"
  have p: "local_pos ?p = 0" "local_enum ?p = 2" "local_elen ?p = 64" "local_pos_cleaned ?p = 0" "last_sent_pos ?p = -1"
    "tx_msgs_free demo_proxy \<noteq> []" "next_msg_id demo_proxy = 0" "length (peers demo_proxy) = 1"
    by (simp_all add: demo_proxy_def Proxy_init_def Peer_zero_def)
  have k: "kPollMax = Suc (Suc 6)" by simp
  have "transfer_count kPollMax (src_queue demo_dist2) ?p 0 = Some 1"
    unfolding k transfer_count.simps by (simp add: demo_sent p entry_def slot_def demo_entry_def)
  moreover have "entries (src_queue demo_dist2) 0 1 64 = Some [demo_entry]" by (simp add: entries_def demo_sent)
  ultimately show ?thesis
    by (simp add: PollPeerTransfer_def BaseOpPassEntries_def demo_same p Let_def set_peer_def send_msg_up[OF demo_writes_up] demo_msg_def)
qed

lemma demo_dist3: "to2 demo_dist3 = [demo_msg]" "prx2 demo_dist3 = demo_proxy" "dst_queue demo_dist3 = cq demo_chan"
  "dst_if demo_dist3 = demo_if" "dst_held demo_dist3 = None" "dst_rcvd demo_dist3 = []" "src_sent demo_dist3 = [demo_entry]"
  using demo_transfer by (auto simp: demo_dist3_def demo_same demo_sent)

lemma demo_slots: "cq demo_chan = [\<lparr> body = 0, timestamp = 0, own_type = 0 \<rparr>, \<lparr> body = 0, timestamp = 0, own_type = 0 \<rparr>]"
  by code_simp

lemma demo_receive: "SockMsgRx True demo_msg (\<lambda>_. []) (\<lambda>_. cq demo_chan) demo_proxy =
    Some \<lparr> rx_ret = 0, rx_out = None, rx_lq = \<lambda>_. [], rx_cq = (\<lambda>_. cq demo_chan)(0 := [demo_entry, \<lparr> body = 0, timestamp = 0, own_type = 0 \<rparr>]),
      rx_proxy = demo_proxy \<rparr>"
  unfolding demo_slots by (simp add: SockMsgRx_def demo_msg_def SockMsgRxEntries_def Let_def BaseEntryReceived_def demo_proxy_def)

lemma demo_dist4: "dst_queue demo_dist4 = [demo_entry, \<lparr> body = 0, timestamp = 0, own_type = 0 \<rparr>]" "dst_if demo_dist4 = demo_if"
  "dst_held demo_dist4 = None" "dst_rcvd demo_dist4 = []" "src_sent demo_dist4 = [demo_entry]"
  by (simp_all add: demo_dist4_def demo_dist3 demo_receive)

lemma demo_poll: "\<exists>b. InPoll 600000 (dst_queue demo_dist4) (dst_if demo_dist4) = Some (Some 0, b)"
proof -
  have "in_pos demo_if = 0" "in_enum demo_if = 2" by code_simp+
  then show ?thesis unfolding demo_dist4 by (simp add: InPoll_def InPeek_def slot_def demo_entry_def Let_def)
qed

lemma demo_dist_steps: "(dist_step 0)\<^sup>*\<^sup>* demo_dist demo_dist3" "(dist_step 0)\<^sup>*\<^sup>* demo_dist3 demo_dist5"
proof -
  have "OutAlloc 10 (src_queue demo_dist) (src_if demo_dist) \<noteq> None" "src_pend demo_dist = None" by code_simp+
  then have 1: "dist_step 0 demo_dist demo_dist1"
    using dist_step.src_alloc[of demo_dist 10] by (auto simp: demo_dist1_def)
  have "src_pend demo_dist1 = Some 0" by code_simp
  then have 2: "dist_step 0 demo_dist1 demo_dist2"
    using dist_step.src_send[of demo_dist1 0] by (simp add: demo_dist2_def Let_def)
  obtain b x where t: "PollPeerTransfer demo_writes 0 (src_queue demo_dist2) (prx1 demo_dist2) = Some (b, [demo_msg], x)"
    using demo_transfer by blast
  have "0 < length (peers (prx1 demo_dist2))" by (simp add: demo_same demo_proxy_def)
  then have 3: "dist_step 0 demo_dist2 demo_dist3"
    using dist_step.transfer1[OF demo_writes_up _ _ t, of 0] by (simp add: demo_dist3_def t)
  have 4: "dist_step 0 demo_dist3 demo_dist4"
    using dist_step.receive2[of demo_dist3 demo_msg "[]" "\<lambda>_. cq demo_chan" 0 True "\<lambda>_. []"] demo_receive
    by (simp add: demo_dist4_def demo_dist3)
  obtain b where b: "InPoll 600000 (dst_queue demo_dist4) (dst_if demo_dist4) = Some (Some 0, b)" using demo_poll by blast
  have 5: "dist_step 0 demo_dist4 demo_dist5"
    using dist_step.dst_poll[OF demo_dist4(3) b] by (simp add: demo_dist5_def b)
  show "(dist_step 0)\<^sup>*\<^sup>* demo_dist demo_dist3"
    by (rule rtranclp_trans[OF r_into_rtranclp[of "dist_step 0", OF 1] rtranclp_trans[OF r_into_rtranclp[of "dist_step 0", OF 2] r_into_rtranclp[of "dist_step 0", OF 3]]])
  show "(dist_step 0)\<^sup>*\<^sup>* demo_dist3 demo_dist5"
    by (rule rtranclp_trans[OF r_into_rtranclp[of "dist_step 0", OF 4] r_into_rtranclp[of "dist_step 0", OF 5]])
qed

theorem proxied_fifo_witness:
  "dst_rcvd demo_dist5 = take (length (dst_rcvd demo_dist5)) (src_sent demo_dist5) \<and> map body (dst_rcvd demo_dist5) = [7]"
proof
  show "dst_rcvd demo_dist5 = take (length (dst_rcvd demo_dist5)) (src_sent demo_dist5)"
    using proxied_fifo[OF demo_dist_init rtranclp_trans[OF demo_dist_steps]] by blast
  show "map body (dst_rcvd demo_dist5) = [7]" using demo_poll by (auto simp: demo_dist5_def demo_dist4 demo_entry_def)
qed

theorem proxied_never_aborts_witness:
  "PollPeerTransfer demo_writes 0 (src_queue demo_dist3) (prx1 demo_dist3) \<noteq> None \<and>
   PollPeerCleanup 0 (dst_queue demo_dist3) (prx2 demo_dist3) \<noteq> None \<and> length (to2 demo_dist3) = 1"
proof -
  have "length (to2 demo_dist3) = 1" by (simp add: demo_dist3)
  with proxied_never_aborts[OF demo_dist_init demo_dist_steps(1) demo_writes_up, of "\<lambda>_. dst_queue demo_dist3"] show ?thesis by blast
qed

section \<open>Defects\<close>

text \<open>
  A message of entries shorter than the largest message waits in the receive buffer although it is
  complete: here one entry of 64 bytes.
\<close>

theorem short_message_waits:
  assumes "msg_len m = 88" "rx_buf_pos s = 0"
  shows "\<exists>r. SockEvent 88 ok [m] lqs cqs s = Some ([m], [], r) \<and> rx_cq r = cqs \<and> rx_buf_pos (rx_proxy r) = 88"
  using assms by (simp add: SockEvent_def)

text \<open>
  The proxies report positions only after 128 entries, counted modulo the number of slots. When no
  queue has more than 128 slots no report is ever sent, so that no entry is given back and
  forwarding stops with the first round of the queue.
\<close>

definition small_queues :: "Proxy \<Rightarrow> bool" where
  "small_queues s \<longleftrightarrow> (\<forall>p\<in>set (peers s). local_enum p \<le> 128 \<and> cleanup_enum p \<le> 128)"

lemma mod_small:
  assumes "(n :: u32) \<noteq> 0" "n \<le> 128"
  shows "\<not> 128 \<le> (ucast (x mod n) :: u64)"
proof -
  have "unat (x mod n) < unat n" using assms(1) by (simp add: unat_mod unat_gt_0)
  moreover have "unat n \<le> 128" using assms(2) by (simp add: word_le_nat_alt)
  moreover have "unat (ucast (x mod n) :: u64) \<le> unat (x mod n)" by (simp add: unsigned_ucast_eq)
  ultimately show ?thesis by (simp add: word_le_nat_alt)
qed

lemma small_upd:
  assumes "small_queues s" "peers s' = (peers s)[i := p]" "local_enum p \<le> 128" "cleanup_enum p \<le> 128"
  shows "small_queues s' \<and> length (peers s') = length (peers s)"
  using assms set_update_subset_insert[of "peers s" i p] by (auto simp: small_queues_def)

lemma transfer_small:
  assumes "PollPeerTransfer w i q s = Some (r, ms, s')" "small_queues s" "i < length (peers s)"
  shows "\<not> r \<and> small_queues s' \<and> length (peers s') = length (peers s)"
proof -
  obtain n where n: "transfer_count kPollMax q (peers s ! i) 0 = Some n" using assms(1) by (auto simp: PollPeerTransfer_def bind_eq_Some_conv)
  show ?thesis
  proof (cases "n = 0")
    case True
    with assms n show ?thesis by (simp add: PollPeerTransfer_def)
  next
    case False
    let ?p = "peers s ! i"
    obtain a s1 where p: "BaseOpPassEntries w i (local_pos ?p) n q s = Some (a, ms, s1)" using assms(1) n False
      by (auto simp: PollPeerTransfer_def bind_eq_Some_conv Let_def)
    note f = PassEntries_frame[OF p]
    have e: "local_enum ?p \<noteq> 0" using p by (auto simp: BaseOpPassEntries_def Let_def split: if_splits)
    have sm: "local_enum ?p \<le> 128" "cleanup_enum ?p \<le> 128" using assms(2,3) by (simp_all add: small_queues_def)
    from assms(1) n False p f have r: "\<not> r" "\<exists>v. peers s' = (peers s)[i := ?p\<lparr> last_sent_pos := local_pos ?p + n - 1, local_pos := v \<rparr>]"
      using mod_small[OF e sm(1)] assms(3) by (auto simp: PollPeerTransfer_def Let_def set_peer_def)
    then show ?thesis using small_upd[OF assms(2), of s' i] sm by fastforce
  qed
qed

lemma cleanup_small:
  assumes "PollPeerCleanup i q s = Some (r, s')" "small_queues s" "i < length (peers s)"
  shows "\<not> r \<and> small_queues s' \<and> length (peers s') = length (peers s)"
proof -
  let ?p = "peers s ! i"
  have sm: "local_enum ?p \<le> 128" "cleanup_enum ?p \<le> 128" using assms(2,3) by (simp_all add: small_queues_def)
  show ?thesis
  proof (cases "cleanup_pos_next ?p = cleanup_pos_last ?p")
    case True
    with assms show ?thesis by (simp add: PollPeerCleanup_def)
  next
    case False
    then obtain c p1 where "cleanup_loop (kCleanupMax + 1) q ?p = Some (c, p1)"
      using assms(1) by (auto simp: PollPeerCleanup_def Let_def bind_eq_Some_conv simp del: kCleanupMax_def cleanup_loop.simps)
    with cleanup_loop_frame[OF this] obtain v where c: "cleanup_loop (kCleanupMax + 1) q ?p = Some (c, ?p\<lparr> cleanup_pos_next := v \<rparr>)"
      by blast
    have "\<not> r" "s' = set_peer i (?p\<lparr> cleanup_pos_next := v \<rparr>) s"
      using assms(1) False c mod_small[OF _ sm(2)] by (auto simp: PollPeerCleanup_def Let_def simp del: kCleanupMax_def cleanup_loop.simps split: if_splits)
    then show ?thesis using small_upd[OF assms(2), of s' i "?p\<lparr> cleanup_pos_next := v \<rparr>"] sm by (simp add: set_peer_def)
  qed
qed

lemma poll_peers_small:
  "poll_peers w lqs cqs js False s = Some (r, ms, s') \<Longrightarrow> small_queues s \<Longrightarrow> \<forall>j\<in>set js. j < length (peers s) \<Longrightarrow>
   \<not> r \<and> small_queues s' \<and> (\<forall>m\<in>set ms. \<exists>c pos data. sock_body m = kMsgEntries c pos data)"
proof (induction js arbitrary: s r ms s')
  case (Cons j js)
  show ?case
  proof (cases "ready (peers s ! j)")
    case False
    then show ?thesis using Cons.IH[of s r ms s'] Cons.prems by simp
  next
    case True
    then obtain r1 ms1 s1 r2 s2 ms2 where p: "PollPeerTransfer w j (lqs j) s = Some (r1, ms1, s1)" "PollPeerCleanup j (cqs j) s1 = Some (r2, s2)"
      "poll_peers w lqs cqs js (r1 \<or> r2) s2 = Some (r, ms2, s')" "ms = ms1 @ ms2"
      using Cons.prems(1) by (auto simp: bind_eq_Some_conv)
    have j: "j < length (peers s)" using Cons.prems(3) by simp
    note t = transfer_small[OF p(1) Cons.prems(2) j]
    then have c: "\<not> r2 \<and> small_queues s2 \<and> length (peers s2) = length (peers s1)" using cleanup_small[OF p(2)] j by simp
    have "\<forall>m\<in>set ms1. \<exists>c pos data. sock_body m = kMsgEntries c pos data" using transfer_frame[OF p(1) j] by blast
    with Cons.IH[of s2 r ms2 s'] p(3,4) t c Cons.prems(3) show ?thesis by auto
  qed
qed auto

theorem small_queues_never_reported:
  assumes "small_queues s" "BasePoll w lqs cqs s = Some (ms, s')" "m \<in> set ms"
  shows "sock_body m \<noteq> kMsgReport rs \<and> small_queues s'"
proof -
  obtain r ms1 s1 where p: "poll_peers w lqs cqs [0..<length (peers s)] False s = Some (r, ms1, s1)"
    using assms(2) by (auto simp: BasePoll_def bind_eq_Some_conv)
  note q = poll_peers_small[OF p assms(1)]
  then have "ms = ms1" "s' = s1" using assms(2) p by (auto simp: BasePoll_def)
  with q assms(3) show ?thesis by fastforce
qed

end
