(* ===== verification/Spec2Isabelle.thy ===== *)
theory Spec2Isabelle
  imports Two_Tier Switch_Ports Dpu_Nic I40e_Sums Interconnect_Safety Net_Switch_Safety Dist_Safety
begin

text \<open>
  Verification of the SimBricks repository with its HCOP extension: the simulators of a modular
  full-system simulation, the shared-memory channels that connect them, and the coordination
  services (consensus, locks, barriers) that run in a simulated switch and in a simulated DPU.

  \<^bold>\<open>The program.\<close> Simulators are processes that exchange messages over pairs of shared-memory
  queues (\<^verbatim>\<open>lib/simbricks/base\<close>). A message carries the time at which it takes effect, so that a
  simulator may advance its clock up to the timestamp it has seen. The protocols for networks,
  PCIe and memory lie on top of the queues. A NIC model is a device object driven by the runner
  \<^verbatim>\<open>lib/simbricks/nicbm\<close>, which translates between the PCIe and network queues and the virtual
  functions of the device. HCOP packets are Ethernet frames whose payload is a message of a
  coordination primitive (\<^verbatim>\<open>lib/hcop\<close>): the HCOP switch (\<^verbatim>\<open>sims/net/hcop_switch\<close>) processes them in
  its pipeline and escalates exceptional ones to the DPU (\<^verbatim>\<open>sims/nic/dpu_bm\<close>), which has larger
  tables and processes them on a pool of cores. The memory simulators (\<^verbatim>\<open>sims/mem\<close>) serve reads
  and writes, directly, through an interconnect, or over the network; \<^verbatim>\<open>sims/net\<close> has the network
  simulators. Proxies (\<^verbatim>\<open>dist\<close>) extend the queues over a TCP connection to other machines.

  \<^bold>\<open>Conventions.\<close> Machine integers are words of their width. A struct is a record, an enum a
  constant or a datatype, a \<^verbatim>\<open>std::unordered_map\<close> an association list, a buffer a list of bytes,
  and a wire struct is read and written at its byte offsets. An operation takes and returns the
  state explicitly. \<open>None\<close> is undefined behaviour, a failed assertion, an abort or an exception that
  nothing catches; a status or return code is a value. What the operating system, the allocator or
  an external library answers is an argument of the operation that asks. A loop that waits for
  another process takes the list of the contents it sees at each attempt, and is \<open>None\<close>, or still
  running, when the list ends first; loops with a bound in the code recurse on that bound, and the
  one that may not end (giving entries back in a proxy) is a partial function. No fuel is used.

  \<^bold>\<open>Shared theories.\<close> \<open>Prelude\<close>: words, bytes, checked memory accesses, association lists and the
  interface of a bounded table (\<open>bounded_table\<close>, interpreted for the instance log and the lock
  table). \<open>Bitmap\<close>: sets of indices in a word (\<open>index_set\<close>, interpreted on the 64-bit operations).

  \<^bold>\<open>Coordination services.\<close>
  \<^item> \<open>Hcop_Proto\<close> (\<^verbatim>\<open>hcop_proto.h\<close>, \<^verbatim>\<open>hcop_telemetry.h\<close>): the header and the tier path, with its
    round trip.
  \<^item> \<open>Paxos_Proto\<close>, \<open>Paxos_State\<close>, \<open>Paxos_Safety\<close> (\<^verbatim>\<open>paxos_proto.h\<close>, \<^verbatim>\<open>paxos_state.cc\<close>): messages,
    replica, handlers. Promises are respected, committed values are stable, every reachable node
    is well-formed, messages are handled inside their buffers. The locale \<open>instance_evolution\<close>
    lifts a relation on instances kept by every handler to runs.
  \<^item> \<open>Lock_State\<close>, \<open>Lock_Safety\<close> (\<^verbatim>\<open>lock_proto.h\<close>, \<^verbatim>\<open>lock_state.cc\<close>): mutual exclusion as the clients
    see it, refinement of first-in first-out queues, timeouts, bounds of the tables.
  \<^item> \<open>Barrier_State\<close>, \<open>Barrier_Safety\<close> (\<^verbatim>\<open>barrier_proto.h\<close>, \<^verbatim>\<open>barrier_state.cc\<close>): no early release, a
    release when all have arrived, refinement of a set of arrivals.

  \<^bold>\<open>HCOP switch and DPU.\<close>
  \<^item> \<open>Primitive_Engine\<close>, \<open>Engine_Safety\<close> (\<^verbatim>\<open>primitive_engine.cc\<close>, \<^verbatim>\<open>switch_config.cc\<close>): configuration
    and processing of one packet; the engine implements its three state machines (locale
    \<open>engine_primitive\<close>) inside the packet's buffer.
  \<^item> \<open>Hcop_Switch\<close>, \<open>Switch_Safety\<close>, \<open>Switch_Ports\<close> (\<^verbatim>\<open>hcop_switch.h\<close>, \<^verbatim>\<open>device.cc\<close>): the event queue
    and the loop. A pass processes exactly the packets that are due and moves the clock to the least
    next time. The calls of \<^verbatim>\<open>TxPacket\<close> are the output of a pass; \<open>Switch_Ports\<close> performs them on the
    queues of the ports, where a pass ends when no synchronized port is full, and responses are
    queued at the ports of their destinations.
  \<^item> \<open>Dpu_Resources\<close>, \<open>Dpu_Device\<close>, \<open>Dpu_Safety\<close> (\<^verbatim>\<open>sims/nic/dpu_bm\<close>): core pool, DRAM store,
    configuration, device and handlers (locale \<open>primitive_handler\<close>). Cores are conserved, frames
    are well-formed, exhaustion escalates.
  \<^item> \<open>Dpu_Nic\<close>: the device under the runner; every processing event is delivered at its time.
  \<^item> \<open>Two_Tier\<close>: a packet from the switch to the DPU and the response on its way back.

  \<^bold>\<open>Channels and adapters.\<close>
  \<^item> \<open>Base_If\<close>, \<open>Base_Safety\<close> (\<^verbatim>\<open>base/proto.h\<close>, \<^verbatim>\<open>if.h\<close>, \<^verbatim>\<open>if.c\<close>): queues, memory pool, connection
    state machine. A queue is a FIFO channel in every interleaving, delivers no message from the
    past and makes progress; the handshake agrees and establishing never aborts.
  \<^item> \<open>Net_Port\<close>, \<open>Port_Safety\<close>, \<open>Chan_Link\<close> (\<^verbatim>\<open>network/if.c\<close>, \<^verbatim>\<open>nicif.c\<close>, \<^verbatim>\<open>net_port.cc\<close>): packets over
    a connection, and the two ends of a channel as other components use them.
  \<^item> \<open>Parser\<close> (\<^verbatim>\<open>parser.c\<close>): adapter URLs; parsing inverts printing and yields well-formed results
    that do not depend on the uncleared memory of their record where it is read.
  \<^item> \<open>Nicbm\<close>, \<open>Nicbm_Safety\<close> (\<^verbatim>\<open>nicbm.cc\<close>, \<^verbatim>\<open>nicbm.h\<close>, \<^verbatim>\<open>pcie/proto.h\<close>): the runner. The window of
    pending DMA operations, and the contract \<open>timely_device\<close>, under which time passes no event.
  \<^item> \<open>I40e_Sums\<close> (\<^verbatim>\<open>rss.cc\<close>, \<^verbatim>\<open>xsums.cc\<close>): the hash is the Toeplitz hash, checksums verify.

  \<^bold>\<open>Memory and network simulators.\<close>
  \<^item> \<open>Mem_Sims\<close>, \<open>Mem_Safety\<close> (\<^verbatim>\<open>basicmem.c\<close>, \<^verbatim>\<open>terminal.cc\<close>, \<^verbatim>\<open>mem/proto.h\<close>): the flat memory serves
    requests as an array of bytes, in order and once each.
  \<^item> \<open>Interconnect\<close>, \<open>Interconnect_Safety\<close> (\<^verbatim>\<open>interconnect.cc\<close>): requests are conserved and
    completed where they came from; an access through it is an access to the translated address.
  \<^item> \<open>Net_Mem\<close>, \<open>Net_Mem_Safety\<close> (\<^verbatim>\<open>memnic.c\<close>, \<^verbatim>\<open>netmem.c\<close>, \<^verbatim>\<open>netproto.h\<close>): an access over the network
    is an access to the memory of the server when nothing else is in flight and every hop has room;
    the ways in which requests get lost.
  \<^item> \<open>Net_Switch\<close>, \<open>Net_Switch_Safety\<close> (\<^verbatim>\<open>net_switch.cc\<close>, \<^verbatim>\<open>memswitch.cc\<close>, \<^verbatim>\<open>net_wire.c\<close>): the learning
    switch forwards to the port where an address was last seen, while its keys are intact.

  \<^bold>\<open>Distribution.\<close>
  \<^item> \<open>Dist_Proxy\<close>, \<open>Dist_Link\<close>, \<open>Dist_Safety\<close> (\<^verbatim>\<open>dist/common\<close>, \<^verbatim>\<open>dist/sockets\<close>): the proxies that connect
    simulators on different machines. A connection through two of them is a FIFO channel of the
    capacity of one queue, in every interleaving of their steps, and no check of theirs that ends
    the program fails, for queues whose batches fit the send buffer and whose offsets fit 32 bits.
    A step sends or processes one whole message; the introductions lie before the first step.

  \<^bold>\<open>Defects.\<close> Where the code does not do what it means to, a theorem of the component shows it on a
  concrete state: for instance \<open>learned_key_changes\<close> and \<open>unsynchronized_port_stalls\<close> (learning
  switch), \<open>oversized_queues_admitted\<close> (memory pool), \<open>response_counts_dpu_twice\<close> (DPU),
  \<open>basicmem_address_unchecked\<close>, \<open>netmem_request_lost\<close>, \<open>memnic_slot_leaks\<close> and
  \<open>posted_write_dropped\<close> (memory simulators), \<open>short_message_waits\<close> and
  \<open>small_queues_never_reported\<close> (proxies).

  \<^bold>\<open>Not modelled.\<close> The registers, queues, admin queue, memory cache and clock of the i40e NIC and
  its vendor headers; the e1000 NIC; the multi-NIC runner and the AXI adapters, which are thread
  and template wrappers around the runner and the interfaces modelled here; the macros of
  \<^verbatim>\<open>base/generic.h\<close>, whose instances are modelled at their uses; the packet generator, the TAP, Tofino
  and Menshen adapters and the guest programs, which talk to devices outside of the repository; the
  RDMA proxy; command lines and signal handlers of the switch, wire and runner
  executables unless named above; logging, packet dumps, statistics output and the JSON library.
  Weak memory ordering of the shared queues is not modelled: an operation on a queue is one step,
  and the ownership flag is written together with the contents that it publishes.
\<close>

end
